(* ===== verification/Py_Prelude.thy ===== *)
theory Py_Prelude
  imports Complex_Main "HOL-Library.AList" "HOL-Library.Sublist" "HOL-Library.Word"
begin

text \<open>
  The part of the Python language and of its standard library that the experiment scripts under
  \<^verbatim>\<open>scripts/\<close> use and that is free of effects:
  \<^item> exceptions, with the class hierarchy that decides which \<^verbatim>\<open>except\<close> clause catches what;
  \<^item> dictionaries, as association lists in insertion order (\<^const>\<open>AList.update\<close> replaces a
    value in place and appends a new key, as a Python \<^verbatim>\<open>dict\<close> does);
  \<^item> \<^verbatim>\<open>bytes\<close> as lists of 8-bit words, text as \<^typ>\<open>string\<close> (the UTF-8 bytes of the Python text);
  \<^item> JSON values as \<^verbatim>\<open>json.loads\<close> returns them;
  \<^item> \<^verbatim>\<open>int()\<close>, \<^verbatim>\<open>str.strip\<close>, \<^verbatim>\<open>str.split\<close>, \<^verbatim>\<open>str.startswith\<close>, \<^verbatim>\<open>bytes.decode\<close>,
    \<^verbatim>\<open>base64.b64decode\<close>.
  Floating-point numbers are exact rationals throughout the development: rounding is not modelled.
\<close>

section \<open>Collections of facts\<close>

named_theorems raises_simps \<open>evaluation of computations that may raise\<close>
named_theorems steady_intros \<open>computations that never turn the clock back nor rewrite the log\<close>
named_theorems total_intros \<open>computations that return or raise in every world\<close>

section \<open>Exceptions\<close>

datatype exn_kind =
    Exception | ValueError | UnicodeDecodeError | BinasciiError | JSONDecodeError
  | KeyError | IndexError | TypeError | AttributeError | ZeroDivisionError
  | AssertionError | StopIteration | RuntimeError
  | OSError | URLError | TimeoutError | ConnectionResetError | FileNotFoundError
  | HTTPException | IncompleteRead
  | CalledProcessError | TimeoutExpired | SystemExit

datatype exn = Exn (exn_class: exn_kind) (exn_str: string)

text \<open>The classes an exception is an instance of, most specific first.\<close>

fun exn_mro :: "exn_kind \<Rightarrow> exn_kind list" where
  "exn_mro UnicodeDecodeError = [UnicodeDecodeError, ValueError, Exception]"
| "exn_mro BinasciiError = [BinasciiError, ValueError, Exception]"
| "exn_mro JSONDecodeError = [JSONDecodeError, ValueError, Exception]"
| "exn_mro URLError = [URLError, OSError, Exception]"
| "exn_mro TimeoutError = [TimeoutError, OSError, Exception]"
| "exn_mro ConnectionResetError = [ConnectionResetError, OSError, Exception]"
| "exn_mro FileNotFoundError = [FileNotFoundError, OSError, Exception]"
| "exn_mro IncompleteRead = [IncompleteRead, HTTPException, Exception]"
| "exn_mro Exception = [Exception]"
| "exn_mro SystemExit = [SystemExit]"
| "exn_mro k = [k, Exception]"

definition caught_by :: "exn_kind list \<Rightarrow> exn \<Rightarrow> bool" where
  "caught_by ks e \<longleftrightarrow> (\<exists>k \<in> set (exn_mro (exn_class e)). k \<in> set ks)"

text \<open>Pure code that may raise returns \<open>exn + 'a\<close>; \<open>Inl\<close> is the raised exception.\<close>

type_synonym 'a result = "exn + 'a"

definition rbind :: "'a result \<Rightarrow> ('a \<Rightarrow> 'b result) \<Rightarrow> 'b result" where
  "rbind m f = (case m of Inl e \<Rightarrow> Inl e | Inr x \<Rightarrow> f x)"

fun rmap_list :: "('a \<Rightarrow> 'b result) \<Rightarrow> 'a list \<Rightarrow> 'b list result" where
  "rmap_list f [] = Inr []"
| "rmap_list f (x # xs) = rbind (f x) (\<lambda>y. rbind (rmap_list f xs) (\<lambda>ys. Inr (y # ys)))"

lemma rbind_Inl [simp, raises_simps]: "rbind (Inl e) f = Inl e"
  by (simp add: rbind_def)

lemma rbind_Inr [simp, raises_simps]: "rbind (Inr x) f = f x"
  by (simp add: rbind_def)

lemma rbind_eq_Inr: "rbind m f = Inr y \<longleftrightarrow> (\<exists>x. m = Inr x \<and> f x = Inr y)"
  by (cases m) auto

lemma rbind_eq_Inl: "rbind m f = Inl e \<longleftrightarrow> m = Inl e \<or> (\<exists>x. m = Inr x \<and> f x = Inl e)"
  by (cases m) auto

lemma rmap_list_length: "rmap_list f xs = Inr ys \<Longrightarrow> length ys = length xs"
  by (induction xs arbitrary: ys) (auto simp: rbind_eq_Inr)

lemma rmap_list_Inr: "(\<And>x. x \<in> set xs \<Longrightarrow> f x = Inr (g x)) \<Longrightarrow> rmap_list f xs = Inr (map g xs)"
  by (induction xs) auto

section \<open>Dictionaries\<close>

type_synonym ('k, 'v) dict = "('k \<times> 'v) list"

definition dict_keys :: "('k, 'v) dict \<Rightarrow> 'k list" where
  "dict_keys d = map fst d"

definition dict_values :: "('k, 'v) dict \<Rightarrow> 'v list" where
  "dict_values d = map snd d"

text \<open>\<open>d[k]\<close>; the exception carries the key, as Python's does.\<close>

definition dict_item :: "(string, 'v) dict \<Rightarrow> string \<Rightarrow> 'v result" where
  "dict_item d k = (case map_of d k of None \<Rightarrow> Inl (Exn KeyError k) | Some v \<Rightarrow> Inr v)"

text \<open>\<open>d.get(k, v)\<close>.\<close>

definition dict_get :: "('k, 'v) dict \<Rightarrow> 'k \<Rightarrow> 'v \<Rightarrow> 'v" where
  "dict_get d k v = (case map_of d k of None \<Rightarrow> v | Some v' \<Rightarrow> v')"

text \<open>\<open>d.setdefault(k, []).append(x)\<close>.\<close>

definition dict_append :: "'k \<Rightarrow> 'a \<Rightarrow> ('k, 'a list) dict \<Rightarrow> ('k, 'a list) dict" where
  "dict_append k x d = AList.update k (dict_get d k [] @ [x]) d"

text \<open>\<open>{key(x): val(x) for x in xs}\<close>.\<close>

definition dict_of :: "('a \<Rightarrow> 'k) \<Rightarrow> ('a \<Rightarrow> 'v) \<Rightarrow> 'a list \<Rightarrow> ('k, 'v) dict" where
  "dict_of key val xs = fold (\<lambda>x. AList.update (key x) (val x)) xs []"

lemma dict_append_map_of:
  "map_of (dict_append k x d) k' =
     (if k' = k then Some (dict_get d k [] @ [x]) else map_of d k')"
  by (simp add: dict_append_def update_conv')

lemma dict_get_append [simp]:
  "dict_get (dict_append k x d) k' [] = (if k' = k then dict_get d k [] @ [x] else dict_get d k' [])"
  by (simp add: dict_get_def dict_append_map_of)

lemma distinct_dict_append: "distinct (map fst d) \<Longrightarrow> distinct (map fst (dict_append k x d))"
  by (simp add: dict_append_def distinct_update)

lemma dict_item_eq_Inr: "dict_item d k = Inr v \<longleftrightarrow> map_of d k = Some v"
  by (simp add: dict_item_def split: option.splits)

lemma distinct_dict_of_acc:
  "distinct (map fst d) \<Longrightarrow> distinct (map fst (fold (\<lambda>x. AList.update (key x) (val x)) xs d))"
  by (induction xs arbitrary: d) (auto simp: distinct_update)

lemma distinct_dict_of: "distinct (map fst (dict_of key val xs))"
  by (simp add: dict_of_def distinct_dict_of_acc)

lemma map_of_dict_of_acc:
  "map_of (fold (\<lambda>x. AList.update (key x) (val x)) xs d) k =
     (case find (\<lambda>x. key x = k) (rev xs) of Some x \<Rightarrow> Some (val x) | None \<Rightarrow> map_of d k)"
proof (induction xs rule: rev_induct)
  case Nil
  then show ?case by simp
next
  case (snoc x xs)
  then show ?case by (simp add: update_conv' split: option.splits)
qed

lemma map_of_dict_of:
  "map_of (dict_of key val xs) k = map_option val (find (\<lambda>x. key x = k) (rev xs))"
  by (simp add: dict_of_def map_of_dict_of_acc split: option.splits)

lemma update_fresh: "k \<notin> fst ` set d \<Longrightarrow> AList.update k v d = d @ [(k, v)]"
  by (induction d) auto

lemma distinct_fold_update:
  "distinct (map fst d) \<Longrightarrow> distinct (map fst (fold (\<lambda>(n, h) d. AList.update h (f n h d) d) ps d))"
  by (induction ps arbitrary: d) (auto simp: distinct_update)

lemma dict_of_distinct:
  assumes "distinct (map key xs)"
  shows "dict_of key val xs = map (\<lambda>x. (key x, val x)) xs"
  using assms
proof (induction xs rule: rev_induct)
  case Nil
  then show ?case by (simp add: dict_of_def)
next
  case (snoc x xs)
  then have "dict_of key val xs = map (\<lambda>x. (key x, val x)) xs" "key x \<notin> key ` set xs"
    by auto
  then show ?case by (simp add: dict_of_def update_fresh image_image)
qed

section \<open>Lists\<close>

text \<open>\<open>min(xs, key=f)\<close> and \<open>max(xs, key=f)\<close> return the first extremal element and raise on
  an empty sequence.\<close>

fun first_min :: "('a \<Rightarrow> 'b::linorder) \<Rightarrow> 'a \<Rightarrow> 'a list \<Rightarrow> 'a" where
  "first_min f m [] = m"
| "first_min f m (x # xs) = first_min f (if f x < f m then x else m) xs"

fun first_max :: "('a \<Rightarrow> 'b::linorder) \<Rightarrow> 'a \<Rightarrow> 'a list \<Rightarrow> 'a" where
  "first_max f m [] = m"
| "first_max f m (x # xs) = first_max f (if f m < f x then x else m) xs"

fun py_min :: "('a \<Rightarrow> 'b::linorder) \<Rightarrow> 'a list \<Rightarrow> 'a result" where
  "py_min f [] = Inl (Exn ValueError ''min() arg is an empty sequence'')"
| "py_min f (x # xs) = Inr (first_min f x xs)"

fun py_max :: "('a \<Rightarrow> 'b::linorder) \<Rightarrow> 'a list \<Rightarrow> 'a result" where
  "py_max f [] = Inl (Exn ValueError ''max() arg is an empty sequence'')"
| "py_max f (x # xs) = Inr (first_max f x xs)"

lemma first_min_in: "first_min f m xs \<in> insert m (set xs)"
proof (induction xs arbitrary: m)
  case (Cons y ys)
  from Cons.IH [of "if f y < f m then y else m"] show ?case by (auto split: if_splits)
qed simp

lemma first_min_le: "x \<in> insert m (set xs) \<Longrightarrow> f (first_min f m xs) \<le> f x"
proof (induction xs arbitrary: m x)
  case Nil
  then show ?case by simp
next
  case (Cons y ys)
  let ?m = "if f y < f m then y else m"
  have m: "f (first_min f ?m ys) \<le> f ?m" by (rule Cons.IH) simp
  have mm: "f ?m \<le> f m" "f ?m \<le> f y" by auto
  show ?case
  proof (cases "x \<in> set ys")
    case True
    then show ?thesis using Cons.IH [of x ?m] by simp
  next
    case False
    with Cons.prems have "x = m \<or> x = y" by simp
    then show ?thesis using m mm by (auto intro: order_trans)
  qed
qed

lemma first_max_in: "first_max f m xs \<in> insert m (set xs)"
proof (induction xs arbitrary: m)
  case (Cons y ys)
  from Cons.IH [of "if f m < f y then y else m"] show ?case by (auto split: if_splits)
qed simp

lemma first_max_ge: "x \<in> insert m (set xs) \<Longrightarrow> f x \<le> f (first_max f m xs)"
proof (induction xs arbitrary: m x)
  case Nil
  then show ?case by simp
next
  case (Cons y ys)
  let ?m = "if f m < f y then y else m"
  have m: "f ?m \<le> f (first_max f ?m ys)" by (rule Cons.IH) simp
  have mm: "f m \<le> f ?m" "f y \<le> f ?m" by auto
  show ?case
  proof (cases "x \<in> set ys")
    case True
    then show ?thesis using Cons.IH [of x ?m] by simp
  next
    case False
    with Cons.prems have "x = m \<or> x = y" by simp
    then show ?thesis using m mm by (auto intro: order_trans)
  qed
qed

lemma py_min_Inr: "py_min f xs = Inr m \<Longrightarrow> m \<in> set xs \<and> (\<forall>x \<in> set xs. f m \<le> f x)"
proof (cases xs)
  case (Cons y ys)
  assume "py_min f xs = Inr m"
  with Cons show ?thesis using first_min_in [of f y ys] first_min_le [of _ y ys f] by auto
qed simp

lemma py_max_Inr: "py_max f xs = Inr m \<Longrightarrow> m \<in> set xs \<and> (\<forall>x \<in> set xs. f x \<le> f m)"
proof (cases xs)
  case (Cons y ys)
  assume "py_max f xs = Inr m"
  with Cons show ?thesis using first_max_in [of f y ys] first_max_ge [of _ y ys f] by auto
qed simp

end
