(* ===== verification/Py_Text.thy ===== *)
theory Py_Text
  imports Py_Prelude
begin

text \<open>
  Text and bytes as the scripts handle them: the decimal notation of \<^verbatim>\<open>int()\<close> and of
  formatted integers, \<^verbatim>\<open>str\<close> methods, the UTF-8 check of \<^verbatim>\<open>bytes.decode\<close>, the
  state machine of \<^verbatim>\<open>base64.b64decode\<close> (CPython's \<^verbatim>\<open>binascii.a2b_base64\<close> in its default,
  non-strict mode), and JSON values with the accesses the scripts make.
\<close>

section \<open>Characters and decimal numbers\<close>

type_synonym byte = "8 word"

definition code_of :: "char \<Rightarrow> nat" where
  "code_of c = of_char c"

definition is_digit :: "char \<Rightarrow> bool" where
  "is_digit c \<longleftrightarrow> 48 \<le> code_of c \<and> code_of c \<le> 57"

definition is_space :: "char \<Rightarrow> bool" where
  "is_space c \<longleftrightarrow> (9 \<le> code_of c \<and> code_of c \<le> 13) \<or> (28 \<le> code_of c \<and> code_of c \<le> 32)"

definition digit_char :: "nat \<Rightarrow> char" where
  "digit_char n = char_of (48 + n)"

definition lstrip_ws :: "string \<Rightarrow> string" where
  "lstrip_ws s = dropWhile is_space s"

definition rstrip_ws :: "string \<Rightarrow> string" where
  "rstrip_ws s = rev (dropWhile is_space (rev s))"

definition strip_ws :: "string \<Rightarrow> string" where
  "strip_ws s = rstrip_ws (lstrip_ws s)"

text \<open>\<open>s.rstrip(chars)\<close>: strips any of the characters, not a suffix.\<close>

definition rstrip_chars :: "string \<Rightarrow> string \<Rightarrow> string" where
  "rstrip_chars cs s = rev (dropWhile (\<lambda>c. c \<in> set cs) (rev s))"

fun dec_digits :: "nat \<Rightarrow> bool \<Rightarrow> string \<Rightarrow> nat option" where
  "dec_digits acc prev [] = (if prev then Some acc else None)"
| "dec_digits acc prev (c # cs) =
     (if is_digit c then dec_digits (10 * acc + (code_of c - 48)) True cs
      else if c = CHR ''_'' \<and> prev then dec_digits acc False cs
      else None)"

text \<open>\<open>int(s)\<close> for a string: white space around, an optional sign, decimal digits with single
  underscores between them.\<close>

definition py_int :: "string \<Rightarrow> int result" where
  "py_int s =
     (let t = strip_ws s; bad = Inl (Exn ValueError ''invalid literal for int() with base 10'') in
      case t of
        [] \<Rightarrow> bad
      | c # cs \<Rightarrow>
          (case dec_digits 0 False (if c = CHR ''-'' \<or> c = CHR ''+'' then cs else t) of
             None \<Rightarrow> bad
           | Some n \<Rightarrow> Inr (if c = CHR ''-'' then - int n else int n)))"

fun show_nat :: "nat \<Rightarrow> string" where
  "show_nat n = (if n < 10 then [digit_char n] else show_nat (n div 10) @ [digit_char (n mod 10)])"

declare show_nat.simps [simp del]

definition py_str_int :: "int \<Rightarrow> string" where
  "py_str_int i = (if i < 0 then CHR ''-'' # show_nat (nat (- i)) else show_nat (nat i))"

text \<open>\<^verbatim>\<open>f"{x:.kf}"\<close>: the exact value rounded half to even at \<open>k\<close> decimals; the sign is kept even when
  the digits are zero.\<close>

definition round_half_even :: "rat \<Rightarrow> int" where
  "round_half_even x =
     (let f = \<lfloor>x\<rfloor>; d = x - of_int f in
      if d < 1 / 2 then f else if d > 1 / 2 then f + 1 else if even f then f else f + 1)"

definition pad_left :: "nat \<Rightarrow> string \<Rightarrow> string" where
  "pad_left k s = replicate (k - length s) (CHR ''0'') @ s"

definition fmt_fixed :: "nat \<Rightarrow> rat \<Rightarrow> string" where
  "fmt_fixed k x =
     (let n = nat (round_half_even (\<bar>x\<bar> * 10 ^ k)); sign = (if x < 0 then ''-'' else []) in
      if k = 0 then sign @ show_nat n
      else sign @ show_nat (n div 10 ^ k) @ ''.'' @ pad_left k (show_nat (n mod 10 ^ k)))"

definition py_bool :: "bool \<Rightarrow> string" where
  "py_bool b = (if b then ''True'' else ''False'')"

text \<open>A newline character, for text files.\<close>

definition NL :: string where "NL = [char_of (10 :: nat)]"

section \<open>String methods\<close>

definition startswith :: "string \<Rightarrow> string \<Rightarrow> bool" where
  "startswith s p \<longleftrightarrow> prefix p s"

definition endswith :: "string \<Rightarrow> string \<Rightarrow> bool" where
  "endswith s p \<longleftrightarrow> suffix p s"

text \<open>\<open>sep.join(parts)\<close>.\<close>

fun py_join :: "string \<Rightarrow> string list \<Rightarrow> string" where
  "py_join sep [] = []"
| "py_join sep [x] = x"
| "py_join sep (x # y # xs) = x @ sep @ py_join sep (y # xs)"

text \<open>\<open>s.split(c)\<close> for a one-character separator.\<close>

fun split_char :: "char \<Rightarrow> string \<Rightarrow> string list" where
  "split_char c [] = [[]]"
| "split_char c (x # xs) =
     (if x = c then [] # split_char c xs
      else (case split_char c xs of [] \<Rightarrow> [[x]] | y # ys \<Rightarrow> (x # y) # ys))"

text \<open>\<open>s.split()\<close>: the maximal runs of non-white-space characters.\<close>

fun split_ws_aux :: "string \<Rightarrow> string \<Rightarrow> string list" where
  "split_ws_aux cur [] = (if cur = [] then [] else [cur])"
| "split_ws_aux cur (x # xs) =
     (if is_space x then (if cur = [] then split_ws_aux [] xs else cur # split_ws_aux [] xs)
      else split_ws_aux (cur @ [x]) xs)"

definition split_ws :: "string \<Rightarrow> string list" where
  "split_ws s = split_ws_aux [] s"

text \<open>\<open>t in s\<close> and \<open>s.count(t)\<close> for strings.\<close>

definition contains :: "string \<Rightarrow> string \<Rightarrow> bool" where
  "contains s t \<longleftrightarrow> sublist t s"

section \<open>UTF-8\<close>

definition utf8_tail :: "byte \<Rightarrow> bool" where
  "utf8_tail b \<longleftrightarrow> 0x80 \<le> unat b \<and> unat b \<le> 0xBF"

fun utf8_valid :: "byte list \<Rightarrow> bool" where
  "utf8_valid [] = True"
| "utf8_valid (b # bs) =
     (let n = unat b in
      if n < 0x80 then utf8_valid bs
      else if 0xC2 \<le> n \<and> n \<le> 0xDF then
        (case bs of c # cs \<Rightarrow> utf8_tail c \<and> utf8_valid cs | _ \<Rightarrow> False)
      else if 0xE0 \<le> n \<and> n \<le> 0xEF then
        (case bs of c # d # ds \<Rightarrow>
           utf8_tail c \<and> utf8_tail d \<and> (n = 0xE0 \<longrightarrow> 0xA0 \<le> unat c) \<and> (n = 0xED \<longrightarrow> unat c \<le> 0x9F)
           \<and> utf8_valid ds | _ \<Rightarrow> False)
      else if 0xF0 \<le> n \<and> n \<le> 0xF4 then
        (case bs of c # d # e # es \<Rightarrow>
           utf8_tail c \<and> utf8_tail d \<and> utf8_tail e \<and> (n = 0xF0 \<longrightarrow> 0x90 \<le> unat c)
           \<and> (n = 0xF4 \<longrightarrow> unat c \<le> 0x8F) \<and> utf8_valid es | _ \<Rightarrow> False)
      else False)"

definition chars_of :: "byte list \<Rightarrow> string" where
  "chars_of bs = map (\<lambda>b. char_of (unat b)) bs"

definition bytes_of :: "string \<Rightarrow> byte list" where
  "bytes_of s = map (\<lambda>c. word_of_nat (of_char c)) s"

text \<open>\<open>payload.decode("utf-8")\<close>.\<close>

definition utf8_decode :: "byte list \<Rightarrow> string result" where
  "utf8_decode bs =
     (if utf8_valid bs then Inr (chars_of bs)
      else Inl (Exn UnicodeDecodeError ''invalid utf-8''))"

section \<open>Base64\<close>

definition b64_value :: "char \<Rightarrow> nat option" where
  "b64_value c =
     (let n = code_of c in
      if 65 \<le> n \<and> n \<le> 90 then Some (n - 65)
      else if 97 \<le> n \<and> n \<le> 122 then Some (n - 71)
      else if 48 \<le> n \<and> n \<le> 57 then Some (n + 4)
      else if n = 43 then Some 62
      else if n = 47 then Some 63
      else None)"

text \<open>The decoder's state: position in the quad, left-over bits, pads seen, output. A complete
  pad sequence ends the scan; other characters outside the alphabet are skipped.\<close>

fun a2b_base64 :: "nat \<Rightarrow> nat \<Rightarrow> nat \<Rightarrow> byte list \<Rightarrow> string \<Rightarrow> byte list result" where
  "a2b_base64 q left pads out [] =
     (if q = 0 then Inr out
      else if q = 1 then Inl (Exn BinasciiError ''Invalid base64-encoded string'')
      else Inl (Exn BinasciiError ''Incorrect padding''))"
| "a2b_base64 q left pads out (c # cs) =
     (if c = CHR ''='' then
        (if 2 \<le> q then (if 4 \<le> q + Suc pads then Inr out else a2b_base64 q left (Suc pads) out cs)
         else a2b_base64 q left pads out cs)
      else (case b64_value c of
          None \<Rightarrow> a2b_base64 q left pads out cs
        | Some v \<Rightarrow>
            (if q = 0 then a2b_base64 1 v 0 out cs
             else if q = 1 then
               a2b_base64 2 (v mod 16) 0 (out @ [word_of_nat (left * 4 + v div 16)]) cs
             else if q = 2 then
               a2b_base64 3 (v mod 4) 0 (out @ [word_of_nat (left * 16 + v div 4)]) cs
             else a2b_base64 0 0 0 (out @ [word_of_nat (left * 64 + v)]) cs)))"

definition b64decode :: "string \<Rightarrow> byte list result" where
  "b64decode s =
     (if \<exists>c \<in> set s. 128 \<le> code_of c
      then Inl (Exn ValueError ''string argument should contain only ASCII characters'')
      else a2b_base64 0 0 0 [] s)"

text \<open>The standard encoding, the specification the decoder is checked against.\<close>

definition b64_char :: "nat \<Rightarrow> char" where
  "b64_char n =
     char_of (if n < 26 then n + 65 else if n < 52 then n + 71 else if n < 62 then n - 4
              else if n = 62 then 43 else 47)"

fun b64encode :: "byte list \<Rightarrow> string" where
  "b64encode [] = []"
| "b64encode [a] = [b64_char (unat a div 4), b64_char (unat a mod 4 * 16), CHR ''='', CHR ''='']"
| "b64encode [a, b] =
     [b64_char (unat a div 4), b64_char (unat a mod 4 * 16 + unat b div 16),
      b64_char (unat b mod 16 * 4), CHR ''='']"
| "b64encode (a # b # c # bs) =
     b64_char (unat a div 4) # b64_char (unat a mod 4 * 16 + unat b div 16)
     # b64_char (unat b mod 16 * 4 + unat c div 64) # b64_char (unat c mod 64) # b64encode bs"

section \<open>JSON values\<close>

datatype json =
    JNull | JBool bool | JInt int | JFloat rat | JStr string
  | JArr "json list" | JObj "(string \<times> json) list"

text \<open>\<open>bool(x)\<close>.\<close>

fun json_truthy :: "json \<Rightarrow> bool" where
  "json_truthy JNull = False"
| "json_truthy (JBool b) = b"
| "json_truthy (JInt i) = (i \<noteq> 0)"
| "json_truthy (JFloat f) = (f \<noteq> 0)"
| "json_truthy (JStr s) = (s \<noteq> [])"
| "json_truthy (JArr xs) = (xs \<noteq> [])"
| "json_truthy (JObj d) = (d \<noteq> [])"

text \<open>\<open>x[k]\<close> for a string key.\<close>

fun json_item :: "json \<Rightarrow> string \<Rightarrow> json result" where
  "json_item (JObj d) k = dict_item d k"
| "json_item j k = Inl (Exn TypeError ''not a mapping'')"

text \<open>\<open>x.get(k, v)\<close>: only a dictionary has the method.\<close>

fun json_get :: "json \<Rightarrow> string \<Rightarrow> json \<Rightarrow> json result" where
  "json_get (JObj d) k v = Inr (dict_get d k v)"
| "json_get j k v = Inl (Exn AttributeError ''get'')"

text \<open>\<open>int(x)\<close>.\<close>

fun json_int :: "json \<Rightarrow> int result" where
  "json_int (JInt i) = Inr i"
| "json_int (JBool b) = Inr (if b then 1 else 0)"
| "json_int (JFloat f) = Inr (if f < 0 then - \<lfloor>- f\<rfloor> else \<lfloor>f\<rfloor>)"
| "json_int (JStr s) = py_int s"
| "json_int j = Inl (Exn TypeError ''int() argument'')"

text \<open>\<open>x == 0\<close>.\<close>

fun json_is_zero :: "json \<Rightarrow> bool" where
  "json_is_zero (JInt i) = (i = 0)"
| "json_is_zero (JFloat f) = (f = 0)"
| "json_is_zero (JBool b) = (\<not> b)"
| "json_is_zero j = False"

text \<open>Iteration over a list value; a dictionary would yield its keys.\<close>

fun json_list :: "json \<Rightarrow> json list result" where
  "json_list (JArr xs) = Inr xs"
| "json_list (JObj d) = Inr (map (JStr \<circ> fst) d)"
| "json_list (JStr s) = Inr (map (\<lambda>c. JStr [c]) s)"
| "json_list j = Inl (Exn TypeError ''object is not iterable'')"

section \<open>Decimal notation: facts\<close>

lemma code_digit_char [simp]: "d < 10 \<Longrightarrow> code_of (digit_char d) = 48 + d"
  by (simp add: code_of_def digit_char_def)

lemma is_digit_digit_char [simp]: "d < 10 \<Longrightarrow> is_digit (digit_char d)"
  by (simp add: is_digit_def)

lemma dec_digits_append:
  "\<forall>c \<in> set xs. is_digit c \<Longrightarrow>
   dec_digits acc prev (xs @ ys) =
     dec_digits (foldl (\<lambda>a c. 10 * a + (code_of c - 48)) acc xs) (prev \<or> xs \<noteq> []) ys"
  by (induction xs arbitrary: acc prev) auto

lemma show_nat_digits: "\<forall>c \<in> set (show_nat n). is_digit c"
proof (induction n rule: show_nat.induct)
  case (1 n)
  then show ?case by (subst show_nat.simps) auto
qed

lemma show_nat_nonempty [simp]: "show_nat n \<noteq> []"
  by (subst show_nat.simps) simp

lemma show_nat_value: "foldl (\<lambda>a c. 10 * a + (code_of c - 48)) 0 (show_nat n) = n"
proof (induction n rule: show_nat.induct)
  case (1 n)
  then show ?case by (subst show_nat.simps) auto
qed

lemma dec_digits_show_nat: "dec_digits 0 False (show_nat n) = Some n"
  using dec_digits_append [OF show_nat_digits, of 0 False n "[]"] by (simp add: show_nat_value)

lemma digit_not_space: "is_digit c \<Longrightarrow> \<not> is_space c"
  by (auto simp: is_digit_def is_space_def)

lemma strip_ws_id:
  assumes "s \<noteq> []" "\<not> is_space (hd s)" "\<not> is_space (last s)"
  shows "strip_ws s = s"
proof -
  have l: "lstrip_ws s = s"
    using assms by (cases s) (auto simp: lstrip_ws_def)
  have "dropWhile is_space (rev s) = rev s"
    using assms by (cases s rule: rev_cases) auto
  then show ?thesis by (simp add: strip_ws_def l rstrip_ws_def)
qed

lemma show_nat_strip [simp]: "strip_ws (show_nat n) = show_nat n"
proof (rule strip_ws_id)
  show "\<not> is_space (hd (show_nat n))" "\<not> is_space (last (show_nat n))"
    using show_nat_digits [of n] digit_not_space by (auto simp: list.set_sel last_in_set)
qed simp

lemma py_int_show_nat: "py_int (show_nat n) = Inr (int n)"
proof -
  obtain c cs where s: "show_nat n = c # cs" by (cases "show_nat n") auto
  have "is_digit c" using show_nat_digits [of n] s by simp
  then have "c \<noteq> CHR ''-''" "c \<noteq> CHR ''+''" by (auto simp: is_digit_def code_of_def)
  then show ?thesis
    using dec_digits_show_nat [of n] show_nat_strip [of n] s by (simp add: py_int_def)
qed

lemma minus_show_nat_strip [simp]: "strip_ws (CHR ''-'' # show_nat n) = CHR ''-'' # show_nat n"
proof (rule strip_ws_id)
  show "\<not> is_space (last (CHR ''-'' # show_nat n))"
    using show_nat_digits [of n] digit_not_space by (auto simp: last_in_set)
qed (auto simp: is_space_def code_of_def)

theorem py_int_of_str: "py_int (py_str_int i) = Inr i"
proof (cases "i < 0")
  case True
  then show ?thesis by (simp add: py_str_int_def py_int_def dec_digits_show_nat)
next
  case False
  then show ?thesis by (simp add: py_str_int_def py_int_show_nat)
qed

section \<open>Base64: the decoder inverts the standard encoding\<close>

lemma code_b64_char:
  "n < 64 \<Longrightarrow> code_of (b64_char n) =
     (if n < 26 then n + 65 else if n < 52 then n + 71 else if n < 62 then n - 4
      else if n = 62 then 43 else 47)"
  by (simp add: b64_char_def code_of_def)

lemma b64_value_char [simp]: "n < 64 \<Longrightarrow> b64_value (b64_char n) = Some n"
  by (auto simp: b64_value_def code_b64_char Let_def)

lemma b64_char_not_pad [simp]: "n < 64 \<Longrightarrow> b64_char n \<noteq> CHR ''=''"
  using code_b64_char [of n] by (auto simp: code_of_def split: if_splits)

lemma b64_char_ascii: "n < 64 \<Longrightarrow> code_of (b64_char n) < 128"
  by (auto simp: code_b64_char)

lemma byte_of_unat: "word_of_nat (unat (b :: byte)) = b"
  by simp

lemma unat_byte: "unat (b :: byte) < 256"
  using unsigned_less [of b] by simp

lemma a2b_quad:
  assumes "x1 < 64" "x2 < 64" "x3 < 64" "x4 < 64"
  shows "a2b_base64 0 0 0 out (b64_char x1 # b64_char x2 # b64_char x3 # b64_char x4 # cs) =
    a2b_base64 0 0 0 (out @ [word_of_nat (x1 * 4 + x2 div 16),
      word_of_nat (x2 mod 16 * 16 + x3 div 4), word_of_nat (x3 mod 4 * 64 + x4)]) cs"
  using assms by simp

text \<open>Splitting bytes into sextets and joining them again.\<close>

lemma sextets:
  fixes a b c :: nat
  assumes "a < 256" "b < 256" "c < 256"
  shows "a div 4 < 64" and "a mod 4 * 16 < 64" and "a mod 4 * 16 + b div 16 < 64"
    and "b mod 16 * 4 < 64" and "b mod 16 * 4 + c div 64 < 64" and "c mod 64 < 64"
proof -
  have "a div 4 < 64" "b div 16 < 16" "c div 64 < 4" using assms by auto
  moreover have "a mod 4 < 4" "b mod 16 < 16" "c mod 64 < 64" by auto
  ultimately show "a div 4 < 64" "a mod 4 * 16 < 64" "a mod 4 * 16 + b div 16 < 64"
    "b mod 16 * 4 < 64" "b mod 16 * 4 + c div 64 < 64" "c mod 64 < 64"
    by linarith+
qed

lemma sextets_join:
  fixes a b c :: nat
  assumes "a < 256" "b < 256" "c < 256"
  shows "a div 4 * 4 + (a mod 4 * 16 + b div 16) div 16 = a"
    and "(a mod 4 * 16 + b div 16) mod 16 * 16 + (b mod 16 * 4 + c div 64) div 4 = b"
    and "(b mod 16 * 4 + c div 64) mod 4 * 64 + c mod 64 = c"
proof -
  have "b div 16 < 16" "c div 64 < 4" using assms by auto
  then have "(a mod 4 * 16 + b div 16) div 16 = a mod 4" "(a mod 4 * 16 + b div 16) mod 16 = b div 16"
    "(b mod 16 * 4 + c div 64) div 4 = b mod 16" "(b mod 16 * 4 + c div 64) mod 4 = c div 64"
    by simp_all
  then show "a div 4 * 4 + (a mod 4 * 16 + b div 16) div 16 = a"
    "(a mod 4 * 16 + b div 16) mod 16 * 16 + (b mod 16 * 4 + c div 64) div 4 = b"
    "(b mod 16 * 4 + c div 64) mod 4 * 64 + c mod 64 = c"
    by simp_all
qed

lemmas byte_sextets = sextets [OF unat_byte unat_byte unat_byte]
lemmas byte_sextets_join = sextets_join [OF unat_byte unat_byte unat_byte]

lemma a2b_b64encode: "a2b_base64 0 0 0 out (b64encode bs) = Inr (out @ bs)"
proof (induction bs arbitrary: out rule: b64encode.induct)
  case 1
  then show ?case by simp
next
  case (2 a)
  have "word_of_nat (unat a div 4 * 4 + unat a mod 4) = a"
    by (simp only: div_mult_mod_eq byte_of_unat)
  then show ?case by (simp add: byte_sextets del: of_nat_add of_nat_mult of_nat_numeral)
next
  case (3 a b)
  have "word_of_nat (unat a div 4 * 4 + (unat a mod 4 * 16 + unat b div 16) div 16) = a"
    by (simp only: byte_sextets_join byte_of_unat)
  moreover have "(unat a mod 4 * 16 + unat b div 16) mod 16 = unat b div 16"
    using unat_byte [of b] by simp
  then have "word_of_nat ((unat a mod 4 * 16 + unat b div 16) mod 16 * 16 + unat b mod 16 * 4 div 4) = b"
    by (simp only: div_mult_mod_eq byte_of_unat nonzero_mult_div_cancel_right zero_neq_numeral simp_thms)
  ultimately show ?case
    by (simp add: byte_sextets del: of_nat_add of_nat_mult of_nat_numeral)
next
  case (4 a b c bs)
  then show ?case
    by (simp only: b64encode.simps a2b_quad [OF byte_sextets(1,3,5,6)] byte_sextets_join
        byte_of_unat append_assoc append_Cons append_Nil)
qed

lemma b64encode_ascii: "c \<in> set (b64encode bs) \<Longrightarrow> code_of c < 128"
  by (induction bs rule: b64encode.induct) (auto simp: code_of_def [of "CHR ''=''"] intro!: b64_char_ascii intro: byte_sextets)

theorem b64decode_b64encode: "b64decode (b64encode bs) = Inr bs"
proof -
  have "\<not> (\<exists>c \<in> set (b64encode bs). 128 \<le> code_of c)"
    using b64encode_ascii by (meson not_le)
  then show ?thesis by (simp add: b64decode_def a2b_b64encode)
qed

section \<open>ASCII text survives UTF-8 decoding\<close>

lemma utf8_valid_ascii: "\<forall>b \<in> set bs. unat b < 0x80 \<Longrightarrow> utf8_valid bs"
  by (induction bs) (auto simp: Let_def)

lemma chars_of_bytes_of [simp]: "chars_of (bytes_of s) = s"
proof -
  have "char_of (unat (word_of_nat (of_char c) :: byte)) = c" for c
    by (simp add: unat_of_nat)
  then show ?thesis by (simp add: chars_of_def bytes_of_def comp_def)
qed

end
