(* ===== verification/Py_World.thy ===== *)
theory Py_World
  imports Py_Text
begin

text \<open>
  The effects of the scripts. A computation takes the world (wall clock, log of the effects so
  far, files) and returns the new world with a value or a raised exception; \<^const>\<open>None\<close> means
  that it does not return. What the scripts talk to (the nodes' HTTP servers, the processes they
  spawn, the scheduler that decides how long a call takes) is code outside the repository: it is
  the parameter \<open>env\<close>, whose answers may depend on everything that happened before; it also
  holds the process's environment variables, the text \<^verbatim>\<open>repr\<close> gives for a float and what
  \<^verbatim>\<open>time.strftime\<close> gives for a format and an instant (it depends on the time zone). Standard output is not modelled, a file is
  written as a whole when it is closed, and \<^verbatim>\<open>os.makedirs\<close> has no counterpart (directories exist).

  For each computation the library offers its weakest precondition \<open>wp\<close> (partial correctness),
  the events it may log (\<open>emits\<close>) and that it returns or raises (\<open>total\<close>); each has one rule per
  construct of the language, so that the theories of the scripts reason by these rules.
\<close>

section \<open>The world and the environment\<close>

record proc =
  returncode :: int
  out_text :: string
  err_text :: string

datatype event =
    RpcGet int string "json result"
  | RunProc "string list" "(string \<times> string) list" "proc result"
  | Slept rat
  | Wrote string string

record world =
  clock :: rat
  log :: "event list"
  fs :: "string \<Rightarrow> string option"

record env =
  http :: "world \<Rightarrow> int \<Rightarrow> string \<Rightarrow> json result"
  spawn :: "world \<Rightarrow> string list \<Rightarrow> (string \<times> string) list \<Rightarrow> proc result"
  lag :: "world \<Rightarrow> nat"
  environ :: "string \<Rightarrow> string option"
  repr_float :: "rat \<Rightarrow> string"
  strftime :: "string \<Rightarrow> rat \<Rightarrow> string"

type_synonym 'a py = "world \<Rightarrow> ('a result \<times> world) option"

text \<open>An effect is logged and takes the nanoseconds the environment says, on top of the time it
  must take (the argument of \<^verbatim>\<open>time.sleep\<close>).\<close>

definition emit :: "env \<Rightarrow> event \<Rightarrow> rat \<Rightarrow> world \<Rightarrow> world" where
  "emit E ev d w = w\<lparr>clock := clock w + d + of_nat (lag E w) / 1000000000, log := log w @ [ev]\<rparr>"

section \<open>The constructs of the language\<close>

definition py_return :: "'a \<Rightarrow> 'a py" where
  "py_return x w = Some (Inr x, w)"

definition py_raise :: "exn \<Rightarrow> 'a py" where
  "py_raise e w = Some (Inl e, w)"

definition py_lift :: "'a result \<Rightarrow> 'a py" where
  "py_lift r w = Some (r, w)"

definition py_bind :: "'a py \<Rightarrow> ('a \<Rightarrow> 'b py) \<Rightarrow> 'b py" where
  "py_bind m f w =
     (case m w of None \<Rightarrow> None
      | Some (r, w') \<Rightarrow> (case r of Inl e \<Rightarrow> Some (Inl e, w') | Inr x \<Rightarrow> f x w'))"

definition py_then :: "'a py \<Rightarrow> 'b py \<Rightarrow> 'b py" where
  "py_then m n = py_bind m (\<lambda>_. n)"

text \<open>\<^verbatim>\<open>try: m except ks as e: h(e)\<close>\<close>

definition py_try :: "'a py \<Rightarrow> exn_kind list \<Rightarrow> (exn \<Rightarrow> 'a py) \<Rightarrow> 'a py" where
  "py_try m ks h w =
     (case m w of None \<Rightarrow> None
      | Some (r, w') \<Rightarrow>
          (case r of Inl e \<Rightarrow> if caught_by ks e then h e w' else Some (Inl e, w')
           | Inr x \<Rightarrow> Some (Inr x, w')))"

text \<open>\<^verbatim>\<open>try: m finally: c\<close>; an exception of \<open>c\<close> replaces the outcome of \<open>m\<close>.\<close>

definition py_finally :: "'a py \<Rightarrow> unit py \<Rightarrow> 'a py" where
  "py_finally m c w =
     (case m w of None \<Rightarrow> None
      | Some (r, w') \<Rightarrow>
          (case c w' of None \<Rightarrow> None
           | Some (r', w'') \<Rightarrow> (case r' of Inl e \<Rightarrow> Some (Inl e, w'') | Inr u \<Rightarrow> Some (r, w''))))"

primrec py_each :: "('a \<Rightarrow> unit py) \<Rightarrow> 'a list \<Rightarrow> unit py" where
  "py_each f [] = py_return ()"
| "py_each f (x # xs) = py_then (f x) (py_each f xs)"

primrec py_map :: "('a \<Rightarrow> 'b py) \<Rightarrow> 'a list \<Rightarrow> 'b list py" where
  "py_map f [] = py_return []"
| "py_map f (x # xs) = py_bind (f x) (\<lambda>y. py_bind (py_map f xs) (\<lambda>ys. py_return (y # ys)))"

primrec py_fold :: "('s \<Rightarrow> 'a \<Rightarrow> 's py) \<Rightarrow> 's \<Rightarrow> 'a list \<Rightarrow> 's py" where
  "py_fold f s [] = py_return s"
| "py_fold f s (x # xs) = py_bind (f s x) (\<lambda>s'. py_fold f s' xs)"

text \<open>\<^verbatim>\<open>all(p(x) for x in xs)\<close> with an effectful \<open>p\<close>: stops at the first failure.\<close>

primrec py_all :: "('a \<Rightarrow> bool py) \<Rightarrow> 'a list \<Rightarrow> bool py" where
  "py_all p [] = py_return True"
| "py_all p (x # xs) = py_bind (p x) (\<lambda>b. if b then py_all p xs else py_return False)"

text \<open>A \<^verbatim>\<open>while\<close> loop over the state of the local variables; the body continues with a new state or
  leaves the loop (\<^verbatim>\<open>break\<close> or \<^verbatim>\<open>return\<close>).\<close>

datatype ('s, 'r) ctl = Continue 's | Leave 'r

partial_function (option) py_while ::
  "('s \<Rightarrow> world \<Rightarrow> bool) \<Rightarrow> ('s \<Rightarrow> world \<Rightarrow> (('s, 'r) ctl result \<times> world) option)
   \<Rightarrow> 's \<Rightarrow> world \<Rightarrow> (('s, 'r) ctl result \<times> world) option" where
  "py_while c b s w =
     (if c s w then
        (case b s w of None \<Rightarrow> None
         | Some (r, w') \<Rightarrow>
             (case r of Inl e \<Rightarrow> Some (Inl e, w')
              | Inr k \<Rightarrow> (case k of Leave x \<Rightarrow> Some (Inr (Leave x), w')
                         | Continue s' \<Rightarrow> py_while c b s' w')))
      else Some (Inr (Continue s), w))"

section \<open>The standard library's effects\<close>

definition time_time :: "rat py" where
  "time_time w = Some (Inr (clock w), w)"

definition time_sleep :: "env \<Rightarrow> rat \<Rightarrow> unit py" where
  "time_sleep E s w =
     (if s < 0 then Some (Inl (Exn ValueError ''sleep length must be non-negative''), w)
      else Some (Inr (), emit E (Slept s) s w))"

text \<open>\<^verbatim>\<open>json.loads(urllib.request.urlopen(...).read())\<close> on a local port.\<close>

definition http_get :: "env \<Rightarrow> int \<Rightarrow> string \<Rightarrow> json py" where
  "http_get E port path w =
     (let r = http E w port path in Some (r, emit E (RpcGet port path r) 0 w))"

text \<open>\<^verbatim>\<open>subprocess.run(argv, check=...)\<close> with additional environment variables.\<close>

definition run_env :: "env \<Rightarrow> string list \<Rightarrow> (string \<times> string) list \<Rightarrow> bool \<Rightarrow> proc py" where
  "run_env E argv vars check w =
     (let r = spawn E w argv vars; w' = emit E (RunProc argv vars r) 0 w in
      Some (case r of Inl e \<Rightarrow> Inl e
            | Inr p \<Rightarrow> if check \<and> returncode p \<noteq> 0 then Inl (Exn CalledProcessError ''non-zero exit'')
                       else Inr p, w'))"

definition run_proc :: "env \<Rightarrow> string list \<Rightarrow> bool \<Rightarrow> proc py" where
  "run_proc E argv check = run_env E argv [] check"

definition write_file :: "env \<Rightarrow> string \<Rightarrow> string \<Rightarrow> unit py" where
  "write_file E path txt w =
     Some (Inr (), (emit E (Wrote path txt) 0 w)\<lparr>fs := (fs w)(path \<mapsto> txt)\<rparr>)"

definition read_file :: "string \<Rightarrow> string py" where
  "read_file path w =
     Some (case fs w path of None \<Rightarrow> Inl (Exn FileNotFoundError path) | Some t \<Rightarrow> Inr t, w)"

definition time_strftime :: "env \<Rightarrow> string \<Rightarrow> string py" where
  "time_strftime E fmt w = Some (Inr (strftime E fmt (clock w)), w)"

definition ts_label :: "env \<Rightarrow> string py" where
  "ts_label E = time_strftime E ''%Y%m%dT%H%M%S''"

section \<open>Weakest preconditions\<close>

definition wp :: "'a py \<Rightarrow> ('a \<Rightarrow> world \<Rightarrow> bool) \<Rightarrow> (exn \<Rightarrow> world \<Rightarrow> bool) \<Rightarrow> world \<Rightarrow> bool" where
  "wp m Q R w =
     (case m w of None \<Rightarrow> True
      | Some (r, w') \<Rightarrow> (case r of Inl e \<Rightarrow> R e w' | Inr x \<Rightarrow> Q x w'))"

named_theorems wp_simps \<open>weakest preconditions of the constructs\<close>

lemma wp_return [wp_simps]: "wp (py_return x) Q R w = Q x w"
  by (simp add: wp_def py_return_def)

lemma wp_raise [wp_simps]: "wp (py_raise e) Q R w = R e w"
  by (simp add: wp_def py_raise_def)

lemma wp_lift [wp_simps]: "wp (py_lift r) Q R w = (case r of Inl e \<Rightarrow> R e w | Inr x \<Rightarrow> Q x w)"
  by (simp add: wp_def py_lift_def)

lemma wp_bind [wp_simps]: "wp (py_bind m f) Q R w = wp m (\<lambda>x. wp (f x) Q R) R w"
  by (simp add: wp_def py_bind_def split: option.splits sum.splits prod.splits)

lemma wp_then [wp_simps]: "wp (py_then m n) Q R w = wp m (\<lambda>_. wp n Q R) R w"
  by (simp add: py_then_def wp_bind)

lemma wp_try [wp_simps]:
  "wp (py_try m ks h) Q R w = wp m Q (\<lambda>e. if caught_by ks e then wp (h e) Q R else R e) w"
  by (simp add: wp_def py_try_def split: option.splits sum.splits prod.splits)

lemma wp_finally [wp_simps]:
  "wp (py_finally m c) Q R w =
     wp m (\<lambda>x. wp c (\<lambda>_. Q x) R) (\<lambda>e. wp c (\<lambda>_. R e) R) w"
  by (simp add: wp_def py_finally_def split: option.splits sum.splits prod.splits)

lemma wp_time [wp_simps]: "wp time_time Q R w = Q (clock w) w"
  by (simp add: wp_def time_time_def)

lemma wp_sleep [wp_simps]:
  "wp (time_sleep E s) Q R w =
     (if s < 0 then R (Exn ValueError ''sleep length must be non-negative'') w
      else Q () (emit E (Slept s) s w))"
  by (simp add: wp_def time_sleep_def)

lemma wp_http [wp_simps]:
  "wp (http_get E port path) Q R w =
     (case http E w port path of
        Inl e \<Rightarrow> R e (emit E (RpcGet port path (Inl e)) 0 w)
      | Inr j \<Rightarrow> Q j (emit E (RpcGet port path (Inr j)) 0 w))"
  by (simp add: wp_def http_get_def Let_def split: sum.splits)

lemma wp_run_env [wp_simps]:
  "wp (run_env E argv vars check) Q R w =
     (case spawn E w argv vars of
        Inl e \<Rightarrow> R e (emit E (RunProc argv vars (Inl e)) 0 w)
      | Inr p \<Rightarrow> if check \<and> returncode p \<noteq> 0
          then R (Exn CalledProcessError ''non-zero exit'') (emit E (RunProc argv vars (Inr p)) 0 w)
          else Q p (emit E (RunProc argv vars (Inr p)) 0 w))"
  by (auto simp: wp_def run_env_def Let_def split: sum.splits)

lemma wp_run_proc [wp_simps]:
  "wp (run_proc E argv check) Q R w =
     (case spawn E w argv [] of
        Inl e \<Rightarrow> R e (emit E (RunProc argv [] (Inl e)) 0 w)
      | Inr p \<Rightarrow> if check \<and> returncode p \<noteq> 0
          then R (Exn CalledProcessError ''non-zero exit'') (emit E (RunProc argv [] (Inr p)) 0 w)
          else Q p (emit E (RunProc argv [] (Inr p)) 0 w))"
  by (simp add: run_proc_def wp_run_env)

lemma wp_write [wp_simps]:
  "wp (write_file E path txt) Q R w =
     Q () ((emit E (Wrote path txt) 0 w)\<lparr>fs := (fs w)(path \<mapsto> txt)\<rparr>)"
  by (simp add: wp_def write_file_def)

lemma wp_read [wp_simps]:
  "wp (read_file path) Q R w =
     (case fs w path of None \<Rightarrow> R (Exn FileNotFoundError path) w | Some t \<Rightarrow> Q t w)"
  by (simp add: wp_def read_file_def split: option.splits)

lemma wp_if [wp_simps]: "wp (if b then m else n) Q R w = (if b then wp m Q R w else wp n Q R w)"
  by simp

text \<open>The same equations where the world is not applied, under the binders of a postcondition.\<close>

lemma wp_return_abs [wp_simps]: "wp (py_return x) Q R = Q x"
  by (rule ext) (simp add: wp_return)

lemma wp_raise_abs [wp_simps]: "wp (py_raise e) Q R = R e"
  by (rule ext) (simp add: wp_raise)

lemma wp_bind_abs [wp_simps]: "wp (py_bind m f) Q R = wp m (\<lambda>x. wp (f x) Q R) R"
  by (rule ext) (simp add: wp_bind)

lemma wp_then_abs [wp_simps]: "wp (py_then m n) Q R = wp m (\<lambda>_. wp n Q R) R"
  by (rule ext) (simp add: wp_then)

lemma wp_try_abs [wp_simps]:
  "wp (py_try m ks h) Q R = wp m Q (\<lambda>e. if caught_by ks e then wp (h e) Q R else R e)"
  by (rule ext) (simp add: wp_try)

lemma wp_finally_abs [wp_simps]:
  "wp (py_finally m c) Q R = wp m (\<lambda>x. wp c (\<lambda>_. Q x) R) (\<lambda>e. wp c (\<lambda>_. R e) R)"
  by (rule ext) (simp add: wp_finally)

lemma wp_lift_abs [wp_simps]: "wp (py_lift r) Q R = (\<lambda>w. case r of Inl e \<Rightarrow> R e w | Inr x \<Rightarrow> Q x w)"
  by (rule ext) (simp add: wp_lift)

lemma wp_time_abs [wp_simps]: "wp time_time Q R = (\<lambda>w. Q (clock w) w)"
  by (rule ext) (simp add: wp_time)

lemma wp_strftime [wp_simps]: "wp (time_strftime E fmt) Q R = (\<lambda>w. Q (strftime E fmt (clock w)) w)"
  by (rule ext) (simp add: wp_def time_strftime_def)

lemma wp_label [wp_simps]: "wp (ts_label E) Q R = (\<lambda>w. Q (strftime E ''%Y%m%dT%H%M%S'' (clock w)) w)"
  by (simp add: ts_label_def wp_strftime)

lemma wp_sleep_abs [wp_simps]:
  "wp (time_sleep E s) Q R =
     (\<lambda>w. if s < 0 then R (Exn ValueError ''sleep length must be non-negative'') w
      else Q () (emit E (Slept s) s w))"
  by (rule ext) (simp add: wp_sleep)

lemma wp_http_abs [wp_simps]:
  "wp (http_get E port path) Q R =
     (\<lambda>w. case http E w port path of
        Inl e \<Rightarrow> R e (emit E (RpcGet port path (Inl e)) 0 w)
      | Inr j \<Rightarrow> Q j (emit E (RpcGet port path (Inr j)) 0 w))"
  by (rule ext) (simp add: wp_http)

lemma wp_run_env_abs [wp_simps]:
  "wp (run_env E argv vars check) Q R =
     (\<lambda>w. case spawn E w argv vars of
        Inl e \<Rightarrow> R e (emit E (RunProc argv vars (Inl e)) 0 w)
      | Inr p \<Rightarrow> if check \<and> returncode p \<noteq> 0
          then R (Exn CalledProcessError ''non-zero exit'') (emit E (RunProc argv vars (Inr p)) 0 w)
          else Q p (emit E (RunProc argv vars (Inr p)) 0 w))"
  by (rule ext) (simp add: wp_run_env)

lemma wp_run_proc_abs [wp_simps]: "wp (run_proc E argv check) Q R = wp (run_env E argv [] check) Q R"
  by (simp add: run_proc_def)

lemma wp_write_abs [wp_simps]:
  "wp (write_file E path txt) Q R =
     (\<lambda>w. Q () ((emit E (Wrote path txt) 0 w)\<lparr>fs := (fs w)(path \<mapsto> txt)\<rparr>))"
  by (rule ext) (simp add: wp_write)

lemma wp_read_abs [wp_simps]:
  "wp (read_file path) Q R =
     (\<lambda>w. case fs w path of None \<Rightarrow> R (Exn FileNotFoundError path) w | Some t \<Rightarrow> Q t w)"
  by (rule ext) (simp add: wp_read)

lemmas wp_abs = wp_return_abs wp_raise_abs wp_bind_abs wp_then_abs wp_try_abs wp_finally_abs
  wp_lift_abs wp_time_abs wp_sleep_abs wp_http_abs wp_run_env_abs wp_run_proc_abs wp_write_abs
  wp_read_abs

lemma wp_mono:
  "wp m Q R w \<Longrightarrow> (\<And>x w'. Q x w' \<Longrightarrow> Q' x w') \<Longrightarrow> (\<And>e w'. R e w' \<Longrightarrow> R' e w') \<Longrightarrow> wp m Q' R' w"
  by (auto simp: wp_def split: option.splits sum.splits prod.splits)

lemma wp_conj: "wp m Q R w \<Longrightarrow> wp m Q' R' w \<Longrightarrow> wp m (\<lambda>x w'. Q x w' \<and> Q' x w') (\<lambda>e w'. R e w' \<and> R' e w') w"
  by (auto simp: wp_def split: option.splits sum.splits prod.splits)

lemma wp_Inr: "m w = Some (Inr x, w') \<Longrightarrow> wp m Q R w \<Longrightarrow> Q x w'"
  by (simp add: wp_def)

lemma wp_Inl: "m w = Some (Inl e, w') \<Longrightarrow> wp m Q R w \<Longrightarrow> R e w'"
  by (simp add: wp_def)

lemma wpI:
  "(\<And>x w'. m w = Some (Inr x, w') \<Longrightarrow> Q x w') \<Longrightarrow> (\<And>e w'. m w = Some (Inl e, w') \<Longrightarrow> R e w') \<Longrightarrow> wp m Q R w"
  by (simp add: wp_def split: option.splits sum.splits prod.splits)

text \<open>The loop rule: an invariant of the local state and the world.\<close>

lemma py_while_inv:
  assumes ret: "py_while c b s w = Some (r, w')"
    and inv: "I s w"
    and step: "\<And>s w. I s w \<Longrightarrow> c s w \<Longrightarrow>
      wp (b s) (\<lambda>k w'. case k of Continue s' \<Rightarrow> I s' w' | Leave x \<Rightarrow> Q (Leave x) w') R w"
    and exit: "\<And>s w. I s w \<Longrightarrow> \<not> c s w \<Longrightarrow> Q (Continue s) w"
  shows "case r of Inl e \<Rightarrow> R e w' | Inr k \<Rightarrow> Q k w'"
proof -
  have "c = c \<longrightarrow> b = b \<longrightarrow> I s w \<longrightarrow>
      (case fst (r, w') of Inl e \<Rightarrow> R e (snd (r, w')) | Inr k \<Rightarrow> Q k (snd (r, w')))"
  proof (rule py_while.raw_induct [where P = "\<lambda>c' b' s w y. c' = c \<longrightarrow> b' = b \<longrightarrow> I s w \<longrightarrow>
      (case fst y of Inl e \<Rightarrow> R e (snd y) | Inr k \<Rightarrow> Q k (snd y))", OF _ ret], intro impI)
    fix f c' b' s w y
    assume IH: "\<And>c' b' s w y. f c' b' s w = Some y \<Longrightarrow> c' = c \<longrightarrow> b' = b \<longrightarrow> I s w \<longrightarrow>
        (case fst y of Inl e \<Rightarrow> R e (snd y) | Inr k \<Rightarrow> Q k (snd y))"
      and eq: "(if c' s w then
        (case b' s w of None \<Rightarrow> None
         | Some (r, w') \<Rightarrow>
             (case r of Inl e \<Rightarrow> Some (Inl e, w')
              | Inr k \<Rightarrow> (case k of Leave x \<Rightarrow> Some (Inr (Leave x), w')
                         | Continue s' \<Rightarrow> f c' b' s' w')))
      else Some (Inr (Continue s), w)) = Some y"
      and cb: "c' = c" "b' = b" and i: "I s w"
    show "case fst y of Inl e \<Rightarrow> R e (snd y) | Inr k \<Rightarrow> Q k (snd y)"
    proof (cases "c s w")
      case False
      with eq exit [OF i] cb show ?thesis by auto
    next
      case True
      from step [OF i True] eq True cb show ?thesis
        by (auto simp: wp_def split: option.splits prod.splits sum.splits ctl.splits dest: IH)
    qed
  qed
  with inv show ?thesis by (cases r) simp_all
qed

lemma wp_while:
  assumes "I s w"
    and "\<And>s w. I s w \<Longrightarrow> c s w \<Longrightarrow>
      wp (b s) (\<lambda>k w'. case k of Continue s' \<Rightarrow> I s' w' | Leave x \<Rightarrow> Q (Leave x) w') R w"
    and "\<And>s w. I s w \<Longrightarrow> \<not> c s w \<Longrightarrow> Q (Continue s) w"
  shows "wp (py_while c b s) Q R w"
  using py_while_inv [OF _ assms] by (auto simp: wp_def split: option.splits prod.splits sum.splits)

section \<open>Which events a computation may log\<close>

text \<open>\<open>emits S m\<close>: \<open>m\<close> only appends events satisfying \<open>S\<close> to the log and never turns the clock
  back. With \<open>S\<close> always true it says that the log is append-only and the clock monotone.\<close>

definition grows :: "(event \<Rightarrow> bool) \<Rightarrow> world \<Rightarrow> world \<Rightarrow> bool" where
  "grows S w w' \<longleftrightarrow> clock w \<le> clock w' \<and> (\<exists>evs. log w' = log w @ evs \<and> list_all S evs)"

definition emits :: "(event \<Rightarrow> bool) \<Rightarrow> 'a py \<Rightarrow> bool" where
  "emits S m \<longleftrightarrow> (\<forall>w r w'. m w = Some (r, w') \<longrightarrow> grows S w w')"

abbreviation steady :: "'a py \<Rightarrow> bool" where
  "steady m \<equiv> emits (\<lambda>_. True) m"

named_theorems emits_intros \<open>which events the constructs log\<close>

lemma grows_refl [simp]: "grows S w w"
  by (simp add: grows_def)

lemma grows_trans: "grows S w w' \<Longrightarrow> grows S w' w'' \<Longrightarrow> grows S w w''"
  unfolding grows_def by (metis append_assoc list_all_append order_trans)

lemma grows_emit: "S ev \<Longrightarrow> 0 \<le> d \<Longrightarrow> grows S w (emit E ev d w)"
  by (simp add: grows_def emit_def)

lemma grows_mono: "grows S w w' \<Longrightarrow> (\<And>ev. S ev \<Longrightarrow> S' ev) \<Longrightarrow> grows S' w w'"
  unfolding grows_def by (auto simp: list_all_iff)

lemma grows_clock: "grows S w w' \<Longrightarrow> clock w \<le> clock w'"
  by (simp add: grows_def)

lemma emits_mono: "emits S m \<Longrightarrow> (\<And>ev. S ev \<Longrightarrow> S' ev) \<Longrightarrow> emits S' m"
  unfolding emits_def by (blast intro: grows_mono)

lemma emitsD: "emits S m \<Longrightarrow> m w = Some (r, w') \<Longrightarrow> grows S w w'"
  by (auto simp: emits_def)

lemma emits_wp: "emits S m \<longleftrightarrow> (\<forall>w. wp m (\<lambda>_. grows S w) (\<lambda>_. grows S w) w)"
  by (auto simp: emits_def wp_def split: option.splits prod.splits sum.splits)

lemma wp_emits: "emits S m \<Longrightarrow> wp m (\<lambda>_. grows S w) (\<lambda>_. grows S w) w"
  by (simp add: emits_wp)

lemma wp_grows: "emits S m \<Longrightarrow> grows S w w' \<Longrightarrow> wp m (\<lambda>_. grows S w) (\<lambda>_. grows S w) w'"
  by (rule wp_mono [OF wp_emits]) (auto intro: grows_trans)

lemma emits_return [emits_intros]: "emits S (py_return x)"
  by (simp add: emits_def py_return_def)

lemma emits_raise [emits_intros]: "emits S (py_raise e)"
  by (simp add: emits_def py_raise_def)

lemma emits_lift [emits_intros]: "emits S (py_lift r)"
  by (simp add: emits_def py_lift_def)

lemma emits_time [emits_intros]: "emits S time_time"
  by (simp add: emits_def time_time_def)

lemma emits_label [emits_intros]: "emits S (ts_label E)" "emits S (time_strftime E fmt)"
  by (simp_all add: emits_def ts_label_def time_strftime_def)

lemma emits_read [emits_intros]: "emits S (read_file p)"
  by (simp add: emits_def read_file_def)

lemma emits_bind [emits_intros]: "emits S m \<Longrightarrow> (\<And>x. emits S (f x)) \<Longrightarrow> emits S (py_bind m f)"
  unfolding emits_wp [of S "py_bind m f"] wp_bind
  by (intro allI, rule wp_mono [OF wp_emits]) (auto intro: wp_grows)

lemma emits_bind_lift: "(\<And>x. r = Inr x \<Longrightarrow> emits S (f x)) \<Longrightarrow> emits S (py_bind (py_lift r) f)"
  by (cases r) (auto simp: emits_def py_bind_def py_lift_def)

lemma emits_then [emits_intros]: "emits S m \<Longrightarrow> emits S n \<Longrightarrow> emits S (py_then m n)"
  by (simp add: py_then_def emits_bind)

lemma emits_try [emits_intros]:
  "emits S m \<Longrightarrow> (\<And>e. emits S (h e)) \<Longrightarrow> emits S (py_try m ks h)"
  unfolding emits_wp [of S "py_try m ks h"] wp_try
  by (intro allI, rule wp_mono [OF wp_emits]) (auto intro: wp_grows)

lemma emits_finally [emits_intros]:
  "emits S m \<Longrightarrow> emits S c \<Longrightarrow> emits S (py_finally m c)"
  unfolding emits_wp [of S "py_finally m c"] wp_finally
  by (intro allI, rule wp_mono [OF wp_emits]) (auto intro: wp_grows)

lemma emits_if [emits_intros]:
  "(b \<Longrightarrow> emits S m) \<Longrightarrow> (\<not> b \<Longrightarrow> emits S n) \<Longrightarrow> emits S (if b then m else n)"
  by simp

lemma emits_case [emits_intros]:
  "(\<And>x y. emits S (f x y)) \<Longrightarrow> emits S (case p of (x, y) \<Rightarrow> f x y)"
  "emits S m \<Longrightarrow> (\<And>x. emits S (g x)) \<Longrightarrow> emits S (case o' of None \<Rightarrow> m | Some x \<Rightarrow> g x)"
  "(\<And>x. emits S (g' x)) \<Longrightarrow> (\<And>x. emits S (g x)) \<Longrightarrow> emits S (case r of Inl x \<Rightarrow> g' x | Inr x \<Rightarrow> g x)"
  "emits S m \<Longrightarrow> (\<And>x xs. emits S (h x xs)) \<Longrightarrow> emits S (case l of [] \<Rightarrow> m | x # xs \<Rightarrow> h x xs)"
  "(\<And>s. emits S (k1 s)) \<Longrightarrow> (\<And>s. emits S (k2 s)) \<Longrightarrow> emits S (case k of Continue s \<Rightarrow> k1 s | Leave x \<Rightarrow> k2 x)"
  by (auto split: prod.split option.split sum.split list.split ctl.split)

lemma emits_each [emits_intros]: "(\<And>x. x \<in> set xs \<Longrightarrow> emits S (f x)) \<Longrightarrow> emits S (py_each f xs)"
  by (induction xs) (auto intro: emits_intros)

lemma emits_map [emits_intros]: "(\<And>x. x \<in> set xs \<Longrightarrow> emits S (f x)) \<Longrightarrow> emits S (py_map f xs)"
  by (induction xs) (auto intro!: emits_intros)

lemma emits_fold [emits_intros]: "(\<And>s x. x \<in> set xs \<Longrightarrow> emits S (f s x)) \<Longrightarrow> emits S (py_fold f s xs)"
  by (induction xs arbitrary: s) (auto intro!: emits_intros)

lemma emits_all [emits_intros]: "(\<And>x. x \<in> set xs \<Longrightarrow> emits S (p x)) \<Longrightarrow> emits S (py_all p xs)"
  by (induction xs) (auto intro!: emits_intros)

lemma emits_while [emits_intros]: "(\<And>s. emits S (b s)) \<Longrightarrow> emits S (py_while c b s)"
  unfolding emits_wp
proof (intro allI)
  fix w
  assume b: "\<And>s. \<forall>w. wp (b s) (\<lambda>_. grows S w) (\<lambda>_. grows S w) w"
  show "wp (py_while c b s) (\<lambda>_. grows S w) (\<lambda>_. grows S w) w"
  proof (rule wp_while [where I = "\<lambda>_. grows S w"])
    fix s w'
    assume g: "grows S w w'"
    from b have "wp (b s) (\<lambda>_. grows S w') (\<lambda>_. grows S w') w'" by blast
    then show "wp (b s) (\<lambda>k v. case k of Continue s' \<Rightarrow> grows S w v | Leave x \<Rightarrow> grows S w v)
        (\<lambda>_. grows S w) w'"
      by (rule wp_mono) (use g in \<open>auto intro: grows_trans split: ctl.splits\<close>)
  qed simp_all
qed

lemma emits_sleep [emits_intros]: "S (Slept s) \<Longrightarrow> emits S (time_sleep E s)"
  by (auto simp: emits_wp wp_sleep intro: grows_emit)

lemma emits_http [emits_intros]: "(\<And>r. S (RpcGet port path r)) \<Longrightarrow> emits S (http_get E port path)"
  by (auto simp: emits_wp wp_http intro: grows_emit split: sum.splits)

lemma emits_run_env [emits_intros]:
  "(\<And>r. S (RunProc argv vars r)) \<Longrightarrow> emits S (run_env E argv vars check)"
  by (auto simp: emits_wp wp_run_env intro: grows_emit split: sum.splits)

lemma emits_run_proc [emits_intros]: "(\<And>r. S (RunProc argv [] r)) \<Longrightarrow> emits S (run_proc E argv check)"
  by (simp add: run_proc_def emits_run_env)

lemma emits_write [emits_intros]: "S (Wrote p t) \<Longrightarrow> emits S (write_file E p t)"
  by (simp add: emits_wp wp_write grows_def emit_def)

section \<open>Computations that return or raise\<close>

definition total :: "'a py \<Rightarrow> bool" where
  "total m \<longleftrightarrow> (\<forall>w. m w \<noteq> None)"

lemma total_simps [total_intros]:
  "total (py_return x)" "total (py_raise e)" "total (py_lift r)" "total time_time"
  "total (time_sleep E s)" "total (http_get E port path)" "total (run_env E argv vars check)"
  "total (write_file E p t)" "total (read_file p)" "total (ts_label E)" "total (time_strftime E fmt)"
  by (simp_all add: total_def py_return_def py_raise_def py_lift_def time_time_def time_sleep_def
      http_get_def run_env_def write_file_def read_file_def ts_label_def
      time_strftime_def Let_def)

lemma total_run_proc [total_intros]: "total (run_proc E argv check)"
  by (simp add: run_proc_def total_simps)

lemma total_bind [total_intros]: "total m \<Longrightarrow> (\<And>x. total (f x)) \<Longrightarrow> total (py_bind m f)"
  by (auto simp: total_def py_bind_def split: option.splits prod.splits sum.splits)

lemma bind_returns: "m w \<noteq> None \<Longrightarrow> (\<And>x. total (f x)) \<Longrightarrow> py_bind m f w \<noteq> None"
  by (auto simp: total_def py_bind_def split: option.splits prod.splits sum.splits)

lemma total_then [total_intros]: "total m \<Longrightarrow> total n \<Longrightarrow> total (py_then m n)"
  by (simp add: py_then_def total_bind)

lemma total_try [total_intros]: "total m \<Longrightarrow> (\<And>e. total (h e)) \<Longrightarrow> total (py_try m ks h)"
  by (auto simp: total_def py_try_def split: option.splits prod.splits sum.splits)

lemma total_finally [total_intros]: "total m \<Longrightarrow> total c \<Longrightarrow> total (py_finally m c)"
  unfolding total_def py_finally_def
  by (auto split: option.splits prod.splits sum.splits) (metis option.distinct(1))

lemma total_if [total_intros]: "(b \<Longrightarrow> total m) \<Longrightarrow> (\<not> b \<Longrightarrow> total n) \<Longrightarrow> total (if b then m else n)"
  by simp

lemma total_case [total_intros]:
  "(\<And>x y. total (f x y)) \<Longrightarrow> total (case p of (x, y) \<Rightarrow> f x y)"
  "total m \<Longrightarrow> (\<And>x. total (g x)) \<Longrightarrow> total (case o' of None \<Rightarrow> m | Some x \<Rightarrow> g x)"
  "(\<And>x. total (g' x)) \<Longrightarrow> (\<And>x. total (g x)) \<Longrightarrow> total (case r of Inl x \<Rightarrow> g' x | Inr x \<Rightarrow> g x)"
  "total m \<Longrightarrow> (\<And>x xs. total (h x xs)) \<Longrightarrow> total (case l of [] \<Rightarrow> m | x # xs \<Rightarrow> h x xs)"
  "(\<And>s. total (k1 s)) \<Longrightarrow> (\<And>s. total (k2 s)) \<Longrightarrow> total (case k of Continue s \<Rightarrow> k1 s | Leave x \<Rightarrow> k2 x)"
  by (auto split: prod.split option.split sum.split list.split ctl.split)

lemma total_each [total_intros]: "(\<And>x. x \<in> set xs \<Longrightarrow> total (f x)) \<Longrightarrow> total (py_each f xs)"
  by (induction xs) (auto intro: total_intros)

lemma total_map [total_intros]: "(\<And>x. x \<in> set xs \<Longrightarrow> total (f x)) \<Longrightarrow> total (py_map f xs)"
  by (induction xs) (auto intro!: total_intros)

lemma total_fold [total_intros]: "(\<And>s x. x \<in> set xs \<Longrightarrow> total (f s x)) \<Longrightarrow> total (py_fold f s xs)"
  by (induction xs arbitrary: s) (auto intro!: total_intros)

lemma total_all [total_intros]: "(\<And>x. x \<in> set xs \<Longrightarrow> total (p x)) \<Longrightarrow> total (py_all p xs)"
  by (induction xs) (auto intro!: total_intros)

text \<open>A loop returns when its body does and a measure goes down in every round that continues.\<close>

lemma py_while_returns:
  fixes \<mu> :: "'s \<Rightarrow> world \<Rightarrow> nat"
  assumes ret: "\<And>s w. c s w \<Longrightarrow> b s w \<noteq> None"
    and dec: "\<And>s w s' w'. c s w \<Longrightarrow> b s w = Some (Inr (Continue s'), w') \<Longrightarrow> \<mu> s' w' < \<mu> s w"
  shows "py_while c b s w \<noteq> None"
proof (induction "\<mu> s w" arbitrary: s w rule: less_induct)
  case less
  show ?case
  proof (cases "c s w")
    case False
    then show ?thesis by (simp add: py_while.simps)
  next
    case True
    with ret obtain r w' where b: "b s w = Some (r, w')" by fastforce
    have "py_while c b s' w' \<noteq> None" if "r = Inr (Continue s')" for s'
      by (rule less) (use dec [OF True] b that in simp)
    with True b show ?thesis
      by (auto simp: py_while.simps [of c b s w] split: sum.splits ctl.splits)
  qed
qed

text \<open>The shape of every polling loop of the scripts: it runs until a deadline and every round
  that continues takes at least some fixed positive time.\<close>

lemma rounds_left:
  fixes \<delta> :: rat
  assumes "t < deadline" "0 < \<delta>" "t + \<delta> \<le> t'"
  shows "nat \<lceil>(deadline - t') / \<delta>\<rceil> < nat \<lceil>(deadline - t) / \<delta>\<rceil>"
proof -
  have "(deadline - t') / \<delta> \<le> (deadline - t - \<delta>) / \<delta>"
    using assms by (intro divide_right_mono) auto
  also have "\<dots> = (deadline - t) / \<delta> - 1" using assms by (simp add: diff_divide_distrib)
  finally have "\<lceil>(deadline - t') / \<delta>\<rceil> \<le> \<lceil>(deadline - t) / \<delta>\<rceil> - 1"
    by (metis ceiling_diff_one ceiling_mono)
  moreover have "0 < \<lceil>(deadline - t) / \<delta>\<rceil>" using assms by simp
  ultimately show ?thesis by linarith
qed

lemma deadline_loop_total:
  fixes \<delta> :: rat
  assumes ret: "\<And>s. total (b s)" and pos: "0 < \<delta>"
    and slow: "\<And>s (w :: world) s' w'. clock w < deadline \<Longrightarrow> b s w = Some (Inr (Continue s'), w') \<Longrightarrow> clock w + \<delta> \<le> clock w'"
  shows "py_while (\<lambda>_ w. clock w < deadline) b s w \<noteq> None"
  by (rule py_while_returns [where \<mu> = "\<lambda>_ w. nat \<lceil>(deadline - clock w) / \<delta>\<rceil>"])
    (use ret in \<open>simp add: total_def\<close>, rule rounds_left [OF _ pos slow])

text \<open>More generally the guard may have other conjuncts, and a round may make it false instead.\<close>

lemma guarded_while_total:
  fixes \<delta> :: rat
  assumes pos: "0 < \<delta>" and ret: "\<And>s. total (b s)" and guard: "\<And>s (w :: world). c s w \<Longrightarrow> clock w < deadline"
    and slow: "\<And>s w. wp (b s) (\<lambda>k w'. case k of Continue s' \<Rightarrow> clock w + \<delta> \<le> clock w' \<or> \<not> c s' w' | Leave _ \<Rightarrow> True) (\<lambda>_ _. True) w"
  shows "total (py_while c b s)"
  unfolding total_def
proof (intro allI, rule py_while_returns [where \<mu> = "\<lambda>s w. if c s w then Suc (nat \<lceil>(deadline - clock w) / \<delta>\<rceil>) else 0"])
  fix s w s' w'
  assume c: "c s w" and eq: "b s w = Some (Inr (Continue s'), w')"
  from wp_Inr [OF eq slow [of s w]] have "clock w + \<delta> \<le> clock w' \<or> \<not> c s' w'" by simp
  then show "(if c s' w' then Suc (nat \<lceil>(deadline - clock w') / \<delta>\<rceil>) else 0)
      < (if c s w then Suc (nat \<lceil>(deadline - clock w) / \<delta>\<rceil>) else 0)"
    using c rounds_left [OF guard [OF c] pos] by auto
qed (use ret in \<open>simp add: total_def\<close>)

lemma deadline_while_total:
  assumes "0 < (\<delta> :: rat)" and "\<And>s. total (b s)"
    and "\<And>s w. wp (b s) (\<lambda>k w'. case k of Continue _ \<Rightarrow> clock w + \<delta> \<le> clock w' | Leave _ \<Rightarrow> True) (\<lambda>_ _. True) w"
  shows "total (py_while (\<lambda>_ w. clock w < deadline) b s)"
  by (rule guarded_while_total [where \<delta> = \<delta>])
    (use assms in \<open>auto intro!: wp_mono [OF assms(3)] split: ctl.splits\<close>)

section \<open>Concrete environments\<close>

text \<open>Environments that answer every request by given functions, immediately; examples evaluate the
  scripts in them.\<close>

definition static_env ::
  "(int \<Rightarrow> string \<Rightarrow> json result) \<Rightarrow> (string list \<Rightarrow> (string \<times> string) list \<Rightarrow> proc result) \<Rightarrow> env" where
  "static_env answers runs = \<lparr>http = (\<lambda>_. answers), spawn = (\<lambda>_. runs), lag = (\<lambda>_. 0),
     environ = (\<lambda>_. None), repr_float = (\<lambda>q. py_str_int \<lfloor>q\<rfloor>),
     strftime = (\<lambda>_ q. py_str_int \<lfloor>q\<rfloor>)\<rparr>"

definition start_world :: world where
  "start_world = \<lparr>clock = 0, log = [], fs = (\<lambda>_. None)\<rparr>"

lemma static_env_simps [simp]:
  "http (static_env a r) = (\<lambda>_. a)" "spawn (static_env a r) = (\<lambda>_. r)"
  "lag (static_env a r) = (\<lambda>_. 0)" "environ (static_env a r) = (\<lambda>_. None)"
  by (simp_all add: static_env_def)

lemma start_world_simps [simp]: "clock start_world = 0" "log start_world = []" "fs start_world p = None"
  by (simp_all add: start_world_def)

section \<open>Loops over lists\<close>

text \<open>Invariant rules: what holds after a prefix of the list.\<close>

lemma wp_map_suffix:
  assumes "\<And>ys x zs v w. xs = ys @ x # zs \<Longrightarrow> length v = length ys \<Longrightarrow> I v w \<Longrightarrow>
      wp (f x) (\<lambda>y w'. I (v @ [y]) w') R w"
  shows "xs = ys @ zs \<Longrightarrow> length v = length ys \<Longrightarrow> I v w \<Longrightarrow>
    wp (py_map f zs) (\<lambda>u w'. length u = length zs \<and> I (v @ u) w') R w"
proof (induction zs arbitrary: ys v w)
  case Nil
  then show ?case by (simp add: wp_return)
next
  case (Cons x zs)
  have "wp (f x) (\<lambda>y. wp (py_map f zs) (\<lambda>u w'. length u = length zs \<and> I ((v @ [y]) @ u) w') R) R w"
    by (rule wp_mono [OF assms [OF Cons.prems]])
      (use Cons.IH [of "ys @ [x]" "v @ [_]"] Cons.prems in simp_all)
  then show ?case by (simp add: wp_abs)
qed

lemma wp_map:
  assumes "I [] w"
    and "\<And>ys x zs v w. xs = ys @ x # zs \<Longrightarrow> length v = length ys \<Longrightarrow> I v w \<Longrightarrow>
      wp (f x) (\<lambda>y w'. I (v @ [y]) w') R w"
  shows "wp (py_map f xs) (\<lambda>v w'. length v = length xs \<and> I v w') R w"
  using wp_map_suffix [where I = I and ys = "[]" and v = "[]" and zs = xs and xs = xs and R = R, OF assms(2)]
    assms(1) by simp

lemma wp_fold:
  assumes "I 0 s w"
    and "\<And>i s w. i < length xs \<Longrightarrow> I i s w \<Longrightarrow> wp (f s (xs ! i)) (I (Suc i)) R w"
  shows "wp (py_fold f s xs) (I (length xs)) R w"
  using assms
proof (induction xs arbitrary: I s w)
  case Nil
  then show ?case by (simp add: wp_return)
next
  case (Cons x xs)
  have "wp (f s x) (I 1) R w" using Cons.prems(2) [of 0 s w] Cons.prems(1) by simp
  then show ?case unfolding py_fold.simps wp_bind
  proof (rule wp_mono)
    fix s' w' assume i: "I 1 s' w'"
    have "wp (f s (xs ! i)) (I (Suc (Suc i))) R w" if "i < length xs" "I (Suc i) s w" for i s w
      using Cons.prems(2) [of "Suc i" s w] that by simp
    with i show "wp (py_fold f s' xs) (I (length (x # xs))) R w'"
      using Cons.IH [of "\<lambda>i. I (Suc i)" s' w'] by simp
  qed
qed

lemma wp_each:
  assumes "I 0 w"
    and "\<And>i w. i < length xs \<Longrightarrow> I i w \<Longrightarrow> wp (f (xs ! i)) (\<lambda>_. I (Suc i)) R w"
  shows "wp (py_each f xs) (\<lambda>_. I (length xs)) R w"
proof -
  have "py_each f xs = py_fold (\<lambda>_. f) () xs" by (induction xs) (auto simp: py_then_def)
  then show ?thesis using wp_fold [of "\<lambda>i _. I i" "()" w xs "\<lambda>_. f" R] assms by simp
qed

section \<open>Projected traces\<close>

text \<open>\<open>logs P m xs\<close>: whenever \<open>m\<close> returns normally, the events it appended, each read through the
  projection \<open>P\<close> (a list per event, empty for events of no interest), give exactly \<open>xs\<close>.\<close>

definition trace :: "(event \<Rightarrow> 'b list) \<Rightarrow> event list \<Rightarrow> 'b list" where
  "trace P evs = concat (map P evs)"

definition logs :: "(event \<Rightarrow> 'b list) \<Rightarrow> 'a py \<Rightarrow> 'b list \<Rightarrow> bool" where
  "logs P m xs \<longleftrightarrow> (\<forall>w x w'. m w = Some (Inr x, w') \<longrightarrow> (\<exists>evs. log w' = log w @ evs \<and> trace P evs = xs))"

named_theorems logs_intros \<open>projected traces of the constructs\<close>

lemma trace_append [simp]: "trace P (xs @ ys) = trace P xs @ trace P ys"
  by (simp add: trace_def)

lemma trace_simps [simp]: "trace P [] = []" "trace P (ev # evs) = P ev @ trace P evs"
  by (simp_all add: trace_def)

lemma trace_none: "list_all (\<lambda>ev. P ev = []) evs \<Longrightarrow> trace P evs = []"
  by (induction evs) auto

lemma logs_emits: "emits (\<lambda>ev. P ev = []) m \<Longrightarrow> logs P m []"
  by (fastforce simp: emits_def logs_def grows_def dest: trace_none)

lemma logs_bind [logs_intros]:
  assumes "logs P m xs" "\<And>x. logs P (f x) ys"
  shows "logs P (py_bind m f) (xs @ ys)"
  unfolding logs_def
proof (intro allI impI)
  fix w x w'
  assume "py_bind m f w = Some (Inr x, w')"
  then obtain y v where m: "m w = Some (Inr y, v)" and f: "f y v = Some (Inr x, w')"
    by (auto simp: py_bind_def split: option.splits sum.splits)
  obtain e1 where "log v = log w @ e1" "trace P e1 = xs" using assms(1) m by (fastforce simp: logs_def)
  moreover obtain e2 where "log w' = log v @ e2" "trace P e2 = ys"
    using assms(2) f by (fastforce simp: logs_def)
  ultimately show "\<exists>evs. log w' = log w @ evs \<and> trace P evs = xs @ ys"
    by (intro exI [of _ "e1 @ e2"]) simp
qed

lemma logs_then [logs_intros]: "logs P m xs \<Longrightarrow> logs P n ys \<Longrightarrow> logs P (py_then m n) (xs @ ys)"
  by (simp add: py_then_def logs_bind)

lemma logs_bind_lift: "(\<And>x. r = Inr x \<Longrightarrow> logs P (f x) ys) \<Longrightarrow> logs P (py_bind (py_lift r) f) ys"
  by (cases r) (auto simp: logs_def py_bind_def py_lift_def)

lemma logs_return [logs_intros]: "logs P (py_return x) []"
  by (simp add: logs_def py_return_def)

lemma logs_raise [logs_intros]: "logs P (py_raise e) xs"
  by (simp add: logs_def py_raise_def)

lemma logs_lift [logs_intros]: "logs P (py_lift r) []"
  by (simp add: logs_def py_lift_def)

lemma logs_time [logs_intros]: "logs P time_time []"
  by (simp add: logs_def time_time_def)

lemma logs_label [logs_intros]: "logs P (ts_label E) []" "logs P (time_strftime E fmt) []"
  by (simp_all add: logs_def ts_label_def time_strftime_def)

lemma logs_write: "P (Wrote p t) = xs \<Longrightarrow> logs P (write_file E p t) xs"
  by (auto simp: logs_def write_file_def emit_def)

lemma logs_read [logs_intros]: "logs P (read_file p) []"
  by (simp add: logs_def read_file_def)

lemma logs_run_env: "(\<And>r. P (RunProc argv vars r) = xs) \<Longrightarrow> logs P (run_env E argv vars check) xs"
  by (auto simp: logs_def run_env_def Let_def emit_def split: sum.splits if_splits)

lemma logs_run_proc: "(\<And>r. P (RunProc argv [] r) = xs) \<Longrightarrow> logs P (run_proc E argv check) xs"
  by (simp add: run_proc_def logs_run_env)

lemma logs_sleep: "P (Slept s) = xs \<Longrightarrow> logs P (time_sleep E s) xs"
  by (auto simp: logs_def time_sleep_def emit_def)

lemma logs_if [logs_intros]:
  "(b \<Longrightarrow> logs P m xs) \<Longrightarrow> (\<not> b \<Longrightarrow> logs P n xs) \<Longrightarrow> logs P (if b then m else n) xs"
  by simp

lemma logs_each: "(\<And>x. x \<in> set xs \<Longrightarrow> logs P (f x) (t x)) \<Longrightarrow> logs P (py_each f xs) (concat (map t xs))"
  by (induction xs) (auto intro!: logs_intros)

lemma logs_case [logs_intros]:
  "(\<And>x y. logs P (f x y) xs) \<Longrightarrow> logs P (case p of (x, y) \<Rightarrow> f x y) xs"
  "logs P m xs \<Longrightarrow> (\<And>x. logs P (g x) xs) \<Longrightarrow> logs P (case o' of None \<Rightarrow> m | Some x \<Rightarrow> g x) xs"
  by (auto split: prod.split option.split)

lemma logs_cong: "logs P m xs \<Longrightarrow> xs = ys \<Longrightarrow> logs P m ys"
  by simp

lemma logsD: "logs P m xs \<Longrightarrow> m w = Some (Inr x, w') \<Longrightarrow> \<exists>evs. log w' = log w @ evs \<and> trace P evs = xs"
  by (simp add: logs_def)

lemma logs_finally:
  assumes "logs P m xs" "logs P c ys"
  shows "logs P (py_finally m c) (xs @ ys)"
proof -
  have "logs P (py_bind m (\<lambda>x. py_bind c (\<lambda>_. py_return x))) (xs @ ys @ [])"
    by (intro logs_intros assms)
  then show ?thesis
    by (fastforce simp: logs_def py_finally_def py_bind_def py_return_def split: option.splits sum.splits)
qed

text \<open>The commands a computation runs.\<close>

fun command :: "event \<Rightarrow> string list list" where
  "command (RunProc argv _ _) = [argv]"
| "command _ = []"

lemma logs_command_run [logs_intros]:
  "logs command (run_proc E argv check) [argv]" "logs command (run_env E argv vars check) [argv]"
  by (rule logs_run_proc logs_run_env, simp)+

lemma logs_command_sleep [logs_intros]: "logs command (time_sleep E s) []"
  by (rule logs_sleep) simp

lemma logs_command_write [logs_intros]: "logs command (write_file E p t) []"
  by (rule logs_write) simp

lemma command_eq_Nil: "command ev = [] \<longleftrightarrow> (\<forall>argv vars r. ev \<noteq> RunProc argv vars r)"
  by (cases ev) auto

text \<open>Unfolding a computation at a given world.\<close>

lemmas run_defs = py_bind_def py_then_def py_return_def py_raise_def py_lift_def py_try_def
  py_finally_def time_time_def time_sleep_def http_get_def run_proc_def run_env_def write_file_def
  read_file_def emit_def Let_def

section \<open>Computations that never raise\<close>

definition quiet :: "'a py \<Rightarrow> bool" where
  "quiet m \<longleftrightarrow> (\<forall>w. wp m (\<lambda>_ _. True) (\<lambda>_ _. False) w)"

named_theorems quiet_intros \<open>computations that never raise\<close>

lemma quiet_returns: "quiet m \<Longrightarrow> total m \<Longrightarrow> \<exists>x w'. m w = Some (Inr x, w')"
  unfolding quiet_def total_def wp_def
  by (erule allE [of _ w], erule allE [of _ w]) (auto split: option.splits sum.splits)

lemma quiet_wp: "quiet m \<Longrightarrow> wp m (\<lambda>_ _. True) (\<lambda>_ _. False) w"
  by (simp add: quiet_def)

lemma quiet_simps [quiet_intros]:
  "quiet (py_return x)" "quiet time_time" "quiet (ts_label E)" "quiet (time_strftime E fmt)"
  "quiet (write_file E p t)"
  by (simp_all add: quiet_def wp_simps)

lemma quiet_lift [quiet_intros]: "\<exists>x. r = Inr x \<Longrightarrow> quiet (py_lift r)"
  by (auto simp: quiet_def wp_simps)

lemma quiet_sleep [quiet_intros]: "0 \<le> s \<Longrightarrow> quiet (time_sleep E s)"
  by (auto simp: quiet_def wp_simps)

lemma quiet_run [quiet_intros]:
  "(\<And>w. \<exists>p. spawn E w argv [] = Inr p \<and> (check \<longrightarrow> returncode p = 0)) \<Longrightarrow> quiet (run_proc E argv check)"
proof -
  assume a: "\<And>w. \<exists>p. spawn E w argv [] = Inr p \<and> (check \<longrightarrow> returncode p = 0)"
  have "wp (run_proc E argv check) (\<lambda>_ _. True) (\<lambda>_ _. False) w" for w
    using a [of w] by (auto simp: wp_simps)
  then show ?thesis by (simp add: quiet_def)
qed

lemma quiet_bind [quiet_intros]: "quiet m \<Longrightarrow> (\<And>x. quiet (f x)) \<Longrightarrow> quiet (py_bind m f)"
  unfolding quiet_def [of "py_bind m f"] wp_bind
  by (intro allI, rule wp_mono [OF quiet_wp]) (auto intro: quiet_wp)

lemma quiet_then [quiet_intros]: "quiet m \<Longrightarrow> quiet n \<Longrightarrow> quiet (py_then m n)"
  by (simp add: py_then_def quiet_bind)

lemma quiet_bind_lift: "(\<exists>x. r = Inr x) \<Longrightarrow> (\<And>x. r = Inr x \<Longrightarrow> quiet (f x)) \<Longrightarrow> quiet (py_bind (py_lift r) f)"
  by (auto simp: quiet_def wp_simps)

lemma quiet_finally [quiet_intros]: "quiet m \<Longrightarrow> quiet c \<Longrightarrow> quiet (py_finally m c)"
  unfolding quiet_def [of "py_finally m c"] wp_finally
  by (intro allI, rule wp_mono [OF quiet_wp]) (auto intro: quiet_wp)

lemma quiet_if [quiet_intros]: "(b \<Longrightarrow> quiet m) \<Longrightarrow> (\<not> b \<Longrightarrow> quiet n) \<Longrightarrow> quiet (if b then m else n)"
  by simp

lemma quiet_case [quiet_intros]:
  "(\<And>x y. quiet (f x y)) \<Longrightarrow> quiet (case p of (x, y) \<Rightarrow> f x y)"
  "quiet m \<Longrightarrow> (\<And>x. quiet (g x)) \<Longrightarrow> quiet (case o' of None \<Rightarrow> m | Some x \<Rightarrow> g x)"
  "(\<And>s. quiet (k1 s)) \<Longrightarrow> (\<And>s. quiet (k2 s)) \<Longrightarrow> quiet (case k of Continue s \<Rightarrow> k1 s | Leave x \<Rightarrow> k2 x)"
  by (auto split: prod.split option.split ctl.split)

lemma quiet_each [quiet_intros]: "(\<And>x. x \<in> set xs \<Longrightarrow> quiet (f x)) \<Longrightarrow> quiet (py_each f xs)"
  by (induction xs) (auto intro: quiet_intros)

lemma quiet_map [quiet_intros]: "(\<And>x. x \<in> set xs \<Longrightarrow> quiet (f x)) \<Longrightarrow> quiet (py_map f xs)"
  by (induction xs) (auto intro!: quiet_intros)

lemma quiet_fold [quiet_intros]: "(\<And>s x. x \<in> set xs \<Longrightarrow> quiet (f s x)) \<Longrightarrow> quiet (py_fold f s xs)"
  by (induction xs arbitrary: s) (auto intro!: quiet_intros)

lemma quiet_while [quiet_intros]: "(\<And>s. quiet (b s)) \<Longrightarrow> quiet (py_while c b s)"
  unfolding quiet_def [of "py_while c b s"]
  by (intro allI, rule wp_while [where I = "\<lambda>_ _. True"])
    (auto intro!: wp_mono [OF quiet_wp] split: ctl.splits)

section \<open>What a computation returns\<close>

definition yields :: "'a py \<Rightarrow> ('a \<Rightarrow> bool) \<Rightarrow> bool" where
  "yields m P \<longleftrightarrow> (\<forall>w x w'. m w = Some (Inr x, w') \<longrightarrow> P x)"

lemma yieldsD: "yields m P \<Longrightarrow> m w = Some (Inr x, w') \<Longrightarrow> P x"
  unfolding yields_def by blast

lemma yields_wp: "(\<And>w. wp m (\<lambda>x _. P x) (\<lambda>_ _. True) w) \<Longrightarrow> yields m P"
  by (fastforce simp: yields_def dest: wp_Inr)

lemma wp_yields: "yields m P \<Longrightarrow> wp m (\<lambda>x _. P x) (\<lambda>_ _. True) w"
  by (rule wpI) (auto simp: yields_def)

lemma yields_bind: "yields m P \<Longrightarrow> (\<And>x. P x \<Longrightarrow> yields (f x) Q) \<Longrightarrow> yields (py_bind m f) Q"
  by (fastforce simp: yields_def py_bind_def split: option.splits sum.splits)

lemma yields_effect: "(\<And>x. yields (f x) Q) \<Longrightarrow> yields (py_bind m f) Q"
  by (rule yields_bind [where P = "\<lambda>_. True"]) (simp_all add: yields_def)

lemma yields_then: "yields n Q \<Longrightarrow> yields (py_then m n) Q"
  unfolding py_then_def by (rule yields_effect)

lemma yields_return: "Q x \<Longrightarrow> yields (py_return x) Q"
  by (simp add: yields_def py_return_def)

lemma yields_raise: "yields (py_raise e) Q"
  by (simp add: yields_def py_raise_def)

lemma yields_split: "(\<And>x y. p = (x, y) \<Longrightarrow> yields (f x y) Q) \<Longrightarrow> yields (case p of (x, y) \<Rightarrow> f x y) Q"
  by (cases p) simp

lemma yields_mono: "yields m P \<Longrightarrow> (\<And>x. P x \<Longrightarrow> Q x) \<Longrightarrow> yields m Q"
  unfolding yields_def by blast

text \<open>\<open>ends P m ys\<close>: on a normal return, the projected trace of \<open>m\<close> ends with \<open>ys\<close>.\<close>

definition ends :: "(event \<Rightarrow> 'b list) \<Rightarrow> 'a py \<Rightarrow> 'b list \<Rightarrow> bool" where
  "ends P m ys \<longleftrightarrow> (\<forall>w x w'. m w = Some (Inr x, w') \<longrightarrow> (\<exists>evs. log w' = log w @ evs \<and> suffix ys (trace P evs)))"

lemma ends_logs: "logs P m xs \<Longrightarrow> suffix ys xs \<Longrightarrow> ends P m ys"
  by (fastforce simp: logs_def ends_def)

lemma ends_bind:
  assumes "steady m" "\<And>x. ends P (f x) ys"
  shows "ends P (py_bind m f) ys"
  unfolding ends_def
proof (intro allI impI)
  fix w x w'
  assume "py_bind m f w = Some (Inr x, w')"
  then obtain y v where m: "m w = Some (Inr y, v)" and f: "f y v = Some (Inr x, w')"
    by (auto simp: py_bind_def split: option.splits sum.splits)
  obtain e1 where "log v = log w @ e1" using emitsD [OF assms(1) m] by (auto simp: grows_def)
  moreover obtain e2 where "log w' = log v @ e2" "suffix ys (trace P e2)"
    using assms(2) f by (fastforce simp: ends_def)
  ultimately show "\<exists>evs. log w' = log w @ evs \<and> suffix ys (trace P evs)"
    by (intro exI [of _ "e1 @ e2"]) (simp add: suffix_appendI)
qed

lemma endsD: "ends P m ys \<Longrightarrow> m w = Some (Inr x, w') \<Longrightarrow> \<exists>evs. log w' = log w @ evs \<and> suffix ys (trace P evs)"
  unfolding ends_def by blast

lemma quietI: "(\<And>w. \<exists>x w'. m w = Some (Inr x, w')) \<Longrightarrow> quiet m"
proof -
  assume a: "\<And>w. \<exists>x w'. m w = Some (Inr x, w')"
  have "wp m (\<lambda>_ _. True) (\<lambda>_ _. False) w" for w using a [of w] by (auto simp: wp_def)
  then show ?thesis by (simp add: quiet_def)
qed

lemma quiet_run_env [quiet_intros]:
  "(\<And>w. \<exists>p. spawn E w argv vars = Inr p \<and> (check \<longrightarrow> returncode p = 0)) \<Longrightarrow> quiet (run_env E argv vars check)"
proof -
  assume a: "\<And>w. \<exists>p. spawn E w argv vars = Inr p \<and> (check \<longrightarrow> returncode p = 0)"
  have "wp (run_env E argv vars check) (\<lambda>_ _. True) (\<lambda>_ _. False) w" for w
    using a [of w] by (auto simp: wp_simps)
  then show ?thesis by (simp add: quiet_def)
qed

section \<open>Removing directories\<close>

text \<open>\<^verbatim>\<open>if os.path.isdir(d): shutil.rmtree(d)\<close>, and \<^verbatim>\<open>shutil.copy\<close>.\<close>

definition remove_tree :: "string \<Rightarrow> unit py" where
  "remove_tree d w = Some (Inr (), w\<lparr>fs := (\<lambda>p. if prefix (d @ ''/'') p then None else fs w p)\<rparr>)"

definition copy_file :: "env \<Rightarrow> string \<Rightarrow> string \<Rightarrow> unit py" where
  "copy_file E src dst = py_bind (read_file src) (\<lambda>t. write_file E dst t)"

lemma remove_tree_facts [total_intros, emits_intros, logs_intros, quiet_intros]:
  "total (remove_tree d)" "emits S (remove_tree d)" "logs P (remove_tree d) []" "quiet (remove_tree d)"
  by (simp_all add: remove_tree_def total_def emits_def logs_def quiet_def wp_def grows_def)

lemma wp_remove_tree [wp_simps]:
  "wp (remove_tree d) Q R = (\<lambda>w. Q () (w\<lparr>fs := (\<lambda>p. if prefix (d @ ''/'') p then None else fs w p)\<rparr>))"
  by (rule ext) (simp add: remove_tree_def wp_def)

section \<open>Computations that write no file\<close>

definition keeps_fs :: "'a py \<Rightarrow> bool" where
  "keeps_fs m \<longleftrightarrow> (\<forall>w r w'. m w = Some (r, w') \<longrightarrow> fs w' = fs w)"

named_theorems keeps_intros \<open>which constructs leave the files alone\<close>

lemma keeps_fs_wp: "keeps_fs m \<longleftrightarrow> (\<forall>w. wp m (\<lambda>_ w'. fs w' = fs w) (\<lambda>_ w'. fs w' = fs w) w)"
  unfolding keeps_fs_def wp_def by (auto split: option.splits sum.splits prod.splits)

lemma keeps_wp: "keeps_fs m \<Longrightarrow> fs v = f \<Longrightarrow> wp m (\<lambda>_ w'. fs w' = f) (\<lambda>_ w'. fs w' = f) v"
  by (auto simp: keeps_fs_wp)

lemma keeps_fsD: "keeps_fs m \<Longrightarrow> m w = Some (r, w') \<Longrightarrow> fs w' = fs w"
  by (simp add: keeps_fs_def)

lemma keeps_simps [keeps_intros]:
  "keeps_fs (py_return x)" "keeps_fs (py_raise e)" "keeps_fs (py_lift r)" "keeps_fs time_time"
  "keeps_fs (time_sleep E s)" "keeps_fs (http_get E port path)" "keeps_fs (run_env E argv vars check)"
  "keeps_fs (read_file p)" "keeps_fs (ts_label E)" "keeps_fs (time_strftime E fmt)" "keeps_fs (run_proc E argv check)"
  by (auto simp: keeps_fs_wp wp_simps emit_def split: sum.splits option.splits)

lemma keeps_bind [keeps_intros]: "keeps_fs m \<Longrightarrow> (\<And>x. keeps_fs (f x)) \<Longrightarrow> keeps_fs (py_bind m f)"
  unfolding keeps_fs_wp [of "py_bind m f"] wp_bind by (auto intro!: wp_mono [OF keeps_wp [of m]] keeps_wp)

lemma keeps_then [keeps_intros]: "keeps_fs m \<Longrightarrow> keeps_fs n \<Longrightarrow> keeps_fs (py_then m n)"
  by (simp add: py_then_def keeps_bind)

lemma keeps_try [keeps_intros]: "keeps_fs m \<Longrightarrow> (\<And>e. keeps_fs (h e)) \<Longrightarrow> keeps_fs (py_try m ks h)"
  unfolding keeps_fs_wp [of "py_try m ks h"] wp_try by (auto intro!: wp_mono [OF keeps_wp [of m]] keeps_wp)

lemma keeps_if [keeps_intros]: "(b \<Longrightarrow> keeps_fs m) \<Longrightarrow> (\<not> b \<Longrightarrow> keeps_fs n) \<Longrightarrow> keeps_fs (if b then m else n)"
  by simp

lemma keeps_case [keeps_intros]:
  "(\<And>x y. keeps_fs (f x y)) \<Longrightarrow> keeps_fs (case p of (x, y) \<Rightarrow> f x y)"
  "keeps_fs m \<Longrightarrow> (\<And>x. keeps_fs (g x)) \<Longrightarrow> keeps_fs (case o' of None \<Rightarrow> m | Some x \<Rightarrow> g x)"
  "(\<And>s. keeps_fs (k1 s)) \<Longrightarrow> (\<And>s. keeps_fs (k2 s)) \<Longrightarrow> keeps_fs (case k of Continue s \<Rightarrow> k1 s | Leave x \<Rightarrow> k2 x)"
  by (simp_all split: prod.split option.split ctl.split)

lemma keeps_each [keeps_intros]: "(\<And>x. x \<in> set xs \<Longrightarrow> keeps_fs (f x)) \<Longrightarrow> keeps_fs (py_each f xs)"
  by (induction xs) (auto intro: keeps_intros)

lemma keeps_map [keeps_intros]: "(\<And>x. x \<in> set xs \<Longrightarrow> keeps_fs (f x)) \<Longrightarrow> keeps_fs (py_map f xs)"
  by (induction xs) (auto intro!: keeps_intros)

lemma keeps_fold [keeps_intros]: "(\<And>s x. x \<in> set xs \<Longrightarrow> keeps_fs (f s x)) \<Longrightarrow> keeps_fs (py_fold f s xs)"
  by (induction xs arbitrary: s) (auto intro!: keeps_intros)

lemma keeps_while [keeps_intros]: "(\<And>s. keeps_fs (b s)) \<Longrightarrow> keeps_fs (py_while c b s)"
  unfolding keeps_fs_wp [of "py_while c b s"]
  by (auto intro!: wp_while [where I = "\<lambda>_ w'. fs w' = fs _"] intro: wp_mono [OF keeps_wp] split: ctl.splits)

lemma quiet_keeps: "quiet m \<Longrightarrow> keeps_fs m \<Longrightarrow> fs v = f \<Longrightarrow> wp m (\<lambda>_ w'. fs w' = f) (\<lambda>_ _. False) v"
  using wp_conj [OF quiet_wp keeps_wp] by (rule wp_mono) auto

lemma wp_returns:
  assumes "wp m (\<lambda>_ _. True) (\<lambda>_ _. False) w" "total m"
  shows "\<exists>x w'. m w = Some (Inr x, w')"
proof -
  obtain r w' where "m w = Some (r, w')" using assms(2) unfolding total_def by fast
  with assms(1) show ?thesis by (cases r) (auto simp: wp_def)
qed

lemma quiet_try [quiet_intros]: "quiet m \<Longrightarrow> quiet (py_try m ks h)"
  by (auto simp: quiet_def wp_try intro: wp_mono)


lemma wp_total:
  assumes "wp m Q (\<lambda>_ _. False) w" "total m"
  shows "\<exists>x w'. m w = Some (Inr x, w') \<and> Q x w'"
proof -
  obtain r w' where "m w = Some (r, w')" using assms(2) unfolding total_def by fast
  with assms(1) show ?thesis by (cases r) (auto simp: wp_def)
qed

section \<open>More rules for composed computations\<close>

lemma yields_lift: "yields (py_lift r) (\<lambda>x. r = Inr x)"
  by (simp add: yields_def py_lift_def)

lemma yields_map:
  assumes "\<And>x. x \<in> set xs \<Longrightarrow> yields (f x) (\<lambda>y. R x y)"
  shows "yields (py_map f xs) (\<lambda>ys. list_all2 R xs ys)"
  using assms
proof (induction xs)
  case Nil
  then show ?case by (auto intro: yields_return)
next
  case (Cons x xs)
  show ?case
    unfolding py_map.simps
    by (rule yields_bind [OF Cons.prems], simp, rule yields_bind [OF Cons.IH])
      (auto intro: Cons.prems yields_return)
qed

lemma yields_fold:
  "P s \<Longrightarrow> (\<And>s x. P s \<Longrightarrow> yields (f s x) P) \<Longrightarrow> yields (py_fold f s xs) P"
  by (induction xs arbitrary: s) (auto intro: yields_return yields_bind)

lemma yields_option: "yields m Q \<Longrightarrow> (\<And>x. yields (f x) Q) \<Longrightarrow> yields (case z of None \<Rightarrow> m | Some x \<Rightarrow> f x) Q"
  by (cases z) simp_all

lemma yields_finally: "yields m P \<Longrightarrow> yields (py_finally m c) P"
  unfolding yields_def py_finally_def by (auto split: option.splits sum.splits)

lemma bind_return: "py_bind (py_return x) f = f x" "py_then (py_return x) n = n"
  by (simp_all add: py_then_def py_bind_def py_return_def fun_eq_iff)

lemma wp_seq: "wp m I R w \<Longrightarrow> (\<And>x v. I x v \<Longrightarrow> wp (f x) Q R v) \<Longrightarrow> wp (py_bind m f) Q R w"
  unfolding wp_bind by (erule wp_mono) auto

lemma wp_seq_then: "wp m I R w \<Longrightarrow> (\<And>x v. I x v \<Longrightarrow> wp n Q R v) \<Longrightarrow> wp (py_then m n) Q R w"
  unfolding wp_then by (erule wp_mono) auto

text \<open>\<open>logs_in P m X\<close>: on a normal return the projected trace of \<open>m\<close> is one of \<open>X\<close>.\<close>

definition logs_in :: "(event \<Rightarrow> 'b list) \<Rightarrow> 'a py \<Rightarrow> 'b list set \<Rightarrow> bool" where
  "logs_in P m X \<longleftrightarrow> (\<forall>w x w'. m w = Some (Inr x, w') \<longrightarrow> (\<exists>evs. log w' = log w @ evs \<and> trace P evs \<in> X))"

lemma logs_in_logs: "logs P m xs \<Longrightarrow> xs \<in> X \<Longrightarrow> logs_in P m X"
  unfolding logs_def logs_in_def by blast

lemma logs_inD: "logs_in P m X \<Longrightarrow> m w = Some (Inr x, w') \<Longrightarrow> \<exists>evs. log w' = log w @ evs \<and> trace P evs \<in> X"
  unfolding logs_in_def by blast

lemma logs_in_bind:
  assumes "logs_in P m X" "\<And>x. logs_in P (f x) Y" "\<And>xs ys. xs \<in> X \<Longrightarrow> ys \<in> Y \<Longrightarrow> xs @ ys \<in> Z"
  shows "logs_in P (py_bind m f) Z"
  unfolding logs_in_def
proof (intro allI impI)
  fix w x w'
  assume "py_bind m f w = Some (Inr x, w')"
  then obtain y v where m: "m w = Some (Inr y, v)" and f: "f y v = Some (Inr x, w')"
    by (auto simp: py_bind_def split: option.splits sum.splits)
  obtain e1 where "log v = log w @ e1" "trace P e1 \<in> X" using logs_inD [OF assms(1) m] by blast
  moreover obtain e2 where "log w' = log v @ e2" "trace P e2 \<in> Y" using logs_inD [OF assms(2) f] by blast
  ultimately show "\<exists>evs. log w' = log w @ evs \<and> trace P evs \<in> Z"
    by (intro exI [of _ "e1 @ e2"]) (simp add: assms(3))
qed

lemma logs_in_then:
  "logs_in P m X \<Longrightarrow> logs_in P n Y \<Longrightarrow> (\<And>xs ys. xs \<in> X \<Longrightarrow> ys \<in> Y \<Longrightarrow> xs @ ys \<in> Z) \<Longrightarrow> logs_in P (py_then m n) Z"
  unfolding py_then_def by (rule logs_in_bind)

lemma logs_fold: "(\<And>s x. logs P (f s x) ys) \<Longrightarrow> logs P (py_fold f s xs) (concat (replicate (length xs) ys))"
  by (induction xs arbitrary: s) (auto intro!: logs_intros)

end
