(* ===== verification/Py_Json.thy ===== *)
theory Py_Json
  imports Py_Text
begin

text \<open>
  More of the standard library: \<^verbatim>\<open>json.loads\<close> as a recursive-descent parser (fuel is the length of
  the text, since every nested value consumes at least one character), \<^verbatim>\<open>float()\<close> on decimal
  notation, \<^verbatim>\<open>str.splitlines\<close>, \<^verbatim>\<open>str.lower\<close>, and the scanning loop behind
  \<^verbatim>\<open>re.findall\<close>/\<^verbatim>\<open>re.finditer\<close> over a matcher. The non-finite literals (\<^verbatim>\<open>NaN\<close>,
  \<^verbatim>\<open>Infinity\<close>) have no rational value and are rejected.
\<close>

section \<open>Numbers\<close>

definition digits_value :: "string \<Rightarrow> nat" where
  "digits_value ds = foldl (\<lambda>a c. 10 * a + (code_of c - 48)) 0 ds"

text \<open>The exponent part, if any: value and rest.\<close>

definition exponent :: "string \<Rightarrow> int \<times> string" where
  "exponent s =
     (case s of
        c # cs \<Rightarrow>
          if c = CHR ''e'' \<or> c = CHR ''E'' then
            (let (neg, r) = (case cs of d # ds \<Rightarrow> if d = CHR ''-'' then (True, ds) else if d = CHR ''+'' then (False, ds) else (False, cs)
                             | [] \<Rightarrow> (False, []));
                 e = takeWhile is_digit r in
             if e = [] then (0, s)
             else ((if neg then - int (digits_value e) else int (digits_value e)), dropWhile is_digit r))
          else (0, s)
      | [] \<Rightarrow> (0, []))"

definition scale10 :: "rat \<Rightarrow> int \<Rightarrow> rat" where
  "scale10 q e = (if 0 \<le> e then q * 10 ^ nat e else q / 10 ^ nat (- e))"

text \<open>\<open>float(s)\<close>: surrounding white space, sign, digits with an optional fraction, optional exponent.\<close>

definition py_float :: "string \<Rightarrow> rat result" where
  "py_float s =
     (let t = strip_ws s; bad = Inl (Exn ValueError ''could not convert string to float'');
          (neg, u) = (case t of c # cs \<Rightarrow> if c = CHR ''-'' then (True, cs) else if c = CHR ''+'' then (False, cs) else (False, t)
                      | [] \<Rightarrow> (False, []));
          ip = takeWhile is_digit u; r1 = dropWhile is_digit u;
          (fp, r2) = (case r1 of c # cs \<Rightarrow> if c = CHR ''.'' then (takeWhile is_digit cs, dropWhile is_digit cs) else ([], r1)
                      | [] \<Rightarrow> ([], []));
          (e, r3) = exponent r2;
          q = scale10 (of_nat (digits_value (ip @ fp))) (e - int (length fp)) in
      if (ip = [] \<and> fp = []) \<or> r3 \<noteq> [] then bad else Inr (if neg then - q else q))"

section \<open>JSON\<close>

definition json_error :: exn where
  "json_error = Exn JSONDecodeError ''Expecting value''"

definition json_space :: "char \<Rightarrow> bool" where
  "json_space c \<longleftrightarrow> code_of c \<in> {9, 10, 13, 32}"

definition skip_ws :: "string \<Rightarrow> string" where
  "skip_ws s = dropWhile json_space s"

definition json_number :: "string \<Rightarrow> (json \<times> string) result" where
  "json_number s =
     (let (neg, u) = (case s of c # cs \<Rightarrow> if c = CHR ''-'' then (True, cs) else (False, s) | [] \<Rightarrow> (False, []));
          ip = takeWhile is_digit u; r1 = dropWhile is_digit u in
      if ip = [] then Inl json_error
      else if hd ip = CHR ''0'' \<and> 1 < length ip then Inr (JInt 0, tl u)
      else
        (let (frac, fp, r2) = (case r1 of c # cs \<Rightarrow>
                 if c = CHR ''.'' \<and> takeWhile is_digit cs \<noteq> [] then (True, takeWhile is_digit cs, dropWhile is_digit cs)
                 else (False, [], r1) | [] \<Rightarrow> (False, [], []));
             (e, r3) = exponent r2;
             q = scale10 (of_nat (digits_value (ip @ fp))) (e - int (length fp)) in
         Inr (if frac \<or> r3 \<noteq> r2 then JFloat (if neg then - q else q)
              else JInt (if neg then - int (digits_value ip) else int (digits_value ip)), r3)))"

definition hex_value :: "char \<Rightarrow> nat option" where
  "hex_value c =
     (let n = code_of c in
      if 48 \<le> n \<and> n \<le> 57 then Some (n - 48) else if 65 \<le> n \<and> n \<le> 70 then Some (n - 55)
      else if 97 \<le> n \<and> n \<le> 102 then Some (n - 87) else None)"

fun hex4 :: "string \<Rightarrow> (nat \<times> string) option" where
  "hex4 (a # b # c # d # r) =
     (case (hex_value a, hex_value b, hex_value c, hex_value d) of
        (Some w, Some x, Some y, Some z) \<Rightarrow> Some (((w * 16 + x) * 16 + y) * 16 + z, r)
      | _ \<Rightarrow> None)"
| "hex4 _ = None"

definition utf8_char :: "nat \<Rightarrow> string" where
  "utf8_char n =
     map char_of (if n < 0x80 then [n]
       else if n < 0x800 then [0xC0 + n div 64, 0x80 + n mod 64]
       else if n < 0x10000 then [0xE0 + n div 4096, 0x80 + n div 64 mod 64, 0x80 + n mod 64]
       else [0xF0 + n div 262144, 0x80 + n div 4096 mod 64, 0x80 + n div 64 mod 64, 0x80 + n mod 64])"

definition escape_char :: "char \<Rightarrow> nat option" where
  "escape_char c =
     map_of [(34, 34), (92, 92), (47, 47), (98, 8), (102, 12), (110, 10), (114, 13), (116, 9)] (code_of c)"

text \<open>The characters of a string literal after the opening quote; a surrogate pair is one character.\<close>

fun json_chars :: "nat \<Rightarrow> string \<Rightarrow> (string \<times> string) option" where
  "json_chars 0 s = None"
| "json_chars (Suc f) [] = None"
| "json_chars (Suc f) (c # cs) =
     (if code_of c = 34 then Some ([], cs)
      else if code_of c < 32 then None
      else if code_of c \<noteq> 92 then map_option (\<lambda>(t, r). (c # t, r)) (json_chars f cs)
      else (case cs of
          [] \<Rightarrow> None
        | d # ds \<Rightarrow>
            if d = CHR ''u'' then
              (case hex4 ds of None \<Rightarrow> None
               | Some (hi, r) \<Rightarrow>
                   (case (if 0xD800 \<le> hi \<and> hi < 0xDC00 \<and> prefix [CHR 0x5C, CHR ''u''] r then hex4 (drop 2 r) else None) of
                      Some (lo, r') \<Rightarrow>
                        if 0xDC00 \<le> lo \<and> lo < 0xE000
                        then map_option (\<lambda>(t, q). (utf8_char (0x10000 + (hi - 0xD800) * 1024 + (lo - 0xDC00)) @ t, q)) (json_chars f r')
                        else map_option (\<lambda>(t, q). (utf8_char hi @ t, q)) (json_chars f r)
                    | None \<Rightarrow> map_option (\<lambda>(t, q). (utf8_char hi @ t, q)) (json_chars f r)))
            else (case escape_char d of None \<Rightarrow> None
                  | Some n \<Rightarrow> map_option (\<lambda>(t, r). (char_of n # t, r)) (json_chars f ds))))"

text \<open>Values, elements of an array, and members of an object.\<close>

fun json_value :: "nat \<Rightarrow> string \<Rightarrow> (json \<times> string) result"
  and json_elements :: "nat \<Rightarrow> string \<Rightarrow> (json list \<times> string) result"
  and json_members :: "nat \<Rightarrow> string \<Rightarrow> ((string \<times> json) list \<times> string) result" where
  "json_value 0 s = Inl json_error"
| "json_value (Suc f) s =
     (case skip_ws s of
        [] \<Rightarrow> Inl json_error
      | c # cs \<Rightarrow>
          if code_of c = 34 then
            (case json_chars (Suc (length cs)) cs of None \<Rightarrow> Inl json_error | Some (t, r) \<Rightarrow> Inr (JStr t, r))
          else if c = CHR ''['' then
            (case skip_ws cs of
               d # ds \<Rightarrow> if d = CHR '']'' then Inr (JArr [], ds)
                         else rbind (json_elements f cs) (\<lambda>(vs, r). Inr (JArr vs, r))
             | [] \<Rightarrow> Inl json_error)
          else if c = CHR ''{'' then
            (case skip_ws cs of
               d # ds \<Rightarrow> if d = CHR ''}'' then Inr (JObj [], ds)
                         else rbind (json_members f cs) (\<lambda>(ms, r). Inr (JObj (dict_of fst snd ms), r))
             | [] \<Rightarrow> Inl json_error)
          else if prefix ''true'' (c # cs) then Inr (JBool True, drop 4 (c # cs))
          else if prefix ''false'' (c # cs) then Inr (JBool False, drop 5 (c # cs))
          else if prefix ''null'' (c # cs) then Inr (JNull, drop 4 (c # cs))
          else json_number (c # cs))"
| "json_elements 0 s = Inl json_error"
| "json_elements (Suc f) s =
     rbind (json_value f s) (\<lambda>(v, r).
     case skip_ws r of
       d # ds \<Rightarrow> if d = CHR '']'' then Inr ([v], ds)
                 else if d = CHR '','' then rbind (json_elements f ds) (\<lambda>(vs, q). Inr (v # vs, q))
                 else Inl json_error
     | [] \<Rightarrow> Inl json_error)"
| "json_members 0 s = Inl json_error"
| "json_members (Suc f) s =
     (case skip_ws s of
        q # qs \<Rightarrow>
          if code_of q \<noteq> 34 then Inl json_error
          else (case json_chars (Suc (length qs)) qs of
              None \<Rightarrow> Inl json_error
            | Some (k, r) \<Rightarrow>
                (case skip_ws r of
                   d # ds \<Rightarrow>
                     if d \<noteq> CHR '':'' then Inl json_error
                     else rbind (json_value f ds) (\<lambda>(v, r').
                       case skip_ws r' of
                         e # es \<Rightarrow> if e = CHR ''}'' then Inr ([(k, v)], es)
                                   else if e = CHR '','' then rbind (json_members f es) (\<lambda>(ms, q). Inr ((k, v) # ms, q))
                                   else Inl json_error
                       | [] \<Rightarrow> Inl json_error)
                 | [] \<Rightarrow> Inl json_error))
      | [] \<Rightarrow> Inl json_error)"

definition json_loads :: "string \<Rightarrow> json result" where
  "json_loads s =
     rbind (json_value (2 * length s + 2) s) (\<lambda>(v, r). if skip_ws r = [] then Inr v else Inl json_error)"

section \<open>Lines and pattern scanning\<close>

definition is_line_end :: "char \<Rightarrow> bool" where
  "is_line_end c \<longleftrightarrow> code_of c \<in> {10, 11, 12, 13, 28, 29, 30}"

fun splitlines_aux :: "string \<Rightarrow> string \<Rightarrow> string list" where
  "splitlines_aux cur [] = (if cur = [] then [] else [cur])"
| "splitlines_aux cur (c # cs) =
     (if code_of c = 13 then
        (case cs of d # ds \<Rightarrow> if code_of d = 10 then cur # splitlines_aux [] ds else cur # splitlines_aux [] cs
         | [] \<Rightarrow> [cur])
      else if is_line_end c then cur # splitlines_aux [] cs
      else splitlines_aux (cur @ [c]) cs)"

definition splitlines :: "string \<Rightarrow> string list" where
  "splitlines s = splitlines_aux [] s"

definition lower_char :: "char \<Rightarrow> char" where
  "lower_char c = (if 65 \<le> code_of c \<and> code_of c \<le> 90 then char_of (code_of c + 32) else c)"

definition py_lower :: "string \<Rightarrow> string" where
  "py_lower s = map lower_char s"

text \<open>Leftmost, non-overlapping matches; a matcher returns the match and the text after it.\<close>

function find_all :: "(string \<Rightarrow> ('a \<times> string) option) \<Rightarrow> string \<Rightarrow> 'a list" where
  "find_all m [] = []"
| "find_all m (c # cs) =
     (case m (c # cs) of
        None \<Rightarrow> find_all m cs
      | Some (x, rest) \<Rightarrow> if length rest < length (c # cs) then x # find_all m rest else find_all m cs)"
  by pat_completeness auto
termination
  by (relation "measure (\<lambda>(m, s). length s)") auto

text \<open>\<open>s.replace(old, new)\<close> for a non-empty \<open>old\<close>.\<close>

function py_replace :: "string \<Rightarrow> string \<Rightarrow> string \<Rightarrow> string" where
  "py_replace old new [] = []"
| "py_replace old new (c # cs) =
     (if old \<noteq> [] \<and> prefix old (c # cs) then new @ py_replace old new (drop (length old) (c # cs))
      else c # py_replace old new cs)"
  by pat_completeness auto
termination
  by (relation "measure (\<lambda>(old, new, s). length s)") auto

end
