(* ===== verification/Py_Csv.thy ===== *)
theory Py_Csv
  imports Py_Json
begin

text \<open>
  \<^verbatim>\<open>csv.writer\<close> and \<^verbatim>\<open>csv.DictReader\<close> in their default dialect (comma, double quotes doubled inside
  quoted fields, rows ending in CR LF when written and in any line end when read). The reader is
  the state machine of CPython's \<^verbatim>\<open>_csv\<close> module in its non-strict mode; the limit on the length
  of a field is left out. The main result is that the reader inverts the writer.
\<close>

section \<open>Writing\<close>

definition csv_special :: "char \<Rightarrow> bool" where
  "csv_special c \<longleftrightarrow> code_of c \<in> {10, 13, 34, 44}"

definition csv_field :: "string \<Rightarrow> string" where
  "csv_field s =
     (if list_ex csv_special s
      then [char_of (34 :: nat)] @ concat (map (\<lambda>c. if code_of c = 34 then [c, c] else [c]) s) @ [char_of (34 :: nat)]
      else s)"

definition csv_row :: "string list \<Rightarrow> string" where
  "csv_row cells =
     (if cells = [[]] then [char_of (34 :: nat), char_of (34 :: nat)] else py_join '','' (map csv_field cells))
     @ [char_of (13 :: nat), char_of (10 :: nat)]"

section \<open>Reading\<close>

datatype csv_state = StartRecord | AfterCR | StartField | InField | InQuoted | QuoteInQuoted

text \<open>The state, the field and the record read so far; a step may complete a record.\<close>

type_synonym csv_pos = "csv_state \<times> string \<times> string list"

definition csv_end_record :: "char \<Rightarrow> csv_state" where
  "csv_end_record c = (if code_of c = 13 then AfterCR else StartRecord)"

definition csv_eol :: "char \<Rightarrow> bool" where
  "csv_eol c \<longleftrightarrow> code_of c = 10 \<or> code_of c = 13"

definition csv_start_field :: "string list \<Rightarrow> char \<Rightarrow> csv_pos \<times> string list list" where
  "csv_start_field fs c =
     (if csv_eol c then ((csv_end_record c, [], []), [fs @ [[]]])
      else if code_of c = 34 then ((InQuoted, [], fs), [])
      else if code_of c = 44 then ((StartField, [], fs @ [[]]), [])
      else ((InField, [c], fs), []))"

fun csv_step :: "csv_pos \<Rightarrow> char \<Rightarrow> csv_pos \<times> string list list" where
  "csv_step (StartRecord, cur, fs) c =
     (if csv_eol c then ((csv_end_record c, [], []), [[]]) else csv_start_field [] c)"
| "csv_step (AfterCR, cur, fs) c =
     (if code_of c = 10 then ((StartRecord, [], []), [])
      else if csv_eol c then ((csv_end_record c, [], []), [[]]) else csv_start_field [] c)"
| "csv_step (StartField, cur, fs) c = csv_start_field fs c"
| "csv_step (InField, cur, fs) c =
     (if csv_eol c then ((csv_end_record c, [], []), [fs @ [cur]])
      else if code_of c = 44 then ((StartField, [], fs @ [cur]), [])
      else ((InField, cur @ [c], fs), []))"
| "csv_step (InQuoted, cur, fs) c =
     (if code_of c = 34 then ((QuoteInQuoted, cur, fs), []) else ((InQuoted, cur @ [c], fs), []))"
| "csv_step (QuoteInQuoted, cur, fs) c =
     (if code_of c = 34 then ((InQuoted, cur @ [c], fs), [])
      else if code_of c = 44 then ((StartField, [], fs @ [cur]), [])
      else if csv_eol c then ((csv_end_record c, [], []), [fs @ [cur]])
      else ((InField, cur @ [c], fs), []))"

fun csv_feed :: "csv_pos \<Rightarrow> string \<Rightarrow> csv_pos \<times> string list list" where
  "csv_feed st [] = (st, [])"
| "csv_feed st (c # cs) =
     (let (st', out) = csv_step st c; (st'', rows) = csv_feed st' cs in (st'', out @ rows))"

fun csv_eof :: "csv_pos \<Rightarrow> string list list" where
  "csv_eof (StartRecord, cur, fs) = []"
| "csv_eof (AfterCR, cur, fs) = []"
| "csv_eof (_, cur, fs) = [fs @ [cur]]"

definition csv_rows :: "string \<Rightarrow> string list list" where
  "csv_rows t = (let (st, rows) = csv_feed (StartRecord, [], []) t in rows @ csv_eof st)"

text \<open>\<^verbatim>\<open>DictReader\<close>: the first row names the fields, empty rows are skipped, a missing cell is
  \<^verbatim>\<open>None\<close>. Cells beyond the named fields (stored under the key \<^verbatim>\<open>None\<close>, which no script reads) are dropped.\<close>

type_synonym csv_dict = "(string, string option) dict"

definition csv_dict_row :: "string list \<Rightarrow> string list \<Rightarrow> csv_dict" where
  "csv_dict_row names cells =
     dict_of fst snd (zip names (map Some cells @ replicate (length names - length cells) None))"

definition csv_dicts :: "string \<Rightarrow> csv_dict list" where
  "csv_dicts t =
     (case csv_rows t of [] \<Rightarrow> [] | names # rows \<Rightarrow> map (csv_dict_row names) (filter (\<lambda>r. r \<noteq> []) rows))"

text \<open>Reading a text file with the default \<^verbatim>\<open>newline\<close> translates every line end to LF.\<close>

fun universal_newlines :: "string \<Rightarrow> string" where
  "universal_newlines [] = []"
| "universal_newlines [c] = (if code_of c = 13 then NL else [c])"
| "universal_newlines (c # d # cs) =
     (if code_of c = 13 then NL @ (if code_of d = 10 then universal_newlines cs else universal_newlines (d # cs))
      else c # universal_newlines (d # cs))"

text \<open>\<^verbatim>\<open>r[k]\<close>, and the conversions of a cell: \<^verbatim>\<open>None\<close> has no number.\<close>

definition cell_int :: "string option \<Rightarrow> int result" where
  "cell_int c = (case c of None \<Rightarrow> Inl (Exn TypeError ''int() argument'') | Some s \<Rightarrow> py_int s)"

definition cell_float :: "string option \<Rightarrow> rat result" where
  "cell_float c = (case c of None \<Rightarrow> Inl (Exn TypeError ''float() argument'') | Some s \<Rightarrow> py_float s)"

section \<open>The reader inverts the writer\<close>

lemma csv_feed_append:
  "csv_feed st (xs @ ys) =
     (let (st', out) = csv_feed st xs; (st'', rows) = csv_feed st' ys in (st'', out @ rows))"
  by (induction xs arbitrary: st) (auto split: prod.splits)

lemma csv_feed_plain:
  "list_all (\<lambda>c. \<not> csv_special c) s \<Longrightarrow> csv_feed (InField, cur, fs) s = ((InField, cur @ s, fs), [])"
  by (induction s arbitrary: cur) (auto simp: csv_special_def csv_eol_def)

lemma csv_feed_quoted:
  "csv_feed (InQuoted, cur, fs) (concat (map (\<lambda>c. if code_of c = 34 then [c, c] else [c]) s)) = ((InQuoted, cur @ s, fs), [])"
  by (induction s arbitrary: cur) auto

lemma code_of_char [simp]: "n < 256 \<Longrightarrow> code_of (char_of n) = n"
  by (simp add: code_of_def)

text \<open>A field of a record, from the start of the field up to its end.\<close>

definition field_end :: "string \<Rightarrow> string list \<Rightarrow> csv_pos \<Rightarrow> bool" where
  "field_end s fs st \<longleftrightarrow> st \<in> {(InField, s, fs), (QuoteInQuoted, s, fs)} \<or> s = [] \<and> st = (StartField, [], fs)"

lemma csv_feed_field: "\<exists>st. csv_feed (StartField, cur, fs) (csv_field s) = (st, []) \<and> (st = (StartField, cur, fs) \<and> s = [] \<or> field_end s fs st)"
proof (cases "list_ex csv_special s")
  case True
  then show ?thesis
    by (simp add: csv_field_def csv_feed_append csv_feed_quoted csv_start_field_def csv_eol_def field_end_def)
next
  case False
  then have "list_all (\<lambda>c. \<not> csv_special c) s" by (simp add: list_ex_iff list_all_iff)
  with False show ?thesis
    by (cases s) (auto simp: csv_field_def csv_start_field_def csv_eol_def csv_special_def csv_feed_plain field_end_def
        split: if_splits)
qed

lemma field_end_comma:
  "field_end s fs st \<Longrightarrow> csv_step st (CHR '','') = ((StartField, [], fs @ [s]), [])"
  by (auto simp: field_end_def csv_eol_def csv_start_field_def code_of_def)

lemma field_end_cr:
  "field_end s fs st \<Longrightarrow> csv_step st (char_of (13 :: nat)) = ((AfterCR, [], []), [fs @ [s]])"
  by (auto simp: field_end_def csv_eol_def csv_end_record_def csv_start_field_def)

lemma csv_feed_cells:
  "cells \<noteq> [] \<Longrightarrow>
   csv_feed (StartField, [], fs) (py_join '','' (map csv_field cells) @ [char_of (13 :: nat), char_of (10 :: nat)])
     = ((StartRecord, [], []), [fs @ cells])"
proof (induction cells arbitrary: fs rule: list_nonempty_induct)
  case (single s)
  obtain st where "csv_feed (StartField, [], fs) (csv_field s) = (st, [])" "field_end s fs st"
    using csv_feed_field [of "[]" fs s] by (auto simp: field_end_def)
  then show ?case by (simp add: csv_feed_append field_end_cr)
next
  case (cons s cells)
  obtain st where st: "csv_feed (StartField, [], fs) (csv_field s) = (st, [])" "field_end s fs st"
    using csv_feed_field [of "[]" fs s] by (auto simp: field_end_def)
  obtain t ts where [simp]: "cells = t # ts" using cons.hyps by (cases cells) auto
  show ?case
    using st cons.IH [of "fs @ [s]"] by (simp add: csv_feed_append field_end_comma)
qed

lemma csv_feed_start_record:
  assumes "s \<noteq> []" "\<not> csv_eol (hd s)"
  shows "csv_feed (StartRecord, [], []) s = csv_feed (StartField, [], []) s"
  using assms by (cases s) (auto split: prod.splits)

lemma csv_row_start:
  assumes "cells \<noteq> []" "cells \<noteq> [[]]"
  shows "py_join '','' (map csv_field cells) \<noteq> [] \<and> \<not> csv_eol (hd (py_join '','' (map csv_field cells)))"
proof -
  have f: "csv_field s = [] \<longleftrightarrow> s = []" "s \<noteq> [] \<Longrightarrow> \<not> csv_eol (hd (csv_field s))" for s
    by (cases s; auto simp: csv_field_def csv_eol_def csv_special_def list_ex_iff hd_append)+
  obtain s ss where "cells = s # ss" using assms by (cases cells) auto
  then show ?thesis using assms f [of s]
    by (cases ss; cases "s = []") (auto simp: hd_append csv_eol_def code_of_def)
qed

lemma csv_feed_row:
  assumes "cells \<noteq> []"
  shows "csv_feed (StartRecord, [], []) (csv_row cells) = ((StartRecord, [], []), [cells])"
proof (cases "cells = [[]]")
  case True
  then show ?thesis by (simp add: csv_row_def csv_start_field_def csv_eol_def csv_end_record_def)
next
  case False
  with csv_row_start [OF assms] csv_feed_cells [OF assms, of "[]"] show ?thesis
    by (subst csv_feed_start_record) (auto simp: csv_row_def)
qed

lemma csv_feed_rows:
  "[] \<notin> set rows \<Longrightarrow> csv_feed (StartRecord, [], []) (concat (map csv_row rows)) = ((StartRecord, [], []), rows)"
  by (induction rows) (auto simp: csv_feed_append csv_feed_row)

lemma csv_rows_written: "[] \<notin> set rows \<Longrightarrow> csv_rows (concat (map csv_row rows)) = rows"
  by (simp add: csv_rows_def csv_feed_rows)

text \<open>What \<^verbatim>\<open>DictReader\<close> makes of a written table: the cells under their names.\<close>

lemma csv_dicts_written:
  assumes "names \<noteq> []" "distinct names" "\<forall>r \<in> set rows. length r = length names"
  shows "csv_dicts (csv_row names @ concat (map csv_row rows)) = map (\<lambda>r. zip names (map Some r)) rows"
proof -
  have "csv_rows (concat (map csv_row (names # rows))) = names # rows"
    by (rule csv_rows_written) (use assms in auto)
  moreover have "filter (\<lambda>r. r \<noteq> []) rows = rows" using assms by (auto simp: filter_id_conv)
  moreover have "csv_dict_row names r = zip names (map Some r)" if "r \<in> set rows" for r
    using assms that by (simp add: csv_dict_row_def dict_of_distinct)
  ultimately show ?thesis by (simp add: csv_dicts_def)
qed

end
