(* ===== verification/Node_Logger.thy ===== *)
theory Node_Logger
  imports Py_World Py_Csv
begin

unbundle bit_operations_syntax

text \<open>
  \<^verbatim>\<open>scripts/framework/logger.py\<close>: how the experiments observe the cluster. It holds the
  hand-written protobuf decoder of \<^verbatim>\<open>QueryStateResponse\<close>, the node query that turns every
  expected failure into a sentinel sample, sampling of all nodes, the polling loop, the lookup of
  a validator's own precommit, and the \<^verbatim>\<open>bitcoin-cli\<close> wrapper.

  The theorems: the decoder inverts the protobuf encoding of the message, and classifies every
  other input; the query returns a sample for every failure it lists; the polling loop ends,
  its samples come in complete rounds, and their number is bounded by duration over interval.
\<close>

section \<open>Constants\<close>

definition NODE_RPC_PORTS :: "(string, int) dict" where
  "NODE_RPC_PORTS =
     [(''engram-node01'', 26657), (''engram-node02'', 26757),
      (''engram-node03'', 26857), (''engram-node04'', 26957)]"

definition QUERY_STATE_PATH :: string where
  "QUERY_STATE_PATH = ''/engram.sovereignty.v1.Query/State''"

section \<open>Decoding QueryStateResponse\<close>

record query_state =
  dec_fsm_state :: string
  dec_safe_blocks :: int
  dec_suspicious_duration :: int
  dec_reanchoring_proof_valid :: bool

definition query_state_init :: query_state where
  "query_state_init = \<lparr>dec_fsm_state = [], dec_safe_blocks = 0, dec_suspicious_duration = 0,
     dec_reanchoring_proof_valid = False\<rparr>"

text \<open>The inner loop on a varint. The byte position is the suffix still to read; reading past the
  end raises as \<^verbatim>\<open>raw[i]\<close> does.\<close>

fun read_varint :: "int \<Rightarrow> nat \<Rightarrow> byte list \<Rightarrow> (int \<times> byte list) result" where
  "read_varint value shift [] = Inl (Exn IndexError ''index out of range'')"
| "read_varint value shift (b # bs) =
     (let value' = value OR push_bit shift (uint b AND 0x7F) in
      if uint b AND 0x80 = 0 then Inr (value', bs)
      else read_varint value' (shift + 7) bs)"

definition set_varint_field :: "int \<Rightarrow> int \<Rightarrow> query_state \<Rightarrow> query_state" where
  "set_varint_field field_num value out =
     (if field_num = 2 then out\<lparr>dec_safe_blocks := value\<rparr>
      else if field_num = 3 then out\<lparr>dec_suspicious_duration := value\<rparr>
      else if field_num = 4 then out\<lparr>dec_reanchoring_proof_valid := (value \<noteq> 0)\<rparr>
      else out)"

lemma read_varint_shrinks: "read_varint v n bs = Inr (x, rest) \<Longrightarrow> length rest < length bs"
  by (induction v n bs rule: read_varint.induct) (fastforce simp: Let_def split: if_splits)+

text \<open>The outer loop over tags. A slice \<^verbatim>\<open>raw[i : i + length]\<close> never raises: it is cut short at the
  end of the input.\<close>

function decode_fields :: "query_state \<Rightarrow> byte list \<Rightarrow> query_state result" where
  "decode_fields out [] = Inr out"
| "decode_fields out (tag # rest) =
     (let field_num = drop_bit 3 (uint tag); wire_type = uint tag AND 0x7 in
      if wire_type = 2 then
        (case rest of
           [] \<Rightarrow> Inl (Exn IndexError ''index out of range'')
         | len # bs \<Rightarrow>
             (let payload = take (unat len) bs; rest' = drop (unat len) bs in
              if field_num = 1 then
                (case utf8_decode payload of
                   Inl e \<Rightarrow> Inl e
                 | Inr s \<Rightarrow> decode_fields (out\<lparr>dec_fsm_state := s\<rparr>) rest')
              else decode_fields out rest'))
      else if wire_type = 0 then
        (case read_varint 0 0 rest of
           Inl e \<Rightarrow> Inl e
         | Inr (value, rest') \<Rightarrow> decode_fields (set_varint_field field_num value out) rest')
      else Inl (Exn ValueError
             (''unexpected wire type '' @ py_str_int wire_type @ '' for field '' @ py_str_int field_num)))"
  by pat_completeness auto
termination
  by (relation "measure (\<lambda>(out, bs). length bs)") (auto dest: read_varint_shrinks)

text \<open>\<^verbatim>\<open>_decode_query_state\<close>; an empty or missing value is the empty message.\<close>

fun decode_query_state :: "json \<Rightarrow> query_state result" where
  "decode_query_state (JStr s) =
     (if s = [] then Inr query_state_init
      else (case b64decode s of Inl e \<Rightarrow> Inl e | Inr raw \<Rightarrow> decode_fields query_state_init raw))"
| "decode_query_state j =
     (if json_truthy j then Inl (Exn TypeError ''argument should be a bytes-like object or ASCII string'')
      else Inr query_state_init)"

section \<open>Querying nodes\<close>

record NodeSample =
  timestamp :: rat
  node :: string
  height :: int
  app_hash :: json
  catching_up :: bool
  fsm_state :: string
  safe_blocks :: int
  suspicious_duration :: int
  reanchoring_proof_valid :: bool
  error :: string

definition rpc_get :: "env \<Rightarrow> int \<Rightarrow> string \<Rightarrow> json py" where
  "rpc_get E port path = http_get E port path"

text \<open>\<^verbatim>\<open>port or NODE_RPC_PORTS[node]\<close>.\<close>

definition resolve_port :: "string \<Rightarrow> int option \<Rightarrow> int result" where
  "resolve_port n port =
     (case port of Some p \<Rightarrow> if p \<noteq> 0 then Inr p else dict_item NODE_RPC_PORTS n
      | None \<Rightarrow> dict_item NODE_RPC_PORTS n)"

definition parse_status :: "json \<Rightarrow> (int \<times> json \<times> bool) result" where
  "parse_status status =
     rbind (json_item status ''result'') (\<lambda>res.
     rbind (json_item res ''sync_info'') (\<lambda>sync_info.
     rbind (json_item sync_info ''latest_block_height'') (\<lambda>h.
     rbind (json_int h) (\<lambda>height.
     rbind (json_item sync_info ''latest_app_hash'') (\<lambda>app_hash.
     rbind (json_item sync_info ''catching_up'') (\<lambda>cu.
     Inr (height, app_hash, json_truthy cu)))))))"

definition parse_abci :: "json \<Rightarrow> query_state result" where
  "parse_abci abci =
     rbind (json_item abci ''result'') (\<lambda>res.
     rbind (json_item res ''response'') (\<lambda>resp.
     rbind (json_get resp ''code'' (JInt 0)) (\<lambda>code.
     if \<not> json_is_zero code then Inl (Exn RuntimeError ''abci_query error'')
     else rbind (json_get resp ''value'' (JStr [])) decode_query_state)))"

definition ABCI_QUERY_STATE :: string where
  "ABCI_QUERY_STATE = ''/abci_query?path=%22'' @ QUERY_STATE_PATH @ ''%22&data=0x''"

definition QUERY_ERRORS :: "exn_kind list" where
  "QUERY_ERRORS = [URLError, TimeoutError, KeyError, ValueError, RuntimeError, OSError]"

definition error_sample :: "rat \<Rightarrow> string \<Rightarrow> exn \<Rightarrow> NodeSample" where
  "error_sample ts n e = \<lparr>timestamp = ts, node = n, height = -1, app_hash = JStr [],
     catching_up = False, fsm_state = [], safe_blocks = 0, suspicious_duration = 0,
     reanchoring_proof_valid = False, error = exn_str e\<rparr>"

definition query_node :: "env \<Rightarrow> string \<Rightarrow> int option \<Rightarrow> NodeSample py" where
  "query_node E n port =
     py_bind (py_lift (resolve_port n port)) (\<lambda>p.
     py_bind time_time (\<lambda>ts.
     py_try
       (py_bind (rpc_get E p ''/status'') (\<lambda>status.
        py_bind (py_lift (parse_status status)) (\<lambda>(h, ah, cu).
        py_bind (rpc_get E p ABCI_QUERY_STATE) (\<lambda>abci.
        py_bind (py_lift (parse_abci abci)) (\<lambda>st.
        py_return \<lparr>timestamp = ts, node = n, height = h, app_hash = ah, catching_up = cu,
          fsm_state = dec_fsm_state st, safe_blocks = dec_safe_blocks st,
          suspicious_duration = dec_suspicious_duration st,
          reanchoring_proof_valid = dec_reanchoring_proof_valid st, error = []\<rparr>)))))
       QUERY_ERRORS (\<lambda>e. py_return (error_sample ts n e))))"

definition sample_all_nodes :: "env \<Rightarrow> string list \<Rightarrow> NodeSample list py" where
  "sample_all_nodes E nodes =
     py_map (\<lambda>n. query_node E n None) (if nodes = [] then dict_keys NODE_RPC_PORTS else nodes)"

definition poll_round ::
  "env \<Rightarrow> rat \<Rightarrow> string list \<Rightarrow> (NodeSample list \<Rightarrow> unit py) \<Rightarrow> NodeSample list
   \<Rightarrow> (NodeSample list, unit) ctl py" where
  "poll_round E interval_s nodes on_sample samples =
     py_bind (sample_all_nodes E nodes) (\<lambda>round_samples.
     py_then (on_sample round_samples)
     (py_then (time_sleep E interval_s)
     (py_return (Continue (samples @ round_samples)))))"

definition loop_state :: "('s, unit) ctl \<Rightarrow> 's py" where
  "loop_state k = (case k of Continue s \<Rightarrow> py_return s | Leave _ \<Rightarrow> py_raise (Exn Exception ''unreachable''))"

definition poll_timeline ::
  "env \<Rightarrow> rat \<Rightarrow> rat \<Rightarrow> string list \<Rightarrow> (NodeSample list \<Rightarrow> unit py) \<Rightarrow> NodeSample list py" where
  "poll_timeline E duration_s interval_s nodes on_sample =
     (let nodes' = (if nodes = [] then dict_keys NODE_RPC_PORTS else nodes) in
      py_bind time_time (\<lambda>t0.
      py_bind (py_while (\<lambda>_ w. clock w < t0 + duration_s)
                 (poll_round E interval_s nodes' on_sample) [])
        loop_state))"

section \<open>Consensus state\<close>

definition net_info :: "env \<Rightarrow> string \<Rightarrow> int option \<Rightarrow> json py" where
  "net_info E n port = py_bind (py_lift (resolve_port n port)) (\<lambda>p. rpc_get E p ''/net_info'')"

definition dump_consensus_state :: "env \<Rightarrow> string \<Rightarrow> int option \<Rightarrow> json py" where
  "dump_consensus_state E n port =
     py_bind (py_lift (resolve_port n port)) (\<lambda>p. rpc_get E p ''/dump_consensus_state'')"

definition own_validator_address :: "env \<Rightarrow> string \<Rightarrow> int option \<Rightarrow> json py" where
  "own_validator_address E n port =
     py_bind (py_lift (resolve_port n port)) (\<lambda>p.
     py_bind (rpc_get E p ''/status'') (\<lambda>status.
     py_lift (rbind (json_item status ''result'') (\<lambda>r.
              rbind (json_item r ''validator_info'') (\<lambda>v. json_item v ''address'')))))"

text \<open>\<^verbatim>\<open>next((i for i, v in enumerate(validators) if v["address"] == a), None)\<close>.\<close>

fun find_validator :: "json \<Rightarrow> nat \<Rightarrow> json list \<Rightarrow> nat option result" where
  "find_validator a i [] = Inr None"
| "find_validator a i (v # vs) =
     rbind (json_item v ''address'') (\<lambda>x. if x = a then Inr (Some i) else find_validator a (Suc i) vs)"

definition own_precommit_status :: "json \<Rightarrow> json \<Rightarrow> (int \<times> json) option result" where
  "own_precommit_status dump_state target_address =
     rbind (json_item dump_state ''result'') (\<lambda>res.
     rbind (json_item res ''round_state'') (\<lambda>rs.
     rbind (json_item rs ''validators'') (\<lambda>vset.
     rbind (json_item vset ''validators'') (\<lambda>vs.
     rbind (json_list vs) (\<lambda>validators.
     rbind (find_validator target_address 0 validators) (\<lambda>idx.
     case idx of None \<Rightarrow> Inr None
     | Some index \<Rightarrow>
         rbind (json_get rs ''last_commit'' JNull) (\<lambda>last_commit.
         if \<not> json_truthy last_commit then Inr None
         else rbind (json_get last_commit ''votes'' JNull) (\<lambda>v.
              if \<not> json_truthy v then Inr None
              else rbind (json_item last_commit ''votes'') (\<lambda>vj.
                   rbind (json_list vj) (\<lambda>votes.
                   if length votes \<le> index then Inr None
                   else rbind (json_item rs ''height'') (\<lambda>hj.
                        rbind (json_int hj) (\<lambda>h. Inr (Some (h - 1, votes ! index))))))))))))))"

section \<open>The Bitcoin node\<close>

definition bitcoin_cli :: "env \<Rightarrow> string list \<Rightarrow> string \<Rightarrow> string py" where
  "bitcoin_cli E args n =
     (let user = (case environ E ''BITCOIN_RPC_USER'' of None \<Rightarrow> ''engram_admin'' | Some u \<Rightarrow> u);
          password = (case environ E ''BITCOIN_RPC_PASSWORD'' of None \<Rightarrow> ''secure_password_123'' | Some u \<Rightarrow> u)
      in py_bind (run_proc E ([''docker'', ''exec'', n, ''bitcoin-cli'', ''-regtest'',
                    ''-rpcuser='' @ user, ''-rpcpassword='' @ password] @ args) False) (\<lambda>p.
         if returncode p \<noteq> 0 then py_raise (Exn RuntimeError (''bitcoin-cli: '' @ err_text p))
         else py_return (strip_ws (out_text p))))"

definition bitcoin_height :: "env \<Rightarrow> string \<Rightarrow> int py" where
  "bitcoin_height E n = py_bind (bitcoin_cli E [''getblockcount''] n) (\<lambda>s. py_lift (py_int s))"

section \<open>The protobuf encoding, as specification\<close>

text \<open>proto3: default values are omitted, a field is its tag followed by a varint, or by a varint
  length and the bytes.\<close>

function put_varint :: "nat \<Rightarrow> byte list" where
  "put_varint n = (if n < 128 then [word_of_nat n]
                   else word_of_nat (n mod 128 + 128) # put_varint (n div 128))"
  by pat_completeness auto
termination
  by (relation "measure id") auto

declare put_varint.simps [simp del]

definition put_len_field :: "byte \<Rightarrow> byte list \<Rightarrow> byte list" where
  "put_len_field tag bs = (if bs = [] then [] else tag # put_varint (length bs) @ bs)"

definition put_uint_field :: "byte \<Rightarrow> nat \<Rightarrow> byte list" where
  "put_uint_field tag n = (if n = 0 then [] else tag # put_varint n)"

definition encode_query_state :: "string \<Rightarrow> nat \<Rightarrow> nat \<Rightarrow> bool \<Rightarrow> byte list \<Rightarrow> byte list" where
  "encode_query_state st sb sd pv metrics =
     put_len_field 0x0A (bytes_of st) @ put_uint_field 0x10 sb @ put_uint_field 0x18 sd
     @ put_uint_field 0x20 (if pv then 1 else 0) @ put_len_field 0x2A metrics"

section \<open>The decoder inverts the encoding\<close>

lemma or_push_bit_add:
  fixes v x :: int
  assumes "0 \<le> v" "v < 2 ^ s"
  shows "v OR push_bit s x = v + x * 2 ^ s"
proof -
  have v: "v = take_bit s v" using assms by (simp add: take_bit_int_eq_self)
  have "take_bit s v AND push_bit s x = 0"
    by (rule bit_eqI) (auto simp: bit_simps)
  then have "v AND push_bit s x = 0" using v by simp
  then show ?thesis by (simp add: disjunctive_add_eq_or push_bit_eq_mult flip: disjunctive_add_eq_or)
qed

lemma and_0x7F: "(i :: int) AND 0x7F = i mod 128"
  using take_bit_eq_mask [of 7 i] by (simp add: mask_eq_exp_minus_1 take_bit_eq_mod)

lemma and_0x80: "(i :: int) AND 0x80 = 0 \<longleftrightarrow> even (i div 128)"
  using and_exp_eq_0_iff_not_bit [of i 7] by (simp add: bit_iff_odd)

lemma uint_byte: "n < 256 \<Longrightarrow> uint (word_of_nat n :: byte) = int n"
  by (simp add: uint_nat unat_of_nat)

lemma read_put_varint_acc:
  "0 \<le> v \<Longrightarrow> v < 2 ^ s \<Longrightarrow> read_varint v s (put_varint n @ rest) = Inr (v + int n * 2 ^ s, rest)"
proof (induction n arbitrary: v s rule: put_varint.induct)
  case (1 n)
  show ?case
  proof (cases "n < 128")
    case True
    then have "uint (word_of_nat n :: byte) = int n" by (simp add: uint_byte)
    with 1 True show ?thesis
      by (subst put_varint.simps) (simp add: Let_def and_0x7F and_0x80 or_push_bit_add)
  next
    case False
    define m where "m = n mod 128"
    have m: "m < 128" by (simp add: m_def)
    then have u: "uint (word_of_nat (m + 128) :: byte) = int m + 128"
      using uint_byte [of "m + 128"] by simp
    have low: "(int m + 128) AND 0x7F = int m" using m by (simp add: and_0x7F)
    have high: "(int m + 128) AND 0x80 \<noteq> 0" using m by (simp add: and_0x80)
    have "int m * 2 ^ s \<le> 127 * 2 ^ s" by (rule mult_right_mono) (use m in simp_all)
    moreover have "(2 :: int) ^ (s + 7) = 2 ^ s + 127 * 2 ^ s" by (simp add: power_add)
    ultimately have bound: "v + int m * 2 ^ s < 2 ^ (s + 7)" "0 \<le> v + int m * 2 ^ s"
      using "1.prems" by (linarith, simp)
    have "read_varint v s (put_varint n @ rest)
        = read_varint v s (word_of_nat (m + 128) # put_varint (n div 128) @ rest)"
      using False by (subst put_varint.simps) (simp add: m_def)
    also have "\<dots> = read_varint (v + int m * 2 ^ s) (s + 7) (put_varint (n div 128) @ rest)"
      using 1 high by (simp only: read_varint.simps Let_def u low or_push_bit_add if_False)
    also have "\<dots> = Inr (v + int m * 2 ^ s + int (n div 128) * 2 ^ (s + 7), rest)"
      by (rule "1.IH" [OF False bound(2,1)])
    also have "v + int m * 2 ^ s + int (n div 128) * 2 ^ (s + 7)
        = v + (int m + 128 * int (n div 128)) * 2 ^ s"
      by (simp add: power_add algebra_simps)
    also have "int m + 128 * int (n div 128) = int n"
      unfolding m_def by (metis mult_div_mod_eq of_nat_add of_nat_mult of_nat_numeral add.commute)
    finally show ?thesis .
  qed
qed

lemma read_put_varint: "read_varint 0 0 (put_varint n @ rest) = Inr (int n, rest)"
  using read_put_varint_acc [of 0 0 n rest] by simp

text \<open>One lemma per field of the message: the decoder consumes its encoding and sets it.\<close>

lemma tag_bits:
  "drop_bit 3 (10 :: int) = 1" "(10 :: int) AND 7 = 2" "drop_bit 3 (16 :: int) = 2" "(16 :: int) AND 7 = 0"
  "drop_bit 3 (24 :: int) = 3" "(24 :: int) AND 7 = 0" "drop_bit 3 (32 :: int) = 4" "(32 :: int) AND 7 = 0"
  "drop_bit 3 (42 :: int) = 5" "(42 :: int) AND 7 = 2"
  by simp_all

lemma decode_uint_field:
  assumes "drop_bit 3 (uint tag) = f" "uint tag AND 7 = 0"
  shows "decode_fields out (put_uint_field tag n @ rest) =
    decode_fields (if n = 0 then out else set_varint_field f (int n) out) rest"
  using assms by (simp add: put_uint_field_def read_put_varint)

lemma decode_len_field:
  assumes "uint tag AND 7 = 2" "length bs < 128" "drop_bit 3 (uint tag) = 1 \<longrightarrow> utf8_valid bs"
  shows "decode_fields out (put_len_field tag bs @ rest) =
    decode_fields (if bs \<noteq> [] \<and> drop_bit 3 (uint tag) = 1 then out\<lparr>dec_fsm_state := chars_of bs\<rparr> else out) rest"
proof (cases "bs = []")
  case False
  have "put_varint (length bs) = [word_of_nat (length bs)]"
    using assms by (subst put_varint.simps) simp
  moreover have "unat (word_of_nat (length bs) :: byte) = length bs"
    using assms by (simp add: unat_of_nat)
  ultimately show ?thesis
    using assms False by (simp add: put_len_field_def Let_def utf8_decode_def)
qed (simp add: put_len_field_def)

lemma decode_encode_fields:
  assumes "length st < 128" "utf8_valid (bytes_of st)" "length metrics < 128"
  shows "decode_fields query_state_init (encode_query_state st sb sd pv metrics) =
    Inr \<lparr>dec_fsm_state = st, dec_safe_blocks = int sb, dec_suspicious_duration = int sd,
         dec_reanchoring_proof_valid = pv\<rparr>"
proof -
  have len: "length (bytes_of st) < 128" using assms by (simp add: bytes_of_def)
  have empty: "bytes_of st = [] \<longleftrightarrow> st = []" by (simp add: bytes_of_def)
  have "decode_fields out (put_len_field 0x2A metrics) = Inr out" for out
    using decode_len_field [of "0x2A" metrics out "[]"] assms tag_bits by simp
  then show ?thesis
    using assms len
    by (simp add: encode_query_state_def decode_len_field decode_uint_field tag_bits empty
        set_varint_field_def query_state_init_def)
qed

lemma encode_nonempty: "encode_query_state st sb sd pv metrics = [] \<Longrightarrow>
    st = [] \<and> sb = 0 \<and> sd = 0 \<and> \<not> pv \<and> metrics = []"
  by (auto simp: encode_query_state_def put_len_field_def put_uint_field_def bytes_of_def split: if_splits)

lemma b64encode_eq_Nil [simp]: "b64encode bs = [] \<longleftrightarrow> bs = []"
  by (cases bs rule: b64encode.cases) simp_all

lemma decode_state_message:
  assumes "length st < 128" "utf8_valid (bytes_of st)" "length metrics < 128"
  shows "decode_query_state (JStr (b64encode (encode_query_state st sb sd pv metrics))) =
    Inr \<lparr>dec_fsm_state = st, dec_safe_blocks = int sb, dec_suspicious_duration = int sd,
         dec_reanchoring_proof_valid = pv\<rparr>"
proof (cases "encode_query_state st sb sd pv metrics = []")
  case True
  from encode_nonempty [OF True] True show ?thesis by (simp add: query_state_init_def)
next
  case False
  then show ?thesis by (simp add: b64decode_b64encode decode_encode_fields [OF assms])
qed

text \<open>C1. The hand-written decoder inverts the protobuf encoding of \<^verbatim>\<open>QueryStateResponse\<close>, for every
  value of its numeric fields, whenever the two length-delimited fields are shorter than 128 bytes
  (a one-byte length) and the state is text.\<close>

theorem decode_encode_query_state:
  assumes "length st < 128" "utf8_valid (bytes_of st)" "length metrics < 128"
  shows "decode_query_state (JStr (b64encode (encode_query_state st sb sd pv metrics))) =
    Inr \<lparr>dec_fsm_state = st, dec_safe_blocks = int sb, dec_suspicious_duration = int sd,
         dec_reanchoring_proof_valid = pv\<rparr>"
  by (rule decode_state_message [OF assms])

theorem decode_encode_query_state_witness:
  "decode_query_state (JStr (b64encode (encode_query_state ''SOVEREIGN'' 300 7 True [1, 200]))) =
    Inr \<lparr>dec_fsm_state = ''SOVEREIGN'', dec_safe_blocks = 300, dec_suspicious_duration = 7,
         dec_reanchoring_proof_valid = True\<rparr>"
proof -
  have "utf8_valid (bytes_of ''SOVEREIGN'')" by (simp add: bytes_of_def)
  then show ?thesis
    using decode_encode_query_state [of "''SOVEREIGN''" "[1, 200]" 300 7 True] by simp
qed

section \<open>What the decoder does with any other input\<close>

lemma read_varint_error: "read_varint v n bs = Inl e \<Longrightarrow> exn_class e = IndexError"
  by (induction v n bs rule: read_varint.induct) (auto simp: Let_def split: if_splits)

lemma read_varint_truncated:
  "\<forall>b \<in> set bs. uint b AND 0x80 \<noteq> 0 \<Longrightarrow> \<exists>e. read_varint v n bs = Inl e \<and> exn_class e = IndexError"
  by (induction v n bs rule: read_varint.induct) (auto simp: Let_def)

lemma decode_fields_error:
  "decode_fields out bs = Inl e \<Longrightarrow> exn_class e \<in> {IndexError, ValueError, UnicodeDecodeError}"
proof (induction out bs rule: decode_fields.induct)
  case (1 out)
  then show ?case by simp
next
  case (2 out tag rest)
  then show ?case
    by (auto simp: Let_def utf8_decode_def dest: read_varint_error
        split: if_splits list.splits sum.splits)
qed

lemma a2b_base64_error: "a2b_base64 q l p out s = Inl e \<Longrightarrow> exn_class e = BinasciiError"
  by (induction q l p out s rule: a2b_base64.induct)
    (auto split: if_splits option.splits simp del: of_nat_add of_nat_mult)

lemma decode_query_state_error:
  "decode_query_state j = Inl e \<Longrightarrow>
     exn_class e \<in> {IndexError, TypeError, ValueError, UnicodeDecodeError, BinasciiError}"
  by (cases j)
    (auto simp: b64decode_def split: if_splits sum.splits dest!: decode_fields_error a2b_base64_error)

text \<open>Every failure of the decoder is caught by the \<^verbatim>\<open>except\<close> clause of \<^verbatim>\<open>query_node\<close> except two
  classes: reading past the end of the bytes (\<^verbatim>\<open>IndexError\<close>) and a value that is not text
  (\<^verbatim>\<open>TypeError\<close>).\<close>

theorem decode_errors_caught:
  assumes "decode_query_state j = Inl e"
  shows "caught_by QUERY_ERRORS e \<longleftrightarrow> exn_class e \<notin> {IndexError, TypeError}"
proof -
  obtain k m where e: "e = Exn k m" by (cases e)
  have "k \<in> {IndexError, TypeError, ValueError, UnicodeDecodeError, BinasciiError}"
    using decode_query_state_error [OF assms] by (simp add: e)
  then show ?thesis
    unfolding e caught_by_def QUERY_ERRORS_def by (elim insertE) simp_all
qed

theorem decode_errors_caught_witness:
  "\<exists>e. decode_query_state (JStr (b64encode [9])) = Inl e \<and>
     (caught_by QUERY_ERRORS e \<longleftrightarrow> exn_class e \<notin> {IndexError, TypeError})"
proof -
  have "\<exists>e. decode_query_state (JStr (b64encode [9])) = Inl e"
    by (simp add: b64decode_b64encode del: b64encode.simps)
  then show ?thesis using decode_errors_caught by blast
qed

section \<open>A query\<close>

text \<open>The answers of a node whose chain is at height \<open>h\<close> and whose sovereignty module is in the given
  state: CometBFT renders the height as a decimal string and the query result as base64.\<close>

definition status_doc :: "int \<Rightarrow> string \<Rightarrow> bool \<Rightarrow> json" where
  "status_doc h ah cu =
     JObj [(''result'', JObj [(''sync_info'', JObj [(''latest_block_height'', JStr (py_str_int h)),
       (''latest_app_hash'', JStr ah), (''catching_up'', JBool cu)])])]"

definition state_doc :: "byte list \<Rightarrow> json" where
  "state_doc raw =
     JObj [(''result'', JObj [(''response'', JObj [(''code'', JInt 0), (''value'', JStr (b64encode raw))])])]"

lemma parse_status_doc: "parse_status (status_doc h ah cu) = Inr (h, JStr ah, cu)"
  by (simp add: parse_status_def status_doc_def dict_item_def py_int_of_str)

lemma parse_state_doc: "parse_abci (state_doc raw) = decode_query_state (JStr (b64encode raw))"
  by (simp add: parse_abci_def state_doc_def dict_item_def dict_get_def)

definition query_body :: "env \<Rightarrow> string \<Rightarrow> int \<Rightarrow> rat \<Rightarrow> NodeSample py" where
  "query_body E n p ts =
     py_bind (rpc_get E p ''/status'') (\<lambda>status.
     py_bind (py_lift (parse_status status)) (\<lambda>(h, ah, cu).
     py_bind (rpc_get E p ABCI_QUERY_STATE) (\<lambda>abci.
     py_bind (py_lift (parse_abci abci)) (\<lambda>st.
     py_return \<lparr>timestamp = ts, node = n, height = h, app_hash = ah, catching_up = cu,
       fsm_state = dec_fsm_state st, safe_blocks = dec_safe_blocks st,
       suspicious_duration = dec_suspicious_duration st,
       reanchoring_proof_valid = dec_reanchoring_proof_valid st, error = []\<rparr>))))"

lemma query_node_known:
  assumes "map_of NODE_RPC_PORTS n = Some p"
  shows "query_node E n None w =
    py_try (query_body E n p (clock w)) QUERY_ERRORS (\<lambda>e. py_return (error_sample (clock w) n e)) w"
  using assms
  by (simp add: query_node_def resolve_port_def dict_item_def py_bind_def py_lift_def time_time_def
      query_body_def)

lemma query_body_steps:
  "query_body E n p ts w =
     (let r1 = http E w p ''/status''; w1 = emit E (RpcGet p ''/status'' r1) 0 w in
      case rbind r1 parse_status of
        Inl e \<Rightarrow> Some (Inl e, w1)
      | Inr (h, ah, cu) \<Rightarrow>
          (let r2 = http E w1 p ABCI_QUERY_STATE; w2 = emit E (RpcGet p ABCI_QUERY_STATE r2) 0 w1 in
           case rbind r2 parse_abci of
             Inl e \<Rightarrow> Some (Inl e, w2)
           | Inr st \<Rightarrow> Some (Inr \<lparr>timestamp = ts, node = n, height = h, app_hash = ah, catching_up = cu,
                 fsm_state = dec_fsm_state st, safe_blocks = dec_safe_blocks st,
                 suspicious_duration = dec_suspicious_duration st,
                 reanchoring_proof_valid = dec_reanchoring_proof_valid st, error = []\<rparr>, w2)))"
  by (auto simp: query_body_def py_bind_def rpc_get_def http_get_def py_lift_def py_return_def Let_def
      split: sum.splits)

lemma query_node_answers:
  assumes "map_of NODE_RPC_PORTS n = Some p"
    and "\<And>v. http E v p ''/status'' = Inr (status_doc h ah cu)"
    and "\<And>v. http E v p ABCI_QUERY_STATE = Inr (state_doc (encode_query_state st sb sd pv metrics))"
    and "length st < 128" "utf8_valid (bytes_of st)" "length metrics < 128"
  shows "\<exists>w'. query_node E n None w = Some (Inr \<lparr>timestamp = clock w, node = n, height = h,
      app_hash = JStr ah, catching_up = cu, fsm_state = st, safe_blocks = int sb,
      suspicious_duration = int sd, reanchoring_proof_valid = pv, error = []\<rparr>, w')"
proof -
  have "parse_abci (state_doc (encode_query_state st sb sd pv metrics)) =
      Inr \<lparr>dec_fsm_state = st, dec_safe_blocks = int sb, dec_suspicious_duration = int sd,
         dec_reanchoring_proof_valid = pv\<rparr>"
    using assms(4-6) by (simp only: parse_state_doc decode_state_message)
  then show ?thesis
    using assms(1-3)
    by (simp add: query_node_known py_try_def query_body_steps parse_status_doc Let_def)
qed





text \<open>A protobuf payload cut off inside a varint escapes \<^verbatim>\<open>query_node\<close> as \<^verbatim>\<open>IndexError\<close>, which
  none of the listed classes covers: the polling loop of the caller dies with it.\<close>

theorem query_node_truncated_escapes:
  assumes "map_of NODE_RPC_PORTS n = Some p"
    and "\<And>v. http E v p ''/status'' = Inr (status_doc h ah cu)"
    and "\<And>v. http E v p ABCI_QUERY_STATE = Inr (state_doc (0x10 # bs))"
    and "\<forall>b \<in> set bs. uint b AND 0x80 \<noteq> 0"
  shows "\<exists>e w'. query_node E n None w = Some (Inl e, w') \<and> exn_class e = IndexError"
proof -
  obtain e where e: "read_varint 0 0 bs = Inl e" "exn_class e = IndexError"
    using read_varint_truncated [OF assms(4)] by blast
  then have "parse_abci (state_doc (0x10 # bs)) = Inl e"
    by (simp add: parse_state_doc b64decode_b64encode del: b64encode.simps)
  moreover have "\<not> caught_by QUERY_ERRORS e"
    using e(2) by (cases e) (simp add: caught_by_def QUERY_ERRORS_def)
  ultimately show ?thesis
    using assms(1-3) e(2)
    by (simp add: query_node_known py_try_def query_body_steps parse_status_doc Let_def)
qed

theorem query_node_truncated_escapes_witness:
  "\<exists>e w'. query_node (static_env (\<lambda>_ path. Inr (if path = ''/status'' then status_doc 42 ''AB'' False
          else state_doc [0x10, 0x80])) (\<lambda>_ _. Inl (Exn OSError [])))
      ''engram-node01'' None start_world = Some (Inl e, w') \<and> exn_class e = IndexError"
  by (rule query_node_truncated_escapes [of _ 26657 _ 42 "''AB''" False "[0x80]"])
    (simp_all add: NODE_RPC_PORTS_def ABCI_QUERY_STATE_def)

section \<open>The polling loop\<close>

lemma query_node_emits [emits_intros]: "(\<And>p q r. S (RpcGet p q r)) \<Longrightarrow> emits S (query_node E n port)"
  unfolding query_node_def rpc_get_def
  by (intro emits_intros) simp_all

lemma query_node_total [total_intros]: "total (query_node E n port)"
  unfolding query_node_def rpc_get_def
  by (intro total_intros)

lemma wp_query_node:
  "wp (query_node E n port) (\<lambda>s w'. node s = n \<and> timestamp s = clock w \<and> clock w \<le> clock w')
     (\<lambda>_ _. True) w"
  unfolding query_node_def rpc_get_def
  by (auto simp: wp_simps error_sample_def emit_def split: sum.splits)

lemma sample_all_nodes_emits [emits_intros]:
  "(\<And>p q r. S (RpcGet p q r)) \<Longrightarrow> emits S (sample_all_nodes E ns)"
  unfolding sample_all_nodes_def by (intro emits_intros)

lemma sample_all_nodes_total [total_intros]: "total (sample_all_nodes E ns)"
  unfolding sample_all_nodes_def by (intro total_intros)

definition node_list :: "string list \<Rightarrow> string list" where
  "node_list ns = (if ns = [] then dict_keys NODE_RPC_PORTS else ns)"

lemma node_list_idem [simp]: "node_list (node_list ns) = node_list ns"
  by (simp add: node_list_def dict_keys_def NODE_RPC_PORTS_def)

lemma wp_sample_all_nodes:
  "wp (sample_all_nodes E ns)
     (\<lambda>ss w'. map node ss = node_list ns \<and> sorted (map timestamp ss) \<and> clock w \<le> clock w' \<and>
        (\<forall>s \<in> set ss. clock w \<le> timestamp s \<and> timestamp s \<le> clock w')) (\<lambda>_ _. True) w"
proof -
  let ?ns = "node_list ns"
  let ?I = "\<lambda>(ss :: NodeSample list) (w' :: world). map node ss = take (length ss) ?ns \<and> sorted (map timestamp ss) \<and> clock w \<le> clock w' \<and>
     (\<forall>s \<in> set ss. clock w \<le> timestamp s \<and> timestamp s \<le> clock w')"
  have "wp (py_map (\<lambda>n. query_node E n None) ?ns) (\<lambda>v w'. length v = length ?ns \<and> ?I v w') (\<lambda>_ _. True) w"
  proof (rule wp_map)
    fix ys x zs v w'
    assume *: "?ns = ys @ x # zs" "length v = length ys" "?I v w'"
    show "wp (query_node E x None) (\<lambda>y w''. ?I (v @ [y]) w'') (\<lambda>_ _. True) w'"
      by (rule wp_mono [OF wp_query_node]) (use * in \<open>auto simp: sorted_append intro: order_trans\<close>)
  qed simp
  then show ?thesis
    unfolding sample_all_nodes_def node_list_def [symmetric] by (rule wp_mono) auto
qed

text \<open>One round: it samples every node once, in order, and lasts at least the interval.\<close>

definition round_ok :: "string list \<Rightarrow> rat \<Rightarrow> world \<Rightarrow> NodeSample list \<Rightarrow> world \<Rightarrow> bool" where
  "round_ok ns interval w ss w' \<longleftrightarrow>
     map node ss = node_list ns \<and> sorted (map timestamp ss) \<and> clock w + interval \<le> clock w' \<and>
     (\<forall>s \<in> set ss. clock w \<le> timestamp s \<and> timestamp s \<le> clock w')"

lemma wp_poll_round:
  assumes "0 \<le> interval" "\<And>ss. steady (cb ss)"
  shows "wp (poll_round E interval ns cb samples)
    (\<lambda>k w'. case k of Leave _ \<Rightarrow> False | Continue s \<Rightarrow> \<exists>ss. s = samples @ ss \<and> round_ok ns interval w ss w')
    (\<lambda>_ _. True) w"
proof -
  have cb: "wp (cb ss) (\<lambda>_ v'. clock v \<le> clock v') (\<lambda>_ _. True) v" for ss v
    by (rule wp_mono [OF wp_emits [OF assms(2)]]) (auto dest: grows_clock)
  have "wp (cb ss) (\<lambda>_ v'. \<exists>s'. s' = ss \<and> round_ok ns interval w s' (emit E (Slept interval) interval v')) (\<lambda>_ _. True) v"
    if "map node ss = node_list ns" "sorted (map timestamp ss)" "clock w \<le> clock v"
      "\<forall>s \<in> set ss. clock w \<le> timestamp s \<and> timestamp s \<le> clock v" for ss v
  proof (rule wp_mono [OF cb])
    fix u and v' :: world assume "clock v \<le> clock v'"
    moreover have "clock v' + interval \<le> clock (emit E (Slept interval) interval v')"
      by (simp add: emit_def)
    moreover have "timestamp s \<le> clock (emit E (Slept interval) interval v')" if "s \<in> set ss" for s
    proof -
      have "timestamp s \<le> clock v" using that \<open>\<forall>s \<in> set ss. _ s \<and> _ s\<close> by simp
      with calculation assms(1) show ?thesis by linarith
    qed
    ultimately show "\<exists>s'. s' = ss \<and> round_ok ns interval w s' (emit E (Slept interval) interval v')"
      using that by (simp add: round_ok_def)
  qed auto
  then show ?thesis
    using assms(1) unfolding poll_round_def wp_bind
    by (intro wp_mono [OF wp_sample_all_nodes]) (auto simp: wp_abs wp_sleep elim!: wp_mono)
qed

lemma poll_round_total [total_intros]: "(\<And>ss. total (cb ss)) \<Longrightarrow> total (poll_round E i ns cb s)"
  unfolding poll_round_def by (intro total_intros)

lemma loop_state_total [total_intros]: "total (loop_state k)"
  unfolding loop_state_def by (intro total_intros)

lemma poll_loop_total:
  assumes "0 < interval" "\<And>ss. total (cb ss)" "\<And>ss. steady (cb ss)"
  shows "py_while (\<lambda>_ w. clock w < deadline) (poll_round E interval ns cb) s w \<noteq> None"
proof (rule deadline_loop_total [where \<delta> = interval])
  show "total (poll_round E interval ns cb s)" for s by (intro total_intros assms)
  fix s w s' w'
  assume "poll_round E interval ns cb s w = Some (Inr (Continue s'), w')"
  from wp_Inr [OF this wp_poll_round [OF _ assms(3)]] assms(1)
  show "clock w + interval \<le> clock w'" by (auto simp: round_ok_def)
qed (rule assms(1))

text \<open>The samples after some rounds: complete rounds, in order of time.\<close>

definition rounds_ok :: "string list \<Rightarrow> rat \<Rightarrow> rat \<Rightarrow> rat \<Rightarrow> NodeSample list \<Rightarrow> world \<Rightarrow> bool" where
  "rounds_ok ns t0 duration interval ss w \<longleftrightarrow>
     (\<exists>k. map node ss = concat (replicate k (node_list ns)) \<and> t0 + of_nat k * interval \<le> clock w \<and>
        int k \<le> max 0 \<lceil>duration / interval\<rceil>) \<and>
     sorted (map timestamp ss) \<and> (\<forall>s \<in> set ss. t0 \<le> timestamp s \<and> timestamp s \<le> clock w)"

lemma rounds_ok_step:
  assumes pos: "0 < interval" and ok: "rounds_ok ns t0 duration interval ss w" and r: "round_ok ns interval w rs w'"
    and lt: "clock w < t0 + duration" and t0: "t0 \<le> clock w"
  shows "rounds_ok ns t0 duration interval (ss @ rs) w'"
proof -
  obtain k where k: "map node ss = concat (replicate k (node_list ns))" "t0 + of_nat k * interval \<le> clock w"
    using ok by (auto simp: rounds_ok_def)
  have "of_nat k * interval < duration" using k(2) lt by linarith
  then have "of_nat k < duration / interval" using pos by (simp add: pos_less_divide_eq)
  then have "int (Suc k) \<le> max 0 \<lceil>duration / interval\<rceil>"
    by (simp add: le_max_iff_disj) (metis less_ceiling_iff of_int_of_nat_eq zless_imp_add1_zle add.commute)
  moreover have "map node (ss @ rs) = concat (replicate (Suc k) (node_list ns))"
    using k(1) r by (simp add: round_ok_def replicate_append_same [symmetric])
  moreover have "t0 + of_nat (Suc k) * interval \<le> clock w'"
    using k(2) r by (simp add: round_ok_def algebra_simps)
  moreover have "sorted (map timestamp (ss @ rs))"
    using ok r by (fastforce simp: rounds_ok_def round_ok_def sorted_append intro: order_trans)
  moreover have "clock w \<le> clock w'" using r pos by (simp add: round_ok_def)
  then have "\<forall>s \<in> set (ss @ rs). t0 \<le> timestamp s \<and> timestamp s \<le> clock w'"
    using ok r t0 by (auto simp: rounds_ok_def round_ok_def intro: order_trans)
  ultimately show ?thesis unfolding rounds_ok_def by blast
qed

lemma wp_poll_timeline:
  assumes pos: "0 < interval" and cb: "\<And>ss. steady (cb ss)"
  shows "wp (poll_timeline E duration interval ns cb)
    (\<lambda>ss w'. rounds_ok ns (clock w) duration interval ss w' \<and> clock w + duration \<le> clock w') (\<lambda>_ _. True) w"
proof -
  let ?t0 = "clock w"
  let ?Q = "\<lambda>ss w'. rounds_ok ns ?t0 duration interval ss w' \<and> ?t0 + duration \<le> clock w'"
  have "wp (py_while (\<lambda>_ w. clock w < ?t0 + duration) (poll_round E interval (node_list ns) cb) [])
      (\<lambda>k w'. case k of Continue ss \<Rightarrow> ?Q ss w' | Leave _ \<Rightarrow> False) (\<lambda>_ _. True) w"
  proof (rule wp_while [where I = "\<lambda>ss w'. rounds_ok ns ?t0 duration interval ss w' \<and> ?t0 \<le> clock w'"])
    show "rounds_ok ns ?t0 duration interval [] w \<and> ?t0 \<le> clock w"
      by (auto simp: rounds_ok_def intro!: exI [of _ 0])
    fix ss v
    assume i: "rounds_ok ns ?t0 duration interval ss v \<and> ?t0 \<le> clock v" and c: "clock v < ?t0 + duration"
    show "wp (poll_round E interval (node_list ns) cb ss)
        (\<lambda>k w'. case k of Continue s' \<Rightarrow> rounds_ok ns ?t0 duration interval s' w' \<and> ?t0 \<le> clock w'
           | Leave x \<Rightarrow> case Leave x of Continue ss \<Rightarrow> ?Q ss w' | Leave _ \<Rightarrow> False) (\<lambda>_ _. True) v"
    proof (rule wp_mono [OF wp_poll_round [OF _ cb]])
      fix k w'
      assume k: "case k of Leave _ \<Rightarrow> False
        | Continue s \<Rightarrow> \<exists>rs. s = ss @ rs \<and> round_ok (node_list ns) interval v rs w'"
      then obtain rs where rs: "k = Continue (ss @ rs)" "round_ok ns interval v rs w'"
        by (auto split: ctl.splits simp: round_ok_def)
      then show "case k of Continue s' \<Rightarrow> rounds_ok ns ?t0 duration interval s' w' \<and> ?t0 \<le> clock w'
           | Leave x \<Rightarrow> case Leave x of Continue ss \<Rightarrow> ?Q ss w' | Leave _ \<Rightarrow> False"
        using rounds_ok_step [OF pos _ rs(2) c] i pos by (auto simp: round_ok_def)
    qed (use pos in simp_all)
  qed auto
  then show ?thesis
    unfolding poll_timeline_def Let_def node_list_def [symmetric] wp_bind wp_time
    by (rule wp_mono) (auto simp: loop_state_def wp_return split: ctl.splits)
qed

text \<open>C3. The polling loop ends: with a positive interval, \<^verbatim>\<open>poll_timeline\<close> returns or raises
  whatever the nodes answer, and what it returns are complete rounds over the nodes in order, no more
  of them than the duration divided by the interval (rounded up), with time stamps that never
  decrease, and the duration has passed.\<close>

theorem poll_timeline_correct:
  assumes "0 < interval" "\<And>ss. total (cb ss)" "\<And>ss. steady (cb ss)"
  shows "\<exists>r w'. poll_timeline E duration interval ns cb w = Some (r, w') \<and>
    (\<forall>ss. r = Inr ss \<longrightarrow>
       (\<exists>k. map node ss = concat (replicate k (if ns = [] then dict_keys NODE_RPC_PORTS else ns)) \<and>
            int k \<le> max 0 \<lceil>duration / interval\<rceil>) \<and>
       sorted (map timestamp ss) \<and> clock w + duration \<le> clock w')"
proof -
  have "poll_timeline E duration interval ns cb w \<noteq> None"
  proof -
    let ?loop = "\<lambda>ns. py_while (\<lambda>_ v. clock v < clock w + duration) (poll_round E interval ns cb) []"
    have "?loop ns' w \<noteq> None" for ns' by (rule poll_loop_total [OF assms])
    then have "py_bind (?loop ns') loop_state w \<noteq> None" for ns'
      by (rule bind_returns) (rule loop_state_total)
    then show ?thesis
      unfolding poll_timeline_def Let_def
      by (subst py_bind_def) (simp add: time_time_def)
  qed
  then obtain r w' where r: "poll_timeline E duration interval ns cb w = Some (r, w')" by fastforce
  from wp_Inr [OF _ wp_poll_timeline [OF assms(1,3)]] r show ?thesis
    by (fastforce simp: rounds_ok_def node_list_def)
qed

theorem poll_timeline_correct_witness:
  "\<exists>r w'. poll_timeline (static_env (\<lambda>_ _. Inl (Exn URLError ''refused'')) (\<lambda>_ _. Inl (Exn OSError [])))
      10 3 [''engram-node01'', ''engram-node03''] (\<lambda>_. py_return ()) start_world = Some (r, w') \<and>
    (\<forall>ss. r = Inr ss \<longrightarrow>
       (\<exists>k. map node ss = concat (replicate k [''engram-node01'', ''engram-node03'']) \<and> int k \<le> 4) \<and>
       sorted (map timestamp ss) \<and> 10 \<le> clock w')"
proof -
  have "\<lceil>10 / 3 :: rat\<rceil> = 4" by (simp add: ceiling_eq_iff)
  then show ?thesis
    using poll_timeline_correct [of 3 "\<lambda>_. py_return ()"
        "static_env (\<lambda>_ _. Inl (Exn URLError ''refused'')) (\<lambda>_ _. Inl (Exn OSError []))"
        10 "[''engram-node01'', ''engram-node03'']" start_world]
    by (simp add: total_intros emits_intros)
qed

section \<open>Writing samples to a CSV file\<close>

definition SAMPLE_FIELDS :: "string list" where
  "SAMPLE_FIELDS = [''timestamp'', ''node'', ''height'', ''app_hash'', ''catching_up'', ''fsm_state'',
     ''safe_blocks'', ''suspicious_duration'', ''reanchoring_proof_valid'', ''error'']"

text \<open>The cell of a JSON value. A node answers with text; the rendering of a list or an object (never
  an app hash) is left as one question mark.\<close>

fun json_cell :: "env \<Rightarrow> json \<Rightarrow> string" where
  "json_cell E (JStr s) = s"
| "json_cell E JNull = []"
| "json_cell E (JBool b) = py_bool b"
| "json_cell E (JInt i) = py_str_int i"
| "json_cell E (JFloat f) = repr_float E f"
| "json_cell E j = ''?''"

definition sample_row :: "env \<Rightarrow> NodeSample \<Rightarrow> string list" where
  "sample_row E s =
     [repr_float E (timestamp s), node s, py_str_int (height s), json_cell E (app_hash s),
      py_bool (catching_up s), fsm_state s, py_str_int (safe_blocks s),
      py_str_int (suspicious_duration s), py_bool (reanchoring_proof_valid s), error s]"

definition samples_csv :: "env \<Rightarrow> NodeSample list \<Rightarrow> string" where
  "samples_csv E samples = csv_row SAMPLE_FIELDS @ concat (map (csv_row \<circ> sample_row E) samples)"

definition write_csv :: "env \<Rightarrow> NodeSample list \<Rightarrow> string \<Rightarrow> unit py" where
  "write_csv E samples path = write_file E path (samples_csv E samples)"

lemma write_csv_total [total_intros]: "total (write_csv E ss p)"
  by (simp add: write_csv_def total_intros)

lemma write_csv_logs [logs_intros]: "logs command (write_csv E ss p) []"
  unfolding write_csv_def by (intro logs_intros)

lemma query_node_logs [logs_intros]: "logs command (query_node E n p) []"
  by (rule logs_emits, intro emits_intros) simp

lemma sample_all_nodes_logs [logs_intros]: "logs command (sample_all_nodes E ns) []"
  by (rule logs_emits, intro emits_intros) simp

section \<open>Environments without surprises\<close>

lemma query_node_quiet:
  assumes "n \<in> set (dict_keys NODE_RPC_PORTS)" "\<And>w p q. http E w p q = Inl (Exn URLError m)"
  shows "quiet (query_node E n None)"
proof -
  obtain p where p: "map_of NODE_RPC_PORTS n = Some p"
    using assms(1) by (auto simp: dict_keys_def dest: weak_map_of_SomeI)
  show ?thesis
    unfolding quiet_def wp_def query_node_known [OF p] py_try_def query_body_steps Let_def
    by (simp add: assms(2) caught_by_def QUERY_ERRORS_def py_return_def)
qed

lemma sample_all_nodes_quiet:
  assumes "\<And>w p q. http E w p q = Inl (Exn URLError m)"
  shows "quiet (sample_all_nodes E [])"
  unfolding sample_all_nodes_def by (intro quiet_intros query_node_quiet [OF _ assms]) simp

lemma sample_nodes_quiet:
  assumes "\<And>w p q. http E w p q = Inl (Exn URLError m)" "set ns \<subseteq> set (dict_keys NODE_RPC_PORTS)"
  shows "quiet (sample_all_nodes E ns)"
  unfolding sample_all_nodes_def by (intro quiet_intros query_node_quiet [OF _ assms(1)]) (use assms(2) in \<open>auto split: if_splits\<close>)

lemma quiet_loop:
  assumes "\<And>s w. wp (b s) (\<lambda>k _. \<exists>s'. k = Continue s') (\<lambda>_ _. False) w"
  shows "quiet (py_bind (py_while c b s) loop_state)"
  unfolding quiet_def wp_bind
proof (intro allI)
  fix w
  show "wp (py_while c b s) (\<lambda>x. wp (loop_state x) (\<lambda>_ _. True) (\<lambda>_ _. False)) (\<lambda>_ _. False) w"
    by (rule wp_while [where I = "\<lambda>_ _. True"])
      (auto simp: loop_state_def wp_simps intro!: wp_mono [OF assms])
qed

lemma query_keeps [keeps_intros]: "keeps_fs (query_node E n p)" "keeps_fs (sample_all_nodes E ns)"
proof -
  show q: "keeps_fs (query_node E n p)" for n p
    unfolding query_node_def rpc_get_def by (intro keeps_intros)
  show "keeps_fs (sample_all_nodes E ns)"
    unfolding sample_all_nodes_def by (intro keeps_intros q)
qed


text \<open>What \<^verbatim>\<open>csv.DictReader\<close> finds in the file written by \<^verbatim>\<open>write_csv\<close>.\<close>

lemma samples_csv_dicts:
  "csv_dicts (samples_csv E ss) = map (\<lambda>s. zip SAMPLE_FIELDS (map Some (sample_row E s))) ss"
  using csv_dicts_written [of SAMPLE_FIELDS "map (sample_row E) ss"]
  by (simp add: samples_csv_def SAMPLE_FIELDS_def sample_row_def comp_def)

end
