(* ===== verification/Transition_Tracker.thy ===== *)
theory Transition_Tracker
  imports Node_Logger
begin

text \<open>
  The transition trackers of the live experiments: the class \<^verbatim>\<open>Tracker\<close> of
  \<^verbatim>\<open>live_lifecycle_test.py\<close>, \<^verbatim>\<open>live_p2p_lifecycle_test.py\<close> and
  \<^verbatim>\<open>live_scenario_matrix.py\<close>, and the tracking loop of \<^verbatim>\<open>live_recovery_flow.py\<close>. Each keeps the
  last state seen per node and logs a transition whenever a node reports a different one.

  The locale \<open>transition_tracker\<close> states what recording one sample does to the last states and to
  the log of transitions; inside it, the log is shown to be, for every node, exactly the list of
  adjacent changes of the states that node reported, ignoring failed queries. Every tracker
  interprets it.
\<close>

section \<open>Adjacent changes: the specification\<close>

fun adjacent_changes :: "'a list \<Rightarrow> ('a \<times> 'a) list" where
  "adjacent_changes (x # y # zs) = (if x = y then [] else [(x, y)]) @ adjacent_changes (y # zs)"
| "adjacent_changes _ = []"

lemma adjacent_changes_snoc:
  "adjacent_changes (xs @ [y]) =
     adjacent_changes xs @ (if xs \<noteq> [] \<and> last xs \<noteq> y then [(last xs, y)] else [])"
proof (induction xs rule: adjacent_changes.induct)
  case (1 x z zs)
  then show ?case by simp
qed auto

text \<open>Consecutive changes form a chain of states.\<close>

fun chained :: "('a \<times> 'a) list \<Rightarrow> bool" where
  "chained ((a, b) # (c, d) # ps) \<longleftrightarrow> b = c \<and> chained ((c, d) # ps)"
| "chained _ \<longleftrightarrow> True"

lemma adjacent_changes_first: "adjacent_changes (x # xs) = (a, b) # ps \<Longrightarrow> a = x"
  by (induction xs arbitrary: x) (auto split: if_splits)

lemma adjacent_changes_chained: "chained (adjacent_changes xs)"
proof (induction xs rule: adjacent_changes.induct)
  case (1 x y zs)
  then show ?case
  proof (cases "adjacent_changes (y # zs)")
    case (Cons p ps)
    then obtain a b where "adjacent_changes (y # zs) = (a, b) # ps" by (cases p) auto
    then show ?thesis using 1 adjacent_changes_first [of y zs a b ps] by auto
  qed auto
qed auto

lemma adjacent_changes_distinct: "(a, b) \<in> set (adjacent_changes xs) \<Longrightarrow> a \<noteq> b"
  by (induction xs rule: adjacent_changes.induct) (auto split: if_splits)

lemma adjacent_changes_length: "length (adjacent_changes xs) \<le> length xs - 1"
  by (induction xs rule: adjacent_changes.induct) auto

text \<open>The states a node reported: failed queries have an empty state and are skipped.\<close>

definition reported :: "string \<Rightarrow> NodeSample list \<Rightarrow> string list" where
  "reported n ss = map fsm_state (filter (\<lambda>s. node s = n \<and> fsm_state s \<noteq> []) ss)"

lemma reported_snoc:
  "reported n (ss @ [s]) = reported n ss @ (if node s = n \<and> fsm_state s \<noteq> [] then [fsm_state s] else [])"
  by (simp add: reported_def)

lemma reported_nonempty: "[] \<notin> set (reported n ss)"
  by (auto simp: reported_def)

section \<open>The class Tracker\<close>

record 'a tracker =
  tr_start :: rat
  tr_samples :: "'a list"
  tr_transitions :: "(rat \<times> string \<times> string \<times> string \<times> string) list"
  tr_last_state :: "(string, string) dict"
  tr_phase :: string

definition new_tracker :: "rat \<Rightarrow> 'a tracker" where
  "new_tracker t = \<lparr>tr_start = t, tr_samples = [], tr_transitions = [], tr_last_state = [], tr_phase = ''init''\<rparr>"

text \<open>The statements on one sample that all three classes share: log a transition if the node had a
  state before and now reports another, then remember the state.\<close>

definition note_state :: "rat \<Rightarrow> NodeSample \<Rightarrow> ('a, 'm) tracker_scheme \<Rightarrow> ('a, 'm) tracker_scheme" where
  "note_state now s tr =
     (let prev = dict_get (tr_last_state tr) (node s) [];
          tr' = (if fsm_state s \<noteq> [] \<and> prev \<noteq> [] \<and> prev \<noteq> fsm_state s
                 then tr\<lparr>tr_transitions := tr_transitions tr
                        @ [(now - tr_start tr, tr_phase tr, node s, prev, fsm_state s)]\<rparr> else tr)
      in if fsm_state s \<noteq> [] then tr'\<lparr>tr_last_state := AList.update (node s) (fsm_state s) (tr_last_state tr')\<rparr>
         else tr')"

definition set_phase :: "string \<Rightarrow> ('a, 'm) tracker_scheme \<Rightarrow> ('a, 'm) tracker_scheme" where
  "set_phase phase tr = (if phase \<noteq> [] then tr\<lparr>tr_phase := phase\<rparr> else tr)"

text \<open>\<^verbatim>\<open>poll\<close> and \<^verbatim>\<open>wait_for_state\<close>, over the class's way to record a round of samples.\<close>

definition tracker_poll ::
  "(rat \<Rightarrow> NodeSample list \<Rightarrow> 'st \<Rightarrow> 'st) \<Rightarrow> env \<Rightarrow> rat \<Rightarrow> rat \<Rightarrow> 'st \<Rightarrow> 'st py" where
  "tracker_poll rec E seconds interval tr =
     py_bind time_time (\<lambda>t0.
     py_bind
       (py_while (\<lambda>_ w. clock w < t0 + seconds)
          (\<lambda>tr. py_bind (sample_all_nodes E []) (\<lambda>rs.
                py_bind time_time (\<lambda>now.
                py_then (time_sleep E interval)
                (py_return (Continue (rec now rs tr)))))) tr)
       loop_state)"

definition all_in_state :: "string \<Rightarrow> NodeSample list \<Rightarrow> bool" where
  "all_in_state target rs \<longleftrightarrow> list_all (\<lambda>v. v = target) (dict_values (dict_of node fsm_state rs))"

definition tracker_wait ::
  "(rat \<Rightarrow> NodeSample list \<Rightarrow> 'st \<Rightarrow> 'st) \<Rightarrow> env \<Rightarrow> string \<Rightarrow> rat \<Rightarrow> 'st \<Rightarrow> (bool \<times> 'st) py" where
  "tracker_wait rec E target timeout_s tr =
     py_bind time_time (\<lambda>t0.
     py_bind
       (py_while (\<lambda>_ w. clock w < t0 + timeout_s)
          (\<lambda>tr. py_bind (sample_all_nodes E []) (\<lambda>rs.
                py_bind time_time (\<lambda>now.
                if all_in_state target rs then py_return (Leave (rec now rs tr))
                else py_then (time_sleep E 2) (py_return (Continue (rec now rs tr)))))) tr)
       (\<lambda>k. case k of Leave tr' \<Rightarrow> py_return (True, tr') | Continue tr' \<Rightarrow> py_return (False, tr')))"

lemma all_in_state_nodes:
  assumes "map node rs = dict_keys NODE_RPC_PORTS"
  shows "all_in_state target rs \<longleftrightarrow> (\<forall>s \<in> set rs. fsm_state s = target)"
proof -
  have "distinct (map node rs)" unfolding assms by (simp add: dict_keys_def NODE_RPC_PORTS_def)
  then have "dict_of node fsm_state rs = map (\<lambda>s. (node s, fsm_state s)) rs" by (rule dict_of_distinct)
  then show ?thesis by (simp add: all_in_state_def dict_values_def list_all_iff)
qed

section \<open>The interface of a tracker\<close>

text \<open>The log of a tracker is exact: for every node it holds the adjacent changes of the states that
  node reported in the samples recorded so far, and the last state is the last one reported.\<close>

definition exact_log ::
  "(string \<times> string \<times> string) list \<Rightarrow> (string \<Rightarrow> string option) \<Rightarrow> NodeSample list \<Rightarrow> bool" where
  "exact_log cs last_state ss \<longleftrightarrow>
     (\<forall>n. map snd (filter (\<lambda>c. fst c = n) cs) = adjacent_changes (reported n ss) \<and>
          last_state n = (if reported n ss = [] then None else Some (last (reported n ss))))"

lemma exact_log_chained:
  "exact_log cs ls ss \<Longrightarrow> chained (map snd (filter (\<lambda>c. fst c = n) cs))"
  by (simp add: exact_log_def adjacent_changes_chained)

lemma exact_log_init: "exact_log [] (\<lambda>_. None) []"
  by (simp add: exact_log_def reported_def)

locale transition_tracker =
  fixes observe :: "rat \<Rightarrow> NodeSample \<Rightarrow> 'st \<Rightarrow> 'st"
    and last_of :: "'st \<Rightarrow> string \<Rightarrow> string option"
    and changes :: "'st \<Rightarrow> (string \<times> string \<times> string) list"
    and samples_of :: "'st \<Rightarrow> NodeSample list"
  assumes last_observe:
    "last_of (observe t s st) n = (if node s = n \<and> fsm_state s \<noteq> [] then Some (fsm_state s) else last_of st n)"
    and changes_observe:
    "changes (observe t s st) = changes st @
       (case last_of st (node s) of None \<Rightarrow> []
        | Some prev \<Rightarrow> if fsm_state s \<noteq> [] \<and> prev \<noteq> [] \<and> prev \<noteq> fsm_state s
                      then [(node s, prev, fsm_state s)] else [])"
    and samples_observe: "samples_of (observe t s st) = samples_of st @ [s]"
begin

abbreviation exact :: "'st \<Rightarrow> bool" where
  "exact st \<equiv> exact_log (changes st) (last_of st) (samples_of st)"

lemma exact_observe:
  assumes "exact st"
  shows "exact (observe t s st)"
  unfolding exact_log_def
proof (intro allI conjI)
  fix n
  let ?r = "reported (node s) (samples_of st)"
  have last: "last_of st m = (if reported m (samples_of st) = [] then None else Some (last (reported m (samples_of st))))"
    and chg: "map snd (filter (\<lambda>c. fst c = m) (changes st)) = adjacent_changes (reported m (samples_of st))" for m
    using assms by (simp_all add: exact_log_def)
  have ne: "last ?r \<noteq> []" if "?r \<noteq> []" using reported_nonempty [of "node s"] that last_in_set by metis
  show "map snd (filter (\<lambda>c. fst c = n) (changes (observe t s st))) =
      adjacent_changes (reported n (samples_of (observe t s st)))"
    using ne by (auto simp: changes_observe samples_observe last chg reported_snoc adjacent_changes_snoc)
  show "last_of (observe t s st) n = (if reported n (samples_of (observe t s st)) = [] then None
      else Some (last (reported n (samples_of (observe t s st)))))"
    by (auto simp: last_observe samples_observe reported_snoc last)
qed

lemma exact_round: "exact st \<Longrightarrow> exact (fold (observe t) ss st)"
  by (induction ss arbitrary: st) (auto intro: exact_observe)

lemma samples_round: "samples_of (fold (observe t) ss st) = samples_of st @ ss"
  by (induction ss arbitrary: st) (auto simp: samples_observe)

text \<open>Polling and waiting keep the log exact, and only append samples.\<close>

lemma exact_poll:
  assumes "exact st" "\<And>t rs st. rec t rs st = fold (observe t) rs st"
  shows "wp (tracker_poll rec E seconds interval st)
    (\<lambda>st' _. exact st' \<and> prefix (samples_of st) (samples_of st')) (\<lambda>_ _. True) w"
proof -
  let ?I = "\<lambda>st'. exact st' \<and> prefix (samples_of st) (samples_of st')"
  have step: "?I st' \<Longrightarrow> ?I (rec t rs st')" for st' t rs
    using assms(2) exact_round [of st' t rs] by (auto simp: samples_round)
  show ?thesis
    unfolding tracker_poll_def wp_bind wp_time
  proof (rule wp_while [where I = "\<lambda>st' _. ?I st'"])
    fix s' v assume i: "?I s'"
    show "wp (py_bind (sample_all_nodes E []) (\<lambda>rs. py_bind time_time (\<lambda>now. py_then (time_sleep E interval)
        (py_return (Continue (rec now rs s'))))))
      (\<lambda>k w'. case k of Continue s' \<Rightarrow> ?I s' | Leave x \<Rightarrow>
         wp (loop_state (Leave x)) (\<lambda>st' _. ?I st') (\<lambda>_ _. True) w') (\<lambda>_ _. True) v"
      unfolding wp_bind by (rule wp_mono [OF wp_sample_all_nodes]) (use step [OF i] in \<open>simp_all add: wp_simps\<close>)
  qed (use assms in \<open>auto simp: loop_state_def wp_simps\<close>)
qed

lemma exact_wait:
  assumes "exact st" "\<And>t rs st. rec t rs st = fold (observe t) rs st"
  shows "wp (tracker_wait rec E target timeout_s st)
    (\<lambda>(b, st') _. exact st' \<and> prefix (samples_of st) (samples_of st') \<and>
       (b \<longrightarrow> (\<exists>ss rs. samples_of st' = ss @ rs \<and> map node rs = dict_keys NODE_RPC_PORTS \<and>
          (\<forall>s \<in> set rs. fsm_state s = target)))) (\<lambda>_ _. True) w"
proof -
  let ?I = "\<lambda>st'. exact st' \<and> prefix (samples_of st) (samples_of st')"
  let ?B = "\<lambda>st'. \<exists>ss rs. samples_of st' = ss @ rs \<and> map node rs = dict_keys NODE_RPC_PORTS \<and>
          (\<forall>s \<in> set rs. fsm_state s = target)"
  have step: "?I st' \<Longrightarrow> ?I (rec t rs st')" for st' t rs
    using assms(2) exact_round [of st' t rs] by (auto simp: samples_round)
  have reached: "?B (rec t rs st')"
    if "all_in_state target rs" "map node rs = dict_keys NODE_RPC_PORTS" for rs t st'
    by (rule exI [of _ "samples_of st'"], rule exI [of _ rs])
      (use that assms(2) in \<open>simp add: samples_round all_in_state_nodes\<close>)
  show ?thesis
    unfolding tracker_wait_def wp_bind wp_time
  proof (rule wp_while [where I = "\<lambda>st' _. ?I st'"])
    fix s' v assume i: "?I s'"
    show "wp (py_bind (sample_all_nodes E []) (\<lambda>rs. py_bind time_time (\<lambda>now.
        if all_in_state target rs then py_return (Leave (rec now rs s'))
        else py_then (time_sleep E 2) (py_return (Continue (rec now rs s'))))))
      (\<lambda>k w'. case k of Continue s' \<Rightarrow> ?I s' | Leave x \<Rightarrow>
         wp (case Leave x of Leave tr' \<Rightarrow> py_return (True, tr') | Continue tr' \<Rightarrow> py_return (False, tr'))
           (\<lambda>(b, st') _. exact st' \<and> prefix (samples_of st) (samples_of st') \<and> (b \<longrightarrow> ?B st')) (\<lambda>_ _. True) w')
      (\<lambda>_ _. True) v"
      unfolding wp_bind by (rule wp_mono [OF wp_sample_all_nodes])
        (use step [OF i] reached in \<open>auto simp: wp_simps node_list_def\<close>)
  qed (use assms in \<open>auto simp: wp_simps\<close>)
qed

text \<open>Polling for a positive time samples every node at least once.\<close>

lemma poll_covers:
  assumes "0 < seconds" "\<And>t rs st. rec t rs st = fold (observe t) rs st"
  shows "wp (tracker_poll rec E seconds interval st)
    (\<lambda>st' _. set (dict_keys NODE_RPC_PORTS) \<subseteq> node ` set (samples_of st')) (\<lambda>_ _. True) w"
proof -
  let ?C = "\<lambda>st'. set (dict_keys NODE_RPC_PORTS) \<subseteq> node ` set (samples_of st')"
  have step: "?C (rec t rs st')" if "map node rs = dict_keys NODE_RPC_PORTS" for t rs st'
  proof -
    have "set (dict_keys NODE_RPC_PORTS) = node ` set rs" using arg_cong [OF that, of set] by simp
    then show ?thesis by (auto simp: assms(2) samples_round)
  qed
  show ?thesis
    unfolding tracker_poll_def wp_bind wp_time
  proof (rule wp_while [where I = "\<lambda>st' v. ?C st' \<or> v = w"])
    fix s' v
    show "wp (py_bind (sample_all_nodes E []) (\<lambda>rs. py_bind time_time (\<lambda>now. py_then (time_sleep E interval)
        (py_return (Continue (rec now rs s'))))))
      (\<lambda>k w'. case k of Continue s' \<Rightarrow> ?C s' \<or> w' = w | Leave x \<Rightarrow>
         wp (loop_state (Leave x)) (\<lambda>st' _. ?C st') (\<lambda>_ _. True) w') (\<lambda>_ _. True) v"
      unfolding wp_bind by (rule wp_mono [OF wp_sample_all_nodes]) (use step in \<open>auto simp: wp_simps node_list_def\<close>)
  qed (use assms(1) in \<open>auto simp: loop_state_def wp_simps\<close>)
qed

end

section \<open>Recording in the three classes\<close>

text \<open>\<^verbatim>\<open>live_lifecycle_test.py\<close>: samples are stored with the phase.\<close>

definition lifecycle_observe ::
  "rat \<Rightarrow> NodeSample \<Rightarrow> (string \<times> NodeSample, 'm) tracker_scheme \<Rightarrow> (string \<times> NodeSample, 'm) tracker_scheme" where
  "lifecycle_observe now s tr = note_state now s (tr\<lparr>tr_samples := tr_samples tr @ [(tr_phase tr, s)]\<rparr>)"

definition lifecycle_round ::
  "rat \<Rightarrow> NodeSample list \<Rightarrow> (string \<times> NodeSample) tracker \<Rightarrow> (string \<times> NodeSample) tracker" where
  "lifecycle_round now rs tr = fold (lifecycle_observe now) rs tr"

text \<open>\<^verbatim>\<open>live_p2p_lifecycle_test.py\<close>, \<^verbatim>\<open>_record\<close>: samples are stored as they are.\<close>

definition p2p_observe :: "rat \<Rightarrow> NodeSample \<Rightarrow> NodeSample tracker \<Rightarrow> NodeSample tracker" where
  "p2p_observe now s tr = note_state now s (tr\<lparr>tr_samples := tr_samples tr @ [s]\<rparr>)"

definition p2p_round :: "rat \<Rightarrow> NodeSample list \<Rightarrow> NodeSample tracker \<Rightarrow> NodeSample tracker" where
  "p2p_round now rs tr = fold (p2p_observe now) rs tr"

section \<open>The trackers satisfy the interface\<close>

definition tr_changes :: "('a, 'm) tracker_scheme \<Rightarrow> (string \<times> string \<times> string) list" where
  "tr_changes tr = map (\<lambda>(t, phase, n, frm, to). (n, frm, to)) (tr_transitions tr)"

definition tr_last :: "('a, 'm) tracker_scheme \<Rightarrow> string \<Rightarrow> string option" where
  "tr_last tr n = map_of (tr_last_state tr) n"

lemma note_state_last:
  "tr_last (note_state t s tr) n =
     (if node s = n \<and> fsm_state s \<noteq> [] then Some (fsm_state s) else tr_last tr n)"
  by (simp add: note_state_def Let_def tr_last_def update_conv')

lemma note_state_changes:
  "tr_changes (note_state t s tr) = tr_changes tr @
     (case tr_last tr (node s) of None \<Rightarrow> []
      | Some prev \<Rightarrow> if fsm_state s \<noteq> [] \<and> prev \<noteq> [] \<and> prev \<noteq> fsm_state s
                    then [(node s, prev, fsm_state s)] else [])"
  by (auto simp: note_state_def Let_def tr_last_def tr_changes_def dict_get_def split: option.splits)

lemma note_state_samples [simp]: "tr_samples (note_state t s tr) = tr_samples tr"
  by (simp add: note_state_def Let_def)

lemma note_state_phase [simp]: "tr_phase (note_state t s tr) = tr_phase tr" "tr_start (note_state t s tr) = tr_start tr"
  by (simp_all add: note_state_def Let_def)

lemma tr_samples_update [simp]:
  "tr_last (tr\<lparr>tr_samples := x\<rparr>) = tr_last tr" "tr_changes (tr\<lparr>tr_samples := x\<rparr>) = tr_changes tr"
  by (auto simp: tr_last_def tr_changes_def)

interpretation lifecycle: transition_tracker lifecycle_observe tr_last tr_changes "\<lambda>tr. map snd (tr_samples tr)"
  by unfold_locales (simp_all add: lifecycle_observe_def note_state_last note_state_changes)

interpretation p2p: transition_tracker p2p_observe tr_last tr_changes tr_samples
  by unfold_locales (simp_all add: p2p_observe_def note_state_last note_state_changes)

lemma new_tracker_simps [simp]: "tr_changes (new_tracker t) = []" "tr_last (new_tracker t) = (\<lambda>_. None)" "tr_samples (new_tracker t) = []"
  by (simp_all add: new_tracker_def tr_changes_def tr_last_def fun_eq_iff)

section \<open>Termination and effects of the tracking loops\<close>

lemma tracker_poll_total [total_intros]:
  assumes "0 < interval"
  shows "total (tracker_poll rec E seconds interval tr)"
  unfolding tracker_poll_def
proof (intro total_intros deadline_while_total [where \<delta> = interval] assms)
  fix s :: 'a and w
  show "wp (py_bind (sample_all_nodes E []) (\<lambda>rs. py_bind time_time (\<lambda>now.
     py_then (time_sleep E interval) (py_return (Continue (rec now rs s)))))) 
     (\<lambda>k w'. case k of Continue _ \<Rightarrow> clock w + interval \<le> clock w' | Leave (_ :: unit) \<Rightarrow> True) (\<lambda>_ _. True) w"
    unfolding wp_bind by (rule wp_mono [OF wp_sample_all_nodes]) (use assms in \<open>auto simp: wp_simps emit_def\<close>)
qed

lemma tracker_wait_total [total_intros]: "total (tracker_wait rec E target timeout_s tr)"
  unfolding tracker_wait_def
proof (intro total_intros deadline_while_total [where \<delta> = 2])
  fix s :: 'a and w
  show "wp (py_bind (sample_all_nodes E []) (\<lambda>rs. py_bind time_time (\<lambda>now.
     if all_in_state target rs then py_return (Leave (rec now rs s))
     else py_then (time_sleep E 2) (py_return (Continue (rec now rs s))))))
     (\<lambda>k w'. case k of Continue _ \<Rightarrow> clock w + 2 \<le> clock w' | Leave _ \<Rightarrow> True) (\<lambda>_ _. True) w"
    unfolding wp_bind by (rule wp_mono [OF wp_sample_all_nodes]) (auto simp: wp_simps emit_def)
qed simp

lemma tracker_poll_emits [emits_intros]:
  "(\<And>p q r. S (RpcGet p q r)) \<Longrightarrow> (\<And>t. S (Slept t)) \<Longrightarrow> emits S (tracker_poll rec E seconds interval tr)"
  unfolding tracker_poll_def loop_state_def by (intro emits_intros)

lemma tracker_wait_emits [emits_intros]:
  "(\<And>p q r. S (RpcGet p q r)) \<Longrightarrow> (\<And>t. S (Slept t)) \<Longrightarrow> emits S (tracker_wait rec E target timeout_s tr)"
  unfolding tracker_wait_def by (intro emits_intros)

lemma tracker_logs [logs_intros]:
  "logs command (tracker_poll rec E seconds interval tr) []"
  "logs command (tracker_wait rec E target timeout_s tr') []"
  by (rule logs_emits, intro emits_intros, simp_all)+

lemma tracker_quiet:
  assumes "\<And>w p q. http E w p q = Inl (Exn URLError m)"
  shows "0 \<le> interval \<Longrightarrow> quiet (tracker_poll rec E seconds interval tr)"
    "quiet (tracker_wait rec E target timeout_s tr')"
proof -
  assume i: "0 \<le> interval"
  let ?Q = "\<lambda>k (w :: world). \<exists>s. k = (Continue s :: ('a, unit) ctl)"
  have "wp (tracker_poll rec E seconds interval tr) (\<lambda>_ _. True) (\<lambda>_ _. False) w" for w
    unfolding tracker_poll_def wp_bind wp_time
  proof (rule wp_mono, rule wp_while [where I = "\<lambda>_ _. True" and Q = ?Q and R = "\<lambda>_ _. False"])
    fix s :: 'a and v
    show "wp (py_bind (sample_all_nodes E []) (\<lambda>rs. py_bind time_time (\<lambda>now. py_then (time_sleep E interval)
        (py_return (Continue (rec now rs s))))))
      (\<lambda>k w'. case k of Continue s' \<Rightarrow> True | Leave x \<Rightarrow> ?Q (Leave x) w') (\<lambda>_ _. False) v"
      unfolding wp_bind by (rule wp_mono [OF quiet_wp [OF sample_all_nodes_quiet [OF assms]]])
        (use i in \<open>auto simp: wp_simps\<close>)
  qed (auto simp: loop_state_def wp_simps)
  then show "quiet (tracker_poll rec E seconds interval tr)" by (simp add: quiet_def)
next
  show "quiet (tracker_wait rec E target timeout_s tr')"
    unfolding tracker_wait_def by (intro quiet_intros sample_all_nodes_quiet [OF assms]) simp
qed

end
