(* ===== verification/Py_Polling.thy ===== *)
theory Py_Polling
  imports Py_World
begin

text \<open>
  The waiting loop that the scripts share:
  \<^verbatim>\<open>deadline = time.time() + timeout; while time.time() < deadline: ...; time.sleep(interval)\<close>
  with an early \<^verbatim>\<open>return\<close>. The locale \<open>poller\<close> is the contract of the check such a loop repeats; a
  loop over a check that satisfies it always comes back. Each waiting function of the scripts
  interprets it.
\<close>

definition poll_until :: "env \<Rightarrow> rat \<Rightarrow> rat \<Rightarrow> 'a option py \<Rightarrow> 'a option py" where
  "poll_until E timeout interval check =
     py_bind time_time (\<lambda>t0.
     py_bind
       (py_while (\<lambda>_ w. clock w < t0 + timeout)
          (\<lambda>_. py_bind check (\<lambda>r.
             case r of Some x \<Rightarrow> py_return (Leave x)
             | None \<Rightarrow> py_then (time_sleep E interval) (py_return (Continue ())))) ())
       (\<lambda>k. case k of Leave x \<Rightarrow> py_return (Some x) | Continue _ \<Rightarrow> py_return None))"

lemma wp_poll_until:
  assumes "I w" and "0 \<le> interval"
    and "\<And>w. I w \<Longrightarrow> wp check (\<lambda>r w'. case r of Some x \<Rightarrow> Q (Some x) w'
           | None \<Rightarrow> I (emit E (Slept interval) interval w')) R w"
    and "\<And>w. I w \<Longrightarrow> Q None w"
  shows "wp (poll_until E timeout interval check) Q R w"
proof -
  let ?b = "\<lambda>_. py_bind check (\<lambda>r. case r of Some x \<Rightarrow> py_return (Leave x)
             | None \<Rightarrow> py_then (time_sleep E interval) (py_return (Continue ())))"
  let ?Q = "\<lambda>k w'. case k of Leave x \<Rightarrow> Q (Some x) w' | Continue _ \<Rightarrow> Q None w'"
  have "wp (py_while (\<lambda>_ v. clock v < clock w + timeout) ?b ()) ?Q R w"
  proof (rule wp_while [where I = "\<lambda>_. I"])
    fix s v assume i: "I v"
    show "wp (?b s) (\<lambda>k w'. case k of Continue s' \<Rightarrow> I w' | Leave x \<Rightarrow> ?Q (Leave x) w') R v"
      unfolding wp_bind by (rule wp_mono [OF assms(3) [OF i]])
        (use assms(2) in \<open>auto simp: wp_simps split: option.splits\<close>)
  qed (use assms in auto)
  then show ?thesis
    unfolding poll_until_def wp_bind wp_time
    by (rule wp_mono) (auto simp: wp_simps split: ctl.splits)
qed

lemma emits_poll_until [emits_intros]:
  "emits S check \<Longrightarrow> S (Slept interval) \<Longrightarrow> emits S (poll_until E timeout interval check)"
  unfolding poll_until_def by (intro emits_intros)

locale poller =
  fixes E :: env and interval :: rat and check :: "'a option py"
  assumes pos: "0 < interval" and check_total: "total check" and check_steady: "steady check"
begin

abbreviation body :: "unit \<Rightarrow> (unit, 'a) ctl py" where
  "body \<equiv> (\<lambda>_. py_bind check (\<lambda>r. case r of Some x \<Rightarrow> py_return (Leave x)
     | None \<Rightarrow> py_then (time_sleep E interval) (py_return (Continue ()))))"

lemma body_slow: "body () w = Some (Inr (Continue u), w') \<Longrightarrow> clock w + interval \<le> clock w'"
proof -
  assume b: "body () w = Some (Inr (Continue u), w')"
  have "wp (body ()) (\<lambda>k w'. case k of Continue _ \<Rightarrow> clock w + interval \<le> clock w' | Leave _ \<Rightarrow> True)
      (\<lambda>_ _. True) w"
    unfolding wp_bind by (rule wp_mono [OF wp_emits [OF check_steady]])
      (use pos in \<open>auto simp: wp_simps emit_def dest!: grows_clock split: option.splits\<close>)
  from wp_Inr [OF b this] show ?thesis by simp
qed

lemma returns: "total (poll_until E timeout interval check)"
proof -
  have "total (py_while (\<lambda>_ v. clock v < d) body ())" for d
    unfolding total_def
    by (intro allI, rule deadline_loop_total [where \<delta> = interval])
      (auto intro!: total_intros check_total pos dest: body_slow)
  then show ?thesis
    unfolding poll_until_def by (intro total_intros) simp_all
qed

end

end
