(* ===== verification/Chaos_Injector.thy ===== *)
theory Chaos_Injector
  imports Py_Polling
begin

text \<open>
  \<^verbatim>\<open>scripts/framework/injector.py\<close>: starting, watching and removing the Pumba fault injectors of the
  docker testnet. A container's status is what \<^verbatim>\<open>docker inspect\<close> prints.

  The theorems: every \<^verbatim>\<open>docker compose\<close> command names the services it acts on, and only services
  of its own profile; a profile that is started was observed running (or finished); cleaning up
  stops, removes and then clears the queueing discipline of every target; a burst sequence starts
  and stops the profile alternately; waiting for the network to be free ends, and a normal return
  means that every injector it looks at was seen missing or finished.
\<close>

section \<open>Tables\<close>

definition PROFILE_TO_SERVICE :: "(string, string) dict" where
  "PROFILE_TO_SERVICE =
     [(''chaos-delay'', ''pumba-latency''), (''chaos-loss'', ''pumba-loss''),
      (''chaos-crash'', ''pumba-kill''), (''chaos-eclipse'', ''pumba-eclipse''),
      (''chaos-btc-delay'', ''pumba-btc-delay''), (''chaos-p2p-churn'', ''pumba-p2p-churn''),
      (''chaos-relay-latency'', ''pumba-relay-latency'')]"

definition PROFILE_TO_CONTAINER :: "(string, string) dict" where
  "PROFILE_TO_CONTAINER =
     [(''chaos-delay'', ''pumba-latency-injector''), (''chaos-loss'', ''pumba-loss-injector''),
      (''chaos-crash'', ''pumba-crash-injector''), (''chaos-eclipse'', ''pumba-eclipse-injector''),
      (''chaos-btc-delay'', ''pumba-btc-delay-injector''),
      (''chaos-p2p-churn'', ''pumba-p2p-churn-injector''),
      (''chaos-relay-latency'', ''pumba-relay-latency-injector'')]"

definition PROFILE_DESCRIPTIONS :: "(string, string) dict" where
  "PROFILE_DESCRIPTIONS =
     [(''chaos-delay'', ''netem delay 100ms +-20ms jitter on all engram-node* for 5m''),
      (''chaos-loss'', ''netem 5% packet loss on engram-node01,engram-node02 for 2m''),
      (''chaos-crash'', ''SIGKILL engram-node04 (immediate, one-shot)''),
      (''chaos-eclipse'', ''netem 100% packet loss on engram-node01 for 3m''),
      (''chaos-btc-delay'', ''netem delay 500ms +-100ms jitter on bitcoin-node01 for 2m''),
      (''chaos-p2p-churn'', ''netem 100% packet loss on attacker-a3-01 for 3m (toggled repeatedly)''),
      (''chaos-relay-latency'', ''netem delay 350ms +-50ms jitter on engram-node04 for 10m'')]"

definition WAN_PROFILE_TO_SERVICES :: "(string, string list) dict" where
  "WAN_PROFILE_TO_SERVICES =
     [(''chaos-wan-latency'', [''pumba-wan-latency-01'', ''pumba-wan-latency-02'',
         ''pumba-wan-latency-03'', ''pumba-wan-latency-04'']),
      (''chaos-wan-loss'', [''pumba-wan-loss-01'', ''pumba-wan-loss-02'',
         ''pumba-wan-loss-03'', ''pumba-wan-loss-04''])]"

definition PROFILE_TO_NETEM_TARGETS :: "(string, string list) dict" where
  "PROFILE_TO_NETEM_TARGETS =
     [(''chaos-delay'', [''engram-node01'', ''engram-node02'', ''engram-node03'', ''engram-node04'']),
      (''chaos-loss'', [''engram-node01'', ''engram-node02'']),
      (''chaos-eclipse'', [''engram-node01'']),
      (''chaos-btc-delay'', [''bitcoin-node01'']),
      (''chaos-p2p-churn'', [''attacker-a3-01'']),
      (''chaos-relay-latency'', [''engram-node04''])]"

definition WAN_PROFILE_TO_NETEM_TARGETS :: "(string, string list) dict" where
  "WAN_PROFILE_TO_NETEM_TARGETS =
     [(''chaos-wan-latency'', [''engram-node01'', ''engram-node02'', ''engram-node03'', ''engram-node04'']),
      (''chaos-wan-loss'', [''engram-node01'', ''engram-node02'', ''engram-node03'', ''engram-node04''])]"

definition NETEM_CLEANUP_IMAGE :: string where
  "NETEM_CLEANUP_IMAGE = ''nicolaka/netshoot''"

definition netem_containers :: "string list" where
  "netem_containers =
     [''pumba-latency-injector'', ''pumba-loss-injector'', ''pumba-eclipse-injector'',
      ''pumba-btc-delay-injector'', ''pumba-p2p-churn-injector'', ''pumba-relay-latency-injector'']"

section \<open>Containers\<close>

definition inspect_cmd :: "string \<Rightarrow> string list" where
  "inspect_cmd name = [''docker'', ''inspect'', ''-f'', ''{{.State.Status}}'', name]"

definition status_of :: "proc \<Rightarrow> string" where
  "status_of p = (if returncode p \<noteq> 0 then ''missing'' else strip_ws (out_text p))"

definition container_status :: "env \<Rightarrow> string \<Rightarrow> string py" where
  "container_status E name =
     py_bind (run_proc E (inspect_cmd name) False) (\<lambda>p. py_return (status_of p))"

definition is_running :: "env \<Rightarrow> string \<Rightarrow> bool py" where
  "is_running E container = py_bind (container_status E container) (\<lambda>s. py_return (s = ''running''))"

definition clear_cmd :: "string \<Rightarrow> string list" where
  "clear_cmd container =
     [''docker'', ''run'', ''--rm'', ''--net'', ''container:'' @ container, ''--cap-add'', ''NET_ADMIN'',
      NETEM_CLEANUP_IMAGE, ''tc'', ''qdisc'', ''del'', ''dev'', ''eth0'', ''root'']"

definition clear_netem_qdisc :: "env \<Rightarrow> string \<Rightarrow> unit py" where
  "clear_netem_qdisc E container =
     py_bind (run_proc E (clear_cmd container) False) (\<lambda>_. py_return ())"

definition compose_cmd :: "string \<Rightarrow> string list \<Rightarrow> string list \<Rightarrow> string list" where
  "compose_cmd profile verb services = [''docker'', ''compose'', ''--profile'', profile] @ verb @ services"

definition STOP :: "string list" where "STOP = [''stop'']"
definition RM :: "string list" where "RM = [''rm'', ''-f'']"
definition UP :: "string list" where "UP = [''up'', ''-d'']"

definition cleanup_profile :: "env \<Rightarrow> string \<Rightarrow> unit py" where
  "cleanup_profile E profile =
     py_bind (py_lift (dict_item PROFILE_TO_SERVICE profile)) (\<lambda>service.
     py_bind (run_proc E (compose_cmd profile STOP [service]) False) (\<lambda>_.
     py_bind (run_proc E (compose_cmd profile RM [service]) False) (\<lambda>_.
     py_each (clear_netem_qdisc E) (dict_get PROFILE_TO_NETEM_TARGETS profile []))))"

definition cleanup_wan_profile :: "env \<Rightarrow> string \<Rightarrow> unit py" where
  "cleanup_wan_profile E profile =
     py_bind (py_lift (dict_item WAN_PROFILE_TO_SERVICES profile)) (\<lambda>services.
     py_bind (run_proc E (compose_cmd profile STOP services) False) (\<lambda>_.
     py_bind (run_proc E (compose_cmd profile RM services) False) (\<lambda>_.
     py_each (clear_netem_qdisc E) (dict_get WAN_PROFILE_TO_NETEM_TARGETS profile []))))"

section \<open>Starting\<close>

definition up_detached :: "env \<Rightarrow> string \<Rightarrow> string py" where
  "up_detached E profile =
     (if profile \<notin> set (dict_keys PROFILE_TO_SERVICE) then
        py_raise (Exn ValueError (''unknown profile '' @ profile))
      else
        py_bind (py_lift (dict_item PROFILE_TO_SERVICE profile)) (\<lambda>service.
        py_bind (run_proc E (compose_cmd profile UP [service]) True) (\<lambda>_.
        py_lift (dict_item PROFILE_TO_CONTAINER profile))))"

definition started_check :: "env \<Rightarrow> string \<Rightarrow> string option py" where
  "started_check E container =
     py_bind (container_status E container) (\<lambda>status.
     py_return (if status \<in> {''running'', ''exited''} then Some container else None))"

definition start_pumba_profile :: "env \<Rightarrow> string \<Rightarrow> rat \<Rightarrow> string py" where
  "start_pumba_profile E profile wait_running_timeout_s =
     py_bind (up_detached E profile) (\<lambda>container.
     py_bind (poll_until E wait_running_timeout_s (3 / 10) (started_check E container)) (\<lambda>r.
     case r of Some c \<Rightarrow> py_return c
     | None \<Rightarrow> py_raise (Exn RuntimeError (container @ '' did not reach running/exited state''))))"

definition wan_started_check :: "env \<Rightarrow> string list \<Rightarrow> string list option py" where
  "wan_started_check E services =
     py_bind (py_all (\<lambda>c. py_bind (container_status E c) (\<lambda>s. py_return (s \<in> {''running'', ''exited''}))) services)
       (\<lambda>b. py_return (if b then Some services else None))"

definition start_pumba_wan_profile :: "env \<Rightarrow> string \<Rightarrow> rat \<Rightarrow> string list py" where
  "start_pumba_wan_profile E profile wait_running_timeout_s =
     py_bind (py_lift (dict_item WAN_PROFILE_TO_SERVICES profile)) (\<lambda>services.
     py_bind (run_proc E (compose_cmd profile UP services) True) (\<lambda>_.
     py_bind (poll_until E wait_running_timeout_s (3 / 10) (wan_started_check E services)) (\<lambda>r.
     case r of Some c \<Rightarrow> py_return c
     | None \<Rightarrow> py_raise (Exn RuntimeError ''did not all reach running/exited state''))))"

record ChaosRunResult =
  run_profile :: string
  run_service :: string
  started_at :: rat
  ended_at :: rat
  run_returncode :: int
  run_stdout :: string
  run_stderr :: string

definition isdigit :: "string \<Rightarrow> bool" where
  "isdigit s \<longleftrightarrow> s \<noteq> [] \<and> list_all is_digit s"

definition run_pumba_profile :: "env \<Rightarrow> string \<Rightarrow> ChaosRunResult py" where
  "run_pumba_profile E prof =
     py_bind time_time (\<lambda>started.
     py_bind (up_detached E prof) (\<lambda>container.
     py_bind (run_proc E [''docker'', ''wait'', container] False) (\<lambda>wait_proc.
     py_bind (run_proc E [''docker'', ''logs'', container] False) (\<lambda>logs_proc.
     py_bind time_time (\<lambda>ended.
     py_bind (py_lift (if isdigit (strip_ws (out_text wait_proc)) then py_int (strip_ws (out_text wait_proc))
                       else Inr (-1))) (\<lambda>exit_code.
     py_then (cleanup_profile E prof)
     (py_bind (py_lift (dict_item PROFILE_TO_SERVICE prof)) (\<lambda>svc.
     py_return \<lparr>run_profile = prof, run_service = svc, started_at = started, ended_at = ended,
       run_returncode = exit_code, run_stdout = out_text logs_proc, run_stderr = err_text logs_proc\<rparr>))))))))"

section \<open>Waiting and bursts\<close>

definition netem_idle :: "env \<Rightarrow> string \<Rightarrow> bool py" where
  "netem_idle E c = py_bind (container_status E c) (\<lambda>s. py_return (s \<in> {''missing'', ''exited''}))"

definition netem_check :: "env \<Rightarrow> unit option py" where
  "netem_check E =
     py_bind (py_all (netem_idle E) netem_containers) (\<lambda>b. py_return (if b then Some () else None))"

definition wait_for_no_active_netem :: "env \<Rightarrow> rat \<Rightarrow> unit py" where
  "wait_for_no_active_netem E timeout_s =
     py_bind (poll_until E timeout_s (1 / 2) (netem_check E)) (\<lambda>r.
     case r of Some _ \<Rightarrow> py_return ()
     | None \<Rightarrow>
         py_bind (py_map (netem_idle E) netem_containers) (\<lambda>idle.
         py_raise (Exn RuntimeError
           (''netem containers still active, refusing to start a new profile: ''
            @ py_join '', '' (map fst (filter (Not \<circ> snd) (zip netem_containers idle)))))))"

definition burst_cycle :: "env \<Rightarrow> string \<Rightarrow> rat \<Rightarrow> rat \<Rightarrow> unit py" where
  "burst_cycle E profile on_s off_s =
     py_bind (start_pumba_profile E profile 15) (\<lambda>_.
     py_then (time_sleep E on_s)
     (py_then (cleanup_profile E profile)
     (py_then (time_sleep E off_s)
     (wait_for_no_active_netem E 20))))"

definition toggle_profile_bursts :: "env \<Rightarrow> string \<Rightarrow> rat \<Rightarrow> rat \<Rightarrow> nat \<Rightarrow> unit py" where
  "toggle_profile_bursts E profile on_s off_s cycles =
     (if profile = ''chaos-crash'' then
        py_raise (Exn ValueError ''toggle_profile_bursts is for sustained netem profiles, not chaos-crash'')
      else py_each (\<lambda>i. burst_cycle E profile on_s off_s) [0 ..< cycles])"

definition injector_main :: "env \<Rightarrow> string list \<Rightarrow> unit py" where
  "injector_main E argv =
     (if length argv \<noteq> 3 \<or> argv ! 1 \<notin> {''start'', ''stop''} then py_raise (Exn SystemExit ''1'')
      else if argv ! 2 \<notin> set (dict_keys PROFILE_TO_SERVICE) then py_raise (Exn SystemExit ''1'')
      else if argv ! 1 = ''start'' then py_bind (start_pumba_profile E (argv ! 2) 15) (\<lambda>_. py_return ())
      else cleanup_profile E (argv ! 2))"

section \<open>Every compose command names its services\<close>

text \<open>The profile and the services a \<^verbatim>\<open>docker compose --profile\<close> command acts on. Without a service
  name, \<^verbatim>\<open>stop\<close> and \<^verbatim>\<open>rm\<close> act on the whole cluster.\<close>

definition compose_target :: "string list \<Rightarrow> (string \<times> string list) option" where
  "compose_target argv =
     (if take 3 argv = [''docker'', ''compose'', ''--profile''] then
        (let r = drop 4 argv in
         Some (argv ! 3, if take 2 r = UP \<or> take 2 r = RM then drop 2 r else drop 1 r))
      else None)"

definition profile_services :: "string \<Rightarrow> string list" where
  "profile_services p =
     (case map_of PROFILE_TO_SERVICE p of Some s \<Rightarrow> [s] | None \<Rightarrow> dict_get WAN_PROFILE_TO_SERVICES p [])"

definition scoped :: "event \<Rightarrow> bool" where
  "scoped ev =
     (case ev of RunProc argv _ _ \<Rightarrow>
        (case compose_target argv of None \<Rightarrow> True
         | Some (p, ss) \<Rightarrow> ss \<noteq> [] \<and> set ss \<subseteq> set (profile_services p))
      | _ \<Rightarrow> True)"

lemma compose_target_cmd [simp]:
  "v \<in> {STOP, RM, UP} \<Longrightarrow> compose_target (compose_cmd p v ss) = Some (p, ss)"
  by (auto simp: compose_target_def compose_cmd_def STOP_def RM_def UP_def)

lemma compose_target_other [simp]:
  "compose_target (inspect_cmd c) = None" "compose_target (clear_cmd c) = None"
  "compose_target [''docker'', ''wait'', c] = None" "compose_target [''docker'', ''logs'', c] = None"
  by (simp_all add: compose_target_def inspect_cmd_def clear_cmd_def)

lemma wan_services_nonempty:
  "map_of WAN_PROFILE_TO_SERVICES p = Some ss \<Longrightarrow>
     ss \<noteq> [] \<and> map_of PROFILE_TO_SERVICE p = None \<and> dict_get WAN_PROFILE_TO_SERVICES p [] = ss"
  by (auto simp: WAN_PROFILE_TO_SERVICES_def PROFILE_TO_SERVICE_def dict_get_def split: if_splits)

lemma scoped_simps [simp]:
  "scoped (Slept s)" "scoped (RunProc (inspect_cmd c) vs r)" "scoped (RunProc (clear_cmd c) vs r)"
  "scoped (RunProc [''docker'', ''wait'', c] vs r)" "scoped (RunProc [''docker'', ''logs'', c] vs r)"
  by (simp_all add: scoped_def)

lemma scoped_compose:
  "map_of PROFILE_TO_SERVICE p = Some s \<Longrightarrow> v \<in> {STOP, RM, UP} \<Longrightarrow> scoped (RunProc (compose_cmd p v [s]) vs r)"
  "map_of WAN_PROFILE_TO_SERVICES p = Some ss \<Longrightarrow> v \<in> {STOP, RM, UP} \<Longrightarrow> scoped (RunProc (compose_cmd p v ss) vs r)"
  using wan_services_nonempty [of p ss] by (auto simp: scoped_def profile_services_def)

lemma container_status_emits [emits_intros]:
  "(\<And>c r. S (RunProc (inspect_cmd c) [] r)) \<Longrightarrow> emits S (container_status E c)"
  unfolding container_status_def by (intro emits_intros)

lemma container_status_total [total_intros]: "total (container_status E c)"
  unfolding container_status_def by (intro total_intros)

lemma clear_netem_emits [emits_intros]:
  "(\<And>c r. S (RunProc (clear_cmd c) [] r)) \<Longrightarrow> emits S (clear_netem_qdisc E c)"
  unfolding clear_netem_qdisc_def by (intro emits_intros)

lemma cleanup_scoped [emits_intros]: "emits scoped (cleanup_profile E p)"
  unfolding cleanup_profile_def
  by (rule emits_bind_lift, intro emits_intros) (auto simp: dict_item_eq_Inr intro: scoped_compose)

lemma cleanup_wan_scoped [emits_intros]: "emits scoped (cleanup_wan_profile E p)"
  unfolding cleanup_wan_profile_def
  by (rule emits_bind_lift, intro emits_intros) (auto simp: dict_item_eq_Inr intro: scoped_compose)

lemma up_scoped [emits_intros]: "emits scoped (up_detached E p)"
  unfolding up_detached_def
  by (intro emits_if emits_raise emits_bind_lift emits_bind emits_run_proc emits_lift)
    (auto simp: dict_item_eq_Inr intro: scoped_compose)

lemma started_check_emits [emits_intros]:
  "(\<And>c r. S (RunProc (inspect_cmd c) [] r)) \<Longrightarrow> emits S (started_check E c)"
  unfolding started_check_def by (intro emits_intros)

lemma wan_started_check_emits [emits_intros]:
  "(\<And>c r. S (RunProc (inspect_cmd c) [] r)) \<Longrightarrow> emits S (wan_started_check E ss)"
  unfolding wan_started_check_def by (intro emits_intros)

lemma netem_idle_emits [emits_intros]:
  "(\<And>c r. S (RunProc (inspect_cmd c) [] r)) \<Longrightarrow> emits S (netem_idle E c)"
  unfolding netem_idle_def by (intro emits_intros)

lemma netem_check_emits [emits_intros]:
  "(\<And>c r. S (RunProc (inspect_cmd c) [] r)) \<Longrightarrow> emits S (netem_check E)"
  unfolding netem_check_def by (intro emits_intros)

lemma wait_netem_emits [emits_intros]:
  "(\<And>c r. S (RunProc (inspect_cmd c) [] r)) \<Longrightarrow> (\<And>s. S (Slept s)) \<Longrightarrow> emits S (wait_for_no_active_netem E t)"
  unfolding wait_for_no_active_netem_def by (intro emits_intros)

lemma start_scoped [emits_intros]: "emits scoped (start_pumba_profile E p t)"
  unfolding start_pumba_profile_def by (intro emits_intros) simp_all

lemma start_wan_scoped [emits_intros]: "emits scoped (start_pumba_wan_profile E p t)"
  unfolding start_pumba_wan_profile_def
  by (rule emits_bind_lift, intro emits_intros) (auto simp: dict_item_eq_Inr intro: scoped_compose)

lemma run_pumba_scoped [emits_intros]: "emits scoped (run_pumba_profile E p)"
  unfolding run_pumba_profile_def by (intro emits_intros) simp_all

lemma toggle_scoped [emits_intros]: "emits scoped (toggle_profile_bursts E p a b n)"
  unfolding toggle_profile_bursts_def burst_cycle_def by (intro emits_intros) simp_all

lemma injector_main_scoped [emits_intros]: "emits scoped (injector_main E argv)"
  unfolding injector_main_def by (intro emits_intros)

text \<open>C4. No injector operation ever runs \<^verbatim>\<open>docker compose --profile X up/stop/rm\<close> without service
  names or on a service that is not one of the profile's own (the command would then act on the
  whole cluster): it holds for starting, cleaning up, running to completion, bursts, the WAN
  variants and the command line.\<close>

theorem injector_commands_scoped:
  "emits scoped (start_pumba_profile E p t) \<and> emits scoped (cleanup_profile E p) \<and>
   emits scoped (run_pumba_profile E p) \<and> emits scoped (toggle_profile_bursts E p on_s off_s n) \<and>
   emits scoped (start_pumba_wan_profile E p t) \<and> emits scoped (cleanup_wan_profile E p) \<and>
   emits scoped (injector_main E argv)"
  by (intro conjI emits_intros)

section \<open>Starting a profile\<close>

text \<open>What the environment answered to an inspection.\<close>

definition inspected :: "string \<Rightarrow> string set \<Rightarrow> event \<Rightarrow> bool" where
  "inspected c sts ev = (\<exists>p. ev = RunProc (inspect_cmd c) [] (Inr p) \<and> status_of p \<in> sts)"

lemma wp_container_status:
  "wp (container_status E c) (\<lambda>s w'. grows (\<lambda>_. True) w w' \<and> (\<exists>evs ev. log w' = log w @ [ev] \<and> inspected c {s} ev))
     (\<lambda>_. grows (\<lambda>_. True) w) w"
  unfolding container_status_def
  by (auto simp: wp_simps inspected_def grows_def emit_def split: sum.splits)

definition upped :: "string \<Rightarrow> string \<Rightarrow> event \<Rightarrow> bool" where
  "upped p svc ev = (\<exists>r. ev = RunProc (compose_cmd p UP [svc]) [] (Inr r) \<and> returncode r = 0)"

lemma wp_up_detached:
  "wp (up_detached E p)
     (\<lambda>c w'. \<exists>svc ev. map_of PROFILE_TO_SERVICE p = Some svc \<and> map_of PROFILE_TO_CONTAINER p = Some c \<and>
        log w' = log w @ [ev] \<and> upped p svc ev)
     (\<lambda>e w'. p \<in> set (dict_keys PROFILE_TO_SERVICE) \<or> (w' = w \<and> exn_class e = ValueError)) w"
  unfolding up_detached_def
  by (auto simp: wp_simps dict_item_def upped_def emit_def split: sum.splits option.splits)

text \<open>C5. When \<^verbatim>\<open>start_pumba_profile\<close> returns, the profile is a known one, its service was brought
  up successfully as the first effect, and the last effect is an inspection of its container (not of
  its service name) that answered running or exited.\<close>

theorem start_pumba_profile_observed:
  assumes "start_pumba_profile E p t w = Some (Inr c, w')"
  shows "\<exists>svc up evs ev. map_of PROFILE_TO_SERVICE p = Some svc \<and> map_of PROFILE_TO_CONTAINER p = Some c \<and>
    log w' = log w @ up # evs @ [ev] \<and> upped p svc up \<and> inspected c {''running'', ''exited''} ev"
proof -
  let ?Q = "\<lambda>c w'. \<exists>svc up evs ev. map_of PROFILE_TO_SERVICE p = Some svc \<and>
    map_of PROFILE_TO_CONTAINER p = Some c \<and> log w' = log w @ up # evs @ [ev] \<and> upped p svc up \<and>
    inspected c {''running'', ''exited''} ev"
  have "wp (start_pumba_profile E p t) ?Q (\<lambda>_ _. True) w"
    unfolding start_pumba_profile_def wp_bind
  proof (rule wp_mono [OF wp_up_detached])
    fix c and w1 :: world
    assume "\<exists>svc ev. map_of PROFILE_TO_SERVICE p = Some svc \<and> map_of PROFILE_TO_CONTAINER p = Some c \<and>
        log w1 = log w @ [ev] \<and> upped p svc ev"
    then obtain svc up where up: "map_of PROFILE_TO_SERVICE p = Some svc" "map_of PROFILE_TO_CONTAINER p = Some c"
      "log w1 = log w @ [up]" "upped p svc up" by blast
    let ?I = "\<lambda>v :: world. \<exists>evs. log v = log w @ up # evs"
    show "wp (poll_until E t (3/10) (started_check E c)) (\<lambda>r. wp (case r of Some c \<Rightarrow> py_return c
     | None \<Rightarrow> py_raise (Exn RuntimeError (c @ '' did not reach running/exited state''))) ?Q (\<lambda>_ _. True)) (\<lambda>_ _. True) w1"
    proof (rule wp_poll_until [where I = ?I])
      fix v assume "?I v"
      then show "wp (started_check E c) (\<lambda>r w'. case r of
          Some x \<Rightarrow> wp (case Some x of Some c \<Rightarrow> py_return c
             | None \<Rightarrow> py_raise (Exn RuntimeError (c @ '' did not reach running/exited state''))) ?Q (\<lambda>_ _. True) w'
        | None \<Rightarrow> ?I (emit E (Slept (3/10)) (3/10) w')) (\<lambda>_ _. True) v"
        unfolding started_check_def wp_bind
        by (intro wp_mono [OF wp_container_status])
          (use up in \<open>auto simp: wp_simps emit_def inspected_def\<close>)
    qed (use up in \<open>auto simp: wp_simps\<close>)
  qed simp
  from wp_Inr [OF assms this] show ?thesis .
qed

definition healthy_docker :: "string list \<Rightarrow> (string \<times> string) list \<Rightarrow> proc result" where
  "healthy_docker argv vars = Inr \<lparr>returncode = 0, out_text = ''running'', err_text = []\<rparr>"

lemma start_evaluates:
  "\<exists>w'. start_pumba_profile (static_env (\<lambda>_ _. Inl (Exn URLError [])) healthy_docker) ''chaos-loss'' 15 start_world
     = Some (Inr ''pumba-loss-injector'', w')"
  by (simp add: start_pumba_profile_def up_detached_def dict_keys_def dict_item_def PROFILE_TO_SERVICE_def
      PROFILE_TO_CONTAINER_def run_defs healthy_docker_def poll_until_def py_while.simps started_check_def
      container_status_def status_of_def strip_ws_def lstrip_ws_def rstrip_ws_def is_space_def code_of_def)

theorem start_pumba_profile_observed_witness:
  "\<exists>w' svc up evs ev.
    start_pumba_profile (static_env (\<lambda>_ _. Inl (Exn URLError [])) healthy_docker) ''chaos-loss'' 15 start_world
     = Some (Inr ''pumba-loss-injector'', w') \<and>
    map_of PROFILE_TO_SERVICE ''chaos-loss'' = Some svc \<and>
    log w' = log start_world @ up # evs @ [ev] \<and> upped ''chaos-loss'' svc up \<and>
    inspected ''pumba-loss-injector'' {''running'', ''exited''} ev"
  using start_evaluates start_pumba_profile_observed by blast

section \<open>Cleaning up and bursts\<close>

lemma clear_logs: "logs command (clear_netem_qdisc E c) [clear_cmd c]"
  unfolding clear_netem_qdisc_def
  using logs_bind [OF logs_command_run(1) logs_return] by fastforce

lemma cleanup_logs:
  "map_of PROFILE_TO_SERVICE p = Some svc \<Longrightarrow>
   logs command (cleanup_profile E p)
     ([compose_cmd p STOP [svc]] @ [compose_cmd p RM [svc]] @ map clear_cmd (dict_get PROFILE_TO_NETEM_TARGETS p []))"
  unfolding cleanup_profile_def
  by (intro logs_bind_lift logs_bind logs_command_run(1) logs_cong [OF logs_each [where t = "\<lambda>c. [clear_cmd c]"]] clear_logs)
    (auto simp: dict_item_def intro: logs_command_run)

text \<open>Cleaning up a profile that runs to the end stops its service, then removes it, then clears
  the queueing discipline of each of its targets, and does nothing else.\<close>

theorem cleanup_profile_trace:
  assumes "map_of PROFILE_TO_SERVICE p = Some svc" "cleanup_profile E p w = Some (Inr u, w')"
  shows "\<exists>evs. log w' = log w @ evs \<and>
    trace command evs = compose_cmd p STOP [svc] # compose_cmd p RM [svc]
      # map clear_cmd (dict_get PROFILE_TO_NETEM_TARGETS p [])"
  using logsD [OF cleanup_logs [OF assms(1)] assms(2)] by simp

lemma cleanup_evaluates:
  "\<exists>w'. cleanup_profile (static_env (\<lambda>_ _. Inl (Exn URLError [])) healthy_docker) ''chaos-loss'' start_world
     = Some (Inr (), w')"
  by (simp add: cleanup_profile_def dict_item_def PROFILE_TO_SERVICE_def PROFILE_TO_NETEM_TARGETS_def
      dict_get_def run_defs healthy_docker_def clear_netem_qdisc_def)

theorem cleanup_profile_trace_witness:
  "\<exists>w' evs. cleanup_profile (static_env (\<lambda>_ _. Inl (Exn URLError [])) healthy_docker) ''chaos-loss'' start_world
     = Some (Inr (), w') \<and> log w' = evs \<and>
    trace command evs = [compose_cmd ''chaos-loss'' STOP [''pumba-loss''], compose_cmd ''chaos-loss'' RM [''pumba-loss''],
      clear_cmd ''engram-node01'', clear_cmd ''engram-node02'']"
proof -
  obtain w' where w: "cleanup_profile (static_env (\<lambda>_ _. Inl (Exn URLError [])) healthy_docker) ''chaos-loss'' start_world
     = Some (Inr (), w')" using cleanup_evaluates by blast
  have "map_of PROFILE_TO_SERVICE ''chaos-loss'' = Some ''pumba-loss''" by (simp add: PROFILE_TO_SERVICE_def)
  from cleanup_profile_trace [OF this w] w show ?thesis
    by (auto simp: PROFILE_TO_NETEM_TARGETS_def dict_get_def)
qed

text \<open>The \<^verbatim>\<open>docker compose\<close> commands among the events.\<close>

definition composes :: "event \<Rightarrow> string list list" where
  "composes ev = filter (\<lambda>argv. compose_target argv \<noteq> None) (command ev)"

lemma composes_simps [simp]:
  "composes (Slept s) = []" "composes (RunProc (inspect_cmd c) vs r) = []"
  "composes (RunProc (clear_cmd c) vs r) = []"
  "v \<in> {STOP, RM, UP} \<Longrightarrow> composes (RunProc (compose_cmd p v ss) vs r) = [compose_cmd p v ss]"
  by (simp_all add: composes_def)

lemma composes_compose_verbs [simp]:
  "composes (RunProc (compose_cmd p STOP ss) vs r) = [compose_cmd p STOP ss]"
  "composes (RunProc (compose_cmd p RM ss) vs r) = [compose_cmd p RM ss]"
  "composes (RunProc (compose_cmd p UP ss) vs r) = [compose_cmd p UP ss]"
  by simp_all

lemma cleanup_composes:
  assumes "map_of PROFILE_TO_SERVICE p = Some svc"
  shows "logs composes (cleanup_profile E p) [compose_cmd p STOP [svc], compose_cmd p RM [svc]]"
proof -
  have "logs composes (py_each (clear_netem_qdisc E) cs) []" for cs
    by (rule logs_emits, intro emits_intros) simp
  then have "logs composes (cleanup_profile E p) ([compose_cmd p STOP [svc]] @ [compose_cmd p RM [svc]] @ [])"
    unfolding cleanup_profile_def
    by (intro logs_bind_lift logs_bind) (auto simp: assms dict_item_def intro!: logs_run_proc)
  then show ?thesis by simp
qed

lemma start_composes:
  assumes "map_of PROFILE_TO_SERVICE p = Some svc"
  shows "logs composes (start_pumba_profile E p t) [compose_cmd p UP [svc]]"
proof -
  have "logs composes (up_detached E p) ([compose_cmd p UP [svc]] @ [])"
    unfolding up_detached_def
    by (intro logs_if logs_raise logs_bind_lift logs_bind logs_lift)
      (auto simp: assms dict_item_def intro!: logs_run_proc)
  moreover have "logs composes (poll_until E t i (started_check E c)) []" for c i
    by (rule logs_emits, intro emits_intros) simp_all
  ultimately have "logs composes (start_pumba_profile E p t) (([compose_cmd p UP [svc]] @ []) @ [] @ [])"
    unfolding start_pumba_profile_def by (intro logs_intros)
  then show ?thesis by simp
qed

lemma burst_composes:
  assumes "map_of PROFILE_TO_SERVICE p = Some svc"
  shows "logs composes (burst_cycle E p a b)
    [compose_cmd p UP [svc], compose_cmd p STOP [svc], compose_cmd p RM [svc]]"
proof -
  have sleep: "logs composes (time_sleep E s) []" for s by (rule logs_sleep) simp
  have wait: "logs composes (wait_for_no_active_netem E t) []" for t
    by (rule logs_emits, intro emits_intros) simp_all
  have "logs composes (burst_cycle E p a b) ([compose_cmd p UP [svc]] @ [] @
      [compose_cmd p STOP [svc], compose_cmd p RM [svc]] @ [] @ [])"
    unfolding burst_cycle_def
    by (intro logs_bind logs_then start_composes cleanup_composes assms sleep wait)
  then show ?thesis by simp
qed

text \<open>A burst sequence that runs to the end has started, stopped and removed the profile exactly
  once per cycle, in this order: no start ever happens while an earlier burst is still up, and the
  sequence leaves nothing up.\<close>

theorem toggle_profile_bursts_trace:
  assumes "map_of PROFILE_TO_SERVICE p = Some svc"
    and "toggle_profile_bursts E p on_s off_s cycles w = Some (Inr u, w')"
  shows "\<exists>evs. log w' = log w @ evs \<and>
    trace composes evs =
      concat (replicate cycles [compose_cmd p UP [svc], compose_cmd p STOP [svc], compose_cmd p RM [svc]])"
proof -
  let ?t = "[compose_cmd p UP [svc], compose_cmd p STOP [svc], compose_cmd p RM [svc]]"
  have "logs composes (py_each (\<lambda>i. burst_cycle E p on_s off_s) [0 ..< cycles]) (concat (map (\<lambda>_. ?t) [0 ..< cycles]))"
    by (intro logs_each burst_composes assms(1))
  then have "logs composes (toggle_profile_bursts E p on_s off_s cycles) (concat (replicate cycles ?t))"
    unfolding toggle_profile_bursts_def
    by (intro logs_if logs_raise) (simp add: map_replicate_const)
  from logsD [OF this assms(2)] show ?thesis .
qed

definition finished_docker :: "string list \<Rightarrow> (string \<times> string) list \<Rightarrow> proc result" where
  "finished_docker argv vars = Inr \<lparr>returncode = 0, out_text = ''exited'', err_text = []\<rparr>"

abbreviation finished_env :: env where
  "finished_env \<equiv> static_env (\<lambda>_ _. Inl (Exn URLError [])) finished_docker"

lemma strip_exited [simp]: "strip_ws ''exited'' = ''exited''"
  by (simp add: strip_ws_def lstrip_ws_def rstrip_ws_def is_space_def code_of_def)

lemma status_finished: "\<exists>w'. container_status finished_env c w = Some (Inr ''exited'', w') \<and> clock w' = clock w"
  by (simp add: container_status_def status_of_def run_defs finished_docker_def)

lemma netem_check_finished:
  "\<exists>w'. py_all (netem_idle finished_env) cs w = Some (Inr True, w') \<and> clock w' = clock w"
proof (induction cs arbitrary: w)
  case Nil
  then show ?case by (simp add: py_return_def)
next
  case (Cons c cs)
  obtain v where v: "container_status finished_env c w = Some (Inr ''exited'', v)" "clock v = clock w"
    using status_finished by blast
  from Cons [of v] v show ?case by (auto simp: netem_idle_def py_bind_def py_return_def)
qed

lemma wait_finished: "0 < t \<Longrightarrow> \<exists>w'. wait_for_no_active_netem finished_env t w = Some (Inr (), w')"
proof -
  assume t: "0 < t"
  obtain v where "py_all (netem_idle finished_env) netem_containers w = Some (Inr True, v)"
    using netem_check_finished by blast
  with t show ?thesis
    by (simp add: wait_for_no_active_netem_def poll_until_def run_defs py_while.simps netem_check_def)
qed

lemma start_finished:
  "\<exists>w'. start_pumba_profile finished_env ''chaos-loss'' 15 w = Some (Inr ''pumba-loss-injector'', w')"
  by (simp add: start_pumba_profile_def up_detached_def dict_keys_def dict_item_def PROFILE_TO_SERVICE_def
      PROFILE_TO_CONTAINER_def run_defs finished_docker_def poll_until_def py_while.simps started_check_def
      container_status_def status_of_def)

lemma cleanup_finished: "\<exists>w'. cleanup_profile finished_env ''chaos-loss'' w = Some (Inr (), w')"
  by (simp add: cleanup_profile_def dict_item_def PROFILE_TO_SERVICE_def PROFILE_TO_NETEM_TARGETS_def
      dict_get_def run_defs finished_docker_def clear_netem_qdisc_def)

lemma burst_finished:
  assumes "0 \<le> a" "0 \<le> b"
  shows "\<exists>w'. burst_cycle finished_env ''chaos-loss'' a b w = Some (Inr (), w')"
proof -
  obtain w1 where 1: "start_pumba_profile finished_env ''chaos-loss'' 15 w = Some (Inr ''pumba-loss-injector'', w1)"
    using start_finished by blast
  obtain w2 where 2: "time_sleep finished_env a w1 = Some (Inr (), w2)" using assms by (simp add: time_sleep_def)
  obtain w3 where 3: "cleanup_profile finished_env ''chaos-loss'' w2 = Some (Inr (), w3)"
    using cleanup_finished by blast
  obtain w4 where 4: "time_sleep finished_env b w3 = Some (Inr (), w4)" using assms by (simp add: time_sleep_def)
  obtain w5 where 5: "wait_for_no_active_netem finished_env 20 w4 = Some (Inr (), w5)"
    using wait_finished [of 20 w4] by auto
  show ?thesis by (simp add: burst_cycle_def py_bind_def py_then_def 1 2 3 4 5)
qed

theorem toggle_profile_bursts_trace_witness:
  "\<exists>w'. toggle_profile_bursts finished_env ''chaos-loss'' 20 10 2 start_world = Some (Inr (), w') \<and>
    (\<exists>evs. log w' = evs \<and> trace composes evs =
      [compose_cmd ''chaos-loss'' UP [''pumba-loss''], compose_cmd ''chaos-loss'' STOP [''pumba-loss''],
       compose_cmd ''chaos-loss'' RM [''pumba-loss''],
       compose_cmd ''chaos-loss'' UP [''pumba-loss''], compose_cmd ''chaos-loss'' STOP [''pumba-loss''],
       compose_cmd ''chaos-loss'' RM [''pumba-loss'']])"
proof -
  obtain w1 where 1: "burst_cycle finished_env ''chaos-loss'' 20 10 start_world = Some (Inr (), w1)"
    using burst_finished [of 20 10] by auto
  obtain w2 where 2: "burst_cycle finished_env ''chaos-loss'' 20 10 w1 = Some (Inr (), w2)"
    using burst_finished [of 20 10] by auto
  have "toggle_profile_bursts finished_env ''chaos-loss'' 20 10 2 start_world = Some (Inr (), w2)"
    by (simp add: toggle_profile_bursts_def numeral_2_eq_2 py_then_def py_bind_def 1 2 py_return_def)
  moreover have "map_of PROFILE_TO_SERVICE ''chaos-loss'' = Some ''pumba-loss''"
    by (simp add: PROFILE_TO_SERVICE_def)
  ultimately show ?thesis
    using toggle_profile_bursts_trace [of "''chaos-loss''" "''pumba-loss''" finished_env 20 10 2 start_world "()" w2]
    by (simp add: numeral_2_eq_2)
qed

section \<open>Waiting until no injector is active\<close>

interpretation netem_poller: poller E "1 / 2" "netem_check E" for E
  unfolding netem_check_def netem_idle_def
  by unfold_locales (auto intro!: total_intros emits_intros)

interpretation start_poller: poller E "3 / 10" "started_check E c" for E c
  unfolding started_check_def
  by unfold_locales (auto intro!: total_intros emits_intros)

interpretation wan_start_poller: poller E "3 / 10" "wan_started_check E cs" for E cs
  unfolding wan_started_check_def
  by unfold_locales (auto intro!: total_intros emits_intros)

lemma wait_netem_total [total_intros]: "total (wait_for_no_active_netem E t)"
  unfolding wait_for_no_active_netem_def netem_idle_def
  by (intro total_intros netem_poller.returns)

lemma up_detached_total [total_intros]: "total (up_detached E p)"
  unfolding up_detached_def by (intro total_intros)

lemma start_total [total_intros]: "total (start_pumba_profile E p t)"
  unfolding start_pumba_profile_def by (intro total_intros start_poller.returns)

lemma start_wan_total [total_intros]: "total (start_pumba_wan_profile E p t)"
  unfolding start_pumba_wan_profile_def by (intro total_intros wan_start_poller.returns)

lemma clear_total [total_intros]: "total (clear_netem_qdisc E c)"
  unfolding clear_netem_qdisc_def by (intro total_intros)

lemma cleanup_total [total_intros]: "total (cleanup_profile E p)" "total (cleanup_wan_profile E p)"
  unfolding cleanup_profile_def cleanup_wan_profile_def by (intro total_intros)+

lemma toggle_total [total_intros]: "total (toggle_profile_bursts E p a b n)"
  unfolding toggle_profile_bursts_def burst_cycle_def by (intro total_intros)

lemma run_pumba_total [total_intros]: "total (run_pumba_profile E p)"
  unfolding run_pumba_profile_def by (intro total_intros)

lemma injector_main_total [total_intros]: "total (injector_main E argv)"
  unfolding injector_main_def by (intro total_intros)

lemma wp_netem_all:
  "wp (py_all (netem_idle E) cs)
     (\<lambda>b w'. \<exists>evs. log w' = log w @ evs \<and> (b \<longrightarrow> list_all2 (\<lambda>c. inspected c {''missing'', ''exited''}) cs evs))
     (\<lambda>_ _. True) w"
proof (induction cs arbitrary: w)
  case Nil
  then show ?case by (simp add: wp_simps)
next
  case (Cons c cs)
  show ?case
    unfolding py_all.simps netem_idle_def [of E c] wp_bind
  proof (rule wp_mono [OF wp_container_status])
    fix s and w' :: world
    assume "grows (\<lambda>_. True) w w' \<and> (\<exists>evs ev. log w' = log w @ [ev] \<and> inspected c {s} ev)"
    then obtain ev where ev: "log w' = log w @ [ev]" "inspected c {s} ev" by blast
    show "wp (py_return (s \<in> {''missing'', ''exited''}))
        (\<lambda>x. wp (if x then py_all (netem_idle E) cs else py_return False)
          (\<lambda>b w'. \<exists>evs. log w' = log w @ evs \<and>
             (b \<longrightarrow> list_all2 (\<lambda>c. inspected c {''missing'', ''exited''}) (c # cs) evs)) (\<lambda>_ _. True)) (\<lambda>_ _. True) w'"
    proof (cases "s \<in> {''missing'', ''exited''}")
      case True
      then have i: "inspected c {''missing'', ''exited''} ev" using ev by (auto simp: inspected_def)
      from True show ?thesis
        unfolding wp_return by (auto intro!: wp_mono [OF Cons.IH [of w']] simp: ev i)
    qed (use ev in \<open>auto simp: wp_simps\<close>)
  qed simp
qed

lemma wait_netem_swept:
  "wp (wait_for_no_active_netem E t) (\<lambda>_ w'. \<exists>evs sweep. log w' = log w @ evs @ sweep \<and>
    list_all2 (\<lambda>c. inspected c {''missing'', ''exited''}) netem_containers sweep) (\<lambda>_ _. True) w"
proof -
  let ?Q = "\<lambda>w'. \<exists>evs sweep. log w' = log w @ evs @ sweep \<and>
    list_all2 (\<lambda>c. inspected c {''missing'', ''exited''}) netem_containers sweep"
  let ?I = "\<lambda>v :: world. \<exists>evs. log v = log w @ evs"
  let ?raise = "py_bind (py_map (netem_idle E) netem_containers) (\<lambda>idle.
         py_raise (Exn RuntimeError
           (''netem containers still active, refusing to start a new profile: ''
            @ py_join '', '' (map fst (filter (Not \<circ> snd) (zip netem_containers idle))))))"
  have r: "wp ?raise (\<lambda>_. ?Q) (\<lambda>_ _. True) v" for v
    unfolding wp_bind by (rule wp_map [where I = "\<lambda>_ _. True", THEN wp_mono]) (auto simp: wp_simps wp_def split: option.splits sum.splits)
  show ?thesis
    unfolding wait_for_no_active_netem_def wp_bind
  proof (rule wp_poll_until [where I = ?I])
    fix v assume "?I v"
    then obtain e0 where "log v = log w @ e0" by blast
    then show "wp (netem_check E) (\<lambda>r w'. case r of
          Some x \<Rightarrow> wp (case Some x of Some _ \<Rightarrow> py_return () | None \<Rightarrow> ?raise) (\<lambda>_. ?Q) (\<lambda>_ _. True) w'
        | None \<Rightarrow> ?I (emit E (Slept (1/2)) (1/2) w')) (\<lambda>_ _. True) v"
      unfolding netem_check_def wp_bind
      by (intro wp_mono [OF wp_netem_all]) (auto simp: wp_simps emit_def)
  next
    fix v assume "?I v"
    show "wp (case None of Some (_ :: unit) \<Rightarrow> py_return () | None \<Rightarrow> ?raise) (\<lambda>_. ?Q) (\<lambda>_ _. True) v"
      using r by simp
  qed auto
qed

text \<open>When \<^verbatim>\<open>wait_for_no_active_netem\<close> returns, its last effects are one inspection of each netem
  injector, in the order of the list, and every one of them answered missing or exited.\<close>

theorem wait_for_no_active_netem_idle:
  assumes "wait_for_no_active_netem E t w = Some (Inr (), w')"
  shows "\<exists>evs sweep. log w' = log w @ evs @ sweep \<and>
    list_all2 (\<lambda>c. inspected c {''missing'', ''exited''}) netem_containers sweep"
  by (rule wp_Inr [OF assms wait_netem_swept])

theorem wait_for_no_active_netem_idle_witness:
  "\<exists>w' evs sweep. wait_for_no_active_netem finished_env 20 start_world = Some (Inr (), w') \<and>
    log w' = evs @ sweep \<and> list_all2 (\<lambda>c. inspected c {''missing'', ''exited''}) netem_containers sweep"
proof -
  obtain w' where w: "wait_for_no_active_netem finished_env 20 start_world = Some (Inr (), w')"
    using wait_finished [of 20] by auto
  from wait_for_no_active_netem_idle [OF w] w show ?thesis by auto
qed

text \<open>The inspections the wait makes.\<close>

definition netem_probe :: "event \<Rightarrow> bool" where
  "netem_probe ev =
     (case ev of RunProc argv vs r \<Rightarrow> argv \<in> inspect_cmd ` set netem_containers | Slept _ \<Rightarrow> True | _ \<Rightarrow> False)"

lemma netem_idle_probe: "c \<in> set netem_containers \<Longrightarrow> emits netem_probe (netem_idle E c)"
  unfolding netem_idle_def container_status_def by (intro emits_intros) (auto simp: netem_probe_def)

text \<open>The list that \<^verbatim>\<open>wait_for_no_active_netem\<close> checks is exactly the containers of the profiles
  that install a queueing discipline. The WAN injectors, which install one on the same
  validators, are not on it: the wait never inspects any of them, so it does not notice a WAN profile
  that is still active.\<close>

theorem netem_wait_misses_wan:
  "map Some netem_containers = map (map_of PROFILE_TO_CONTAINER) (dict_keys PROFILE_TO_NETEM_TARGETS) \<and>
   emits netem_probe (wait_for_no_active_netem E t) \<and>
   (\<forall>svc \<in> set (concat (dict_values WAN_PROFILE_TO_SERVICES)). \<forall>r. \<not> netem_probe (RunProc (inspect_cmd svc) [] r)) \<and>
   set (concat (dict_values WAN_PROFILE_TO_NETEM_TARGETS)) = {''engram-node01'', ''engram-node02'', ''engram-node03'', ''engram-node04''}"
proof (intro conjI)
  show "map Some netem_containers = map (map_of PROFILE_TO_CONTAINER) (dict_keys PROFILE_TO_NETEM_TARGETS)"
    by (simp add: netem_containers_def PROFILE_TO_CONTAINER_def dict_keys_def PROFILE_TO_NETEM_TARGETS_def)
  show "emits netem_probe (wait_for_no_active_netem E t)"
    unfolding wait_for_no_active_netem_def netem_check_def
    by (intro emits_intros netem_idle_probe) (auto simp: netem_probe_def)
  show "\<forall>svc \<in> set (concat (dict_values WAN_PROFILE_TO_SERVICES)). \<forall>r. \<not> netem_probe (RunProc (inspect_cmd svc) [] r)"
    by (auto simp: dict_values_def WAN_PROFILE_TO_SERVICES_def netem_probe_def inspect_cmd_def netem_containers_def)
  show "set (concat (dict_values WAN_PROFILE_TO_NETEM_TARGETS)) = {''engram-node01'', ''engram-node02'', ''engram-node03'', ''engram-node04''}"
    by (auto simp: dict_values_def WAN_PROFILE_TO_NETEM_TARGETS_def)
qed

theorem netem_wait_misses_wan_witness:
  "emits netem_probe (wait_for_no_active_netem finished_env 20) \<and>
   \<not> netem_probe (RunProc (inspect_cmd ''pumba-wan-loss-01'') [] (finished_docker [] []))"
  using netem_wait_misses_wan [of finished_env 20]
  by (simp add: dict_values_def WAN_PROFILE_TO_SERVICES_def)

end
