(* ===== verification/Lifecycle_Runs.thy ===== *)
theory Lifecycle_Runs
  imports Transition_Tracker Chaos_Injector
begin

text \<open>
  The experiments of \<^verbatim>\<open>scripts/e3_failure_matrix/\<close> against the live testnet: the full-lifecycle
  runs that inject a DA outage (\<^verbatim>\<open>live_lifecycle_test.py\<close>) or cut validator links
  (\<^verbatim>\<open>live_p2p_lifecycle_test.py\<close>), the recovery observation (\<^verbatim>\<open>live_recovery_flow.py\<close>) and the
  single-profile chaos run (\<^verbatim>\<open>live_chaos_experiment.py\<close>).

  The theorems: every run comes back, the transition table it writes is exact, and a run that
  completes has undone every fault it injected, in order.
\<close>

section \<open>Shared helpers\<close>

definition docker :: "env \<Rightarrow> string list \<Rightarrow> unit py" where
  "docker E args = py_bind (run_proc E (''docker'' # args) False) (\<lambda>_. py_return ())"

definition E3_RESULTS_DIR :: string where
  "E3_RESULTS_DIR = ''scripts/e3_failure_matrix/results_live''"

definition path_join :: "string \<Rightarrow> string \<Rightarrow> string" where
  "path_join d f = d @ ''/'' @ f"

definition md_row :: "string list \<Rightarrow> string" where
  "md_row cells = ''| '' @ py_join '' | '' cells @ '' |'' @ NL"

definition transition_rows :: "(rat \<times> string \<times> string \<times> string \<times> string) list \<Rightarrow> string" where
  "transition_rows ts = concat (map (\<lambda>(t, phase, n, frm, to). md_row [fmt_fixed 0 t, phase, n, frm, to]) ts)"

definition lifecycle_summary :: "string \<Rightarrow> rat \<Rightarrow> bool \<Rightarrow> (rat \<times> string \<times> string \<times> string \<times> string) list \<Rightarrow> string" where
  "lifecycle_summary title elapsed reached ts =
     ''# LIVE full-lifecycle fault-injection test ('' @ title @ '')'' @ NL @ NL
     @ ''Total duration: '' @ fmt_fixed 0 elapsed @ ''s. Final phase reached ANCHORED: '' @ py_bool reached @ NL @ NL
     @ ''## Real transitions observed'' @ NL @ NL
     @ ''| t (s) | Phase | Node | From | To |'' @ NL @ ''|---:|---|---|---|---|'' @ NL
     @ transition_rows ts"

section \<open>live_lifecycle_test.py\<close>

definition CELESTIA_BRIDGE :: string where "CELESTIA_BRIDGE = ''celestia-bridge''"

definition stop_celestia :: "env \<Rightarrow> unit py" where
  "stop_celestia E = docker E [''stop'', CELESTIA_BRIDGE]"

definition start_celestia :: "env \<Rightarrow> unit py" where
  "start_celestia E = docker E [''start'', CELESTIA_BRIDGE]"

type_synonym life_tracker = "(string \<times> NodeSample) tracker"

definition lifecycle_poll :: "env \<Rightarrow> rat \<Rightarrow> rat \<Rightarrow> string \<Rightarrow> life_tracker \<Rightarrow> life_tracker py" where
  "lifecycle_poll E seconds interval phase tr = tracker_poll lifecycle_round E seconds interval (set_phase phase tr)"

definition lifecycle_wait :: "env \<Rightarrow> string \<Rightarrow> rat \<Rightarrow> string \<Rightarrow> life_tracker \<Rightarrow> (bool \<times> life_tracker) py" where
  "lifecycle_wait E target timeout_s phase tr = tracker_wait lifecycle_round E target timeout_s (set_phase phase tr)"

definition lifecycle_phases :: "env \<Rightarrow> (bool \<times> life_tracker) py" where
  "lifecycle_phases E =
     py_bind time_time (\<lambda>t0.
     py_bind (lifecycle_poll E 6 2 ''P1_baseline'' (new_tracker t0)) (\<lambda>tr1.
     py_then (stop_celestia E)
     (py_bind (lifecycle_wait E ''SUSPICIOUS'' 60 ''P2_da_outage'' tr1) (\<lambda>(_, tr2).
     py_then (start_celestia E)
     (py_bind (lifecycle_wait E ''ANCHORED'' 60 ''P3_quick_recovery'' tr2) (\<lambda>(_, tr3).
     py_then (stop_celestia E)
     (py_bind (lifecycle_wait E ''SUSPICIOUS'' 30 ''P4_sustained_outage_enter'' tr3) (\<lambda>(_, tr4).
     py_bind (lifecycle_wait E ''SOVEREIGN'' 120 ''P4_sustained_outage_escalate'' tr4) (\<lambda>(_, tr5).
     py_then (start_celestia E)
     (py_bind (lifecycle_wait E ''RECOVERING'' 60 ''P5_recovery_start'' tr5) (\<lambda>(_, tr6).
     py_then (stop_celestia E)
     (py_bind (lifecycle_wait E ''SOVEREIGN'' 30 ''P6_regression'' tr6) (\<lambda>(_, tr7).
     py_then (start_celestia E)
     (lifecycle_wait E ''ANCHORED'' 600 ''P7_final_recovery'' tr7))))))))))))))"

definition lifecycle_main :: "env \<Rightarrow> life_tracker py" where
  "lifecycle_main E =
     py_bind (lifecycle_phases E) (\<lambda>(reached, tr).
     py_bind (ts_label E) (\<lambda>label.
     py_then (write_csv E (map snd (tr_samples tr))
                (path_join E3_RESULTS_DIR (''lifecycle_test_'' @ label @ ''.csv'')))
     (py_bind time_time (\<lambda>now.
     py_then (write_file E (path_join E3_RESULTS_DIR (''lifecycle_test_'' @ label @ ''_summary.md''))
                (lifecycle_summary ''real docker celestia-bridge stop/start'' (now - tr_start tr) reached (tr_transitions tr)))
     (py_return tr)))))"

section \<open>live_p2p_lifecycle_test.py\<close>

definition CUT_LINKS :: "(string \<times> string \<times> string) list" where
  "CUT_LINKS =
     [(''validator-link-01-02'', ''engram-node01'', ''172.40.0.2''),
      (''validator-link-03-04'', ''engram-node03'', ''172.40.5.2'')]"

definition cut_links :: "env \<Rightarrow> unit py" where
  "cut_links E = py_each (\<lambda>(net, container, _). docker E [''network'', ''disconnect'', net, container]) CUT_LINKS"

definition heal_links :: "env \<Rightarrow> unit py" where
  "heal_links E = py_each (\<lambda>(net, container, ip). docker E [''network'', ''connect'', ''--ip'', ip, net, container]) CUT_LINKS"

definition p2p_poll :: "env \<Rightarrow> rat \<Rightarrow> rat \<Rightarrow> string \<Rightarrow> NodeSample tracker \<Rightarrow> NodeSample tracker py" where
  "p2p_poll E seconds interval phase tr = tracker_poll p2p_round E seconds interval (set_phase phase tr)"

definition p2p_wait :: "env \<Rightarrow> string \<Rightarrow> rat \<Rightarrow> string \<Rightarrow> NodeSample tracker \<Rightarrow> (bool \<times> NodeSample tracker) py" where
  "p2p_wait E target timeout_s phase tr = tracker_wait p2p_round E target timeout_s (set_phase phase tr)"

definition p2p_phases :: "env \<Rightarrow> (bool \<times> NodeSample tracker) py" where
  "p2p_phases E =
     py_bind time_time (\<lambda>t0.
     py_bind (p2p_poll E 6 2 ''P1_baseline'' (new_tracker t0)) (\<lambda>tr1.
     py_then (cut_links E)
     (py_bind (p2p_wait E ''SUSPICIOUS'' 60 ''P2_p2p_degraded'' tr1) (\<lambda>(_, tr2).
     py_bind (p2p_wait E ''SOVEREIGN'' 120 ''P3_sustained_suspicious_escalate'' tr2) (\<lambda>(_, tr3).
     py_then (heal_links E)
     (py_bind (p2p_wait E ''RECOVERING'' 60 ''P4_recovery_start'' tr3) (\<lambda>(_, tr4).
     p2p_wait E ''ANCHORED'' 600 ''P5_final_recovery'' tr4)))))))"

definition p2p_lifecycle_main :: "env \<Rightarrow> NodeSample tracker py" where
  "p2p_lifecycle_main E =
     py_bind (p2p_phases E) (\<lambda>(reached, tr).
     py_bind (ts_label E) (\<lambda>label.
     py_then (write_csv E (tr_samples tr) (path_join E3_RESULTS_DIR (''p2p_lifecycle_test_'' @ label @ ''.csv'')))
     (py_bind time_time (\<lambda>now.
     py_then (write_file E (path_join E3_RESULTS_DIR (''p2p_lifecycle_test_'' @ label @ ''_summary.md''))
                (lifecycle_summary ''real P2P link cut, docker network disconnect'' (now - tr_start tr) reached (tr_transitions tr)))
     (py_return tr)))))"

section \<open>live_recovery_flow.py\<close>

record recovery_state =
  rf_samples :: "NodeSample list"
  rf_last_state :: "(string, string) dict"
  rf_transitions :: "(rat \<times> string \<times> string \<times> string) list"
  rf_anchored_reached_at :: "(string, rat) dict"

definition recovery_observe :: "rat \<Rightarrow> NodeSample \<Rightarrow> recovery_state \<Rightarrow> recovery_state" where
  "recovery_observe elapsed s st =
     (let prev = dict_get (rf_last_state st) (node s) [];
          st1 = (if fsm_state s \<noteq> [] \<and> prev \<noteq> [] \<and> prev \<noteq> fsm_state s then
                   (let st' = st\<lparr>rf_transitions := rf_transitions st @ [(elapsed, node s, prev, fsm_state s)]\<rparr> in
                    if fsm_state s = ''ANCHORED'' \<and> node s \<notin> set (dict_keys (rf_anchored_reached_at st'))
                    then st'\<lparr>rf_anchored_reached_at := AList.update (node s) elapsed (rf_anchored_reached_at st')\<rparr>
                    else st')
                 else st)
      in if fsm_state s \<noteq> [] then st1\<lparr>rf_last_state := AList.update (node s) (fsm_state s) (rf_last_state st1)\<rparr>
         else st1)"

definition recovery_round :: "rat \<Rightarrow> NodeSample list \<Rightarrow> recovery_state \<Rightarrow> recovery_state" where
  "recovery_round elapsed rs st =
     fold (recovery_observe elapsed) rs (st\<lparr>rf_samples := rf_samples st @ rs\<rparr>)"

definition recovery_done :: "recovery_state \<Rightarrow> bool" where
  "recovery_done st \<longleftrightarrow> length (rf_anchored_reached_at st) = length NODE_RPC_PORTS"

definition recovery_loop :: "env \<Rightarrow> rat \<Rightarrow> rat \<Rightarrow> rat \<Rightarrow> recovery_state \<Rightarrow> (recovery_state, recovery_state) ctl py" where
  "recovery_loop E start deadline interval_s =
     py_while (\<lambda>_ w. clock w < deadline)
       (\<lambda>st. py_bind time_time (\<lambda>t.
             py_bind (sample_all_nodes E []) (\<lambda>rs.
             let st' = recovery_round (t - start) rs st in
             if recovery_done st' then py_return (Leave st')
             else py_then (time_sleep E interval_s) (py_return (Continue st')))))"

definition recovery_summary :: "rat \<Rightarrow> rat \<Rightarrow> string \<Rightarrow> recovery_state \<Rightarrow> string" where
  "recovery_summary minutes ran_s csv_name st =
     ''# LIVE recovery-flow observation (real 4-node docker testnet)'' @ NL @ NL
     @ ''Window: '' @ fmt_fixed 0 minutes @ '' min requested, '' @ fmt_fixed 1 (ran_s / 60) @ '' min actually run.'' @ NL @ NL
     @ ''Samples: '' @ show_nat (length (rf_samples st)) @ '', CSV: `'' @ csv_name @ ''`'' @ NL @ NL
     @ ''## Real transitions observed'' @ NL @ NL
     @ (if rf_transitions st \<noteq> [] then
          ''| t (s) | Node | From | To |'' @ NL @ ''|---:|---|---|---|'' @ NL
          @ concat (map (\<lambda>(t, n, frm, to). md_row [fmt_fixed 0 t, n, frm, to]) (rf_transitions st))
        else ''No state transitions observed in this window.'' @ NL)
     @ NL @ ''## ANCHORED reached'' @ NL @ NL
     @ (if rf_anchored_reached_at st \<noteq> [] then
          concat (map (\<lambda>(n, t). ''- '' @ n @ '': reached ANCHORED at t='' @ fmt_fixed 0 t @ ''s'' @ NL) (rf_anchored_reached_at st))
        else ''Not reached by any node within this window (real result, not omitted).'' @ NL)"

definition recovery_flow_main :: "env \<Rightarrow> rat \<Rightarrow> rat \<Rightarrow> recovery_state py" where
  "recovery_flow_main E minutes interval_s =
     py_bind time_time (\<lambda>t0.
     py_bind time_time (\<lambda>start.
     py_bind (recovery_loop E start (t0 + minutes * 60) interval_s
                \<lparr>rf_samples = [], rf_last_state = [], rf_transitions = [], rf_anchored_reached_at = []\<rparr>) (\<lambda>k.
     let st = (case k of Continue st \<Rightarrow> st | Leave st \<Rightarrow> st) in
     py_bind (ts_label E) (\<lambda>label.
     py_then (write_csv E (rf_samples st) (path_join E3_RESULTS_DIR (''recovery_flow_'' @ label @ ''.csv'')))
     (py_bind time_time (\<lambda>now.
     py_then (write_file E (path_join E3_RESULTS_DIR (''recovery_flow_'' @ label @ ''_summary.md''))
                (recovery_summary minutes (now - start) (''recovery_flow_'' @ label @ ''.csv'') st))
     (py_return st)))))))"

section \<open>live_chaos_experiment.py\<close>

definition CHAOS_TARGET_CONTAINER :: "(string, string option) dict" where
  "CHAOS_TARGET_CONTAINER =
     [(''chaos-delay'', None), (''chaos-loss'', None), (''chaos-crash'', Some ''engram-node04''),
      (''chaos-eclipse'', Some ''engram-node01'')]"

text \<open>\<^verbatim>\<open>while injector.is_running(container)\<close>: no deadline.\<close>

definition chaos_watch :: "env \<Rightarrow> string \<Rightarrow> rat \<Rightarrow> NodeSample list py" where
  "chaos_watch E container interval_s =
     py_bind
       (py_while (\<lambda>_ _. True)
          (\<lambda>ss. py_bind (is_running E container) (\<lambda>b.
             if \<not> b then py_return (Leave ss)
             else py_bind (sample_all_nodes E []) (\<lambda>rs.
                  py_then (time_sleep E interval_s) (py_return (Continue (ss @ rs)))))) [])
       (\<lambda>k. case k of Leave ss \<Rightarrow> py_return ss | Continue ss \<Rightarrow> py_return ss)"

definition show_target :: "env \<Rightarrow> string option \<Rightarrow> unit py" where
  "show_target E target =
     (case target of None \<Rightarrow> py_return () | Some t \<Rightarrow> py_bind (container_status E t) (\<lambda>_. py_return ()))"

definition chaos_heights :: "NodeSample list \<Rightarrow> (string, int list) dict" where
  "chaos_heights ss = fold (\<lambda>s d. dict_append (node s) (height s) d) ss []"

definition chaos_errors :: "NodeSample list \<Rightarrow> (string, nat) dict" where
  "chaos_errors ss = fold (\<lambda>s d. if error s \<noteq> [] then AList.update (node s) (dict_get d (node s) 0 + 1) d else d) ss []"

definition chaos_height_range :: "int list \<Rightarrow> string" where
  "chaos_height_range hs0 =
     (let hs = filter (\<lambda>h. 0 \<le> h) hs0 in
      if hs = [] then ''n/a'' else py_str_int (Min (set hs)) @ ''..'' @ py_str_int (Max (set hs)))"

definition chaos_summary :: "string \<Rightarrow> string \<Rightarrow> string \<Rightarrow> NodeSample list \<Rightarrow> string option \<Rightarrow> string" where
  "chaos_summary profile descr csv_name ss final =
     ''# LIVE chaos experiment: '' @ profile @ NL @ NL @ descr @ NL @ NL
     @ ''Samples: '' @ show_nat (length ss) @ '', CSV: `'' @ csv_name @ ''`'' @ NL @ NL
     @ ''| Node | Height range | RPC errors observed |'' @ NL @ ''|---|---|---:|'' @ NL
     @ concat (map (\<lambda>n. md_row [n, chaos_height_range (dict_get (chaos_heights ss) n []),
                      show_nat (dict_get (chaos_errors ss) n 0)]) (dict_keys NODE_RPC_PORTS))
     @ (case final of None \<Rightarrow> [] | Some line \<Rightarrow> line)"

definition chaos_experiment_main :: "env \<Rightarrow> string \<Rightarrow> rat \<Rightarrow> rat \<Rightarrow> rat \<Rightarrow> NodeSample list py" where
  "chaos_experiment_main E profile baseline_s interval_s post_s =
     (if profile \<notin> set (dict_keys PROFILE_TO_SERVICE) then py_raise (Exn SystemExit ''2'') else
     py_bind (py_lift (dict_item PROFILE_DESCRIPTIONS profile)) (\<lambda>descr.
     py_bind (py_lift (dict_item CHAOS_TARGET_CONTAINER profile)) (\<lambda>target.
     py_then (show_target E target)
     (py_bind (poll_timeline E baseline_s interval_s [] (\<lambda>_. py_return ())) (\<lambda>base.
     py_then (wait_for_no_active_netem E 20)
     (py_bind (start_pumba_profile E profile 15) (\<lambda>container.
     py_bind (chaos_watch E container interval_s) (\<lambda>during.
     py_bind (container_status E container) (\<lambda>_.
     py_then (cleanup_profile E profile)
     (py_then (show_target E target)
     (py_bind (poll_timeline E post_s interval_s [] (\<lambda>_. py_return ())) (\<lambda>post.
     py_then (show_target E target)
     ((let ss = base @ during @ post in
     py_bind (ts_label E) (\<lambda>label.
     py_then (write_csv E ss (path_join E3_RESULTS_DIR (profile @ ''_'' @ label @ ''.csv'')))
     (py_bind (case target of None \<Rightarrow> py_return None
           | Some t \<Rightarrow> py_bind (container_status E t) (\<lambda>st.
               py_return (Some (NL @ ''Target container `'' @ t @ ''` final status: `'' @ st @ ''`'' @ NL)))) (\<lambda>final.
     py_then (write_file E (path_join E3_RESULTS_DIR (profile @ ''_'' @ label @ ''_summary.md''))
           (chaos_summary profile descr (profile @ ''_'' @ label @ ''.csv'') ss final))
     (py_return ss))))))))))))))))))"

section \<open>The faults a run injects and undoes\<close>

lemma docker_total [total_intros]: "total (docker E args)"
  unfolding docker_def by (intro total_intros)

lemma docker_logs [logs_intros]: "logs command (docker E args) [''docker'' # args]"
proof -
  have "logs command (docker E args) ([''docker'' # args] @ [])"
    unfolding docker_def by (intro logs_intros)
  then show ?thesis by simp
qed

lemma docker_emits [emits_intros]: "(\<And>r. S (RunProc (''docker'' # args) [] r)) \<Longrightarrow> emits S (docker E args)"
  unfolding docker_def by (intro emits_intros)

definition outage_on :: "string list" where "outage_on = [''docker'', ''stop'', CELESTIA_BRIDGE]"
definition outage_off :: "string list" where "outage_off = [''docker'', ''start'', CELESTIA_BRIDGE]"

lemma celestia_logs [logs_intros]:
  "logs command (stop_celestia E) [outage_on]" "logs command (start_celestia E) [outage_off]"
  unfolding stop_celestia_def start_celestia_def outage_on_def outage_off_def by (rule docker_logs)+

lemma lifecycle_step_logs [logs_intros]:
  "logs command (lifecycle_poll E s i p tr) []" "logs command (lifecycle_wait E t s p tr) []"
  "logs command (p2p_poll E s i p tr') []" "logs command (p2p_wait E t s p tr') []"
  unfolding lifecycle_poll_def lifecycle_wait_def p2p_poll_def p2p_wait_def by (rule tracker_logs)+

lemma lifecycle_phases_logs:
  "logs command (lifecycle_phases E) [outage_on, outage_off, outage_on, outage_off, outage_on, outage_off]"
proof -
  have "logs command (lifecycle_phases E) ([] @ [] @ [outage_on] @ [] @ [outage_off] @ [] @ [outage_on] @ [] @ []
      @ [outage_off] @ [] @ [outage_on] @ [] @ [outage_off] @ [])"
    unfolding lifecycle_phases_def by (intro logs_intros)
  then show ?thesis by simp
qed

text \<open>A full-lifecycle run that completes has issued exactly three DA outages, each followed by
  its restoration before the next one, and no other command: it leaves the bridge started.\<close>

theorem lifecycle_main_heals:
  assumes "lifecycle_main E w = Some (Inr tr, w')"
  shows "\<exists>evs. log w' = log w @ evs \<and>
    trace command evs = concat (replicate 3 [[''docker'', ''stop'', CELESTIA_BRIDGE], [''docker'', ''start'', CELESTIA_BRIDGE]])"
proof -
  have "logs command (lifecycle_main E) ([outage_on, outage_off, outage_on, outage_off, outage_on, outage_off]
      @ [] @ [] @ [] @ [] @ [])"
    unfolding lifecycle_main_def by (intro logs_intros lifecycle_phases_logs)
  from logsD [OF this assms] show ?thesis
    by (simp add: outage_on_def outage_off_def numeral_3_eq_3)
qed

lemma links_logs:
  "logs command (cut_links E) (map (\<lambda>(net, c, ip). [''docker'', ''network'', ''disconnect'', net, c]) CUT_LINKS)"
  "logs command (heal_links E) (map (\<lambda>(net, c, ip). [''docker'', ''network'', ''connect'', ''--ip'', ip, net, c]) CUT_LINKS)"
proof -
  have "logs command (cut_links E) (concat (map (\<lambda>(net, c, ip). [[''docker'', ''network'', ''disconnect'', net, c]]) CUT_LINKS))"
    unfolding cut_links_def by (rule logs_each) (auto intro: docker_logs)
  moreover have "logs command (heal_links E)
      (concat (map (\<lambda>(net, c, ip). [[''docker'', ''network'', ''connect'', ''--ip'', ip, net, c]]) CUT_LINKS))"
    unfolding heal_links_def by (rule logs_each) (auto intro: docker_logs)
  ultimately show
    "logs command (cut_links E) (map (\<lambda>(net, c, ip). [''docker'', ''network'', ''disconnect'', net, c]) CUT_LINKS)"
    "logs command (heal_links E) (map (\<lambda>(net, c, ip). [''docker'', ''network'', ''connect'', ''--ip'', ip, net, c]) CUT_LINKS)"
    by (simp_all add: CUT_LINKS_def)
qed

text \<open>A P2P lifecycle run that completes has cut every link of \<^verbatim>\<open>CUT_LINKS\<close> and then reconnected
  each of them, on the same network, to the same container, with its static address.\<close>

theorem p2p_lifecycle_main_heals:
  assumes "p2p_lifecycle_main E w = Some (Inr tr, w')"
  shows "\<exists>evs. log w' = log w @ evs \<and>
    trace command evs =
      map (\<lambda>(net, c, ip). [''docker'', ''network'', ''disconnect'', net, c]) CUT_LINKS @
      map (\<lambda>(net, c, ip). [''docker'', ''network'', ''connect'', ''--ip'', ip, net, c]) CUT_LINKS"
proof -
  let ?cut = "map (\<lambda>(net, c, ip). [''docker'', ''network'', ''disconnect'', net, c]) CUT_LINKS"
  let ?heal = "map (\<lambda>(net, c, ip). [''docker'', ''network'', ''connect'', ''--ip'', ip, net, c]) CUT_LINKS"
  have "logs command (p2p_phases E) ([] @ [] @ ?cut @ [] @ [] @ ?heal @ [] @ [])"
    unfolding p2p_phases_def by (intro logs_intros links_logs)
  then have "logs command (p2p_lifecycle_main E) (([] @ [] @ ?cut @ [] @ [] @ ?heal @ [] @ []) @ [] @ [] @ [] @ [] @ [])"
    unfolding p2p_lifecycle_main_def by (intro logs_intros)
  from logsD [OF this assms] show ?thesis by simp
qed

section \<open>Every run comes back\<close>

lemma lifecycle_step_total [total_intros]:
  "0 < i \<Longrightarrow> total (lifecycle_poll E s i p tr)" "total (lifecycle_wait E t s p tr)"
  "0 < i \<Longrightarrow> total (p2p_poll E s i p tr')" "total (p2p_wait E t s p tr')"
  unfolding lifecycle_poll_def lifecycle_wait_def p2p_poll_def p2p_wait_def by (intro total_intros; assumption)+

lemma links_total [total_intros]:
  "total (stop_celestia E)" "total (start_celestia E)" "total (cut_links E)" "total (heal_links E)"
  unfolding stop_celestia_def start_celestia_def cut_links_def heal_links_def by (intro total_intros)+

text \<open>The chaos experiment accepts every profile of the injector on its command line, but its
  table of target containers has only four of them: for the other three it raises \<^verbatim>\<open>KeyError\<close>
  before doing anything.\<close>

theorem chaos_experiment_missing_targets:
  assumes "p \<in> {''chaos-btc-delay'', ''chaos-p2p-churn'', ''chaos-relay-latency''}"
  shows "p \<in> set (dict_keys PROFILE_TO_SERVICE) \<and>
    chaos_experiment_main E p baseline_s interval_s post_s w = Some (Inl (Exn KeyError p), w)"
  using assms
  by (auto simp: chaos_experiment_main_def dict_keys_def PROFILE_TO_SERVICE_def PROFILE_DESCRIPTIONS_def
      CHAOS_TARGET_CONTAINER_def dict_item_def py_bind_def py_lift_def)

theorem chaos_experiment_missing_targets_witness:
  "chaos_experiment_main finished_env ''chaos-btc-delay'' 20 3 45 start_world
     = Some (Inl (Exn KeyError ''chaos-btc-delay''), start_world)"
  using chaos_experiment_missing_targets [of "''chaos-btc-delay''"] by simp

lemma finished_env_quiet [quiet_intros]:
  "0 \<le> i \<Longrightarrow> quiet (tracker_poll rec finished_env s i tr)" "quiet (tracker_wait rec finished_env t s tr')"
  "quiet (docker finished_env args)"
  using tracker_quiet [of finished_env "[]"]
  by (auto simp: docker_def finished_docker_def intro!: quiet_intros)

lemma lifecycle_main_total: "total (lifecycle_main E)"
  unfolding lifecycle_main_def lifecycle_phases_def by (intro total_intros) simp

lemma p2p_lifecycle_main_total: "total (p2p_lifecycle_main E)"
  unfolding p2p_lifecycle_main_def p2p_phases_def by (intro total_intros) simp

lemma lifecycle_main_runs: "\<exists>tr w'. lifecycle_main finished_env start_world = Some (Inr tr, w')"
proof -
  have "quiet (lifecycle_main finished_env)"
    unfolding lifecycle_main_def lifecycle_phases_def lifecycle_poll_def lifecycle_wait_def
      stop_celestia_def start_celestia_def write_csv_def
    by (intro quiet_intros) simp_all
  then show ?thesis using lifecycle_main_total by (rule quiet_returns)
qed

lemma p2p_lifecycle_main_runs: "\<exists>tr w'. p2p_lifecycle_main finished_env start_world = Some (Inr tr, w')"
proof -
  have "quiet (p2p_lifecycle_main finished_env)"
    unfolding p2p_lifecycle_main_def p2p_phases_def p2p_poll_def p2p_wait_def
      cut_links_def heal_links_def write_csv_def
    by (intro quiet_intros) simp_all
  then show ?thesis using p2p_lifecycle_main_total by (rule quiet_returns)
qed

theorem lifecycle_main_heals_witness:
  "\<exists>tr w' evs. lifecycle_main finished_env start_world = Some (Inr tr, w') \<and> log w' = evs \<and>
    trace command evs = concat (replicate 3 [[''docker'', ''stop'', CELESTIA_BRIDGE], [''docker'', ''start'', CELESTIA_BRIDGE]])"
proof -
  obtain tr w' where w: "lifecycle_main finished_env start_world = Some (Inr tr, w')"
    using lifecycle_main_runs by blast
  from lifecycle_main_heals [OF w] w show ?thesis by auto
qed

theorem p2p_lifecycle_main_heals_witness:
  "\<exists>tr w' evs. p2p_lifecycle_main finished_env start_world = Some (Inr tr, w') \<and> log w' = evs \<and>
    trace command evs =
      [[''docker'', ''network'', ''disconnect'', ''validator-link-01-02'', ''engram-node01''],
       [''docker'', ''network'', ''disconnect'', ''validator-link-03-04'', ''engram-node03''],
       [''docker'', ''network'', ''connect'', ''--ip'', ''172.40.0.2'', ''validator-link-01-02'', ''engram-node01''],
       [''docker'', ''network'', ''connect'', ''--ip'', ''172.40.5.2'', ''validator-link-03-04'', ''engram-node03'']]"
proof -
  obtain tr w' where w: "p2p_lifecycle_main finished_env start_world = Some (Inr tr, w')"
    using p2p_lifecycle_main_runs by blast
  from p2p_lifecycle_main_heals [OF w] w show ?thesis by (auto simp: CUT_LINKS_def)
qed

section \<open>The transition tables are exact\<close>

abbreviation life_exact :: "life_tracker \<Rightarrow> bool" where
  "life_exact tr \<equiv> exact_log (tr_changes tr) (tr_last tr) (map snd (tr_samples tr))"

abbreviation p2p_exact :: "NodeSample tracker \<Rightarrow> bool" where
  "p2p_exact tr \<equiv> exact_log (tr_changes tr) (tr_last tr) (tr_samples tr)"

lemma set_phase_exact [simp]:
  "tr_changes (set_phase p tr) = tr_changes tr" "tr_last (set_phase p tr) = tr_last tr"
  "tr_samples (set_phase p tr) = tr_samples tr"
  by (simp_all add: set_phase_def tr_changes_def tr_last_def fun_eq_iff)

lemma lifecycle_poll_exact: "life_exact tr \<Longrightarrow> yields (lifecycle_poll E s i p tr) life_exact"
  unfolding lifecycle_poll_def
  by (rule yields_wp, rule wp_mono [OF lifecycle.exact_poll]) (auto simp: lifecycle_round_def)

lemma lifecycle_wait_exact: "life_exact tr \<Longrightarrow> yields (lifecycle_wait E t s p tr) (\<lambda>r. life_exact (snd r))"
  unfolding lifecycle_wait_def
  by (rule yields_wp, rule wp_mono [OF lifecycle.exact_wait]) (auto simp: lifecycle_round_def)

lemma p2p_poll_exact: "p2p_exact tr \<Longrightarrow> yields (p2p_poll E s i p tr) p2p_exact"
  unfolding p2p_poll_def
  by (rule yields_wp, rule wp_mono [OF p2p.exact_poll]) (auto simp: p2p_round_def)

lemma p2p_wait_exact: "p2p_exact tr \<Longrightarrow> yields (p2p_wait E t s p tr) (\<lambda>r. p2p_exact (snd r))"
  unfolding p2p_wait_def
  by (rule yields_wp, rule wp_mono [OF p2p.exact_wait]) (auto simp: p2p_round_def)

lemma new_tracker_exact: "life_exact (new_tracker t)" "p2p_exact (new_tracker t)"
  by (simp_all add: exact_log_init)

lemma lifecycle_phases_exact: "yields (lifecycle_phases E) (\<lambda>r. life_exact (snd r))"
  unfolding lifecycle_phases_def
  by (intro yields_effect [of _ _ time_time] yields_then yields_split
      yields_bind [OF lifecycle_poll_exact] yields_bind [OF lifecycle_wait_exact]
      lifecycle_wait_exact new_tracker_exact) auto

lemma p2p_phases_exact: "yields (p2p_phases E) (\<lambda>r. p2p_exact (snd r))"
  unfolding p2p_phases_def
  by (intro yields_effect [of _ _ time_time] yields_then yields_split
      yields_bind [OF p2p_poll_exact] yields_bind [OF p2p_wait_exact]
      p2p_wait_exact new_tracker_exact) auto

text \<open>C9. The transition log that a completed lifecycle run (DA outage or link cut) reports is exact: for
  every node it lists the adjacent changes of the states this node reported over the whole run,
  skipping failed queries, so that consecutive transitions of a node chain up.\<close>

theorem lifecycle_transitions_exact:
  shows "(lifecycle_main E w = Some (Inr tr, w') \<longrightarrow>
      map snd (filter (\<lambda>c. fst c = n) (tr_changes tr)) = adjacent_changes (reported n (map snd (tr_samples tr)))) \<and>
    (p2p_lifecycle_main E w = Some (Inr tr', w'') \<longrightarrow>
      map snd (filter (\<lambda>c. fst c = n) (tr_changes tr')) = adjacent_changes (reported n (tr_samples tr')) \<and>
      chained (map snd (filter (\<lambda>c. fst c = n) (tr_changes tr'))))"
proof -
  have "yields (lifecycle_main E) life_exact"
    unfolding lifecycle_main_def
    by (intro yields_bind [OF lifecycle_phases_exact] yields_split yields_effect yields_then yields_return) auto
  moreover have "yields (p2p_lifecycle_main E) p2p_exact"
    unfolding p2p_lifecycle_main_def
    by (intro yields_bind [OF p2p_phases_exact] yields_split yields_effect yields_then yields_return) auto
  ultimately show ?thesis
    by (auto simp: exact_log_def adjacent_changes_chained dest: yieldsD)
qed

theorem lifecycle_transitions_exact_witness:
  "\<exists>tr w'. lifecycle_main finished_env start_world = Some (Inr tr, w') \<and>
     map snd (filter (\<lambda>c. fst c = ''engram-node01'') (tr_changes tr)) =
       adjacent_changes (reported ''engram-node01'' (map snd (tr_samples tr)))"
  using lifecycle_main_runs lifecycle_transitions_exact by blast

section \<open>The recovery observation\<close>

definition recovery_observe1 :: "rat \<Rightarrow> NodeSample \<Rightarrow> recovery_state \<Rightarrow> recovery_state" where
  "recovery_observe1 t s st = recovery_observe t s (st\<lparr>rf_samples := rf_samples st @ [s]\<rparr>)"

lemma recovery_observe_samples:
  "recovery_observe t s (st\<lparr>rf_samples := x\<rparr>) = (recovery_observe t s st)\<lparr>rf_samples := x\<rparr>"
  "rf_samples (recovery_observe t s st) = rf_samples st"
  by (simp_all add: recovery_observe_def Let_def)

lemma recovery_round_steps: "recovery_round t rs st = fold (recovery_observe1 t) rs st"
proof -
  have "fold (recovery_observe t) rs (st\<lparr>rf_samples := x @ rs\<rparr>) = fold (recovery_observe1 t) rs (st\<lparr>rf_samples := x\<rparr>)" for x st
  proof (induction rs arbitrary: st x)
    case (Cons r rs)
    have "recovery_observe1 t r (st\<lparr>rf_samples := x\<rparr>) = (recovery_observe t r st)\<lparr>rf_samples := x @ [r]\<rparr>"
      by (simp add: recovery_observe1_def recovery_observe_samples)
    then show ?case using Cons [of "x @ [r]" "recovery_observe t r st"] by (simp add: recovery_observe_samples)
  qed simp
  from this [of "rf_samples st" st] show ?thesis by (simp add: recovery_round_def)
qed

definition rf_changes :: "recovery_state \<Rightarrow> (string \<times> string \<times> string) list" where
  "rf_changes st = map snd (rf_transitions st)"

interpretation recovery: transition_tracker recovery_observe1 "\<lambda>st. map_of (rf_last_state st)" rf_changes rf_samples
  by unfold_locales
    (auto simp: recovery_observe1_def recovery_observe_def Let_def rf_changes_def update_conv' dict_get_def
      split: option.splits)

text \<open>Which nodes the run counts as re-anchored: those that were seen in another state first.\<close>

definition anchored_ok :: "recovery_state \<Rightarrow> bool" where
  "anchored_ok st \<longleftrightarrow> distinct (dict_keys (rf_anchored_reached_at st)) \<and>
     set (dict_keys (rf_anchored_reached_at st)) = {n. \<exists>frm. (n, frm, ''ANCHORED'') \<in> set (rf_changes st)}"

lemma anchored_ok_step:
  assumes "anchored_ok st"
  shows "anchored_ok (recovery_observe1 t s st)"
proof -
  let ?prev = "dict_get (rf_last_state st) (node s) []" and ?st' = "recovery_observe1 t s st"
  let ?changed = "fsm_state s \<noteq> [] \<and> ?prev \<noteq> [] \<and> ?prev \<noteq> fsm_state s"
  let ?keys = "\<lambda>st. set (map fst (rf_anchored_reached_at st))"
  have d: "distinct (map fst (rf_anchored_reached_at ?st'))"
    using assms by (simp add: anchored_ok_def dict_keys_def recovery_observe1_def recovery_observe_def Let_def distinct_update)
  have k: "?keys ?st' = (if ?changed \<and> fsm_state s = ''ANCHORED'' then insert (node s) (?keys st) else ?keys st)"
    by (auto simp: recovery_observe1_def recovery_observe_def Let_def dict_keys_def dom_update insert_absorb)
  have c: "rf_changes ?st' = rf_changes st @ (if ?changed then [(node s, ?prev, fsm_state s)] else [])"
    by (simp add: rf_changes_def recovery_observe1_def recovery_observe_def Let_def)
  have "?keys st = {n. \<exists>frm. (n, frm, ''ANCHORED'') \<in> set (rf_changes st)}"
    using assms by (simp add: anchored_ok_def dict_keys_def)
  then have "?keys ?st' = {n. \<exists>frm. (n, frm, ''ANCHORED'') \<in> set (rf_changes ?st')}"
    unfolding k c by auto
  with d show ?thesis unfolding anchored_ok_def dict_keys_def by blast
qed

lemma anchored_ok_round: "anchored_ok st \<Longrightarrow> anchored_ok (fold (recovery_observe1 t) rs st)"
  by (induction rs arbitrary: st) (auto intro: anchored_ok_step)

abbreviation recovery_ok :: "recovery_state \<Rightarrow> bool" where
  "recovery_ok st \<equiv> exact_log (rf_changes st) (map_of (rf_last_state st)) (rf_samples st) \<and> anchored_ok st"

lemma recovery_round_ok: "recovery_ok st \<Longrightarrow> recovery_ok (recovery_round t rs st)"
  unfolding recovery_round_steps using recovery.exact_round anchored_ok_round by blast

lemma recovery_loop_ok:
  "recovery_ok st \<Longrightarrow> yields (recovery_loop E start d i st)
     (\<lambda>k. case k of Continue st' \<Rightarrow> recovery_ok st' | Leave st' \<Rightarrow> recovery_ok st' \<and> recovery_done st')"
  unfolding recovery_loop_def
proof (rule yields_wp, rule wp_while [where I = "\<lambda>st _. recovery_ok st"])
  fix s v assume ok: "recovery_ok s"
  show "wp (py_bind time_time (\<lambda>t. py_bind (sample_all_nodes E []) (\<lambda>rs.
      let st' = recovery_round (t - start) rs s in
      if recovery_done st' then py_return (Leave st') else py_then (time_sleep E i) (py_return (Continue st')))))
    (\<lambda>k w'. case k of Continue s' \<Rightarrow> recovery_ok s' | Leave x \<Rightarrow>
       (case Leave x of Continue st' \<Rightarrow> recovery_ok st' | Leave st' \<Rightarrow> recovery_ok st' \<and> recovery_done st'))
    (\<lambda>_ _. True) v"
    unfolding wp_bind wp_time
    by (rule wp_mono [OF wp_sample_all_nodes])
      (use recovery_round_ok [OF ok] in \<open>auto simp: wp_simps Let_def\<close>)
qed auto

lemma recovery_flow_yields: "yields (recovery_flow_main E minutes i) recovery_ok"
proof -
  let ?init = "\<lparr>rf_samples = [], rf_last_state = [], rf_transitions = [], rf_anchored_reached_at = []\<rparr>"
  have "map_of (rf_last_state ?init) = (\<lambda>_. None)" by (simp add: fun_eq_iff)
  then have init: "recovery_ok ?init"
    by (simp add: exact_log_init rf_changes_def anchored_ok_def dict_keys_def)
  show ?thesis
    unfolding recovery_flow_main_def Let_def
    by (intro yields_effect [of _ _ time_time] yields_bind [OF recovery_loop_ok [OF init]])
      (intro yields_effect yields_then yields_return, auto split: ctl.splits)
qed

text \<open>In the recovery observation, the transition log is exact, and the nodes reported to have
  reached ANCHORED are exactly those with a logged transition into that state: a node that was
  ANCHORED from the start and stayed so is not counted.\<close>

theorem recovery_flow_exact:
  assumes "recovery_flow_main E minutes interval_s w = Some (Inr st, w')"
  shows "map snd (filter (\<lambda>c. fst c = n) (rf_changes st)) = adjacent_changes (reported n (rf_samples st)) \<and>
    (n \<in> set (dict_keys (rf_anchored_reached_at st)) \<longleftrightarrow>
       (\<exists>frm. (frm, ''ANCHORED'') \<in> set (adjacent_changes (reported n (rf_samples st)))))"
proof -
  have ok: "recovery_ok st" by (rule yieldsD [OF recovery_flow_yields assms])
  then have ex: "map snd (filter (\<lambda>c. fst c = n) (rf_changes st)) = adjacent_changes (reported n (rf_samples st))"
    by (simp add: exact_log_def)
  have "n \<in> set (dict_keys (rf_anchored_reached_at st)) \<longleftrightarrow> (\<exists>frm. (n, frm, ''ANCHORED'') \<in> set (rf_changes st))"
    using ok by (simp add: anchored_ok_def)
  also have "\<dots> \<longleftrightarrow> (\<exists>frm. (frm, ''ANCHORED'') \<in> set (map snd (filter (\<lambda>c. fst c = n) (rf_changes st))))"
    by (force simp: image_iff)
  finally show ?thesis by (simp add: ex)
qed

lemma recovery_loop_total: "0 < i \<Longrightarrow> total (recovery_loop E start d i st)"
  unfolding recovery_loop_def Let_def
proof (intro deadline_while_total [where \<delta> = i] total_intros)
  fix s v
  assume "0 < i"
  then show "wp (py_bind time_time (\<lambda>t. py_bind (sample_all_nodes E []) (\<lambda>rs.
      if recovery_done (recovery_round (t - start) rs s) then py_return (Leave (recovery_round (t - start) rs s))
      else py_then (time_sleep E i) (py_return (Continue (recovery_round (t - start) rs s))))))
    (\<lambda>k w'. case k of Continue _ \<Rightarrow> clock v + i \<le> clock w' | Leave _ \<Rightarrow> True) (\<lambda>_ _. True) v"
    unfolding wp_bind wp_time by (intro wp_mono [OF wp_sample_all_nodes]) (auto simp: wp_simps emit_def)
qed

lemma recovery_flow_total: "0 < i \<Longrightarrow> total (recovery_flow_main E minutes i)"
  unfolding recovery_flow_main_def Let_def by (intro total_intros recovery_loop_total)

theorem recovery_flow_exact_witness:
  "\<exists>st w'. recovery_flow_main finished_env 1 5 start_world = Some (Inr st, w') \<and>
    map snd (filter (\<lambda>c. fst c = ''engram-node01'') (rf_changes st)) = adjacent_changes (reported ''engram-node01'' (rf_samples st))"
proof -
  have "quiet (recovery_loop finished_env a b 5 st)" for a b st
    unfolding recovery_loop_def Let_def by (intro quiet_intros sample_all_nodes_quiet [of _ "[]"]) simp_all
  then have "quiet (recovery_flow_main finished_env 1 5)"
    unfolding recovery_flow_main_def Let_def write_csv_def by (intro quiet_intros)
  moreover have "total (recovery_flow_main finished_env 1 5)" by (rule recovery_flow_total) simp
  ultimately obtain st w' where w: "recovery_flow_main finished_env 1 5 start_world = Some (Inr st, w')"
    using quiet_returns by blast
  from recovery_flow_exact [OF w] w show ?thesis by blast
qed

end
