(* ===== verification/Scenario_Matrix.thy ===== *)
theory Scenario_Matrix
  imports Lifecycle_Runs
begin

text \<open>
  \<^verbatim>\<open>scripts/e2_fault_injection/live_scenario_matrix.py\<close>: the seven-scenario run S1 to S7, its tracker
  (which tags every sample with the scenario), the block-interval statistics, the peer-count
  cross-check and the data of the latency figure.
\<close>

section \<open>Block-interval statistics\<close>

record block_stats =
  mean_s :: rat
  p50_s :: rat
  p95_s :: rat
  n_intervals :: nat

text \<open>The gaps per block between consecutive samples whose height increased.\<close>

fun interval_deltas :: "NodeSample list \<Rightarrow> rat list" where
  "interval_deltas (p # c # ss) =
     (if height c > height p then [(timestamp c - timestamp p) / of_int (height c - height p)] else [])
     @ interval_deltas (c # ss)"
| "interval_deltas _ = []"

definition block_interval_stats :: "NodeSample list \<Rightarrow> block_stats option" where
  "block_interval_stats samples =
     (let deltas = sort (interval_deltas (sort_key timestamp samples)); n = length deltas in
      if deltas = [] then None
      else Some \<lparr>mean_s = sum_list deltas / of_nat n, p50_s = deltas ! (n div 2),
                 p95_s = deltas ! min (n - 1) (n * 95 div 100), n_intervals = n\<rparr>)"

record scenario_stats =
  sc_mean_s :: rat
  sc_p50_s :: rat
  sc_p95_s :: rat
  sc_n_nodes :: nat

definition by_node :: "NodeSample list \<Rightarrow> (string, NodeSample list) dict" where
  "by_node ss = fold (\<lambda>s d. dict_append (node s) s d) ss []"

definition block_interval_summary :: "NodeSample list \<Rightarrow> scenario_stats option" where
  "block_interval_summary ss =
     (let stats = List.map_filter block_interval_stats (dict_values (by_node ss)); k = of_nat (length stats) in
      if stats = [] then None
      else Some \<lparr>sc_mean_s = sum_list (map mean_s stats) / k, sc_p50_s = sum_list (map p50_s stats) / k,
                 sc_p95_s = Max (set (map p95_s stats)), sc_n_nodes = length stats\<rparr>)"

section \<open>The tracker\<close>

record scenario_tracker = "(string \<times> NodeSample) tracker" +
  sc_key :: string
  sc_throughput :: "(string, scenario_stats option) dict"

definition new_scenario_tracker :: "rat \<Rightarrow> scenario_tracker" where
  "new_scenario_tracker t = \<lparr>tr_start = t, tr_samples = [], tr_transitions = [], tr_last_state = [],
     tr_phase = ''init'', sc_key = ''init'', sc_throughput = []\<rparr>"

definition set_scenario :: "string \<Rightarrow> scenario_tracker \<Rightarrow> scenario_tracker" where
  "set_scenario key tr = tr\<lparr>sc_key := key\<rparr>"

text \<open>A round: first all samples are stored under the scenario, then each is looked at.\<close>

definition scenario_round :: "rat \<Rightarrow> NodeSample list \<Rightarrow> scenario_tracker \<Rightarrow> scenario_tracker" where
  "scenario_round now rs tr =
     fold (note_state now) rs (tr\<lparr>tr_samples := tr_samples tr @ map (Pair (sc_key tr)) rs\<rparr>)"

definition scenario_poll :: "env \<Rightarrow> rat \<Rightarrow> rat \<Rightarrow> string \<Rightarrow> scenario_tracker \<Rightarrow> scenario_tracker py" where
  "scenario_poll E seconds interval phase tr = tracker_poll scenario_round E seconds interval (set_phase phase tr)"

definition scenario_wait :: "env \<Rightarrow> string \<Rightarrow> rat \<Rightarrow> string \<Rightarrow> scenario_tracker \<Rightarrow> (bool \<times> scenario_tracker) py" where
  "scenario_wait E target timeout_s phase tr = tracker_wait scenario_round E target timeout_s (set_phase phase tr)"

definition E2_RESULTS_DIR :: string where
  "E2_RESULTS_DIR = ''scripts/e2_fault_injection/results_live''"

definition scenario_samples :: "string \<Rightarrow> scenario_tracker \<Rightarrow> NodeSample list" where
  "scenario_samples key tr = map snd (filter (\<lambda>(k, s). k = key) (tr_samples tr))"

definition write_scenario_csv :: "env \<Rightarrow> string \<Rightarrow> string \<Rightarrow> scenario_tracker \<Rightarrow> scenario_tracker py" where
  "write_scenario_csv E name key tr =
     py_then (write_csv E (scenario_samples key tr) (path_join E2_RESULTS_DIR (name @ ''.csv'')))
       (py_return (tr\<lparr>sc_throughput :=
          AList.update key (block_interval_summary (scenario_samples key tr)) (sc_throughput tr)\<rparr>))"

definition throughput_summary :: "(string, scenario_stats option) dict \<Rightarrow> string" where
  "throughput_summary stats =
     ''# E2 live throughput/latency (block-interval proxy)'' @ NL @ NL
     @ ''Mean/p50/p95 seconds between consecutive height increments, averaged across all 4 validators per ''
     @ ''scenario (p95 is the max across nodes). Fixed-interval RPC polling, not per-round consensus timing ''
     @ ''-- a throughput proxy, not a true latency percentile.'' @ NL @ NL
     @ ''| Scenario | Mean (s) | p50 (s) | p95 (s) |'' @ NL @ ''|---|---:|---:|---:|'' @ NL
     @ concat (map (\<lambda>(key, st). case st of None \<Rightarrow> md_row [key, ''n/a'', ''n/a'', ''n/a'']
         | Some s \<Rightarrow> md_row [key, fmt_fixed 2 (sc_mean_s s), fmt_fixed 2 (sc_p50_s s), fmt_fixed 2 (sc_p95_s s)]) stats)"

definition write_throughput_summary :: "env \<Rightarrow> string \<Rightarrow> scenario_tracker \<Rightarrow> unit py" where
  "write_throughput_summary E path tr = write_file E path (throughput_summary (sc_throughput tr))"

text \<open>The data of the latency figure; the upper axis limit is \<^verbatim>\<open>max(p95s) * 1.15\<close>, which raises when no
  scenario has statistics.\<close>

record whisker_data =
  wh_keys :: "string list"
  wh_p50s :: "rat list"
  wh_p95s :: "rat list"
  wh_means :: "rat list"
  wh_upper :: "rat list"
  wh_ylim :: rat

definition plot_latency_whiskers :: "(string, scenario_stats option) dict \<Rightarrow> whisker_data result" where
  "plot_latency_whiskers stats =
     (let get = (\<lambda>k. dict_get stats k None);
          keys = filter (\<lambda>k. get k \<noteq> None) [''s1'', ''s2'', ''s3'', ''s4'', ''s5'', ''s6'', ''s7''];
          p50s = map (\<lambda>k. sc_p50_s (the (get k))) keys; p95s = map (\<lambda>k. sc_p95_s (the (get k))) keys in
      rbind (py_max id p95s) (\<lambda>top.
      Inr \<lparr>wh_keys = keys, wh_p50s = p50s, wh_p95s = p95s, wh_means = map (\<lambda>k. sc_mean_s (the (get k))) keys,
           wh_upper = map (\<lambda>(a, b). b - a) (zip p50s p95s), wh_ylim = top * (115 / 100)\<rparr>))"

section \<open>Partial eclipse of node01\<close>

definition NODE01_P2P_LINK_TARGETS :: "(string \<times> string) list" where
  "NODE01_P2P_LINK_TARGETS =
     [(''engram-node01'', ''eth3''), (''engram-node01'', ''eth4''), (''engram-node01'', ''eth5''),
      (''engram-node02'', ''eth2''), (''engram-node03'', ''eth4''), (''engram-node04'', ''eth3'')]"

definition start_p2p_eclipse_partial :: "env \<Rightarrow> int \<Rightarrow> int \<Rightarrow> string \<Rightarrow> unit py" where
  "start_p2p_eclipse_partial E delay_ms jitter_ms duration =
     py_each (\<lambda>(container, iface).
       py_bind (run_proc E [''docker'', ''run'', ''-d'', ''--rm'', ''-v'', ''/var/run/docker.sock:/var/run/docker.sock'',
         ''gaiaadm/pumba:latest'', ''netem'', ''--duration='' @ duration, ''--interface'', iface,
         ''delay'', ''--time='' @ py_str_int delay_ms, ''--jitter='' @ py_str_int jitter_ms, container] False)
         (\<lambda>_. py_return ())) NODE01_P2P_LINK_TARGETS"

definition cleanup_p2p_eclipse_partial :: "env \<Rightarrow> unit py" where
  "cleanup_p2p_eclipse_partial E =
     py_bind (run_proc E [''docker'', ''ps'', ''-q'', ''--filter'', ''ancestor=gaiaadm/pumba:latest''] False) (\<lambda>r.
     py_each (\<lambda>cid. py_bind (run_proc E [''docker'', ''stop'', cid] False) (\<lambda>_. py_return ())) (split_ws (out_text r)))"

section \<open>The run\<close>

definition BITCOIN_NODE :: string where "BITCOIN_NODE = ''bitcoin-node01''"
definition ENGRAM_NODES :: "string list" where
  "ENGRAM_NODES = [''engram-node01'', ''engram-node02'', ''engram-node03'', ''engram-node04'']"
definition ANCHOR_SUBMISSION_PAUSED_FILE :: string where
  "ANCHOR_SUBMISSION_PAUSED_FILE = ''/tmp/anchor_submission_paused''"

text \<open>\<^verbatim>\<open>log_net_info\<close>: the line it appends to the cross-check file.\<close>

definition log_net_info :: "env \<Rightarrow> string \<Rightarrow> scenario_tracker \<Rightarrow> string py" where
  "log_net_info E phase tr =
     py_try
       (py_bind (net_info E ''engram-node01'' None) (\<lambda>info.
        py_bind (py_lift (rbind (json_get info ''result'' (JObj [])) (\<lambda>r. json_get r ''n_peers'' (JStr ''?'')))) (\<lambda>n_peers.
        py_bind time_time (\<lambda>now.
        py_return (md_row [fmt_fixed 0 (now - tr_start tr), phase, json_cell E n_peers])))))
       [Exception]
       (\<lambda>e. py_bind time_time (\<lambda>now.
        py_return (md_row [fmt_fixed 0 (now - tr_start tr), phase, ''error: '' @ exn_str e])))"

definition isolation_loop :: "env \<Rightarrow> rat \<Rightarrow> string \<Rightarrow> scenario_tracker \<times> string \<Rightarrow> (scenario_tracker \<times> string) py" where
  "isolation_loop E seconds phase st =
     py_bind time_time (\<lambda>t0.
     py_bind
       (py_while (\<lambda>_ w. clock w < t0 + seconds)
          (\<lambda>(tr, text). py_bind (scenario_poll E 10 3 phase tr) (\<lambda>tr'.
                        py_bind (log_net_info E phase tr') (\<lambda>line.
                        py_return (Continue (tr', text @ line))))) st)
       loop_state)"

definition net_info_header :: string where
  "net_info_header =
     ''# S4/S5 real /net_info peer-count cross-check'' @ NL @ NL
     @ ''Query.State never carries ActiveAnchors/p2p_healthy (documented stale field, ''
     @ ''logger.py's _decode_query_state) -- this cross-checks engram-node01's real connected-peer count via ''
     @ ''CometBFT's own /net_info RPC during the isolation window, independent of the app-level FSM state.'' @ NL @ NL
     @ ''| t (s) | phase | n_peers |'' @ NL @ ''|---:|---|---:|'' @ NL"

definition scenarios_s1_s3 :: "env \<Rightarrow> scenario_tracker py" where
  "scenarios_s1_s3 E =
     py_bind (time_time) (\<lambda>t0.
     py_bind (scenario_poll E 15 3 ''S1_baseline'' (set_scenario ''s1'' (new_scenario_tracker t0))) (\<lambda>tr1.
     py_bind (write_scenario_csv E ''s1_normal'' ''s1'' tr1) (\<lambda>tr2.
     py_then (py_each (\<lambda>n. docker E [''exec'', n, ''touch'', ANCHOR_SUBMISSION_PAUSED_FILE]) ENGRAM_NODES)
     (py_bind (scenario_poll E 180 3 ''S2_btc_congestion'' (set_scenario ''s2'' tr2)) (\<lambda>tr3.
     py_then (py_each (\<lambda>n. docker E [''exec'', n, ''rm'', ''-f'', ANCHOR_SUBMISSION_PAUSED_FILE]) ENGRAM_NODES)
     (py_bind (scenario_wait E ''ANCHORED'' 90 ''S2_btc_congestion_cooldown'' tr3) (\<lambda>(_, tr4).
     py_bind (write_scenario_csv E ''s2_btc_congestion'' ''s2'' tr4) (\<lambda>tr5.
     py_then (docker E [''stop'', CELESTIA_BRIDGE])
     (py_bind (scenario_poll E 60 3 ''S3_da_unavailable'' (set_scenario ''s3'' tr5)) (\<lambda>tr6.
     py_then (docker E [''start'', CELESTIA_BRIDGE])
     (py_bind (scenario_wait E ''ANCHORED'' 90 ''S3_da_recovery'' tr6) (\<lambda>(_, tr7).
     write_scenario_csv E ''s3_da_unavailable'' ''s3'' tr7))))))))))))"

definition scenarios_s4_s5 :: "env \<Rightarrow> scenario_tracker \<Rightarrow> scenario_tracker py" where
  "scenarios_s4_s5 E tr0 =
     py_then (wait_for_no_active_netem E 20)
     (py_then (start_p2p_eclipse_partial E 300 50 ''2m'')
     (py_bind (isolation_loop E 130 ''S4_p2p_eclipse_partial'' (set_scenario ''s4'' tr0, net_info_header)) (\<lambda>(tr1, text1).
     py_then (cleanup_p2p_eclipse_partial E)
     (py_bind (scenario_wait E ''ANCHORED'' 90 ''S4_p2p_cooldown'' tr1) (\<lambda>(_, tr2).
     py_bind (write_scenario_csv E ''s4_p2p_eclipse_partial'' ''s4'' tr2) (\<lambda>tr3.
     py_then (wait_for_no_active_netem E 20)
     (py_bind (start_pumba_profile E ''chaos-eclipse'' 15) (\<lambda>_.
     py_bind (isolation_loop E 190 ''S5_anchor_isolation'' (set_scenario ''s5'' tr3, text1)) (\<lambda>(tr4, text2).
     py_then (cleanup_profile E ''chaos-eclipse'')
     (py_bind (scenario_wait E ''ANCHORED'' 90 ''S5_cooldown'' tr4) (\<lambda>(_, tr5).
     py_bind (write_scenario_csv E ''s5_anchor_isolation'' ''s5'' tr5) (\<lambda>tr6.
     py_then (write_file E (path_join E2_RESULTS_DIR ''s4_s5_net_info_check.md'') text2)
     (py_return tr6)))))))))))))"

definition scenarios_s6_s7 :: "env \<Rightarrow> scenario_tracker \<Rightarrow> (bool \<times> scenario_tracker) py" where
  "scenarios_s6_s7 E tr0 =
     py_then (docker E [''stop'', BITCOIN_NODE])
     (py_then (docker E [''stop'', CELESTIA_BRIDGE])
     (py_bind (scenario_poll E 90 3 ''S6_combined_btc_da_failure'' (set_scenario ''s6'' tr0)) (\<lambda>tr1.
     py_bind (write_scenario_csv E ''s6_combined_btc_da_failure'' ''s6'' tr1) (\<lambda>tr2.
     py_then (docker E [''start'', BITCOIN_NODE])
     (py_then (docker E [''start'', CELESTIA_BRIDGE])
     (py_bind (scenario_wait E ''ANCHORED'' 600 ''S7_recovery'' (set_scenario ''s7'' tr2)) (\<lambda>(reached, tr3).
     py_bind (write_scenario_csv E ''s7_recovery'' ''s7'' tr3) (\<lambda>tr4.
     py_return (reached, tr4)))))))))"

definition scenario_phases :: "env \<Rightarrow> (bool \<times> scenario_tracker) py" where
  "scenario_phases E =
     py_bind (scenarios_s1_s3 E) (\<lambda>tr1.
     py_bind (scenarios_s4_s5 E tr1) (\<lambda>tr2.
     scenarios_s6_s7 E tr2))"

definition scenario_matrix_main :: "env \<Rightarrow> (bool \<times> scenario_tracker) py" where
  "scenario_matrix_main E =
     py_bind (scenario_phases E) (\<lambda>(reached, tr).
     py_then (write_throughput_summary E (path_join E2_RESULTS_DIR ''s2e_throughput_latency.md'') tr)
     (py_bind (py_lift (plot_latency_whiskers (sc_throughput tr))) (\<lambda>_.
     py_return (reached, tr))))"

section \<open>Block-interval statistics: bounds\<close>

lemma interval_deltas_nonneg:
  "sorted (map timestamp ss) \<Longrightarrow> d \<in> set (interval_deltas ss) \<Longrightarrow> 0 \<le> d"
  by (induction ss rule: interval_deltas.induct) (auto split: if_splits)

lemma interval_deltas_length: "length (interval_deltas ss) \<le> length ss - 1"
  by (induction ss rule: interval_deltas.induct) auto

lemma sum_list_bounds:
  fixes xs :: "rat list"
  assumes "\<And>x. x \<in> set xs \<Longrightarrow> a \<le> x \<and> x \<le> b"
  shows "of_nat (length xs) * a \<le> sum_list xs \<and> sum_list xs \<le> of_nat (length xs) * b"
  using assms by (induction xs) (force simp: algebra_simps)+

lemma mean_bounds:
  fixes xs :: "rat list"
  assumes "xs \<noteq> []" "\<And>x. x \<in> set xs \<Longrightarrow> a \<le> x \<and> x \<le> b"
  shows "a \<le> sum_list xs / of_nat (length xs) \<and> sum_list xs / of_nat (length xs) \<le> b"
  using sum_list_bounds [of xs a b] assms by (simp add: field_simps)

text \<open>The statistics of a node are those of real gaps: with at least one height increase, all
  three figures are non-negative and lie between the shortest and the longest gap per block, the
  median is at most the 95th percentile, and there are fewer gaps than samples; without an
  increase there is no result.\<close>

theorem block_interval_stats_bounds:
  "case block_interval_stats ss of
     None \<Rightarrow> interval_deltas (sort_key timestamp ss) = []
   | Some st \<Rightarrow>
       (let ds = interval_deltas (sort_key timestamp ss) in
        n_intervals st = length ds \<and> 0 < length ds \<and> length ds < length ss \<and>
        0 \<le> Min (set ds) \<and> Min (set ds) \<le> mean_s st \<and> mean_s st \<le> Max (set ds) \<and>
        p50_s st \<in> set ds \<and> p95_s st \<in> set ds \<and> p50_s st \<le> p95_s st)"
proof (cases "interval_deltas (sort_key timestamp ss) = []")
  case True
  then show ?thesis by (simp add: block_interval_stats_def Let_def)
next
  case False
  define ds where "ds = interval_deltas (sort_key timestamp ss)"
  let ?n = "length ds"
  have n: "0 < ?n" using False by (simp add: ds_def)
  have len: "?n < length ss"
    using interval_deltas_length [of "sort_key timestamp ss"] n unfolding ds_def length_sort by arith
  have nonneg: "0 \<le> d" if "d \<in> set ds" for d
    using that interval_deltas_nonneg [of "sort_key timestamp ss" d] by (simp add: ds_def)
  have mem: "sort ds ! i \<in> set ds" if "i < ?n" for i using nth_mem [of i "sort ds"] that by simp
  have "min (?n - 1) k < ?n" for k using n by arith
  moreover have "?n div 2 < ?n" "?n div 2 \<le> min (?n - 1) (?n * 95 div 100)" using n by arith+
  ultimately have idx: "?n div 2 < ?n" "min (?n - 1) (?n * 95 div 100) < ?n" "?n div 2 \<le> min (?n - 1) (?n * 95 div 100)"
    by blast+
  have ne: "sort ds \<noteq> []" using n by (metis length_greater_0_conv length_sort)
  have p: "sort ds ! (?n div 2) \<le> sort ds ! min (?n - 1) (?n * 95 div 100)"
    by (rule sorted_nth_mono) (use idx in simp_all)
  have mean: "Min (set ds) \<le> sum_list (sort ds) / of_nat ?n \<and> sum_list (sort ds) / of_nat ?n \<le> Max (set ds)"
    using mean_bounds [OF ne, of "Min (set ds)" "Max (set ds)"] by simp
  have "Min (set ds) \<in> set ds" using n by (intro Min_in) auto
  then have "0 \<le> Min (set ds)" by (rule nonneg)
  then show ?thesis
    using n ne len p mean mem idx False by (simp add: block_interval_stats_def Let_def flip: ds_def)
qed

text \<open>A failed query enters the statistics as height \<open>-1\<close>: when the node answers again at height
  \<open>h\<close>, the pair counts as progress by \<open>h + 1\<close> blocks, so the statistics of a node that produced no
  block at all between two samples report an interval.\<close>

theorem block_interval_stats_sentinel:
  assumes "a < b" "b < c" "0 \<le> h"
    and "timestamp s1 = a" "height s1 = h" "s2 = error_sample b n e" "timestamp s3 = c" "height s3 = h"
  shows "block_interval_stats [s1, s2, s3] =
    Some \<lparr>mean_s = (c - b) / of_int (h + 1), p50_s = (c - b) / of_int (h + 1),
          p95_s = (c - b) / of_int (h + 1), n_intervals = 1\<rparr>"
proof -
  have "timestamp s2 = b" "height s2 = -1" using assms(6) by (simp_all add: error_sample_def)
  then show ?thesis using assms(1-5,7,8) by (simp add: block_interval_stats_def Let_def)
qed

theorem block_interval_stats_sentinel_witness:
  "block_interval_stats
     [(error_sample 0 ''engram-node01'' (Exn URLError []))\<lparr>height := 9\<rparr>,
      error_sample 3 ''engram-node01'' (Exn URLError ''refused''),
      (error_sample 6 ''engram-node01'' (Exn URLError []))\<lparr>height := 9\<rparr>] =
   Some \<lparr>mean_s = 3 / 10, p50_s = 3 / 10, p95_s = 3 / 10, n_intervals = 1\<rparr>"
  using block_interval_stats_sentinel [of 0 3 6 9
      "(error_sample 0 ''engram-node01'' (Exn URLError []))\<lparr>height := 9\<rparr>"
      "error_sample 3 ''engram-node01'' (Exn URLError ''refused'')" "''engram-node01''" "Exn URLError ''refused''"
      "(error_sample 6 ''engram-node01'' (Exn URLError []))\<lparr>height := 9\<rparr>"]
  by (simp add: error_sample_def)

section \<open>The scenario tracker satisfies the interface\<close>

definition scenario_observe :: "rat \<Rightarrow> NodeSample \<Rightarrow> scenario_tracker \<Rightarrow> scenario_tracker" where
  "scenario_observe now s tr = note_state now s (tr\<lparr>tr_samples := tr_samples tr @ [(sc_key tr, s)]\<rparr>)"

lemma note_state_commutes:
  "note_state t s (tr\<lparr>tr_samples := x\<rparr>) = (note_state t s tr)\<lparr>tr_samples := x\<rparr>"
  by (simp add: note_state_def Let_def)

lemma note_state_sc_key [simp]: "sc_key (note_state t s tr) = sc_key tr"
  by (simp add: note_state_def Let_def)

lemma scenario_round_steps: "scenario_round t rs tr = fold (scenario_observe t) rs tr"
proof -
  have "fold (note_state t) rs (tr\<lparr>tr_samples := x @ map (Pair (sc_key tr)) rs\<rparr>) =
      fold (scenario_observe t) rs (tr\<lparr>tr_samples := x\<rparr>)" for x and tr :: scenario_tracker
  proof (induction rs arbitrary: tr x)
    case (Cons r rs)
    from Cons [of "x @ [(sc_key tr, r)]" "note_state t r tr"] show ?case
      by (simp add: scenario_observe_def note_state_commutes)
  qed simp
  from this [of "tr_samples tr" tr] show ?thesis by (simp add: scenario_round_def)
qed

interpretation scenario: transition_tracker scenario_observe tr_last tr_changes "\<lambda>tr. map snd (tr_samples tr)"
  by unfold_locales (simp_all add: scenario_observe_def note_state_last note_state_changes)

section \<open>What the run leaves behind\<close>

text \<open>Projections: starting and stopping containers, and commands inside containers.\<close>

definition power :: "event \<Rightarrow> string list list" where
  "power ev = filter (\<lambda>argv. length argv = 3 \<and> argv ! 0 = ''docker'' \<and> argv ! 1 \<in> {''start'', ''stop''}) (command ev)"

definition execs :: "event \<Rightarrow> string list list" where
  "execs ev = filter (\<lambda>argv. 2 \<le> length argv \<and> argv ! 0 = ''docker'' \<and> argv ! 1 = ''exec'') (command ev)"

lemma docker_power: "a \<in> {''start'', ''stop''} \<Longrightarrow> logs power (docker E [a, c]) [[''docker'', a, c]]"
  unfolding docker_def
  using logs_bind [OF logs_run_proc logs_return, of power "[''docker'', a, c]" "[[''docker'', a, c]]"]
  by (fastforce simp: power_def)

lemma docker_execs:
  "logs execs (docker E (''exec'' # args)) [''docker'' # ''exec'' # args]"
  "logs execs (docker E [''start'', c]) []" "logs execs (docker E [''stop'', c]) []"
  unfolding docker_def
  using logs_bind [OF logs_run_proc logs_return, of execs "''docker'' # ''exec'' # args" "[''docker'' # ''exec'' # args]"]
    logs_bind [OF logs_run_proc logs_return, of execs "[''docker'', ''start'', c]" "[]"]
    logs_bind [OF logs_run_proc logs_return, of execs "[''docker'', ''stop'', c]" "[]"]
  by (fastforce simp: execs_def)+

lemma projections_simps [simp]:
  "power (RpcGet p q r) = []" "power (Slept t) = []" "power (Wrote f x) = []"
  "execs (RpcGet p q r) = []" "execs (Slept t) = []" "execs (Wrote f x) = []"
  "execs (RunProc (inspect_cmd c) vs r') = []" "execs (RunProc (clear_cmd c) vs r') = []"
  "execs (RunProc (compose_cmd pr v ss) vs r') = []"
  by (simp_all add: power_def execs_def inspect_cmd_def clear_cmd_def compose_cmd_def)

lemma scenario_steps_emits [emits_intros]:
  "(\<And>p q r. S (RpcGet p q r)) \<Longrightarrow> (\<And>t. S (Slept t)) \<Longrightarrow> emits S (scenario_poll E s i ph tr)"
  "(\<And>p q r. S (RpcGet p q r)) \<Longrightarrow> (\<And>t. S (Slept t)) \<Longrightarrow> emits S (scenario_wait E t s ph tr)"
  "(\<And>f x. S (Wrote f x)) \<Longrightarrow> emits S (write_scenario_csv E nm key tr)"
  "(\<And>p q r. S (RpcGet p q r)) \<Longrightarrow> emits S (log_net_info E ph tr)"
  unfolding scenario_poll_def scenario_wait_def write_scenario_csv_def write_csv_def log_net_info_def net_info_def rpc_get_def
  by (intro emits_intros; assumption)+

lemma isolation_loop_emits [emits_intros]:
  "(\<And>p q r. S (RpcGet p q r)) \<Longrightarrow> (\<And>t. S (Slept t)) \<Longrightarrow> emits S (isolation_loop E s ph st)"
  unfolding isolation_loop_def loop_state_def by (intro emits_intros)

lemma start_pumba_execs: "emits (\<lambda>ev. execs ev = []) (start_pumba_profile E p t)"
  unfolding start_pumba_profile_def up_detached_def by (intro emits_intros) simp_all

lemma cleanup_execs: "emits (\<lambda>ev. execs ev = []) (cleanup_profile E p)"
  unfolding cleanup_profile_def by (intro emits_intros) simp_all

lemma eclipse_execs:
  "emits (\<lambda>ev. execs ev = []) (start_p2p_eclipse_partial E d j u)"
  "emits (\<lambda>ev. execs ev = []) (cleanup_p2p_eclipse_partial E)"
  unfolding start_p2p_eclipse_partial_def cleanup_p2p_eclipse_partial_def
  by (intro emits_intros; simp add: execs_def)+

lemma s4_s5_execs: "logs execs (scenarios_s4_s5 E tr) []"
  unfolding scenarios_s4_s5_def
  by (rule logs_emits, intro emits_intros start_pumba_execs cleanup_execs eclipse_execs) simp_all

lemma s6_s7_steps:
  "logs power (scenarios_s6_s7 E tr)
     [[''docker'', ''stop'', BITCOIN_NODE], [''docker'', ''stop'', CELESTIA_BRIDGE],
      [''docker'', ''start'', BITCOIN_NODE], [''docker'', ''start'', CELESTIA_BRIDGE]]"
  "logs execs (scenarios_s6_s7 E tr) []"
proof -
  have q: "logs P (scenario_poll E s i ph t) []" "logs P (scenario_wait E tg s ph t) []" "logs P (write_scenario_csv E nm key t) []"
    if "P \<in> {power, execs}" for P s i ph t tg nm key
    using that by (auto intro!: logs_emits emits_intros)
  have "logs power (scenarios_s6_s7 E tr) ([[''docker'', ''stop'', BITCOIN_NODE]] @ [[''docker'', ''stop'', CELESTIA_BRIDGE]]
      @ [] @ [] @ [[''docker'', ''start'', BITCOIN_NODE]] @ [[''docker'', ''start'', CELESTIA_BRIDGE]] @ [] @ [] @ [])"
    unfolding scenarios_s6_s7_def by (intro logs_intros docker_power q) simp_all
  then show "logs power (scenarios_s6_s7 E tr)
     [[''docker'', ''stop'', BITCOIN_NODE], [''docker'', ''stop'', CELESTIA_BRIDGE],
      [''docker'', ''start'', BITCOIN_NODE], [''docker'', ''start'', CELESTIA_BRIDGE]]" by simp
  have "logs execs (scenarios_s6_s7 E tr) ([] @ [] @ [] @ [] @ [] @ [] @ [] @ [] @ [])"
    unfolding scenarios_s6_s7_def by (intro logs_intros docker_execs(2,3) q) simp_all
  then show "logs execs (scenarios_s6_s7 E tr) []" by simp
qed

definition pause_cmds :: "string list list" where
  "pause_cmds = map (\<lambda>n. [''docker'', ''exec'', n, ''touch'', ANCHOR_SUBMISSION_PAUSED_FILE]) ENGRAM_NODES"

definition resume_cmds :: "string list list" where
  "resume_cmds = map (\<lambda>n. [''docker'', ''exec'', n, ''rm'', ''-f'', ANCHOR_SUBMISSION_PAUSED_FILE]) ENGRAM_NODES"

lemma s1_s3_execs: "logs execs (scenarios_s1_s3 E) (pause_cmds @ resume_cmds)"
proof -
  have q: "logs execs (scenario_poll E s i ph t) []" "logs execs (scenario_wait E tg s ph t) []"
    "logs execs (write_scenario_csv E nm key t) []" for s i ph t tg nm key
    by (rule logs_emits, intro emits_intros, simp_all)+
  have each: "logs execs (py_each (\<lambda>n. docker E (''exec'' # f n)) ENGRAM_NODES) (concat (map (\<lambda>n. [''docker'' # ''exec'' # f n]) ENGRAM_NODES))" for f
    by (rule logs_each, rule docker_execs)
  have "logs execs (scenarios_s1_s3 E) ([] @ [] @ [] @
      concat (map (\<lambda>n. [[''docker'', ''exec'', n, ''touch'', ANCHOR_SUBMISSION_PAUSED_FILE]]) ENGRAM_NODES) @ [] @
      concat (map (\<lambda>n. [[''docker'', ''exec'', n, ''rm'', ''-f'', ANCHOR_SUBMISSION_PAUSED_FILE]]) ENGRAM_NODES) @
      [] @ [] @ [] @ [] @ [] @ [] @ [])"
    unfolding scenarios_s1_s3_def by (intro logs_intros docker_execs(2,3) q each)
  then show ?thesis by (simp add: pause_cmds_def resume_cmds_def ENGRAM_NODES_def)
qed

lemma scenario_phases_execs: "logs execs (scenario_phases E) (pause_cmds @ resume_cmds)"
proof -
  have "logs execs (scenario_phases E) ((pause_cmds @ resume_cmds) @ [] @ [])"
    unfolding scenario_phases_def
    by (intro logs_intros s1_s3_execs s4_s5_execs s6_s7_steps(2))
  then show ?thesis by simp
qed

lemma scenario_phases_power:
  "ends power (scenario_phases E)
     [[''docker'', ''stop'', BITCOIN_NODE], [''docker'', ''stop'', CELESTIA_BRIDGE],
      [''docker'', ''start'', BITCOIN_NODE], [''docker'', ''start'', CELESTIA_BRIDGE]]"
proof -
  have s13: "steady (scenarios_s1_s3 E)" unfolding scenarios_s1_s3_def by (intro emits_intros) simp_all
  have s45: "steady (scenarios_s4_s5 E tr)" for tr
    unfolding scenarios_s4_s5_def start_p2p_eclipse_partial_def cleanup_p2p_eclipse_partial_def
      start_pumba_profile_def up_detached_def cleanup_profile_def
    by (intro emits_intros) simp_all
  show ?thesis
    unfolding scenario_phases_def
    by (rule ends_bind [OF s13], rule ends_bind [OF s45], rule ends_logs [OF s6_s7_steps(1)]) simp
qed


lemma wp_tracker_poll_clock:
  "wp (tracker_poll rec E seconds interval tr) (\<lambda>_ w'. clock w + seconds \<le> clock w') (\<lambda>_ _. True) w"
  unfolding tracker_poll_def wp_bind wp_time
  by (rule wp_while [where I = "\<lambda>_ _. True"])
    (auto simp: loop_state_def wp_simps intro!: wp_mono [OF wp_sample_all_nodes])

lemma scenario_steps_total [total_intros]:
  "0 < i \<Longrightarrow> total (scenario_poll E s i ph tr)" "total (scenario_wait E t s ph tr)"
  "total (write_scenario_csv E nm key tr)" "total (log_net_info E ph tr)"
  unfolding scenario_poll_def scenario_wait_def write_scenario_csv_def log_net_info_def net_info_def rpc_get_def
  by (intro total_intros; assumption)+

lemma isolation_loop_total [total_intros]: "total (isolation_loop E s ph st)"
  unfolding isolation_loop_def
proof (intro total_intros deadline_while_total [where \<delta> = 10])
  fix st :: "scenario_tracker \<times> string" and w
  have clk: "wp (log_net_info E ph tr) (\<lambda>_ v'. clock v \<le> clock v') (\<lambda>_ _. True) v" for v tr
  proof -
    have "steady (log_net_info E ph tr)" by (intro emits_intros) simp
    from wp_emits [OF this] show ?thesis by (rule wp_mono) (auto dest: grows_clock)
  qed
  show "wp (case st of (tr, text) \<Rightarrow> py_bind (scenario_poll E 10 3 ph tr) (\<lambda>tr'.
      py_bind (log_net_info E ph tr') (\<lambda>line. py_return (Continue (tr', text @ line)))))
    (\<lambda>k w'. case k of Continue _ \<Rightarrow> clock w + 10 \<le> clock w' | Leave (_ :: unit) \<Rightarrow> True) (\<lambda>_ _. True) w"
    unfolding split_beta wp_bind scenario_poll_def
    by (rule wp_mono [OF wp_tracker_poll_clock]) (auto intro!: wp_mono [OF clk] simp: wp_simps)
qed simp_all

lemma finished_injector_quiet [quiet_intros]:
  "quiet (wait_for_no_active_netem finished_env 20)"
  "quiet (start_pumba_profile finished_env ''chaos-eclipse'' 15)"
  "quiet (cleanup_profile finished_env ''chaos-eclipse'')"
proof -
  show "quiet (wait_for_no_active_netem finished_env 20)"
    using wait_finished [of 20] by (intro quietI) auto
  show "quiet (start_pumba_profile finished_env ''chaos-eclipse'' 15)"
    by (rule quietI) (simp add: start_pumba_profile_def up_detached_def dict_keys_def dict_item_def
        PROFILE_TO_SERVICE_def PROFILE_TO_CONTAINER_def run_defs finished_docker_def poll_until_def
        py_while.simps started_check_def container_status_def status_of_def)
  show "quiet (cleanup_profile finished_env ''chaos-eclipse'')"
    by (rule quietI) (simp add: cleanup_profile_def dict_item_def PROFILE_TO_SERVICE_def
        PROFILE_TO_NETEM_TARGETS_def dict_get_def run_defs finished_docker_def clear_netem_qdisc_def)
qed

lemma finished_scenario_quiet [quiet_intros]:
  "0 \<le> i \<Longrightarrow> quiet (scenario_poll finished_env s i ph tr)" "quiet (scenario_wait finished_env t s ph tr)"
  "quiet (write_scenario_csv finished_env nm key tr)"
  unfolding scenario_poll_def scenario_wait_def write_scenario_csv_def write_csv_def
  by (intro quiet_intros; assumption)+

lemma log_net_info_quiet [quiet_intros]: "quiet (log_net_info finished_env ph tr)"
  by (rule quietI) (simp add: log_net_info_def net_info_def rpc_get_def resolve_port_def dict_item_def
      NODE_RPC_PORTS_def run_defs caught_by_def)

lemma isolation_loop_quiet [quiet_intros]: "quiet (isolation_loop finished_env s ph st)"
proof -
  have step: "wp (py_bind (scenario_poll finished_env 10 3 ph tr) (\<lambda>tr'.
      py_bind (log_net_info finished_env ph tr') (\<lambda>line. py_return (Continue (tr', acc @ line) :: (_, unit) ctl))))
      (\<lambda>k _. \<exists>s'. k = Continue s') (\<lambda>_ _. False) w" for tr acc w
    unfolding wp_bind
    by (intro wp_mono [OF quiet_wp [OF finished_scenario_quiet(1)]] wp_mono [OF quiet_wp [OF log_net_info_quiet]])
      (auto simp: wp_simps intro!: wp_mono [OF quiet_wp [OF log_net_info_quiet]])
  show ?thesis
    unfolding isolation_loop_def
    by (intro quiet_bind quiet_simps quiet_loop) (use step in \<open>auto simp: split_beta\<close>)
qed

lemma scenario_phases_run: "\<exists>r w'. scenario_phases finished_env start_world = Some (Inr r, w')"
proof -
  have "quiet (start_p2p_eclipse_partial finished_env d j u)" "quiet (cleanup_p2p_eclipse_partial finished_env)" for d j u
    unfolding start_p2p_eclipse_partial_def cleanup_p2p_eclipse_partial_def
    by (intro quiet_intros; simp add: finished_docker_def)+
  then have "quiet (scenario_phases finished_env)"
    unfolding scenario_phases_def scenarios_s1_s3_def scenarios_s4_s5_def scenarios_s6_s7_def
    by (intro quiet_intros) simp_all
  moreover have "total (scenario_phases finished_env)"
    unfolding scenario_phases_def scenarios_s1_s3_def scenarios_s4_s5_def scenarios_s6_s7_def
      start_p2p_eclipse_partial_def cleanup_p2p_eclipse_partial_def
    by (intro total_intros) simp_all
  ultimately show ?thesis by (rule quiet_returns)
qed


lemma scenario_matrix_total: "total (scenario_matrix_main E)"
  unfolding scenario_matrix_main_def scenario_phases_def scenarios_s1_s3_def scenarios_s4_s5_def scenarios_s6_s7_def
    start_p2p_eclipse_partial_def cleanup_p2p_eclipse_partial_def write_throughput_summary_def
  by (intro total_intros) simp_all

end
