(* ===== verification/Hysteresis.thy ===== *)
theory Hysteresis
  imports Scenario_Matrix
begin

text \<open>
  The hysteresis experiments of \<^verbatim>\<open>scripts/e5_hysteresis_flapping/\<close>: the metrics computed from a node's
  sampled states (\<^verbatim>\<open>compute_metrics\<close> of \<^verbatim>\<open>live_spot_check.py\<close> and of \<^verbatim>\<open>live_spot_check_absorb.py\<close>), the two
  measurement runs with their noise cycle, and the backfill from recorded samples.
\<close>

section \<open>The metrics\<close>

text \<open>The local variables of the loop over a node's states.\<close>

record flap =
  fl_prev :: string
  fl_last :: "string option"
  fl_flapping :: nat
  fl_total :: nat

definition new_flap :: "string \<Rightarrow> flap" where
  "new_flap s = \<lparr>fl_prev = s, fl_last = None, fl_flapping = 0, fl_total = 0\<rparr>"

definition arrow :: "string \<Rightarrow> string \<Rightarrow> string" where
  "arrow a b = a @ ''->'' @ b"

definition flap_step :: "string \<Rightarrow> 'm flap_scheme \<Rightarrow> 'm flap_scheme" where
  "flap_step s fl =
     (if s \<noteq> fl_prev fl
      then fl\<lparr>fl_total := fl_total fl + 1,
              fl_flapping := (if fl_last fl = Some (arrow s (fl_prev fl)) then fl_flapping fl + 1 else fl_flapping fl),
              fl_last := Some (arrow (fl_prev fl) s), fl_prev := s\<rparr>
      else fl)"

record metrics =
  flapping_count :: nat
  total_transitions :: nat
  anchored_uptime :: rat
  n_samples :: nat

text \<open>\<^verbatim>\<open>round(x, 4)\<close>\<close>

definition round4 :: "rat \<Rightarrow> rat" where
  "round4 x = of_int (round_half_even (x * 10000)) / 10000"

definition count_state :: "string \<Rightarrow> string list \<Rightarrow> nat" where
  "count_state st states = length (filter (\<lambda>s. s = st) states)"

definition uptime :: "string list \<Rightarrow> rat" where
  "uptime states = of_nat (count_state ''ANCHORED'' states) / of_nat (length states)"

definition node_metrics :: "string list \<Rightarrow> metrics" where
  "node_metrics states0 =
     (case filter (\<lambda>s. s \<noteq> []) states0 of
        [] \<Rightarrow> \<lparr>flapping_count = 0, total_transitions = 0, anchored_uptime = 0, n_samples = 0\<rparr>
      | s # ss \<Rightarrow>
          (let fl = fold flap_step ss (new_flap s) in
           \<lparr>flapping_count = fl_flapping fl, total_transitions = fl_total fl,
            anchored_uptime = round4 (uptime (s # ss)), n_samples = length (s # ss)\<rparr>))"

definition spot_metrics :: "('k, string list) dict \<Rightarrow> ('k, metrics) dict" where
  "spot_metrics states_by_node = map (\<lambda>(n, states). (n, node_metrics states)) states_by_node"

text \<open>The second version counts, besides, the transitions of the edge under study.\<close>

record absorb_flap = flap +
  fl_demotions :: nat
  fl_exits :: nat

definition new_absorb_flap :: "string \<Rightarrow> absorb_flap" where
  "new_absorb_flap s = \<lparr>fl_prev = s, fl_last = None, fl_flapping = 0, fl_total = 0, fl_demotions = 0, fl_exits = 0\<rparr>"

definition absorb_step :: "string \<Rightarrow> string \<Rightarrow> absorb_flap \<Rightarrow> absorb_flap" where
  "absorb_step edge s fl =
     (let fl' = flap_step s fl in
      if s \<noteq> fl_prev fl then
        (if edge = ''down'' \<and> fl_prev fl = ''ANCHORED'' \<and> s = ''SUSPICIOUS'' then fl'\<lparr>fl_demotions := fl_demotions fl + 1\<rparr>
         else if edge = ''suspicious_exit'' \<and> fl_prev fl = ''SUSPICIOUS'' \<and> s = ''ANCHORED'' then fl'\<lparr>fl_exits := fl_exits fl + 1\<rparr>
         else fl')
      else fl')"

datatype edge_metrics =
    DownMetrics (time_outside_anchored: nat) (demotion_count: nat)
  | ExitMetrics (exit_count: nat) (max_suspicious_duration: int)

definition absorb_node_metrics :: "string \<Rightarrow> string list \<Rightarrow> int list \<Rightarrow> metrics \<times> edge_metrics" where
  "absorb_node_metrics edge states0 durations =
     (case filter (\<lambda>s. s \<noteq> []) states0 of
        [] \<Rightarrow> (\<lparr>flapping_count = 0, total_transitions = 0, anchored_uptime = 0, n_samples = 0\<rparr>,
               if edge = ''down'' then DownMetrics 0 0 else ExitMetrics 0 0)
      | s # ss \<Rightarrow>
          (let fl = fold (absorb_step edge) ss (new_absorb_flap s) in
           (\<lparr>flapping_count = fl_flapping fl, total_transitions = fl_total fl,
             anchored_uptime = round4 (uptime (s # ss)), n_samples = length (s # ss)\<rparr>,
            if edge = ''down''
            then DownMetrics (length (filter (\<lambda>x. x \<noteq> ''ANCHORED'') (s # ss))) (fl_demotions fl)
            else ExitMetrics (fl_exits fl) (if durations = [] then 0 else Max (set durations)))))"

definition absorb_metrics :: "string \<Rightarrow> ('k, string list) dict \<Rightarrow> ('k, int list) dict \<Rightarrow> ('k, metrics \<times> edge_metrics) dict" where
  "absorb_metrics edge states_by_node susp_duration_by_node =
     map (\<lambda>(n, states). (n, absorb_node_metrics edge states (dict_get susp_duration_by_node n []))) states_by_node"

section \<open>What the metrics count\<close>

text \<open>The transitions of a node are the adjacent changes of its reported states; a flap is a transition
  that undoes the one before it.\<close>

fun reversals :: "('a \<times> 'a) list \<Rightarrow> nat" where
  "reversals ((a, b) # (c, d) # ps) = (if d = a then 1 else 0) + reversals ((c, d) # ps)"
| "reversals _ = 0"

lemma reversals_snoc:
  "reversals (ps @ [(a, b), (b, c)]) = (if c = a then 1 else 0) + reversals (ps @ [(a, b)])"
  by (induction ps rule: reversals.induct) auto

lemma adjacent_changes_last:
  "adjacent_changes xs = ps @ [(a, b)] \<Longrightarrow> b = last xs"
proof (induction xs arbitrary: ps a b rule: rev_induct)
  case (snoc x xs)
  then show ?case by (cases "xs = []") (auto simp: adjacent_changes_snoc split: if_splits)
qed simp

definition flap_ok :: "string list \<Rightarrow> 'm flap_scheme \<Rightarrow> bool" where
  "flap_ok xs fl \<longleftrightarrow>
     fl_prev fl = last xs \<and> fl_total fl = length (adjacent_changes xs) \<and> fl_flapping fl = reversals (adjacent_changes xs) \<and>
     fl_last fl = (if adjacent_changes xs = [] then None else Some (arrow (fst (last (adjacent_changes xs))) (last xs)))"

lemma flap_ok_step:
  assumes "flap_ok xs fl" "xs \<noteq> []"
  shows "flap_ok (xs @ [s]) (flap_step s fl)"
proof (cases "s = last xs")
  case True
  with assms show ?thesis by (simp add: flap_ok_def flap_step_def adjacent_changes_snoc)
next
  case False
  show ?thesis
  proof (cases "adjacent_changes xs" rule: rev_cases)
    case Nil
    with False assms show ?thesis by (auto simp: flap_ok_def flap_step_def adjacent_changes_snoc)
  next
    case (snoc ps p)
    obtain a b where p: "p = (a, b)" by (cases p)
    with snoc have b: "b = last xs" using adjacent_changes_last [of xs ps a b] by simp
    have ch: "adjacent_changes (xs @ [s]) = ps @ [(a, b), (b, s)]"
      unfolding adjacent_changes_snoc snoc p using assms(2) False b by simp
    have f: "fl_prev fl = b" "fl_total fl = length (ps @ [(a, b)])" "fl_flapping fl = reversals (ps @ [(a, b)])"
      "fl_last fl = Some (arrow a b)"
      using assms(1) snoc p b by (simp_all add: flap_ok_def)
    show ?thesis
      unfolding flap_ok_def ch reversals_snoc using f False b by (simp add: flap_step_def arrow_def)
  qed
qed

lemma flap_ok_fold: "flap_ok xs fl \<Longrightarrow> xs \<noteq> [] \<Longrightarrow> flap_ok (xs @ ss) (fold flap_step ss fl)"
proof (induction ss arbitrary: xs fl)
  case (Cons s ss)
  from Cons.IH [OF flap_ok_step [OF Cons.prems]] show ?case by simp
qed simp

lemma new_flap_ok: "flap_ok [s] (new_flap s)" "flap_ok [s] (new_absorb_flap s)"
  by (simp_all add: flap_ok_def new_flap_def new_absorb_flap_def)

text \<open>The second loop does the same on the shared counters, and counts the edge's transitions.\<close>

lemma absorb_step_fields:
  "fl_prev (absorb_step edge s fl) = fl_prev (flap_step s fl)" "fl_last (absorb_step edge s fl) = fl_last (flap_step s fl)"
  "fl_total (absorb_step edge s fl) = fl_total (flap_step s fl)" "fl_flapping (absorb_step edge s fl) = fl_flapping (flap_step s fl)"
  by (simp_all add: absorb_step_def Let_def)

lemma absorb_step_flap:
  "flap_ok xs fl \<Longrightarrow> xs \<noteq> [] \<Longrightarrow> flap_ok (xs @ [s]) (absorb_step edge s fl)"
  using flap_ok_step [of xs fl s] unfolding flap_ok_def [of "xs @ [s]"] absorb_step_fields by blast

lemma absorb_step_counts:
  "fl_demotions (absorb_step edge s fl) =
     fl_demotions fl + (if edge = ''down'' \<and> fl_prev fl = ''ANCHORED'' \<and> s = ''SUSPICIOUS'' then 1 else 0)"
  "fl_exits (absorb_step edge s fl) =
     fl_exits fl + (if edge = ''suspicious_exit'' \<and> fl_prev fl = ''SUSPICIOUS'' \<and> s = ''ANCHORED'' then 1 else 0)"
  by (auto simp: absorb_step_def flap_step_def Let_def)

definition edge_ok :: "string \<Rightarrow> string list \<Rightarrow> absorb_flap \<Rightarrow> bool" where
  "edge_ok edge xs fl \<longleftrightarrow> flap_ok xs fl \<and>
     (edge = ''down'' \<longrightarrow> fl_demotions fl = count_list (adjacent_changes xs) (''ANCHORED'', ''SUSPICIOUS'')) \<and>
     (edge = ''suspicious_exit'' \<longrightarrow> fl_exits fl = count_list (adjacent_changes xs) (''SUSPICIOUS'', ''ANCHORED''))"

lemma edge_ok_step: "edge_ok edge xs fl \<Longrightarrow> xs \<noteq> [] \<Longrightarrow> edge_ok edge (xs @ [s]) (absorb_step edge s fl)"
  using absorb_step_flap [of xs fl s edge]
  by (simp add: edge_ok_def absorb_step_counts adjacent_changes_snoc flap_ok_def [of xs])

lemma edge_ok_fold: "edge_ok edge xs fl \<Longrightarrow> xs \<noteq> [] \<Longrightarrow> edge_ok edge (xs @ ss) (fold (absorb_step edge) ss fl)"
proof (induction ss arbitrary: xs fl)
  case (Cons s ss)
  from Cons.IH [OF edge_ok_step [OF Cons.prems]] show ?case by simp
qed simp

text \<open>C14. The metrics of a spot check count what they are meant to: over the non-empty states of a node, the
  transitions are the adjacent changes, the flaps those that undo the change before them, the
  uptime (rounded to four digits) is the share of ANCHORED samples; the absorb version adds the
  demotions ANCHORED to SUSPICIOUS or the exits SUSPICIOUS to ANCHORED, and never disagrees on the rest.\<close>

theorem spot_metrics_count:
  assumes "filter (\<lambda>s. s \<noteq> []) states = xs" "xs \<noteq> []"
  shows "node_metrics states =
      \<lparr>flapping_count = reversals (adjacent_changes xs), total_transitions = length (adjacent_changes xs),
       anchored_uptime = round4 (of_nat (count_list xs ''ANCHORED'') / of_nat (length xs)), n_samples = length xs\<rparr> \<and>
    absorb_node_metrics ''down'' states ds =
      (node_metrics states, DownMetrics (length xs - count_list xs ''ANCHORED'') (count_list (adjacent_changes xs) (''ANCHORED'', ''SUSPICIOUS''))) \<and>
    absorb_node_metrics ''suspicious_exit'' states ds =
      (node_metrics states, ExitMetrics (count_list (adjacent_changes xs) (''SUSPICIOUS'', ''ANCHORED'')) (if ds = [] then 0 else Max (set ds)))"
proof -
  obtain s ss where xs: "xs = s # ss" using assms(2) by (cases xs) auto
  have fl: "flap_ok xs (fold flap_step ss (new_flap s))"
    using flap_ok_fold [OF new_flap_ok(1), of s ss] xs by simp
  have ed: "edge_ok edge xs (fold (absorb_step edge) ss (new_absorb_flap s))" for edge
    using edge_ok_fold [of edge "[s]" "new_absorb_flap s" ss] xs
    by (simp add: edge_ok_def new_flap_ok) (simp add: new_absorb_flap_def)
  have eqf: "(\<lambda>s. s = ''ANCHORED'') = (=) ''ANCHORED''" by auto
  have up: "uptime xs = of_nat (count_list xs ''ANCHORED'') / of_nat (length xs)"
    by (simp add: uptime_def count_state_def count_list_eq_length_filter eqf)
  have out: "length (filter (\<lambda>x. x \<noteq> ''ANCHORED'') xs) = length xs - count_list xs ''ANCHORED''"
    using sum_length_filter_compl [of "\<lambda>x. x = ''ANCHORED''" xs] by (simp add: count_list_eq_length_filter eqf)
  have nm: "node_metrics states =
      (let fl = fold flap_step ss (new_flap s) in
       \<lparr>flapping_count = fl_flapping fl, total_transitions = fl_total fl, anchored_uptime = round4 (uptime xs), n_samples = length xs\<rparr>)"
    by (simp add: node_metrics_def assms(1) xs)
  have am: "absorb_node_metrics edge states ds =
      (let fl = fold (absorb_step edge) ss (new_absorb_flap s) in
       (\<lparr>flapping_count = fl_flapping fl, total_transitions = fl_total fl, anchored_uptime = round4 (uptime xs), n_samples = length xs\<rparr>,
        if edge = ''down'' then DownMetrics (length (filter (\<lambda>x. x \<noteq> ''ANCHORED'') xs)) (fl_demotions fl)
        else ExitMetrics (fl_exits fl) (if ds = [] then 0 else Max (set ds))))" for edge
    unfolding absorb_node_metrics_def assms(1) xs by (simp only: list.case)
  show ?thesis
    unfolding nm am Let_def
    using fl ed [of "''down''"] ed [of "''suspicious_exit''"] by (simp add: flap_ok_def edge_ok_def up out)
qed

theorem spot_metrics_count_witness:
  "filter (\<lambda>s. s \<noteq> []) [''ANCHORED'', [], ''SUSPICIOUS'', ''ANCHORED''] = [''ANCHORED'', ''SUSPICIOUS'', ''ANCHORED''] \<and>
   node_metrics [''ANCHORED'', [], ''SUSPICIOUS'', ''ANCHORED''] =
     \<lparr>flapping_count = 1, total_transitions = 2, anchored_uptime = round4 (2 / 3), n_samples = 3\<rparr>"
  using spot_metrics_count [of "[''ANCHORED'', [], ''SUSPICIOUS'', ''ANCHORED'']" "[''ANCHORED'', ''SUSPICIOUS'', ''ANCHORED'']"] by simp

section \<open>The noise cycle and the measurement runs\<close>

definition E5_RESULTS_DIR :: string where
  "E5_RESULTS_DIR = ''scripts/e5_hysteresis_flapping/results_live''"

text \<open>The local variables of a measurement window.\<close>

record spot_state =
  sp_states :: "(string, string list) dict"
  sp_durations :: "(string, int list) dict"
  sp_samples :: "NodeSample list"
  sp_next_toggle :: rat
  sp_da_down :: bool

definition new_spot :: "rat \<Rightarrow> bool \<Rightarrow> spot_state" where
  "new_spot start da_down =
     \<lparr>sp_states = [], sp_durations = [], sp_samples = [], sp_next_toggle = start, sp_da_down = da_down\<rparr>"

definition spot_round :: "NodeSample list \<Rightarrow> spot_state \<Rightarrow> spot_state" where
  "spot_round rs st =
     st\<lparr>sp_samples := sp_samples st @ rs,
        sp_states := fold (\<lambda>s. dict_append (node s) (fsm_state s)) rs (sp_states st),
        sp_durations := fold (\<lambda>s. dict_append (node s) (suspicious_duration s)) rs (sp_durations st)\<rparr>"

definition toggle_da :: "env \<Rightarrow> rat \<Rightarrow> rat \<Rightarrow> spot_state \<Rightarrow> spot_state py" where
  "toggle_da E noise_on_s noise_off_s st = py_then (docker E [if sp_da_down st then ''start'' else ''stop'', CELESTIA_BRIDGE])
     (py_bind (time_time) (\<lambda>now.
     py_return (st\<lparr>sp_next_toggle := now + (if sp_da_down st then noise_off_s else noise_on_s), sp_da_down := \<not> sp_da_down st\<rparr>)))"

definition spot_window :: "env \<Rightarrow> string \<Rightarrow> rat \<Rightarrow> rat \<Rightarrow> rat \<Rightarrow> rat \<Rightarrow> spot_state \<Rightarrow> spot_state py" where
  "spot_window E environment deadline interval_s noise_on_s noise_off_s st =
     py_bind
       (py_while (\<lambda>_ w. clock w < deadline)
          (\<lambda>st. py_bind (sample_all_nodes E []) (\<lambda>rs.
     py_bind (time_time) (\<lambda>now.
     py_bind ((if environment = ''noisy_da'' \<and> sp_next_toggle st \<le> now
                     then toggle_da E noise_on_s noise_off_s (spot_round rs st) else py_return (spot_round rs st))) (\<lambda>st'.
     py_then (time_sleep E interval_s)
     (py_return (Continue st')))))) st)
       loop_state"

text \<open>The body of the \<^verbatim>\<open>try\<close> statement: the window, then the bridge is started if the cycle left it down.\<close>

definition spot_measure :: "env \<Rightarrow> string \<Rightarrow> rat \<Rightarrow> rat \<Rightarrow> rat \<Rightarrow> rat \<Rightarrow> bool \<Rightarrow> spot_state py" where
  "spot_measure E environment duration_s interval_s noise_on_s noise_off_s da_down = py_bind (time_time) (\<lambda>start.
     py_bind (spot_window E environment (start + duration_s) interval_s noise_on_s noise_off_s (new_spot start da_down)) (\<lambda>st.
     py_then ((if sp_da_down st then docker E [''start'', CELESTIA_BRIDGE] else py_return ()))
     (py_return st)))"

definition with_wan :: "env \<Rightarrow> string \<Rightarrow> 'a py \<Rightarrow> 'a py" where
  "with_wan E wan_profile m =
     (if wan_profile = ''none'' then m
      else py_then (start_pumba_wan_profile E wan_profile 15) (py_finally m (cleanup_wan_profile E wan_profile)))"


text \<open>\<^verbatim>\<open>f"{x:.2%}"\<close>\<close>

definition fmt_percent :: "nat \<Rightarrow> rat \<Rightarrow> string" where
  "fmt_percent k x = fmt_fixed k (x * 100) @ ''%''"

definition SPOT_ENVIRONMENTS :: "(string, string) dict" where
  "SPOT_ENVIRONMENTS =
     [(''stable'', ''no injected noise, control group''),
      (''noisy_da'', ''repeated docker stop/start celestia-bridge cycling, proven mechanism from live_lifecycle_test.py'')]"

definition window_line :: "string \<Rightarrow> rat \<Rightarrow> rat \<Rightarrow> string \<Rightarrow> string" where
  "window_line descr duration_s interval_s wan_profile =
     descr @ ''. Duration: '' @ fmt_fixed 0 duration_s @ ''s, polling interval: '' @ fmt_fixed 0 interval_s
     @ ''s, WAN-realism baseline: '' @ wan_profile @ ''.'' @ NL @ NL"

definition granularity_caveat :: string where
  "granularity_caveat =
     ''**Granularity caveat:** metrics below are computed from fixed-interval polling, not ''
     @ ''per-block state -- see this script's module doc.'' @ NL @ NL"

definition shared_cells :: "string \<Rightarrow> metrics \<Rightarrow> string list" where
  "shared_cells n m =
     [n, show_nat (n_samples m), show_nat (total_transitions m), show_nat (flapping_count m), fmt_percent 2 (anchored_uptime m)]"

definition spot_summary :: "int \<Rightarrow> string \<Rightarrow> string \<Rightarrow> rat \<Rightarrow> rat \<Rightarrow> string \<Rightarrow> (string, metrics) dict \<Rightarrow> string" where
  "spot_summary hysteresis_wait environment descr duration_s interval_s wan_profile metrics =
     ''# LIVE E5 spot-check: HysteresisWait='' @ py_str_int hysteresis_wait @ '', env='' @ environment @ NL @ NL
     @ window_line descr duration_s interval_s wan_profile @ granularity_caveat
     @ ''| Node | Samples | Total Transitions | Flapping Count | Anchored Uptime |'' @ NL
     @ ''|---|---:|---:|---:|---:|'' @ NL
     @ concat (map (\<lambda>(n, m). md_row (shared_cells n m)) metrics)"

definition live_spot_check_main ::
  "env \<Rightarrow> int \<Rightarrow> string \<Rightarrow> rat \<Rightarrow> rat \<Rightarrow> rat \<Rightarrow> rat \<Rightarrow> string \<Rightarrow> spot_state py" where
  "live_spot_check_main E hysteresis_wait environment duration_s interval_s noise_on_s noise_off_s wan_profile = py_bind (py_lift (dict_item SPOT_ENVIRONMENTS environment)) (\<lambda>descr.
     py_bind (with_wan E wan_profile (spot_measure E environment duration_s interval_s noise_on_s noise_off_s False)) (\<lambda>st.
     py_bind (ts_label E) (\<lambda>label.
     (let base = path_join E5_RESULTS_DIR (''live_spot_check_hw'' @ py_str_int hysteresis_wait @ ''_'' @ environment @ ''_'' @ label) in
     py_then (write_csv E (sp_samples st) (base @ ''.csv''))
     (py_then (write_file E (base @ ''_summary.md'')
       (spot_summary hysteresis_wait environment descr duration_s interval_s wan_profile (spot_metrics (sp_states st))))
     (py_return st))))))"

section \<open>live_spot_check_absorb.py\<close>

definition ABSORB_ENVIRONMENTS :: "(string, string) dict" where
  "ABSORB_ENVIRONMENTS =
     [(''stable'', ''down (5b): no injected noise, 100% healthy control. ''
         @ ''suspicious_exit (5c): sustained warning, 0% healthy blips -- the ''
         @ ''opposite control (system must exhaust MaxSuspiciousTime).''),
      (''noisy_da'', ''down (5b): ~80% healthy baseline, ~20% warning blips. ''
         @ ''suspicious_exit (5c): ~80% warning baseline, ~20% healthy blips -- ''
         @ ''inverted from down, matching suspicious_exit_sweep_test.go's actual model.'')]"

definition edge_cells :: "edge_metrics \<Rightarrow> string list" where
  "edge_cells m =
     (case m of DownMetrics t d \<Rightarrow> [show_nat t, show_nat d] | ExitMetrics x d \<Rightarrow> [show_nat x, py_str_int d])"

text \<open>\<^verbatim>\<open>write_summary\<close>: the introduction differs for a backfilled run. The description is looked up only for a live run.\<close>

definition absorb_summary :: "string \<Rightarrow> int \<Rightarrow> string \<Rightarrow> string \<Rightarrow> (string, metrics \<times> edge_metrics) dict \<Rightarrow> string" where
  "absorb_summary edge val environment intro metrics =
     ''# LIVE E5 absorb-edge spot-check: edge='' @ edge @ '', value='' @ py_str_int val @ '', env='' @ environment @ NL @ NL
     @ intro @ granularity_caveat
     @ (if edge = ''down''
        then ''| Node | Samples | Total Transitions | Flapping Count | Anchored Uptime | Time Outside Anchored | Demotion Count |'' @ NL
        else ''| Node | Samples | Total Transitions | Flapping Count | Anchored Uptime | Exit Count | Max Suspicious Duration |'' @ NL)
     @ ''|---|---:|---:|---:|---:|---:|---:|'' @ NL
     @ concat (map (\<lambda>(n, m, em). md_row (shared_cells n m @ edge_cells em)) metrics)"

definition backfill_intro :: "string \<Rightarrow> string" where
  "backfill_intro path =
     ''Tier 1 fields (time_outside_anchored/demotion_count or exit_count/''
     @ ''max_suspicious_duration) backfilled from already-collected samples in `'' @ path @ ''` -- no new Docker run.'' @ NL @ NL"

text \<open>One row of the recorded samples; \<^verbatim>\<open>None\<close> in the state column is dropped like an empty state.\<close>

definition absorb_row :: "csv_dict \<Rightarrow> (string option \<times> string \<times> int) result" where
  "absorb_row r =
     rbind (dict_item r ''node'') (\<lambda>n.
     rbind (dict_item r ''fsm_state'') (\<lambda>s.
     rbind (case rbind (dict_item r ''suspicious_duration'') cell_int of
              Inr d \<Rightarrow> Inr d
            | Inl e \<Rightarrow> if caught_by [KeyError, ValueError] e then Inr 0 else Inl e) (\<lambda>d.
     Inr (n, (case s of None \<Rightarrow> [] | Some t \<Rightarrow> t), d))))"

text \<open>\<^verbatim>\<open>re.sub(r"\.csv$", "_summary.md", p)\<close>; the dollar sign also matches before a final newline.\<close>

definition summary_name :: "string \<Rightarrow> string" where
  "summary_name p =
     (if suffix ''.csv'' p then take (length p - 4) p @ ''_summary.md''
      else if suffix (''.csv'' @ NL) p then take (length p - 5) p @ ''_summary.md'' @ NL
      else p)"

definition cell_text :: "string option \<Rightarrow> string" where
  "cell_text c = (case c of None \<Rightarrow> ''None'' | Some s \<Rightarrow> s)"

definition absorb_backfill :: "env \<Rightarrow> string \<Rightarrow> int \<Rightarrow> string \<Rightarrow> string \<Rightarrow> unit py" where
  "absorb_backfill E edge val environment from_csv = py_bind (read_file from_csv) (\<lambda>raw.
     py_bind (py_lift (rmap_list absorb_row (csv_dicts raw))) (\<lambda>rows.
     (let states_by_node = fold (\<lambda>(n, s, d). dict_append n s) rows [] in
     (let susp_duration_by_node = fold (\<lambda>(n, s, d). dict_append n d) rows [] in
     (let metrics = absorb_metrics edge states_by_node susp_duration_by_node in
     write_file E (summary_name from_csv)
       (absorb_summary edge val environment (backfill_intro from_csv) (map (\<lambda>(n, m). (cell_text n, m)) metrics)))))))"

definition drive_to_suspicious :: "env \<Rightarrow> rat \<Rightarrow> rat \<Rightarrow> bool py" where
  "drive_to_suspicious E interval_s timeout_s = py_then (docker E [''stop'', CELESTIA_BRIDGE])
     (py_bind (time_time) (\<lambda>t0.
     py_bind (py_while (\<lambda>_ w. clock w < t0 + timeout_s)
       (\<lambda>u. py_bind (sample_all_nodes E []) (\<lambda>rs.
          if rs \<noteq> [] \<and> list_all (\<lambda>s. fsm_state s = ''SUSPICIOUS'') rs then py_return (Leave ())
          else py_then (time_sleep E interval_s) (py_return (Continue u)))) ()) (\<lambda>k.
     py_return (case k of Leave _ \<Rightarrow> True | Continue _ \<Rightarrow> False))))"

definition absorb_noise_off :: "string \<Rightarrow> rat option \<Rightarrow> rat" where
  "absorb_noise_off edge noise_off_s =
     (case noise_off_s of Some x \<Rightarrow> x | None \<Rightarrow> if edge = ''suspicious_exit'' then 4 else 20)"

definition absorb_live ::
  "env \<Rightarrow> string \<Rightarrow> int \<Rightarrow> string \<Rightarrow> rat \<Rightarrow> rat \<Rightarrow> rat \<Rightarrow> rat option \<Rightarrow> rat option \<Rightarrow> string \<Rightarrow> spot_state py" where
  "absorb_live E edge val environment duration_s interval_s drive_timeout_s noise_on_s noise_off_s wan_profile = py_bind (py_lift (dict_item ABSORB_ENVIRONMENTS environment)) (\<lambda>descr.
     py_bind ((if edge = ''suspicious_exit'' then drive_to_suspicious E interval_s drive_timeout_s else py_return True)) (\<lambda>reached.
     py_then ((if reached then py_return ()
      else py_then (docker E [''start'', CELESTIA_BRIDGE]) (py_raise (Exn SystemExit ''1''))))
     (py_bind (with_wan E wan_profile (spot_measure E environment duration_s interval_s
             (case noise_on_s of Some x \<Rightarrow> x | None \<Rightarrow> 20) (absorb_noise_off edge noise_off_s) (edge = ''suspicious_exit''))) (\<lambda>st.
     py_bind (ts_label E) (\<lambda>label.
     (let base = path_join E5_RESULTS_DIR (''live_spot_check_'' @ edge @ py_str_int val @ ''_'' @ environment @ ''_'' @ label) in
     py_then (write_csv E (sp_samples st) (base @ ''.csv''))
     (py_then (write_file E (base @ ''_summary.md'')
       (absorb_summary edge val environment (window_line descr duration_s interval_s wan_profile)
          (absorb_metrics edge (sp_states st) (sp_durations st))))
     (py_return st))))))))"

definition absorb_main ::
  "env \<Rightarrow> string \<Rightarrow> int \<Rightarrow> string \<Rightarrow> rat \<Rightarrow> rat \<Rightarrow> rat \<Rightarrow> rat option \<Rightarrow> rat option \<Rightarrow> string \<Rightarrow> string option \<Rightarrow> unit py" where
  "absorb_main E edge val environment duration_s interval_s drive_timeout_s noise_on_s noise_off_s wan_profile from_csv =
     (case from_csv of
        Some p \<Rightarrow> if p = [] then py_then (absorb_live E edge val environment duration_s interval_s drive_timeout_s noise_on_s noise_off_s wan_profile) (py_return ())
                  else absorb_backfill E edge val environment p
      | None \<Rightarrow> py_then (absorb_live E edge val environment duration_s interval_s drive_timeout_s noise_on_s noise_off_s wan_profile) (py_return ()))"


section \<open>The bridge after a run\<close>

text \<open>Whether the DA bridge is down, as the commands of a run leave it.\<close>

definition bridge_step :: "string list \<Rightarrow> bool \<Rightarrow> bool" where
  "bridge_step argv down \<longleftrightarrow>
     argv = [''docker'', ''stop'', CELESTIA_BRIDGE] \<or> (argv \<noteq> [''docker'', ''start'', CELESTIA_BRIDGE] \<and> down)"

definition bridge_after :: "event list \<Rightarrow> bool \<Rightarrow> bool" where
  "bridge_after evs = fold bridge_step (trace command evs)"

definition swings :: "bool \<Rightarrow> world \<Rightarrow> bool \<Rightarrow> world \<Rightarrow> bool" where
  "swings b w b' w' \<longleftrightarrow> (\<exists>evs. log w' = log w @ evs \<and> bridge_after evs b = b')"

lemma swings_refl [simp]: "swings b w b' w \<longleftrightarrow> b' = b"
  by (auto simp: swings_def bridge_after_def)

lemma swings_trans: "swings b w b' w' \<Longrightarrow> swings b' w' b'' w'' \<Longrightarrow> swings b w b'' w''"
  by (auto simp: swings_def bridge_after_def)

definition bridge_neutral :: "event \<Rightarrow> bool" where
  "bridge_neutral ev \<longleftrightarrow> (\<forall>argv \<in> set (command ev). argv \<notin> {[''docker'', ''stop'', CELESTIA_BRIDGE], [''docker'', ''start'', CELESTIA_BRIDGE]})"

lemma fold_bridge_neutral:
  "list_all bridge_neutral evs \<Longrightarrow> bridge_after evs b = b"
proof (induction evs)
  case (Cons ev evs)
  have "\<forall>argv \<in> set as. argv \<notin> {[''docker'', ''stop'', CELESTIA_BRIDGE], [''docker'', ''start'', CELESTIA_BRIDGE]} \<Longrightarrow> fold bridge_step as b = b" for as b
    by (induction as) (auto simp: bridge_step_def)
  with Cons show ?case by (auto simp: bridge_after_def bridge_neutral_def)
qed (simp add: bridge_after_def)

lemma neutral_swings: "emits bridge_neutral m \<Longrightarrow> wp m (\<lambda>_. swings b w b) (\<lambda>_. swings b w b) w"
  by (rule wp_mono [OF wp_emits]) (auto simp: grows_def swings_def fold_bridge_neutral)

lemma swings_neutral:
  "emits bridge_neutral m \<Longrightarrow> swings b w b' v \<Longrightarrow> wp m (\<lambda>_. swings b w b') (\<lambda>_ _. True) v"
  by (rule wp_mono [OF neutral_swings]) (auto intro: swings_trans)

lemma bridge_docker:
  "swings b w b' v \<Longrightarrow> wp (docker E [''stop'', CELESTIA_BRIDGE]) (\<lambda>_. swings b w True) (\<lambda>_ _. True) v"
  "swings b w b' v \<Longrightarrow> wp (docker E [''start'', CELESTIA_BRIDGE]) (\<lambda>_. swings b w False) (\<lambda>_ _. True) v"
  by (auto simp: docker_def wp_simps emit_def swings_def bridge_after_def bridge_step_def split: sum.splits)

lemma neutral_simps [simp]:
  "bridge_neutral (RpcGet p q r)" "bridge_neutral (Slept t)" "bridge_neutral (Wrote f x)"
  "bridge_neutral (RunProc (compose_cmd pr v ss) vs r')" "bridge_neutral (RunProc (inspect_cmd c) vs r')"
  "bridge_neutral (RunProc (clear_cmd c) vs r')"
  by (simp_all add: bridge_neutral_def inspect_cmd_def clear_cmd_def compose_cmd_def)

lemma swings_emit: "bridge_neutral ev \<Longrightarrow> swings b w b' v \<Longrightarrow> swings b w b' (emit E ev d v)"
  by (rule swings_trans [of b w b' v]) (auto simp: swings_def emit_def intro!: exI [of _ "[ev]"] fold_bridge_neutral)

lemma swings_fs [simp]: "swings b w b' (v\<lparr>fs := f\<rparr>) \<longleftrightarrow> swings b w b' v"
  by (simp add: swings_def)

lemma wan_neutral:
  "emits bridge_neutral (start_pumba_wan_profile E p t)" "emits bridge_neutral (cleanup_wan_profile E p)"
  unfolding start_pumba_wan_profile_def cleanup_wan_profile_def
  by (intro emits_intros; simp)+

lemma swings_toggle:
  "swings b w (sp_da_down st) v \<Longrightarrow>
   wp (toggle_da E on off st) (\<lambda>st'. swings b w (sp_da_down st')) (\<lambda>_ _. True) v"
  unfolding toggle_da_def wp_then wp_bind
  by (cases "sp_da_down st") (auto intro!: wp_mono [OF bridge_docker(1)] wp_mono [OF bridge_docker(2)] simp: wp_simps)

lemma swings_window:
  assumes "swings b w (sp_da_down st) v"
  shows "wp (spot_window E environment deadline i on off st) (\<lambda>st'. swings b w (sp_da_down st')) (\<lambda>_ _. True) v"
  unfolding spot_window_def wp_bind
proof (rule wp_while [where I = "\<lambda>st v. swings b w (sp_da_down st) v"])
  fix st :: spot_state and v assume sw: "swings b w (sp_da_down st) v"
  have keep: "sp_da_down (spot_round rs st) = sp_da_down st" for rs by (simp add: spot_round_def)
  have sample: "wp (sample_all_nodes E []) (\<lambda>_. swings b w (sp_da_down st)) (\<lambda>_ _. True) v"
    by (rule swings_neutral [OF _ sw]) (intro emits_intros; simp)
  show "wp (py_bind (sample_all_nodes E []) (\<lambda>rs. py_bind time_time (\<lambda>now.
      py_bind (if environment = ''noisy_da'' \<and> sp_next_toggle st \<le> now then toggle_da E on off (spot_round rs st) else py_return (spot_round rs st))
       (\<lambda>st'. py_then (time_sleep E i) (py_return (Continue st'))))))
     (\<lambda>k w'. case k of Continue s' \<Rightarrow> swings b w (sp_da_down s') w'
       | Leave x \<Rightarrow> wp (loop_state (Leave x)) (\<lambda>st'. swings b w (sp_da_down st')) (\<lambda>_ _. True) w') (\<lambda>_ _. True) v"
    unfolding wp_bind wp_then
    by (rule wp_mono [OF sample])
      (auto simp: wp_simps keep intro!: wp_mono [OF swings_toggle] swings_emit)
qed (use assms in \<open>auto simp: loop_state_def wp_simps\<close>)


lemma swings_measure:
  assumes "swings b w da v"
  shows "wp (spot_measure E environment d i on off da) (\<lambda>_. swings b w False) (\<lambda>_ _. True) v"
proof -
  have "wp (spot_window E environment (clock v + d) i on off (new_spot (clock v) da)) (\<lambda>st'. swings b w (sp_da_down st')) (\<lambda>_ _. True) v"
    by (rule swings_window) (use assms in \<open>simp add: new_spot_def\<close>)
  then show ?thesis
    unfolding spot_measure_def wp_bind wp_then wp_time
    by (rule wp_mono) (auto simp: wp_simps intro!: wp_mono [OF bridge_docker(2)])
qed

lemma swings_with_wan:
  assumes "swings b w da v" "\<And>v. swings b w da v \<Longrightarrow> wp m (\<lambda>_. swings b w False) (\<lambda>_ _. True) v"
  shows "wp (with_wan E wan m) (\<lambda>_. swings b w False) (\<lambda>_ _. True) v"
proof (cases "wan = ''none''")
  case True
  with assms show ?thesis by (simp add: with_wan_def)
next
  case False
  have c: "swings b w b' u \<Longrightarrow> wp (cleanup_wan_profile E wan) (\<lambda>_. swings b w b') (\<lambda>_ _. True) u" for b' u
    by (rule swings_neutral [OF wan_neutral(2)])
  have c': "wp (cleanup_wan_profile E wan) (\<lambda>_ _. True) (\<lambda>_ _. True) u" for u by (simp add: wpI)
  show ?thesis
    unfolding with_wan_def if_not_P [OF False] wp_then wp_finally_abs
    by (rule wp_mono [OF swings_neutral [OF wan_neutral(1) assms(1)]], rule wp_mono [OF assms(2)])
      (auto intro: c c')
qed

lemma drive_swings: "swings b w b' v \<Longrightarrow> wp (drive_to_suspicious E i t) (\<lambda>_. swings b w True) (\<lambda>_ _. True) v"
  unfolding drive_to_suspicious_def wp_then
proof (rule wp_mono [OF bridge_docker(1)], assumption)
  fix v assume "swings b w True v"
  then show "wp (py_bind time_time (\<lambda>t0. py_bind (py_while (\<lambda>_ w. clock w < t0 + t)
     (\<lambda>u. py_bind (sample_all_nodes E []) (\<lambda>rs. if rs \<noteq> [] \<and> list_all (\<lambda>s. fsm_state s = ''SUSPICIOUS'') rs then py_return (Leave ())
        else py_then (time_sleep E i) (py_return (Continue u)))) ())
     (\<lambda>k. py_return (case k of Leave _ \<Rightarrow> True | Continue _ \<Rightarrow> False)))) (\<lambda>_. swings b w True) (\<lambda>_ _. True) v"
    by (rule swings_neutral [rotated]) (intro emits_intros; simp)
qed simp

text \<open>C15. A spot check that completes leaves the DA bridge up, whatever the noise cycle was doing when the
  window closed and although the suspicious-exit edge starts from a stopped bridge.\<close>

theorem spot_checks_restore_bridge:
  shows "(live_spot_check_main E hw environment duration_s interval_s on off wan w = Some (Inr st, w') \<longrightarrow>
      (\<exists>evs. log w' = log w @ evs \<and> \<not> bridge_after evs False)) \<and>
    (absorb_live E edge val environment duration_s interval_s drive_timeout_s noise_on_s noise_off_s wan w = Some (Inr st, w') \<longrightarrow>
      (\<exists>evs. log w' = log w @ evs \<and> \<not> bridge_after evs False))"
proof -
  have m: "swings False w da v \<Longrightarrow> wp (with_wan E wan (spot_measure E environment d i on off da)) (\<lambda>_. swings False w False) (\<lambda>_ _. True) v" for d i on off da v
    by (rule swings_with_wan [OF _ swings_measure])
  have "wp (live_spot_check_main E hw environment duration_s interval_s on off wan) (\<lambda>_. swings False w False) (\<lambda>_ _. True) w"
    unfolding live_spot_check_main_def wp_bind wp_lift Let_def write_csv_def
    by (auto simp: wp_simps split: sum.splits intro!: wp_mono [OF m] swings_emit)
  moreover have dr: "wp (drive_to_suspicious E i t) (\<lambda>_. swings False w True) (\<lambda>_ _. True) w" for i t
    by (rule drive_swings [where b' = False]) simp
  have dk: "wp (docker E args) (\<lambda>_ _. True) (\<lambda>_ _. True) v" for args v by (simp add: wpI)
  have "wp (absorb_live E edge val environment duration_s interval_s drive_timeout_s noise_on_s noise_off_s wan)
      (\<lambda>_. swings False w False) (\<lambda>_ _. True) w"
    unfolding absorb_live_def wp_bind wp_lift wp_then Let_def write_csv_def
    by (auto simp: wp_simps split: sum.splits intro!: wp_mono [OF dr] wp_mono [OF m] dk swings_emit)
  ultimately show ?thesis by (auto simp: wp_def swings_def)
qed


lemma toggle_facts [total_intros, emits_intros]:
  "total (toggle_da E on off st)" "(\<And>a r. S (RunProc a [] r)) \<Longrightarrow> emits S (toggle_da E on off st)"
  unfolding toggle_da_def by (intro total_intros emits_intros; simp)+

lemma spot_window_total [total_intros]: "0 < i \<Longrightarrow> total (spot_window E environment deadline i on off st)"
  unfolding spot_window_def
proof (intro total_intros deadline_while_total [where \<delta> = i])
  fix st :: spot_state and w :: world
  assume i: "0 < i"
  have t: "wp (toggle_da E on off st) (\<lambda>_ v'. clock v \<le> clock v') (\<lambda>_ _. True) v" for st v
    by (rule wp_mono [OF wp_emits [of "\<lambda>_. True", OF toggle_facts(2)]]) (auto dest: grows_clock)
  have "clock w \<le> clock v \<Longrightarrow> wp (if b then toggle_da E on off st else py_return st)
      (\<lambda>_ v'. clock w + i \<le> clock (emit E (Slept i) i v')) (\<lambda>_ _. True) v" for st v b
    by (auto simp: wp_simps emit_def intro!: wp_mono [OF t])
  with i show "wp (py_bind (sample_all_nodes E []) (\<lambda>rs. py_bind time_time (\<lambda>now.
      py_bind (if environment = ''noisy_da'' \<and> sp_next_toggle st \<le> now then toggle_da E on off (spot_round rs st) else py_return (spot_round rs st))
       (\<lambda>st'. py_then (time_sleep E i) (py_return (Continue st'))))))
     (\<lambda>k w'. case k of Continue _ \<Rightarrow> clock w + i \<le> clock w' | Leave (_ :: unit) \<Rightarrow> True) (\<lambda>_ _. True) w"
    unfolding wp_bind wp_time_abs
    by (intro wp_mono [OF wp_sample_all_nodes]) (auto simp: wp_then_abs wp_sleep_abs wp_return_abs)
qed

lemma spot_measure_total [total_intros]: "0 < i \<Longrightarrow> total (spot_measure E environment d i on off da)"
  unfolding spot_measure_def by (intro total_intros)

lemma with_wan_total [total_intros]: "total m \<Longrightarrow> total (with_wan E wan m)"
  unfolding with_wan_def by (intro total_intros)

lemma drive_total [total_intros]: "0 < i \<Longrightarrow> total (drive_to_suspicious E i t)"
  unfolding drive_to_suspicious_def
  by (intro total_intros deadline_while_total [where \<delta> = i])
    (auto intro!: wp_mono [OF wp_sample_all_nodes] simp: wp_simps emit_def)

lemma live_spot_check_total: "0 < i \<Longrightarrow> total (live_spot_check_main E hw environment d i on off wan)"
  unfolding live_spot_check_main_def Let_def by (intro total_intros)

lemma absorb_live_total [total_intros]: "0 < i \<Longrightarrow> total (absorb_live E edge val environment d i dt on off wan)"
  unfolding absorb_live_def Let_def by (intro total_intros)

lemma absorb_main_total: "0 < i \<Longrightarrow> total (absorb_main E edge val environment d i dt on off wan csv)"
  unfolding absorb_main_def absorb_backfill_def Let_def by (intro total_intros)

lemma spot_window_quiet: "0 \<le> i \<Longrightarrow> quiet (spot_window finished_env environment deadline i on off st)"
proof -
  assume i: "0 \<le> i"
  have t: "quiet (toggle_da finished_env on off st)" for st
    unfolding toggle_da_def by (intro quiet_intros)
  have "wp (py_bind (sample_all_nodes finished_env []) (\<lambda>rs. py_bind time_time (\<lambda>now.
      py_bind (if environment = ''noisy_da'' \<and> sp_next_toggle st \<le> now then toggle_da finished_env on off (spot_round rs st) else py_return (spot_round rs st))
       (\<lambda>st'. py_then (time_sleep finished_env i) (py_return (Continue st' :: (_, unit) ctl))))))
     (\<lambda>k _. \<exists>s'. k = Continue s') (\<lambda>_ _. False) w" for st w
    unfolding wp_bind wp_time_abs
    by (rule wp_mono [OF quiet_wp [OF sample_all_nodes_quiet [of _ "[]"]]])
      (use i in \<open>auto simp: wp_then_abs wp_sleep_abs wp_return_abs intro!: quiet_wp [OF t]\<close>)
  then show ?thesis unfolding spot_window_def by (intro quiet_loop)
qed

lemma live_spot_check_runs:
  "\<exists>st w'. live_spot_check_main finished_env 2 ''noisy_da'' 300 3 20 20 ''none'' start_world = Some (Inr st, w')"
proof -
  have "quiet (live_spot_check_main finished_env 2 ''noisy_da'' 300 3 20 20 ''none'')"
    unfolding live_spot_check_main_def with_wan_def spot_measure_def Let_def write_csv_def
    by (intro quiet_intros spot_window_quiet) (simp_all add: quiet_intros spot_window_quiet dict_item_def SPOT_ENVIRONMENTS_def)
  then show ?thesis by (rule quiet_returns) (rule live_spot_check_total, simp)
qed

theorem spot_checks_restore_bridge_witness:
  "\<exists>st w' evs. live_spot_check_main finished_env 2 ''noisy_da'' 300 3 20 20 ''none'' start_world = Some (Inr st, w') \<and>
     log w' = evs \<and> \<not> bridge_after evs False"
proof -
  obtain st w' where w: "live_spot_check_main finished_env 2 ''noisy_da'' 300 3 20 20 ''none'' start_world = Some (Inr st, w')"
    using live_spot_check_runs by blast
  with spot_checks_restore_bridge [of finished_env 2 "''noisy_da''" 300 3 20 20 "''none''" start_world st w'] show ?thesis
    by auto
qed


section \<open>Recomputing the metrics from the written samples\<close>

definition states_of :: "NodeSample list \<Rightarrow> (string, string list) dict" where
  "states_of ss = fold (\<lambda>s. dict_append (node s) (fsm_state s)) ss []"

definition durations_of :: "NodeSample list \<Rightarrow> (string, int list) dict" where
  "durations_of ss = fold (\<lambda>s. dict_append (node s) (suspicious_duration s)) ss []"

definition spot_ok :: "spot_state \<Rightarrow> bool" where
  "spot_ok st \<longleftrightarrow> sp_states st = states_of (sp_samples st) \<and> sp_durations st = durations_of (sp_samples st)"

lemma spot_ok_round: "spot_ok st \<Longrightarrow> spot_ok (spot_round rs st)"
  by (simp add: spot_ok_def spot_round_def states_of_def durations_of_def)

lemma spot_window_ok: "spot_ok st \<Longrightarrow> yields (spot_window E environment deadline i on off st) spot_ok"
proof (rule yields_wp, unfold spot_window_def wp_bind, rule wp_while [where I = "\<lambda>st _. spot_ok st"])
  fix st and v :: world
  assume ok: "spot_ok st"
  have t: "spot_ok st \<Longrightarrow> wp (toggle_da E on off st) (\<lambda>st' _. spot_ok st') (\<lambda>_ _. True) v" for st v
    unfolding toggle_da_def by (auto simp: wp_simps docker_def spot_ok_def split: sum.splits)
  show "wp (py_bind (sample_all_nodes E []) (\<lambda>rs. py_bind time_time (\<lambda>now.
      py_bind (if environment = ''noisy_da'' \<and> sp_next_toggle st \<le> now then toggle_da E on off (spot_round rs st) else py_return (spot_round rs st))
       (\<lambda>st'. py_then (time_sleep E i) (py_return (Continue st'))))))
     (\<lambda>k w'. case k of Continue s' \<Rightarrow> spot_ok s'
       | Leave x \<Rightarrow> wp (loop_state (Leave x)) (\<lambda>st' _. spot_ok st') (\<lambda>_ _. True) w') (\<lambda>_ _. True) v"
    unfolding wp_bind
    by (rule wp_mono [OF wp_sample_all_nodes]) (auto simp: wp_simps intro!: wp_mono [OF t] spot_ok_round ok)
qed (auto simp: loop_state_def wp_simps)

lemma with_wan_ok: "yields m P \<Longrightarrow> yields (with_wan E wan m) P"
  unfolding with_wan_def by (auto intro: yields_then yields_finally)

lemma spot_measure_ok: "yields (spot_measure E environment d i on off da) spot_ok"
  unfolding spot_measure_def
  by (rule yields_effect, rule yields_bind [OF spot_window_ok])
    (auto simp: spot_ok_def new_spot_def states_of_def durations_of_def intro!: yields_then yields_return)

lemma absorb_live_ok: "yields (absorb_live E edge val environment d i dt on off wan) spot_ok"
  unfolding absorb_live_def Let_def
  by (rule yields_effect, rule yields_effect, rule yields_then, rule yields_bind [OF with_wan_ok [OF spot_measure_ok]])
    (intro yields_effect yields_then yields_return)

lemma update_Some_keys: "AList.update (Some k) v (map (\<lambda>(n, x). (Some n, x)) d) = map (\<lambda>(n, x). (Some n, x)) (AList.update k v d)"
  by (induction d) auto

lemma append_Some_keys:
  "dict_append (Some k) x (map (\<lambda>(n, x). (Some n, x)) d) = map (\<lambda>(n, x). (Some n, x)) (dict_append k x d)"
proof -
  have "map_of (map (\<lambda>(n, x). (Some n, x)) d) (Some k) = map_of d k" by (induction d) auto
  then show ?thesis by (simp add: dict_append_def dict_get_def update_Some_keys)
qed

lemma get_Some_keys: "dict_get (map (\<lambda>(n, x). (Some n, x)) d) (Some k) z = dict_get d k z"
proof -
  have "map_of (map (\<lambda>(n, x). (Some n, x)) d) (Some k) = map_of d k" by (induction d) auto
  then show ?thesis by (simp add: dict_get_def)
qed

lemma fold_append_Some:
  "fold (\<lambda>s. dict_append (Some (key s)) (val s)) ss (map (\<lambda>(n, x). (Some n, x)) d) =
     map (\<lambda>(n, x). (Some n, x)) (fold (\<lambda>s. dict_append (key s) (val s)) ss d)"
  by (induction ss arbitrary: d) (simp_all add: append_Some_keys)

lemma absorb_row_sample:
  "absorb_row (zip SAMPLE_FIELDS (map Some (sample_row E s))) = Inr (Some (node s), fsm_state s, suspicious_duration s)"
  by (simp add: absorb_row_def SAMPLE_FIELDS_def sample_row_def dict_item_def cell_int_def py_int_of_str)

lemma absorb_metrics_Some:
  "map (\<lambda>(n, m). (cell_text n, m)) (absorb_metrics edge (map (\<lambda>(n, x). (Some n, x)) d) (map (\<lambda>(n, x). (Some n, x)) d')) = absorb_metrics edge d d'"
  by (auto simp: absorb_metrics_def get_Some_keys cell_text_def)

text \<open>The metrics can be recomputed from the raw samples: running \<^verbatim>\<open>--from-csv\<close> on the file that a live run wrote gives
  the table of that run, node for node.\<close>

theorem absorb_backfill_agrees:
  assumes "absorb_live E edge val environment d i dt on off wan w = Some (Inr st, w')"
    and "p \<noteq> []" "fs v p = Some (samples_csv E (sp_samples st))"
  shows "\<exists>v'. absorb_main E edge val environment d i dt on off wan (Some p) v = Some (Inr (), v') \<and>
    fs v' (summary_name p) =
      Some (absorb_summary edge val environment (backfill_intro p) (absorb_metrics edge (sp_states st) (sp_durations st)))"
proof -
  have ok: "spot_ok st" by (rule yieldsD [OF absorb_live_ok assms(1)])
  let ?rows = "map (\<lambda>s. (Some (node s), fsm_state s, suspicious_duration s)) (sp_samples st)"
  have rows: "rmap_list absorb_row (csv_dicts (samples_csv E (sp_samples st))) = Inr ?rows"
  proof -
    have "rmap_list absorb_row (map (\<lambda>s. zip SAMPLE_FIELDS (map Some (sample_row E s))) ss) =
        Inr (map (\<lambda>s. (Some (node s), fsm_state s, suspicious_duration s)) ss)" for ss
      by (induction ss) (simp_all add: absorb_row_sample)
    then show ?thesis by (simp add: samples_csv_dicts)
  qed
  have "fold (\<lambda>(n, s, d). dict_append n s) ?rows [] = map (\<lambda>(n, x). (Some n, x)) (sp_states st)"
    "fold (\<lambda>(n, s, d). dict_append n d) ?rows [] = map (\<lambda>(n, x). (Some n, x)) (sp_durations st)"
    using fold_append_Some [of node fsm_state "sp_samples st" "[]"] fold_append_Some [of node suspicious_duration "sp_samples st" "[]"] ok
    by (simp_all add: fold_map comp_def spot_ok_def states_of_def durations_of_def)
  then show ?thesis
    using assms(2,3) rows
    by (simp add: absorb_main_def absorb_backfill_def py_bind_def read_file_def py_lift_def Let_def write_file_def absorb_metrics_Some)
qed


lemma absorb_live_runs:
  "\<exists>st w'. absorb_live finished_env ''down'' 4 ''noisy_da'' 300 3 120 None None ''none'' start_world = Some (Inr st, w')"
proof -
  have "quiet (absorb_live finished_env ''down'' 4 ''noisy_da'' 300 3 120 None None ''none'')"
    by (simp add: absorb_live_def with_wan_def spot_measure_def Let_def write_csv_def bind_return ABSORB_ENVIRONMENTS_def)
      (intro quiet_intros spot_window_quiet; simp add: quiet_intros spot_window_quiet dict_item_def)
  then show ?thesis by (rule quiet_returns) (rule absorb_live_total, simp)
qed

theorem absorb_backfill_agrees_witness:
  "\<exists>st w' v v'. absorb_live finished_env ''down'' 4 ''noisy_da'' 300 3 120 None None ''none'' start_world = Some (Inr st, w') \<and>
     absorb_main finished_env ''down'' 4 ''noisy_da'' 300 3 120 None None ''none'' (Some ''r.csv'') v = Some (Inr (), v') \<and>
     fs v' ''r_summary.md'' = Some (absorb_summary ''down'' 4 ''noisy_da'' (backfill_intro ''r.csv'')
       (absorb_metrics ''down'' (sp_states st) (sp_durations st)))"
proof -
  obtain st w' where w: "absorb_live finished_env ''down'' 4 ''noisy_da'' 300 3 120 None None ''none'' start_world = Some (Inr st, w')"
    using absorb_live_runs by blast
  have n: "summary_name ''r.csv'' = ''r_summary.md''" by code_simp
  show ?thesis
    using absorb_backfill_agrees [OF w, of "''r.csv''" "start_world\<lparr>fs := [''r.csv'' \<mapsto> samples_csv finished_env (sp_samples st)]\<rparr>"] w
    unfolding n by auto
qed

end
