(* ===== verification/Absorb_Sweep.thy ===== *)
theory Absorb_Sweep
  imports Hysteresis
begin

text \<open>
  The sweep of \<^verbatim>\<open>scripts/e5_hysteresis_flapping/run_absorb_sweep.py\<close>: for every edge and value the parameter is written
  into the environment file, the testnet redeployed, and for every environment the absorb measurement
  run once the cluster is healthy.
\<close>

section \<open>run_absorb_sweep.py\<close>

definition PARAM_FIELD :: "(string, string) dict" where
  "PARAM_FIELD = [(''down'', ''ENGRAM_PARAM_DOWN_HYSTERESIS_THRESHOLD''),
     (''suspicious_exit'', ''ENGRAM_PARAM_SUSPICIOUS_HYSTERESIS_WAIT'')]"

definition VALIDATOR_SERVICES :: "string list" where
  "VALIDATOR_SERVICES = [''engram-node01'', ''engram-node02'', ''engram-node03'', ''engram-node04'', ''reanchoring-prover'']"

definition ENV_PATH :: string where "ENV_PATH = ''.env''"

text \<open>\<^verbatim>\<open>readlines\<close>: the lines keep their newline.\<close>

fun readlines :: "string \<Rightarrow> string list" where
  "readlines [] = []"
| "readlines (c # cs) =
     (if code_of c = 10 then [c] # readlines cs
      else (case readlines cs of [] \<Rightarrow> [[c]] | l # ls \<Rightarrow> (c # l) # ls))"

text \<open>The line that replaces an assignment; a comment at its end is kept.\<close>

definition env_line :: "string \<Rightarrow> int \<Rightarrow> string \<Rightarrow> string" where
  "env_line field val line =
     field @ ''='' @ py_str_int val
     @ (if CHR ''#'' \<in> set line then ''  #'' @ rstrip_chars NL (drop 1 (dropWhile (\<lambda>c. c \<noteq> CHR ''#'') line)) else [])
     @ NL"

fun set_first :: "string \<Rightarrow> int \<Rightarrow> string list \<Rightarrow> string list option" where
  "set_first field val [] = None"
| "set_first field val (l # ls) =
     (if prefix (field @ ''='') l then Some (env_line field val l # ls)
      else map_option ((#) l) (set_first field val ls))"

definition set_env_param :: "env \<Rightarrow> string \<Rightarrow> int \<Rightarrow> unit py" where
  "set_env_param E field val =
     py_bind (read_file ENV_PATH) (\<lambda>t.
     case set_first field val (readlines (universal_newlines t)) of
       None \<Rightarrow> py_raise (Exn RuntimeError (field @ '' not found in '' @ ENV_PATH))
     | Some ls \<Rightarrow> write_file E ENV_PATH (concat ls))"

definition redeploy :: "env \<Rightarrow> string \<Rightarrow> int \<Rightarrow> unit py" where
  "redeploy E edge val = py_bind (py_lift (dict_item PARAM_FIELD edge)) (\<lambda>field.
     py_then (set_env_param E field val)
     (py_then (run_proc E ([''docker'', ''compose'', ''--env-file'', ''.env'', ''-f'', ''compose.yml'', ''stop''] @ VALIDATOR_SERVICES) False)
     (py_then (run_proc E ([''docker'', ''compose'', ''--env-file'', ''.env'', ''-f'', ''compose.yml'', ''rm'', ''-f''] @ VALIDATOR_SERVICES) False)
     (py_then (run_proc E [''make'', ''testnet-up''] True)
     (py_return ())))))"

definition healthy_round :: "NodeSample list \<Rightarrow> bool" where
  "healthy_round samples \<longleftrightarrow>
     length samples = 4 \<and> list_all (\<lambda>s. error s = []) samples \<and> list_all (\<lambda>s. \<not> catching_up s) samples \<and>
     list_all (\<lambda>s. 0 < height s) samples \<and> list_all (\<lambda>s. fsm_state s = ''ANCHORED'') samples"

definition wait_for_healthy_anchored :: "env \<Rightarrow> rat \<Rightarrow> rat \<Rightarrow> bool py" where
  "wait_for_healthy_anchored E timeout_s interval_s = py_bind (time_time) (\<lambda>t0.
     py_bind (py_while (\<lambda>_ w. clock w < t0 + timeout_s)
       (\<lambda>consecutive_ok. py_bind (sample_all_nodes E []) (\<lambda>samples.
          let ok = (if healthy_round samples then consecutive_ok + 1 else (0 :: nat)) in
          if healthy_round samples \<and> 2 \<le> ok then py_return (Leave ())
          else py_then (time_sleep E interval_s) (py_return (Continue ok)))) 0) (\<lambda>k.
     py_return (case k of Leave _ \<Rightarrow> True | Continue _ \<Rightarrow> False)))"

definition run_spot_check :: "env \<Rightarrow> string \<Rightarrow> string \<Rightarrow> int \<Rightarrow> string \<Rightarrow> rat \<Rightarrow> string \<Rightarrow> unit py" where
  "run_spot_check E executable edge val environment duration_s wan_profile =
     py_bind (run_proc E [executable, ''-u'', ''scripts/e5_hysteresis_flapping/live_spot_check_absorb.py'',
        ''--edge'', edge, ''--value'', py_str_int val, ''--env'', environment,
        ''--duration-s'', repr_float E duration_s, ''--wan-profile'', wan_profile] True) (\<lambda>_. py_return ())"

type_synonym sweep_result = "string \<times> int \<times> string \<times> string"

definition sweep_measure :: "env \<Rightarrow> string \<Rightarrow> rat \<Rightarrow> string \<Rightarrow> rat \<Rightarrow> string \<Rightarrow> int \<Rightarrow> string \<Rightarrow> sweep_result py" where
  "sweep_measure E executable duration_s wan_profile health_timeout_s edge val environment =
     py_bind (wait_for_healthy_anchored E health_timeout_s 5) (\<lambda>healthy.
     if \<not> healthy then py_return (edge, val, environment, ''SKIPPED-unhealthy'')
     else py_try
       (py_then (run_spot_check E executable edge val environment duration_s wan_profile) (py_return (edge, val, environment, ''OK'')))
       [CalledProcessError] (\<lambda>_. py_return (edge, val, environment, ''FAILED'')))"

definition sweep_value :: "env \<Rightarrow> string \<Rightarrow> rat \<Rightarrow> string \<Rightarrow> rat \<Rightarrow> string list \<Rightarrow> string \<times> int \<Rightarrow> sweep_result list py" where
  "sweep_value E executable duration_s wan_profile health_timeout_s envs ev =
     (case ev of (edge, val) \<Rightarrow>
        py_then (redeploy E edge val)
          (py_map (sweep_measure E executable duration_s wan_profile health_timeout_s edge val) envs))"

definition absorb_sweep_main ::
  "env \<Rightarrow> string \<Rightarrow> string \<Rightarrow> string \<Rightarrow> string \<Rightarrow> rat \<Rightarrow> string \<Rightarrow> rat \<Rightarrow> sweep_result list py" where
  "absorb_sweep_main E executable edges_arg values_arg envs_arg duration_s wan_profile health_timeout_s = (let edges = split_char (CHR '','') edges_arg in
     py_bind (py_lift (rmap_list py_int (split_char (CHR '','') values_arg))) (\<lambda>vals.
     (let envs = split_char (CHR '','') envs_arg in
     py_then ((case filter (\<lambda>e. e \<notin> set (dict_keys PARAM_FIELD)) edges of
        [] \<Rightarrow> py_return () | e # _ \<Rightarrow> py_raise (Exn SystemExit (''unknown edge '' @ e))))
     (py_then ((case filter (\<lambda>e. e \<notin> {''stable'', ''noisy_da''}) envs of
        [] \<Rightarrow> py_return () | e # _ \<Rightarrow> py_raise (Exn SystemExit (''unknown env '' @ e))))
     (py_bind (py_map (sweep_value E executable duration_s wan_profile health_timeout_s envs) (List.product edges vals)) (\<lambda>rss.
     py_return (concat rss)))))))"

section \<open>Setting a parameter in the environment file\<close>

text \<open>What a reader of the file finds: the value of the first assignment, without comment and padding.\<close>

definition env_value :: "string \<Rightarrow> string list \<Rightarrow> string option" where
  "env_value field ls =
     map_option (\<lambda>l. strip_ws (takeWhile (\<lambda>c. c \<noteq> CHR ''#'') (drop (length field + 1) l)))
       (find (\<lambda>l. prefix (field @ ''='') l) ls)"

lemma set_first_append:
  "\<forall>l \<in> set pre. \<not> prefix (field @ ''='') l \<Longrightarrow> prefix (field @ ''='') l \<Longrightarrow>
   set_first field val (pre @ l # post) = Some (pre @ env_line field val l # post)"
  by (induction pre) auto

lemma set_first_None: "set_first field val ls = None \<longleftrightarrow> (\<forall>l \<in> set ls. \<not> prefix (field @ ''='') l)"
  by (induction ls) auto

lemma env_line_prefix: "prefix (field @ ''='') (env_line field val l)"
  by (simp add: env_line_def)


section \<open>Waiting for a healthy cluster\<close>

text \<open>Two consecutive polls: the second starts where the first, and the pause after it, ended.\<close>

definition healthy_twice :: "env \<Rightarrow> rat \<Rightarrow> world \<Rightarrow> bool" where
  "healthy_twice E interval_s w' \<longleftrightarrow>
     (\<exists>w1 rs1 v1 rs2. sample_all_nodes E [] w1 = Some (Inr rs1, v1) \<and> healthy_round rs1 \<and>
        sample_all_nodes E [] (emit E (Slept interval_s) interval_s v1) = Some (Inr rs2, w') \<and> healthy_round rs2)"

definition healthy_once :: "env \<Rightarrow> rat \<Rightarrow> world \<Rightarrow> bool" where
  "healthy_once E interval_s w \<longleftrightarrow>
     (\<exists>w1 rs1 v1. sample_all_nodes E [] w1 = Some (Inr rs1, v1) \<and> healthy_round rs1 \<and> w = emit E (Slept interval_s) interval_s v1)"

lemma wait_for_healthy_wp:
  "wp (wait_for_healthy_anchored E timeout_s interval_s) (\<lambda>b w'. b \<longrightarrow> healthy_twice E interval_s w') (\<lambda>_ _. True) w"
  unfolding wait_for_healthy_anchored_def wp_bind wp_time
proof (rule wp_while [where I = "\<lambda>ok v. 1 \<le> ok \<longrightarrow> healthy_once E interval_s v"])
  fix ok :: nat and v :: world
  assume once: "1 \<le> ok \<longrightarrow> healthy_once E interval_s v"
  show "wp (py_bind (sample_all_nodes E []) (\<lambda>samples.
      let ok = (if healthy_round samples then ok + 1 else 0) in
      if healthy_round samples \<and> 2 \<le> ok then py_return (Leave ())
      else py_then (time_sleep E interval_s) (py_return (Continue ok))))
     (\<lambda>k w'. case k of Continue s' \<Rightarrow> 1 \<le> s' \<longrightarrow> healthy_once E interval_s w'
       | Leave x \<Rightarrow> wp (py_return (case Leave x of Leave _ \<Rightarrow> True | Continue (_ :: nat) \<Rightarrow> False))
           (\<lambda>b w'. b \<longrightarrow> healthy_twice E interval_s w') (\<lambda>_ _. True) w') (\<lambda>_ _. True) v"
    unfolding wp_bind
    by (rule wpI) (use once in \<open>auto simp: wp_simps Let_def healthy_twice_def healthy_once_def\<close>)
qed (auto simp: wp_simps)



text \<open>A cluster all of whose nodes answer with a given state.\<close>

definition state_env :: "string \<Rightarrow> env" where
  "state_env st = static_env (\<lambda>_ path. Inr (if path = ''/status'' then status_doc 42 ''AB'' False
     else state_doc (encode_query_state st 5 0 False []))) finished_docker"

lemma state_env_sample:
  assumes "length st < 128" "utf8_valid (bytes_of st)"
  shows "\<exists>rs w'. sample_all_nodes (state_env st) [] w = Some (Inr rs, w') \<and> clock w' = clock w \<and>
    length rs = 4 \<and> (\<forall>s \<in> set rs. error s = [] \<and> \<not> catching_up s \<and> height s = 42 \<and> app_hash s = JStr ''AB'' \<and> fsm_state s = st)"
proof -
  have q: "wp (query_node (state_env st) n None) (\<lambda>s w'. clock w' = clock v \<and> error s = [] \<and> \<not> catching_up s \<and> height s = 42 \<and>
      app_hash s = JStr ''AB'' \<and> fsm_state s = st) (\<lambda>_ _. False) v" if n: "n \<in> set (dict_keys NODE_RPC_PORTS)" for n v
  proof -
    obtain p where p: "map_of NODE_RPC_PORTS n = Some p" using n by (auto simp: dict_keys_def dest: weak_map_of_SomeI)
    have ne: "ABCI_QUERY_STATE \<noteq> ''/status''" by (simp add: ABCI_QUERY_STATE_def)
    have "parse_abci (state_doc (encode_query_state st 5 0 False [])) =
      Inr \<lparr>dec_fsm_state = st, dec_safe_blocks = 5, dec_suspicious_duration = 0, dec_reanchoring_proof_valid = False\<rparr>"
      unfolding parse_state_doc using assms decode_state_message [of st "[]" 5 0 False] by simp
    with ne show ?thesis
      unfolding wp_def query_node_known [OF p] py_try_def query_body_steps Let_def
      by (simp add: state_env_def parse_status_doc emit_def)
  qed
  have "wp (sample_all_nodes (state_env st) []) (\<lambda>rs w'. length rs = 4 \<and> clock w' = clock w \<and>
     (\<forall>s \<in> set rs. error s = [] \<and> \<not> catching_up s \<and> height s = 42 \<and> app_hash s = JStr ''AB'' \<and> fsm_state s = st)) (\<lambda>_ _. False) w"
    unfolding sample_all_nodes_def
    by (rule wp_mono [OF wp_map [where I = "\<lambda>rs w'. clock w' = clock w \<and>
       (\<forall>s \<in> set rs. error s = [] \<and> \<not> catching_up s \<and> height s = 42 \<and> app_hash s = JStr ''AB'' \<and> fsm_state s = st)"]])
      (auto simp: dict_keys_def NODE_RPC_PORTS_def intro!: wp_mono [OF q])
  then have "\<exists>rs w'. sample_all_nodes (state_env st) [] w = Some (Inr rs, w') \<and> length rs = 4 \<and> clock w' = clock w \<and>
     (\<forall>s \<in> set rs. error s = [] \<and> \<not> catching_up s \<and> height s = 42 \<and> app_hash s = JStr ''AB'' \<and> fsm_state s = st)"
    by (rule wp_total) (intro total_intros)
  then show ?thesis by blast
qed


abbreviation anchored_env :: env where
  "anchored_env \<equiv> state_env ''ANCHORED''"

lemma anchored_sample:
  "\<exists>rs w'. sample_all_nodes anchored_env [] w = Some (Inr rs, w') \<and> clock w' = clock w \<and> healthy_round rs \<and>
     (\<forall>s \<in> set rs. height s = 42 \<and> app_hash s = JStr ''AB'')"
proof -
  have "length ''ANCHORED'' < (128 :: nat)" "utf8_valid (bytes_of ''ANCHORED'')" by (simp_all add: bytes_of_def)
  from state_env_sample [OF this, of w] show ?thesis by (auto simp: healthy_round_def list_all_iff)
qed

lemma anchored_wait:
  "5 < timeout_s \<Longrightarrow> \<exists>w'. wait_for_healthy_anchored anchored_env timeout_s 5 w = Some (Inr True, w') \<and> clock w' = clock w + 5"
proof -
  assume t: "5 < timeout_s"
  obtain rs1 v1 where s1: "sample_all_nodes anchored_env [] w = Some (Inr rs1, v1)" "clock v1 = clock w" "healthy_round rs1"
    using anchored_sample by blast
  let ?v = "emit anchored_env (Slept 5) 5 v1"
  obtain rs2 v2 where s2: "sample_all_nodes anchored_env [] ?v = Some (Inr rs2, v2)" "clock v2 = clock ?v" "healthy_round rs2"
    using anchored_sample by blast
  have c: "clock ?v = clock w + 5" using s1 by (simp add: emit_def state_env_def)
  show ?thesis
    using t s1 s2 c
    by (simp add: wait_for_healthy_anchored_def py_bind_def time_time_def py_return_def py_then_def time_sleep_def
        py_while.simps Let_def)
qed



lemma wait_for_healthy_total [total_intros]: "0 < i \<Longrightarrow> total (wait_for_healthy_anchored E t i)"
  unfolding wait_for_healthy_anchored_def Let_def
  by (intro total_intros deadline_while_total [where \<delta> = i])
    (auto intro!: wp_mono [OF wp_sample_all_nodes] simp: wp_simps emit_def)

lemma sweep_total: "total (absorb_sweep_main E exe edges vals envs d wan ht)"
proof -
  have "total (set_env_param E f v)" for f v
    unfolding set_env_param_def by (intro total_intros)
  then show ?thesis
    unfolding absorb_sweep_main_def sweep_value_def sweep_measure_def redeploy_def run_spot_check_def Let_def
    by (intro total_intros) simp_all
qed


section \<open>The sweep covers every combination\<close>

lemma sweep_measure_key:
  "yields (sweep_measure E exe d wan ht edge val environment)
     (\<lambda>(e, v, n, status). (e, v, n) = (edge, val, environment) \<and> status \<in> {''OK'', ''FAILED'', ''SKIPPED-unhealthy''})"
  unfolding sweep_measure_def
  by (rule yields_effect, auto intro!: yields_return yields_wp simp: wp_simps run_spot_check_def split: sum.splits)

definition sweep_entry :: "string \<times> int \<times> string \<Rightarrow> sweep_result \<Rightarrow> bool" where
  "sweep_entry k r \<longleftrightarrow> (case r of (e, v, n, status) \<Rightarrow> (e, v, n) = k \<and> status \<in> {''OK'', ''FAILED'', ''SKIPPED-unhealthy''})"

lemma sweep_value_key:
  "yields (sweep_value E exe d wan ht envs (edge, val)) (\<lambda>rs. list_all2 sweep_entry (map (\<lambda>n. (edge, val, n)) envs) rs)"
  unfolding sweep_value_def prod.case
  by (rule yields_then, rule yields_mono [OF yields_map [where R = "\<lambda>n. sweep_entry (edge, val, n)"]])
    (auto simp: list.rel_map sweep_entry_def intro!: yields_mono [OF sweep_measure_key])

definition sweep_plan :: "string list \<Rightarrow> int list \<Rightarrow> string list \<Rightarrow> (string \<times> int \<times> string) list" where
  "sweep_plan edges vals envs = concat (map (\<lambda>edge. concat (map (\<lambda>val. map (\<lambda>n. (edge, val, n)) envs) vals)) edges)"

lemma sweep_plan_product:
  "sweep_plan edges vals envs = concat (map (\<lambda>(edge, val). map (\<lambda>n. (edge, val, n)) envs) (List.product edges vals))"
  unfolding sweep_plan_def by (induction edges) (simp_all add: comp_def)

lemma sweep_entries_concat:
  "list_all2 (\<lambda>(edge, val) rs. list_all2 sweep_entry (map (\<lambda>n. (edge, val, n)) envs) rs) evs rss \<Longrightarrow>
   list_all2 sweep_entry (concat (map (\<lambda>(edge, val). map (\<lambda>n. (edge, val, n)) envs) evs)) (concat rss)"
  by (induction rule: list_all2_induct) (auto intro: list_all2_appendI)

lemma absorb_sweep_yields:
  "yields (absorb_sweep_main E exe edges_arg values_arg envs_arg d wan ht)
     (\<lambda>results. \<exists>vals. rmap_list py_int (split_char (CHR '','') values_arg) = Inr vals \<and>
        list_all2 sweep_entry (sweep_plan (split_char (CHR '','') edges_arg) vals (split_char (CHR '','') envs_arg)) results)"
  unfolding absorb_sweep_main_def Let_def sweep_plan_product
  by (rule yields_bind [OF yields_lift], rule yields_then, rule yields_then,
      rule yields_bind [OF yields_map [where R = "\<lambda>(edge, val) rs. list_all2 sweep_entry (map (\<lambda>n. (edge, val, n)) (split_char (CHR '','') envs_arg)) rs"]])
    (auto intro!: yields_return yields_mono [OF sweep_value_key] sweep_entries_concat)

text \<open>A sweep that completes has one result for every combination of edge, value and environment, in the order
  of the command line, each OK, FAILED or SKIPPED.\<close>

theorem absorb_sweep_complete:
  assumes "absorb_sweep_main E exe edges_arg values_arg envs_arg d wan ht w = Some (Inr results, w')"
  shows "\<exists>vals. rmap_list py_int (split_char (CHR '','') values_arg) = Inr vals \<and>
    list_all2 (\<lambda>k (e, v, n, status). (e, v, n) = k \<and> status \<in> {''OK'', ''FAILED'', ''SKIPPED-unhealthy''})
      (concat (map (\<lambda>edge. concat (map (\<lambda>val. map (\<lambda>n. (edge, val, n)) (split_char (CHR '','') envs_arg)) vals))
        (split_char (CHR '','') edges_arg)))
      results"
  using yieldsD [OF absorb_sweep_yields assms]
  unfolding sweep_plan_def by (auto simp: sweep_entry_def elim!: list_all2_mono)

definition sweep_env_file :: string where
  "sweep_env_file = ''ENGRAM_PARAM_DOWN_HYSTERESIS_THRESHOLD=1'' @ NL"

definition sweep_world :: world where
  "sweep_world = start_world\<lparr>fs := [ENV_PATH \<mapsto> sweep_env_file]\<rparr>"

lemma sweep_runs:
  "\<exists>w'. absorb_sweep_main finished_env ''python3'' ''down'' ''4'' ''stable'' 300 ''none'' 0 sweep_world =
     Some (Inr [(''down'', 4, ''stable'', ''SKIPPED-unhealthy'')], w')"
proof -
  have "rmap_list py_int (split_char (CHR '','') ''4'') = Inr [4]" "split_char (CHR '','') ''down'' = [''down'']"
    "split_char (CHR '','') ''stable'' = [''stable'']"
    by code_simp+
  moreover have "set_first ''ENGRAM_PARAM_DOWN_HYSTERESIS_THRESHOLD'' 4 (readlines (universal_newlines sweep_env_file))
      = Some [''ENGRAM_PARAM_DOWN_HYSTERESIS_THRESHOLD=4'' @ NL]"
    by code_simp
  ultimately show ?thesis
    by (simp add: absorb_sweep_main_def Let_def py_lift_def py_bind_def py_then_def PARAM_FIELD_def dict_item_def sweep_value_def redeploy_def
      set_env_param_def read_file_def sweep_world_def write_file_def run_proc_def run_env_def finished_docker_def sweep_measure_def
      wait_for_healthy_anchored_def py_while.simps py_return_def time_time_def dict_keys_def)
qed

theorem absorb_sweep_complete_witness:
  "\<exists>results w'. absorb_sweep_main finished_env ''python3'' ''down'' ''4'' ''stable'' 300 ''none'' 0 sweep_world = Some (Inr results, w') \<and>
     (\<exists>vals. rmap_list py_int (split_char (CHR '','') ''4'') = Inr vals \<and>
     list_all2 (\<lambda>k (e, v, n, status). (e, v, n) = k \<and> status \<in> {''OK'', ''FAILED'', ''SKIPPED-unhealthy''})
      (concat (map (\<lambda>edge. concat (map (\<lambda>val. map (\<lambda>n. (edge, val, n)) (split_char (CHR '','') ''stable'')) vals))
        (split_char (CHR '','') ''down'')))
      results)"
proof -
  obtain w' where r: "absorb_sweep_main finished_env ''python3'' ''down'' ''4'' ''stable'' 300 ''none'' 0 sweep_world =
     Some (Inr [(''down'', 4, ''stable'', ''SKIPPED-unhealthy'')], w')"
    using sweep_runs by blast
  show ?thesis using absorb_sweep_complete [OF r] r by blast
qed

section \<open>The parameter file as a store\<close>

lemma readlines_concat: "concat (readlines t) = t"
  by (induction t) (auto split: list.splits)

text \<open>What a parameter store promises: a write is read back, leaves the other parameters alone, succeeds exactly when the
  parameter exists, and the last of two writes is the one that counts.\<close>

locale param_store =
  fixes get :: "'k \<Rightarrow> 's \<Rightarrow> 'g option"
    and put :: "'k \<Rightarrow> 'v \<Rightarrow> 's \<Rightarrow> 's option"
    and ok_key :: "'k \<Rightarrow> bool"
    and render :: "'v \<Rightarrow> 'g"
  assumes put_get: "ok_key k \<Longrightarrow> put k v s = Some s' \<Longrightarrow> get k s' = Some (render v)"
    and put_other: "ok_key k \<Longrightarrow> ok_key k' \<Longrightarrow> k \<noteq> k' \<Longrightarrow> put k v s = Some s' \<Longrightarrow> get k' s' = get k' s"
    and put_dom: "ok_key k \<Longrightarrow> put k v s \<noteq> None \<longleftrightarrow> get k s \<noteq> None"
begin

lemma put_again:
  assumes "ok_key k" "put k v s = Some s'"
  obtains s'' where "put k v' s' = Some s''"
  using put_dom [of k v' s'] put_get [OF assms] assms(1) by auto

text \<open>A sequence of writes, stopping at the first that fails.\<close>

fun puts :: "('k \<times> 'v) list \<Rightarrow> 's \<Rightarrow> 's option" where
  "puts [] s = Some s"
| "puts ((k, v) # kvs) s = Option.bind (put k v s) (puts kvs)"

lemma puts_get:
  assumes "\<forall>(k, v) \<in> set kvs. ok_key k" "ok_key k" "puts kvs s = Some s'"
  shows "get k s' = (case map_of (rev kvs) k of Some v \<Rightarrow> Some (render v) | None \<Rightarrow> get k s)"
  using assms
proof (induction kvs arbitrary: s)
  case (Cons kv kvs)
  obtain k' v where kv: "kv = (k', v)" by fastforce
  then obtain t where t: "put k' v s = Some t" "puts kvs t = Some s'" using Cons.prems by (auto simp: bind_eq_Some_conv)
  have ok: "ok_key k'" using Cons.prems kv by auto
  have "get k s' = (case map_of (rev kvs) k of Some v \<Rightarrow> Some (render v) | None \<Rightarrow> get k t)"
    using Cons.IH [OF _ _ t(2)] Cons.prems by auto
  moreover have "get k t = (if k = k' then Some (render v) else get k s)"
    using put_get [OF ok t(1)] put_other [OF ok(1) Cons.prems(2) _ t(1)] by auto
  ultimately show ?case by (auto simp: kv map_add_def split: option.splits)
qed simp

lemma puts_total: "\<forall>(k, v) \<in> set kvs. ok_key k \<and> get k s \<noteq> None \<Longrightarrow> puts kvs s \<noteq> None"
proof (induction kvs arbitrary: s)
  case (Cons kv kvs)
  obtain k v where kv: "kv = (k, v)" by fastforce
  with Cons.prems have ok: "ok_key k" "get k s \<noteq> None" by auto
  with put_dom [of k v s] obtain t where t: "put k v s = Some t" by auto
  have "get k' t \<noteq> None" if "(k', v') \<in> set kvs" for k' v'
    using that Cons.prems put_get [OF ok(1) t] put_other [OF ok(1) _ _ t, of k'] kv by (cases "k = k'") auto
  then have "puts kvs t \<noteq> None" using Cons.prems kv by (intro Cons.IH) auto
  then show ?case by (simp add: kv t)
qed simp
end

text \<open>The lines of a file: every one ends with its newline, the last one perhaps not.\<close>

fun file_lines :: "string list \<Rightarrow> bool" where
  "file_lines [] = True"
| "file_lines (l # ls) \<longleftrightarrow> l \<noteq> [] \<and> (\<forall>c \<in> set (butlast l). code_of c \<noteq> 10) \<and> (ls \<noteq> [] \<longrightarrow> code_of (last l) = 10) \<and> file_lines ls"

lemma readlines_file_lines: "file_lines (readlines t)"
  by (induction t) (auto split: list.splits)

lemma readlines_one: "l \<noteq> [] \<Longrightarrow> \<forall>c \<in> set (butlast l). code_of c \<noteq> 10 \<Longrightarrow> readlines l = [l]"
  by (induction l) (auto split: if_split_asm)

lemma readlines_more: "l \<noteq> [] \<Longrightarrow> \<forall>c \<in> set (butlast l). code_of c \<noteq> 10 \<Longrightarrow> code_of (last l) = 10 \<Longrightarrow> readlines (l @ t) = l # readlines t"
  by (induction l) (auto split: if_split_asm)

lemma readlines_of_lines: "file_lines ls \<Longrightarrow> readlines (concat ls) = ls"
proof (induction ls)
  case (Cons l ls)
  then show ?case by (cases "ls = []") (simp_all add: readlines_one readlines_more)
qed simp

text \<open>The parameter names that make sense in the file.\<close>

definition param_name :: "string \<Rightarrow> bool" where
  "param_name k \<longleftrightarrow> (\<forall>c \<in> set k. c \<noteq> CHR ''='' \<and> code_of c \<noteq> 10 \<and> code_of c \<noteq> 13)"

lemma str_int_chars: "c \<in> set (py_str_int v) \<Longrightarrow> is_digit c \<or> c = CHR ''-''"
  using show_nat_digits by (auto simp: py_str_int_def split: if_splits)

lemma str_int_ends: "py_str_int v \<noteq> []" "\<not> is_space (hd (py_str_int v))" "\<not> is_space (last (py_str_int v))"
proof -
  show ne: "py_str_int v \<noteq> []" by (simp add: py_str_int_def)
  have "\<not> is_space c" if "c \<in> set (py_str_int v)" for c
    using str_int_chars [OF that] digit_not_space by (auto simp: is_space_def code_of_def)
  with ne show "\<not> is_space (hd (py_str_int v))" "\<not> is_space (last (py_str_int v))" by simp_all
qed

lemma strip_pad: "\<forall>c \<in> set ws. is_space c \<Longrightarrow> strip_ws (py_str_int v @ ws) = py_str_int v"
proof -
  assume "\<forall>c \<in> set ws. is_space c"
  then have "dropWhile is_space (rev ws @ s) = dropWhile is_space s" for s
    by (intro dropWhile_append2) simp
  moreover have "lstrip_ws (py_str_int v @ ws) = py_str_int v @ ws"
    using str_int_ends(1,2) [of v] by (cases "py_str_int v") (auto simp: lstrip_ws_def)
  moreover have "lstrip_ws (py_str_int v) = py_str_int v"
    using str_int_ends(1,2) [of v] by (cases "py_str_int v") (auto simp: lstrip_ws_def)
  ultimately show ?thesis
    using strip_ws_id [OF str_int_ends, of v] by (simp add: strip_ws_def rstrip_ws_def)
qed

lemma env_value_line: "env_value k (env_line k v l # ls) = Some (py_str_int v)"
proof -
  have d: "CHR ''#'' \<notin> set (py_str_int v)" using str_int_chars [of "CHR ''#''" v] by (auto simp: is_digit_def code_of_def)
  have t: "takeWhile (\<lambda>c. c \<noteq> CHR ''#'') (py_str_int v @ rest) = py_str_int v @ takeWhile (\<lambda>c. c \<noteq> CHR ''#'') rest" for rest
    using d by (intro takeWhile_append2) auto
  show ?thesis
    by (auto simp: env_value_def env_line_prefix) (auto simp: env_line_def t NL_def is_space_def code_of_def strip_ws_id [OF str_int_ends] intro!: strip_pad)
qed

lemma env_value_skip: "\<not> prefix (k @ ''='') l \<Longrightarrow> env_value k (l # ls) = env_value k ls"
  by (simp add: env_value_def)

lemma env_line_other:
  assumes "param_name k" "param_name k'" "k \<noteq> k'" "prefix (k @ ''='') l"
  shows "\<not> prefix (k' @ ''='') l"
proof -
  have "takeWhile (\<lambda>c. c \<noteq> CHR ''='') l = f" if "param_name f" "prefix (f @ ''='') l" for f
  proof -
    from that(2) obtain r where r: "l = f @ CHR ''='' # r" by (auto simp: prefix_def)
    show ?thesis unfolding r by (subst takeWhile_append2) (use that(1) in \<open>simp_all add: param_name_def\<close>)
  qed
  from this [of k] this [of k'] assms show ?thesis by auto
qed

lemma set_first_get: "set_first k v ls = Some ls' \<Longrightarrow> env_value k ls' = Some (py_str_int v)"
proof (induction ls arbitrary: ls')
  case (Cons l ls)
  show ?case
  proof (cases "prefix (k @ ''='') l")
    case True
    with Cons.prems show ?thesis by (auto simp: env_value_line)
  next
    case False
    with Cons show ?thesis by (auto simp: env_value_skip)
  qed
qed simp

lemma set_first_other:
  assumes "param_name k" "param_name k'" "k \<noteq> k'"
  shows "set_first k v ls = Some ls' \<Longrightarrow> env_value k' ls' = env_value k' ls"
proof (induction ls arbitrary: ls')
  case (Cons l ls)
  show ?case
  proof (cases "prefix (k @ ''='') l")
    case True
    with Cons.prems env_line_other [OF assms] show ?thesis by (auto simp: env_value_skip env_line_prefix)
  next
    case False
    with Cons show ?thesis by (auto simp: env_value_def)
  qed
qed simp

lemma set_first_dom: "set_first k v ls \<noteq> None \<longleftrightarrow> env_value k ls \<noteq> None"
  using set_first_None [of k v ls] by (auto simp: env_value_def find_None_iff)

interpretation env_file: param_store env_value set_first param_name py_str_int
  by unfold_locales (auto simp: set_first_get set_first_other set_first_dom simp del: not_None_eq)

text \<open>A rewritten file reads back as the lines that were written.\<close>

lemma universal_newlines_clean: "c \<in> set (universal_newlines t) \<Longrightarrow> code_of c \<noteq> 13"
  by (induction t rule: universal_newlines.induct) (auto simp: NL_def code_of_def split: if_splits)

lemma universal_newlines_id: "\<forall>c \<in> set t. code_of c \<noteq> 13 \<Longrightarrow> universal_newlines t = t"
  by (induction t rule: universal_newlines.induct) auto

lemma rstrip_newline:
  assumes "\<forall>c \<in> set (butlast x). code_of c \<noteq> 10" "c \<in> set (rstrip_chars NL x)"
  shows "code_of c \<noteq> 10"
proof (cases x rule: rev_cases)
  case Nil
  with assms show ?thesis by (simp add: rstrip_chars_def)
next
  case (snoc y d)
  show ?thesis
  proof (cases "d \<in> set NL")
    case True
    with assms snoc show ?thesis by (auto simp: rstrip_chars_def dest!: set_dropWhileD)
  next
    case False
    then have "code_of d \<noteq> 10" by (metis NL_def char_of_char code_of_def list.set_intros(1))
    with False assms snoc show ?thesis by (auto simp: rstrip_chars_def)
  qed
qed

lemma butlast_dropWhile_subset: "set (butlast (dropWhile P l)) \<subseteq> set (butlast l)"
  by (induction l) auto

lemma env_line_newline:
  assumes "param_name k" "\<forall>c \<in> set (butlast l). code_of c \<noteq> 10" "c \<in> set (butlast (env_line k v l))"
  shows "code_of c \<noteq> 10"
proof -
  let ?x = "drop 1 (dropWhile (\<lambda>c. c \<noteq> CHR ''#'') l)"
  have "set (butlast ?x) \<subseteq> set (butlast l)"
    by (metis butlast_drop butlast_dropWhile_subset set_drop_subset subset_trans)
  then have x: "\<forall>c \<in> set (butlast ?x). code_of c \<noteq> 10" using assms(2) by blast
  have b: "butlast (env_line k v l) = k @ ''='' @ py_str_int v @ (if CHR ''#'' \<in> set l then ''  #'' @ rstrip_chars NL ?x else [])"
    by (simp only: env_line_def NL_def append_assoc [symmetric] butlast_snoc)
  have "c \<in> set k \<or> c \<in> {CHR ''='', CHR '' '', CHR ''#''} \<or> c \<in> set (py_str_int v) \<or> c \<in> set (rstrip_chars NL ?x)"
    using assms(3) unfolding b by (auto split: if_split_asm)
  moreover have "code_of c \<noteq> 10" if "c \<in> set k" using assms(1) that by (simp add: param_name_def)
  moreover have "code_of c \<noteq> 10" if "c \<in> set (py_str_int v)" using str_int_chars [OF that] by (auto simp: code_of_def is_digit_def)
  moreover have "code_of c \<noteq> 10" if "c \<in> {CHR ''='', CHR '' '', CHR ''#''}" using that by (auto simp: code_of_def)
  ultimately show ?thesis using rstrip_newline [OF x, of c] by blast
qed

lemma env_line_carriage:
  assumes "param_name k" "\<forall>c \<in> set l. code_of c \<noteq> 13" "c \<in> set (env_line k v l)"
  shows "code_of c \<noteq> 13"
proof -
  have "set (rstrip_chars NL (drop 1 (dropWhile (\<lambda>c. c \<noteq> CHR ''#'') l))) \<subseteq> set l"
    by (auto simp: rstrip_chars_def dest!: set_dropWhileD in_set_dropD)
  then have "c \<in> set k \<or> c \<in> {CHR ''='', CHR '' '', CHR ''#'', char_of (10 :: nat)} \<or> c \<in> set (py_str_int v) \<or> c \<in> set l"
    using assms(3) by (auto simp: env_line_def NL_def split: if_split_asm)
  moreover have "code_of c \<noteq> 13" if "c \<in> set k" using assms(1) that by (simp add: param_name_def)
  moreover have "code_of c \<noteq> 13" if "c \<in> set (py_str_int v)" using str_int_chars [OF that] by (auto simp: code_of_def is_digit_def)
  moreover have "code_of c \<noteq> 13" if "c \<in> {CHR ''='', CHR '' '', CHR ''#'', char_of (10 :: nat)}" using that by (auto simp: code_of_def)
  ultimately show ?thesis using assms(2) by blast
qed

lemma set_first_lines:
  assumes "param_name k"
  shows "file_lines ls \<Longrightarrow> \<forall>l \<in> set ls. \<forall>c \<in> set l. code_of c \<noteq> 13 \<Longrightarrow> set_first k v ls = Some ls' \<Longrightarrow>
    file_lines ls' \<and> (\<forall>l \<in> set ls'. \<forall>c \<in> set l. code_of c \<noteq> 13) \<and> ls' \<noteq> []"
proof (induction ls arbitrary: ls')
  case (Cons l ls)
  have e: "env_line k v l \<noteq> []" "code_of (last (env_line k v l)) = 10"
    by (simp_all add: env_line_def NL_def code_of_def)
  show ?case
  proof (cases "prefix (k @ ''='') l")
    case True
    with Cons.prems e show ?thesis
      using env_line_newline [OF assms, of l _ v] env_line_carriage [OF assms, of l _ v] by auto
  next
    case False
    with Cons show ?thesis by auto
  qed
qed simp

text \<open>What the environment file means: the value of every parameter.\<close>

definition env_params :: "string \<Rightarrow> string \<Rightarrow> string option" where
  "env_params t k = env_value k (readlines (universal_newlines t))"

lemma env_params_written:
  assumes "param_name k" "set_first k v (readlines (universal_newlines t)) = Some ls"
  shows "readlines (universal_newlines (concat ls)) = ls"
proof -
  have "\<forall>c \<in> set (concat (readlines (universal_newlines t))). code_of c \<noteq> 13"
    unfolding readlines_concat using universal_newlines_clean by blast
  then have "\<forall>l \<in> set (readlines (universal_newlines t)). \<forall>c \<in> set l. code_of c \<noteq> 13" by simp
  from set_first_lines [OF assms(1) readlines_file_lines this assms(2)]
  have l: "file_lines ls" and c: "\<forall>c \<in> set (concat ls). code_of c \<noteq> 13" by auto
  show ?thesis unfolding universal_newlines_id [OF c] by (rule readlines_of_lines [OF l])
qed

text \<open>C17. \<^verbatim>\<open>set_env_param\<close> implements an update of the map from parameters to values that the environment file stands for:
  a parameter the file does not have is a RuntimeError that leaves the file alone; otherwise the file it writes
  maps that parameter to the value and every other one to what it was before.\<close>

theorem set_env_param_refines:
  assumes "param_name k" "fs w ENV_PATH = Some t"
  shows "case env_params t k of
      None \<Rightarrow> set_env_param E k v w = Some (Inl (Exn RuntimeError (k @ '' not found in '' @ ENV_PATH)), w)
    | Some _ \<Rightarrow> \<exists>w' t'. set_env_param E k v w = Some (Inr (), w') \<and> fs w' = (fs w)(ENV_PATH \<mapsto> t') \<and>
        (\<forall>k'. param_name k' \<longrightarrow> env_params t' k' = ((env_params t)(k \<mapsto> py_str_int v)) k')"
proof (cases "set_first k v (readlines (universal_newlines t))")
  case None
  then have "env_params t k = None"
    using set_first_dom [of k v "readlines (universal_newlines t)"] by (simp add: env_params_def)
  with None assms show ?thesis
    by (simp add: set_env_param_def py_bind_def read_file_def py_raise_def)
next
  case (Some ls)
  then have "env_params t k \<noteq> None"
    using set_first_dom [of k v "readlines (universal_newlines t)"] by (simp add: env_params_def)
  moreover have "env_params (concat ls) k' = ((env_params t)(k \<mapsto> py_str_int v)) k'" if "param_name k'" for k'
    using env_file.put_get [OF assms(1) Some] env_file.put_other [OF assms(1) that _ Some]
    by (simp add: env_params_def env_params_written [OF assms(1) Some])
  ultimately show ?thesis using Some assms(2)
    by (auto simp: set_env_param_def py_bind_def read_file_def write_file_def intro!: exI [of _ "concat ls"])
qed

theorem set_env_param_refines_witness:
  "param_name ''A'' \<and> env_params (''A=1  # x'' @ NL @ ''B=2'' @ NL) ''A'' = Some ''1'' \<and>
   (\<exists>w' t'. set_env_param finished_env ''A'' 7 (start_world\<lparr>fs := [ENV_PATH \<mapsto> ''A=1  # x'' @ NL @ ''B=2'' @ NL]\<rparr>) = Some (Inr (), w') \<and>
      fs w' ENV_PATH = Some t' \<and> env_params t' ''A'' = Some (py_str_int 7) \<and> env_params t' ''B'' = Some ''2'')"
proof -
  let ?t = "''A=1  # x'' @ NL @ ''B=2'' @ NL"
  have p: "param_name ''A''" "param_name ''B''" and v: "env_params ?t ''A'' = Some ''1''" "env_params ?t ''B'' = Some ''2''"
    by code_simp+
  have f: "fs (start_world\<lparr>fs := [ENV_PATH \<mapsto> ?t]\<rparr>) ENV_PATH = Some ?t" by simp
  obtain w' t' where w: "set_env_param finished_env ''A'' 7 (start_world\<lparr>fs := [ENV_PATH \<mapsto> ?t]\<rparr>) = Some (Inr (), w')"
      "fs w' ENV_PATH = Some t'" and m: "\<forall>k'. param_name k' \<longrightarrow> env_params t' k' = ((env_params ?t)(''A'' \<mapsto> py_str_int 7)) k'"
    using set_env_param_refines [OF p(1) f, of finished_env 7] unfolding v(1) by auto
  from m p v have "env_params t' ''A'' = Some (py_str_int 7)" "env_params t' ''B'' = Some ''2''" by auto
  with p v w show ?thesis by blast
qed

section \<open>A healthy cluster is found\<close>

lemma wait_for_healthy_finds:
  assumes poll: "\<And>v. \<exists>rs v'. sample_all_nodes E [] v = Some (Inr rs, v') \<and> clock v' \<le> clock v + d \<and> (T \<le> clock v \<longrightarrow> healthy_round rs)"
    and lag: "\<And>v. of_nat (lag E v) / 1000000000 \<le> k" and i: "0 < i"
    and time: "d + i + k < timeout_s" "T + 2 * (d + i + k) < clock w + timeout_s"
  shows "wp (wait_for_healthy_anchored E timeout_s i) (\<lambda>b _. b) (\<lambda>_ _. False) w"
  unfolding wait_for_healthy_anchored_def wp_bind wp_time
proof (rule wp_while [where I = "\<lambda>ok v. ok = 0 \<and> clock v \<le> max (clock w) (T + (d + i + k)) \<or>
    ok = 1 \<and> clock v \<le> max (clock w) (T + (d + i + k)) + (d + i + k)"])
  fix ok :: nat and v :: world
  assume inv: "ok = 0 \<and> clock v \<le> max (clock w) (T + (d + i + k)) \<or> ok = 1 \<and> clock v \<le> max (clock w) (T + (d + i + k)) + (d + i + k)"
  obtain rs v' where s: "sample_all_nodes E [] v = Some (Inr rs, v')" "clock v' \<le> clock v + d" "T \<le> clock v \<longrightarrow> healthy_round rs"
    using poll by blast
  have c: "clock (emit E (Slept i) i v') \<le> clock v + (d + i + k)" using s(2) lag [of v'] by (simp add: emit_def)
  then show "wp (py_bind (sample_all_nodes E []) (\<lambda>samples.
      let ok = (if healthy_round samples then ok + 1 else 0) in
      if healthy_round samples \<and> 2 \<le> ok then py_return (Leave ())
      else py_then (time_sleep E i) (py_return (Continue ok))))
     (\<lambda>r w'. case r of
        Continue s' \<Rightarrow> s' = 0 \<and> clock w' \<le> max (clock w) (T + (d + i + k)) \<or> s' = 1 \<and> clock w' \<le> max (clock w) (T + (d + i + k)) + (d + i + k)
      | Leave x \<Rightarrow> wp (py_return (case Leave x of Leave _ \<Rightarrow> True | Continue (_ :: nat) \<Rightarrow> False)) (\<lambda>b _. b) (\<lambda>_ _. False) w') (\<lambda>_ _. False) v"
    using inv i s(3)
    by (cases "healthy_round rs") (auto simp: wp_bind wp_def [of "sample_all_nodes E []"] s(1) wp_simps Let_def)
next
  obtain rs v' where s: "sample_all_nodes E [] w = Some (Inr rs, v')" "clock v' \<le> clock w + d" using poll by blast
  from wp_Inr [OF s(1) wp_sample_all_nodes] s(2) have d: "0 \<le> d" by simp
  have k: "0 \<le> k" by (rule order_trans [OF _ lag [of w]]) simp
  fix ok :: nat and v :: world
  assume "ok = 0 \<and> clock v \<le> max (clock w) (T + (d + i + k)) \<or> ok = 1 \<and> clock v \<le> max (clock w) (T + (d + i + k)) + (d + i + k)"
    and "\<not> clock v < clock w + timeout_s"
  with time d k i have False by (auto simp: max_def split: if_splits)
  then show "wp (py_return (case Continue ok of Leave (_ :: unit) \<Rightarrow> True | Continue (_ :: nat) \<Rightarrow> False)) (\<lambda>b _. b) (\<lambda>_ _. False) v" ..
qed simp

text \<open>C21. The wait of the sweep does not miss a cluster that recovers: if every poll of the nodes returns within \<open>d\<close> seconds and
  every poll begun at time \<open>T\<close> or later finds the cluster healthy, then \<^verbatim>\<open>wait_for_healthy_anchored\<close> returns true, provided its
  timeout leaves room for two polls with their pauses after \<open>T\<close>.\<close>

theorem wait_for_healthy_anchored_live:
  assumes "\<And>v. \<exists>rs v'. sample_all_nodes E [] v = Some (Inr rs, v') \<and> clock v' \<le> clock v + d \<and> (T \<le> clock v \<longrightarrow> healthy_round rs)"
    and "\<And>v. of_nat (lag E v) / 1000000000 \<le> k" and "0 < i"
    and "d + i + k < timeout_s" "T + 2 * (d + i + k) < clock w + timeout_s"
  shows "\<exists>w'. wait_for_healthy_anchored E timeout_s i w = Some (Inr True, w')"
proof -
  from wp_returns [OF wp_mono [OF wait_for_healthy_finds [OF assms]] wait_for_healthy_total [OF assms(3)]]
  obtain b w' where r: "wait_for_healthy_anchored E timeout_s i w = Some (Inr b, w')" by auto
  from wp_Inr [OF r wait_for_healthy_finds [OF assms]] r show ?thesis by auto
qed

theorem wait_for_healthy_anchored_live_witness:
  "\<exists>w'. wait_for_healthy_anchored anchored_env 240 5 start_world = Some (Inr True, w')"
proof (rule wait_for_healthy_anchored_live [where d = 0 and T = 0 and k = 0])
  show "\<exists>rs v'. sample_all_nodes anchored_env [] v = Some (Inr rs, v') \<and> clock v' \<le> clock v + 0 \<and> (0 \<le> clock v \<longrightarrow> healthy_round rs)" for v
    using anchored_sample [of v] by auto
qed (simp_all add: state_env_def)

end
