(* ===== verification/Divergence.thy ===== *)
theory Divergence
  imports Lifecycle_Runs
begin

text \<open>
  The safety check of the attack experiments (\<^verbatim>\<open>scripts/e8_attack_resilience/\<close> and
  \<^verbatim>\<open>scripts/e4_p2p_eclipse_detection/live_sybil_attack.py\<close>): in every polling round the app hashes of
  the witness nodes are compared, height by height, and a disagreement is a divergence event.

  The locale \<open>divergence_tracker\<close> is the contract of such a tracker; inside it, the verdict
  "no divergence event" is shown to mean exactly that no round had two witnesses with different
  hashes at the same height. Every tracker of the experiments interprets it. Also here:
  the Byzantine-validator run (\<^verbatim>\<open>live_byzantine_attacks.py\<close>) and the combined attack
  (\<^verbatim>\<open>live_combined_attack.py\<close>).
\<close>

section \<open>The comparison made in one round\<close>

definition witnesses :: "string list \<Rightarrow> NodeSample list \<Rightarrow> NodeSample list" where
  "witnesses W rs = filter (\<lambda>s. node s \<in> set W \<and> height s > 0) rs"

definition witness_hashes :: "string list \<Rightarrow> NodeSample list \<Rightarrow> (string, json) dict" where
  "witness_hashes W rs = dict_of node app_hash (witnesses W rs)"

definition witness_heights :: "string list \<Rightarrow> NodeSample list \<Rightarrow> (string, int) dict" where
  "witness_heights W rs = dict_of node height (witnesses W rs)"

text \<open>\<^verbatim>\<open>by_height.setdefault(h, {})[node] = hashes[node]\<close>\<close>

definition by_height :: "string list \<Rightarrow> NodeSample list \<Rightarrow> (int, (string, json) dict) dict" where
  "by_height W rs =
     fold (\<lambda>(n, h) d. AList.update h
             (AList.update n (dict_get (witness_hashes W rs) n JNull) (dict_get d h [])) d)
       (witness_heights W rs) []"

definition divergent :: "('n, 'h) dict \<Rightarrow> bool" where
  "divergent hs \<longleftrightarrow> 1 < length hs \<and> 1 < length (remdups (dict_values hs))"

definition round_divergences :: "string list \<Rightarrow> NodeSample list \<Rightarrow> (int \<times> (string, json) dict) list" where
  "round_divergences W rs = filter (\<lambda>(h, hs). divergent hs) (by_height W rs)"

section \<open>The comparison is sound and complete\<close>

text \<open>The specification: two witnesses of the round are at the same height with different hashes.\<close>

definition conflict :: "string list \<Rightarrow> NodeSample list \<Rightarrow> int \<Rightarrow> bool" where
  "conflict W rs h \<longleftrightarrow>
     (\<exists>s \<in> set rs. \<exists>s' \<in> set rs. node s \<in> set W \<and> node s' \<in> set W \<and> height s = h \<and> height s' = h \<and>
        0 < h \<and> app_hash s \<noteq> app_hash s')"

text \<open>Grouping the pairs of a dictionary by a key keeps, per group, the pairs in order.\<close>

lemma by_height_fold:
  assumes "distinct (map fst ps)"
  shows "map_of (fold (\<lambda>(n, h) d. AList.update h (AList.update n (g n) (dict_get d h [])) d) ps []) h =
    (let hs = map (\<lambda>(n, h). (n, g n)) (filter (\<lambda>(n, h'). h' = h) ps) in if hs = [] then None else Some hs)"
  using assms
proof (induction ps arbitrary: h rule: rev_induct)
  case Nil
  then show ?case by simp
next
  case (snoc p ps)
  obtain n h' where p: "p = (n, h')" by (cases p)
  let ?d = "fold (\<lambda>(n, h) d. AList.update h (AList.update n (g n) (dict_get d h [])) d) ps []"
  let ?hs = "map (\<lambda>(n, h). (n, g n)) (filter (\<lambda>(n, k). k = h') ps)"
  have IH: "map_of ?d h'' = (let hs = map (\<lambda>(n, h). (n, g n)) (filter (\<lambda>(n, k). k = h'') ps) in
      if hs = [] then None else Some hs)" for h''
    by (rule snoc.IH) (use snoc.prems in simp)
  have get: "dict_get ?d h' [] = ?hs" by (simp add: dict_get_def [of ?d] IH Let_def)
  have "n \<notin> fst ` set ?hs" using snoc.prems p by force
  then have "AList.update n (g n) ?hs = ?hs @ [(n, g n)]" by (rule update_fresh)
  then show ?case by (auto simp: p update_conv' get IH Let_def)
qed

lemma distinct_by_height: "distinct (map fst (by_height W rs))"
  unfolding by_height_def by (rule distinct_fold_update) simp

text \<open>With one sample per node, the group of a height lists the witnesses at it.\<close>

lemma by_height_group:
  assumes "distinct (map node rs)"
  shows "map_of (by_height W rs) h =
    (let hs = map (\<lambda>s. (node s, app_hash s)) (filter (\<lambda>s. height s = h) (witnesses W rs)) in
     if hs = [] then None else Some hs)"
proof -
  have d: "distinct (map node (witnesses W rs))"
    using assms by (simp add: witnesses_def distinct_map_filter)
  have hts: "witness_heights W rs = map (\<lambda>s. (node s, height s)) (witnesses W rs)"
    and hss: "witness_hashes W rs = map (\<lambda>s. (node s, app_hash s)) (witnesses W rs)"
    by (simp_all add: witness_heights_def witness_hashes_def dict_of_distinct d)
  have hash: "dict_get (witness_hashes W rs) (node s) JNull = app_hash s" if "s \<in> set (witnesses W rs)" for s
  proof -
    have "map_of (witness_hashes W rs) (node s) = Some (app_hash s)"
      unfolding hss by (rule map_of_is_SomeI) (use d that in \<open>auto simp: comp_def\<close>)
    then show ?thesis by (simp add: dict_get_def)
  qed
  have "distinct (map fst (witness_heights W rs))" by (simp add: hts d comp_def)
  from by_height_fold [OF this, of "\<lambda>n. dict_get (witness_hashes W rs) n JNull" h]
  show ?thesis
    unfolding by_height_def hts
    by (simp add: Let_def filter_map comp_def hash cong: map_cong)
qed

lemma length_remdups_gt1: "1 < length (remdups xs) \<longleftrightarrow> (\<exists>x \<in> set xs. \<exists>y \<in> set xs. x \<noteq> y)"
proof -
  have "1 < length (remdups xs) \<longleftrightarrow> \<not> card (set xs) \<le> Suc 0" by (simp add: length_remdups_card_conv not_le)
  then show ?thesis by (simp add: card_le_Suc0_iff_eq)
qed

lemma divergent_iff: "divergent hs \<longleftrightarrow> (\<exists>x \<in> snd ` set hs. \<exists>y \<in> snd ` set hs. x \<noteq> y)"
proof -
  have "1 < length (remdups (dict_values hs)) \<Longrightarrow> 1 < length hs"
    by (metis dict_values_def length_map length_remdups_leq less_le_trans)
  then have "divergent hs \<longleftrightarrow> 1 < length (remdups (dict_values hs))"
    unfolding divergent_def by blast
  also have "\<dots> \<longleftrightarrow> (\<exists>x \<in> snd ` set hs. \<exists>y \<in> snd ` set hs. x \<noteq> y)"
    unfolding length_remdups_gt1 dict_values_def set_map ..
  finally show ?thesis .
qed

lemma round_divergences_iff:
  assumes "distinct (map node rs)"
  shows "h \<in> fst ` set (round_divergences W rs) \<longleftrightarrow> conflict W rs h"
proof -
  let ?g = "map (\<lambda>s. (node s, app_hash s)) (filter (\<lambda>s. height s = h) (witnesses W rs))"
  have "h \<in> fst ` set (round_divergences W rs) \<longleftrightarrow> (\<exists>hs. map_of (by_height W rs) h = Some hs \<and> divergent hs)"
    using distinct_by_height [of W rs] by (force simp: round_divergences_def image_iff)
  also have "\<dots> \<longleftrightarrow> divergent ?g"
    by (cases "?g = []") (simp_all add: by_height_group [OF assms] Let_def divergent_def dict_values_def)
  also have "\<dots> \<longleftrightarrow> conflict W rs h"
  proof -
    let ?A = "{s \<in> set rs. node s \<in> set W \<and> 0 < height s \<and> height s = h}"
    have "snd ` set ?g = app_hash ` ?A" by (auto simp: witnesses_def image_image)
    then have "divergent ?g \<longleftrightarrow> (\<exists>s \<in> ?A. \<exists>s' \<in> ?A. app_hash s \<noteq> app_hash s')"
      unfolding divergent_iff by (simp only: bex_simps)
    moreover have "(\<exists>s \<in> ?A. \<exists>s' \<in> ?A. app_hash s \<noteq> app_hash s') \<longleftrightarrow> conflict W rs h"
    proof
      assume "conflict W rs h"
      then obtain s s' where "s \<in> set rs" "s' \<in> set rs" "node s \<in> set W" "node s' \<in> set W" "height s = h"
        "height s' = h" "0 < h" and ne: "app_hash s \<noteq> app_hash s'"
        unfolding conflict_def by blast
      then have "s \<in> ?A" "s' \<in> ?A" by simp_all
      with ne show "\<exists>s \<in> ?A. \<exists>s' \<in> ?A. app_hash s \<noteq> app_hash s'" by blast
    qed (auto simp: conflict_def)
    ultimately show ?thesis by (rule trans)
  qed
  finally show ?thesis .
qed

section \<open>The contract of a divergence tracker\<close>

type_synonym div_event = "rat \<times> string \<times> int \<times> (string, json) dict"

text \<open>The log of events is exact for the samples: these are complete rounds over the polled nodes \<open>N\<close>,
  and there is no event exactly if no round has a conflict.\<close>

definition exact_verdict :: "string list \<Rightarrow> string list \<Rightarrow> div_event list \<Rightarrow> NodeSample list \<Rightarrow> bool" where
  "exact_verdict N W events ss \<longleftrightarrow>
     (\<exists>rounds. ss = concat rounds \<and> (\<forall>rs \<in> set rounds. map node rs = N) \<and>
        (events = [] \<longleftrightarrow> (\<forall>rs \<in> set rounds. \<forall>h. \<not> conflict W rs h)))"

lemma exact_verdict_init: "exact_verdict N W [] []"
  unfolding exact_verdict_def by (intro exI [of _ "[]"]) simp

locale divergence_tracker =
  fixes W :: "string list"
    and absorb :: "rat \<Rightarrow> string \<Rightarrow> NodeSample list \<Rightarrow> 'st \<Rightarrow> 'st"
    and events_of :: "'st \<Rightarrow> div_event list"
    and samples_of :: "'st \<Rightarrow> NodeSample list"
  assumes events_absorb:
    "events_of (absorb t ph rs st) = events_of st @ map (\<lambda>(h, hs). (t, ph, h, hs)) (round_divergences W rs)"
    and samples_absorb: "samples_of (absorb t ph rs st) = samples_of st @ rs"
begin

lemma exact_absorb:
  assumes "exact_verdict N W (events_of st) (samples_of st)" "map node rs = N" "distinct N"
  shows "exact_verdict N W (events_of (absorb t ph rs st)) (samples_of (absorb t ph rs st))"
proof -
  obtain rounds where r: "samples_of st = concat rounds" "\<forall>rs \<in> set rounds. map node rs = N"
    "events_of st = [] \<longleftrightarrow> (\<forall>rs \<in> set rounds. \<forall>h. \<not> conflict W rs h)"
    using assms(1) by (auto simp: exact_verdict_def)
  have "distinct (map node rs)" using assms by simp
  then have "round_divergences W rs = [] \<longleftrightarrow> (\<forall>h. \<not> conflict W rs h)"
    using round_divergences_iff [of rs _ W] by (cases "round_divergences W rs") auto
  then show ?thesis
    unfolding exact_verdict_def using r assms(2)
    by (intro exI [of _ "rounds @ [rs]"]) (auto simp: events_absorb samples_absorb)
qed

end

section \<open>The tracker of the attack experiments\<close>

record div_tracker =
  dt_start :: rat
  dt_samples :: "NodeSample list"
  dt_events :: "div_event list"

definition new_div_tracker :: "rat \<Rightarrow> div_tracker" where
  "new_div_tracker t = \<lparr>dt_start = t, dt_samples = [], dt_events = []\<rparr>"

definition absorb_round :: "string list \<Rightarrow> rat \<Rightarrow> string \<Rightarrow> NodeSample list \<Rightarrow> 'm div_tracker_scheme \<Rightarrow> 'm div_tracker_scheme" where
  "absorb_round W t phase rs tr =
     tr\<lparr>dt_samples := dt_samples tr @ rs,
        dt_events := dt_events tr @ map (\<lambda>(h, hs). (t, phase, h, hs)) (round_divergences W rs)\<rparr>"

interpretation plain_div: divergence_tracker W "absorb_round W" dt_events dt_samples for W
  by unfold_locales (simp_all add: absorb_round_def)

text \<open>The loop of \<^verbatim>\<open>poll_for\<close>: the round's time is taken before the nodes are sampled; what is done with
  a round may itself have effects.\<close>

definition attack_poll ::
  "(rat \<Rightarrow> NodeSample list \<Rightarrow> 'st \<Rightarrow> 'st py) \<Rightarrow> env \<Rightarrow> rat \<Rightarrow> rat \<Rightarrow> rat \<Rightarrow> 'st \<Rightarrow> 'st py" where
  "attack_poll step E start seconds interval st =
     py_bind time_time (\<lambda>t0.
     py_bind
       (py_while (\<lambda>_ w. clock w < t0 + seconds)
          (\<lambda>st. py_bind time_time (\<lambda>now.
                py_bind (sample_all_nodes E []) (\<lambda>rs.
                py_bind (step (now - start) rs st) (\<lambda>st'.
                py_then (time_sleep E interval) (py_return (Continue st')))))) st)
       loop_state)"

lemma attack_poll_yields:
  assumes "P st" "\<And>t rs st. P st \<Longrightarrow> map node rs = dict_keys NODE_RPC_PORTS \<Longrightarrow> yields (step t rs st) P"
  shows "yields (attack_poll step E start seconds interval st) P"
  unfolding attack_poll_def
proof (rule yields_effect, rule yields_bind [where P = "\<lambda>k. case k of Continue st \<Rightarrow> P st | Leave _ \<Rightarrow> True"], rule yields_wp)
  fix t0 w
  show "wp (py_while (\<lambda>_ w. clock w < t0 + seconds)
     (\<lambda>st. py_bind time_time (\<lambda>now. py_bind (sample_all_nodes E []) (\<lambda>rs. py_bind (step (now - start) rs st) (\<lambda>st'.
           py_then (time_sleep E interval) (py_return (Continue st')))))) st)
     (\<lambda>k _. case k of Continue st \<Rightarrow> P st | Leave (_ :: unit) \<Rightarrow> True) (\<lambda>_ _. True) w"
  proof (rule wp_while [where I = "\<lambda>st _. P st"])
    fix s v assume p: "P s"
    show "wp (py_bind time_time (\<lambda>now. py_bind (sample_all_nodes E []) (\<lambda>rs. py_bind (step (now - start) rs s) (\<lambda>st'.
           py_then (time_sleep E interval) (py_return (Continue st'))))))
        (\<lambda>k w'. case k of Continue s' \<Rightarrow> P s' | Leave x \<Rightarrow> (case Leave x of Continue st \<Rightarrow> P st | Leave (_ :: unit) \<Rightarrow> True))
        (\<lambda>_ _. True) v"
      unfolding wp_bind wp_time
    proof (rule wp_mono [OF wp_sample_all_nodes])
      fix rs :: "NodeSample list" and v' :: world
      assume "map node rs = node_list [] \<and> sorted (map timestamp rs) \<and> clock v \<le> clock v' \<and>
        (\<forall>s\<in>set rs. clock v \<le> timestamp s \<and> timestamp s \<le> clock v')"
      then have y: "yields (step (clock v - start) rs s) P" using assms(2) p by (simp add: node_list_def)
      show "wp (step (clock v - start) rs s) (\<lambda>st'. wp (py_then (time_sleep E interval) (py_return (Continue st')))
          (\<lambda>k w'. case k of Continue s' \<Rightarrow> P s' | Leave x \<Rightarrow> (case Leave x of Continue st \<Rightarrow> P st | Leave (_ :: unit) \<Rightarrow> True))
          (\<lambda>_ _. True)) (\<lambda>_ _. True) v'"
        by (rule wpI) (auto simp: wp_simps dest: yieldsD [OF y])
    qed simp
  qed (use assms in auto)
qed (auto simp: loop_state_def intro: yields_return yields_raise split: ctl.splits)

lemma attack_poll_total [total_intros]:
  assumes "0 < interval" "\<And>t rs st. total (step t rs st)" "\<And>t rs st. steady (step t rs st)"
  shows "total (attack_poll step E start seconds interval st)"
  unfolding attack_poll_def
proof (intro total_intros deadline_while_total [where \<delta> = interval] assms(1,2))
  fix s and w :: world
  have st: "wp (step t rs s) (\<lambda>_ v'. clock v \<le> clock v') (\<lambda>_ _. True) v" for t rs v
    by (rule wp_mono [OF wp_emits [OF assms(3)]]) (auto dest: grows_clock)
  have "wp (step t rs s) (\<lambda>_ v'. clock w + interval \<le> clock (emit E (Slept interval) interval v')) (\<lambda>_ _. True) v"
    if "clock w \<le> clock v" for t rs v
    by (rule wp_mono [OF st]) (use that in \<open>auto simp: emit_def\<close>)
  then show "wp (py_bind time_time (\<lambda>now. py_bind (sample_all_nodes E []) (\<lambda>rs. py_bind (step (now - start) rs s) (\<lambda>st'.
           py_then (time_sleep E interval) (py_return (Continue st'))))))
     (\<lambda>k w'. case k of Continue _ \<Rightarrow> clock w + interval \<le> clock w' | Leave (_ :: unit) \<Rightarrow> True) (\<lambda>_ _. True) w"
    unfolding wp_bind wp_time
    by (intro wp_mono [OF wp_sample_all_nodes]) (use assms(1) in \<open>auto simp: wp_simps\<close>)
qed

lemma attack_poll_emits [emits_intros]:
  "(\<And>p q r. S (RpcGet p q r)) \<Longrightarrow> (\<And>t. S (Slept t)) \<Longrightarrow> (\<And>t rs st. emits S (step t rs st)) \<Longrightarrow>
   emits S (attack_poll step E start seconds interval st)"
  unfolding attack_poll_def loop_state_def by (intro emits_intros)

lemma attack_poll_logs:
  "(\<And>t rs st. emits (\<lambda>ev. command ev = []) (step t rs st)) \<Longrightarrow>
   logs command (attack_poll step E start seconds interval st) []"
  by (rule logs_emits, intro emits_intros) simp_all

definition div_step :: "string list \<Rightarrow> string \<Rightarrow> rat \<Rightarrow> NodeSample list \<Rightarrow> 'm div_tracker_scheme \<Rightarrow> 'm div_tracker_scheme py" where
  "div_step W phase t rs tr = py_return (absorb_round W t phase rs tr)"

definition poll_for :: "string list \<Rightarrow> env \<Rightarrow> rat \<Rightarrow> rat \<Rightarrow> string \<Rightarrow> div_tracker \<Rightarrow> div_tracker py" where
  "poll_for W E seconds interval phase tr = attack_poll (div_step W phase) E (dt_start tr) seconds interval tr"

lemma poll_for_facts [total_intros, emits_intros, logs_intros]:
  "0 < interval \<Longrightarrow> total (poll_for W E seconds interval phase tr)"
  "(\<And>p q r. S (RpcGet p q r)) \<Longrightarrow> (\<And>t. S (Slept t)) \<Longrightarrow> emits S (poll_for W E seconds interval phase tr)"
  "logs command (poll_for W E seconds interval phase tr) []"
  unfolding poll_for_def div_step_def
  by (intro total_intros emits_intros attack_poll_logs; simp add: total_intros emits_intros)+

lemma distinct_nodes [simp]: "distinct (dict_keys NODE_RPC_PORTS)"
  by (simp add: dict_keys_def NODE_RPC_PORTS_def)

abbreviation div_ok :: "string list \<Rightarrow> div_tracker \<Rightarrow> bool" where
  "div_ok W tr \<equiv> exact_verdict (dict_keys NODE_RPC_PORTS) W (dt_events tr) (dt_samples tr)"

lemma poll_for_exact: "div_ok W tr \<Longrightarrow> yields (poll_for W E seconds interval phase tr) (div_ok W)"
  unfolding poll_for_def
  by (rule attack_poll_yields) (auto simp: div_step_def intro!: yields_return plain_div.exact_absorb)

lemma new_div_tracker_ok: "div_ok W (new_div_tracker t)"
  by (simp add: new_div_tracker_def exact_verdict_init)

section \<open>live_byzantine_attacks.py\<close>

definition BYZANTINE_SERVICE :: string where "BYZANTINE_SERVICE = ''engram-node04''"

definition HONEST_NODES :: "string list" where
  "HONEST_NODES = filter (\<lambda>n. n \<noteq> BYZANTINE_SERVICE) (dict_keys NODE_RPC_PORTS)"

definition E8_RESULTS_DIR :: string where
  "E8_RESULTS_DIR = ''scripts/e8_attack_resilience/results_live''"

text \<open>Scenario name, behaviour passed to node04, description.\<close>

definition SCENARIOS :: "(string, string \<times> string) dict" where
  "SCENARIOS =
     [(''a6_fake_fsm_state'', (''fake_fsm_state:SOVEREIGN'',
         ''A6 Malicious Proposer: node04 claims SOVEREIGN while real conditions are healthy'')),
      (''a4_forge_btc_hash'', (''forge_btc_hash'',
         ''A4 Forged BTC Receipt: node04 claims an advanced checkpoint with a tampered hash'')),
      (''a3_false_da_attestation'', (''false_da_attestation'',
         ''A3 Data Withholding: node04 claims DA attestation succeeded with no real submission behind it''))]"

definition recreate_cmd :: "string list \<Rightarrow> string \<Rightarrow> string list" where
  "recreate_cmd overlay service =
     [''docker'', ''compose'', ''-f'', ''compose.yml''] @ concat (map (\<lambda>f. [''-f'', f]) overlay)
     @ [''up'', ''-d'', ''--no-deps'', ''--force-recreate'', service]"

definition BYZANTINE_OVERLAY :: "string list" where
  "BYZANTINE_OVERLAY = [''docker/engram-node04-byzantine.yml'']"

definition enable_byzantine :: "env \<Rightarrow> string \<Rightarrow> unit py" where
  "enable_byzantine E behavior =
     py_bind (run_env E (recreate_cmd BYZANTINE_OVERLAY BYZANTINE_SERVICE) [(''ENGRAM_BYZANTINE_BEHAVIOR'', behavior)] True)
       (\<lambda>_. py_return ())"

definition disable_byzantine :: "env \<Rightarrow> unit py" where
  "disable_byzantine E = py_bind (run_proc E (recreate_cmd [] BYZANTINE_SERVICE) False) (\<lambda>_. py_return ())"

text \<open>\<^verbatim>\<open>f"{hashes}"\<close>, a dictionary of plain text.\<close>

definition repr_str :: "string \<Rightarrow> string" where
  "repr_str s = [CHR 0x27] @ s @ [CHR 0x27]"

definition repr_hashes :: "env \<Rightarrow> (string, json) dict \<Rightarrow> string" where
  "repr_hashes E hs =
     ''{'' @ py_join '', '' (map (\<lambda>(n, j). repr_str n @ '': '' @ repr_str (json_cell E j)) hs) @ ''}''"

definition divergence_detail :: "env \<Rightarrow> div_event list \<Rightarrow> string" where
  "divergence_detail E events =
     (if events = [] then []
      else ''### Divergence detail'' @ NL @ NL
        @ concat (map (\<lambda>(t, phase, h, hs). ''- t='' @ fmt_fixed 0 t @ ''s phase='' @ phase @ '' height='' @ py_str_int h
            @ '': '' @ repr_hashes E hs @ NL) events))"

definition byzantine_summary :: "env \<Rightarrow> string \<Rightarrow> string \<Rightarrow> string \<Rightarrow> rat \<Rightarrow> div_tracker \<Rightarrow> string" where
  "byzantine_summary E name behavior descr elapsed tr =
     ''# LIVE Byzantine-mode validator test: '' @ name @ NL @ NL @ descr @ NL @ NL
     @ ''Total duration: '' @ fmt_fixed 0 elapsed @ ''s. Behavior: `'' @ behavior @ ''`.'' @ NL @ NL
     @ ''## Verdict'' @ NL @ NL
     @ ''- Safety held (3 honest nodes' AppHash never diverged): **'' @ py_bool (dt_events tr = []) @ ''**'' @ NL
     @ ''- Divergence events: '' @ show_nat (length (dt_events tr)) @ NL @ NL
     @ divergence_detail E (dt_events tr)"

definition byzantine_phases :: "env \<Rightarrow> string \<Rightarrow> rat \<Rightarrow> rat \<Rightarrow> rat \<Rightarrow> div_tracker py" where
  "byzantine_phases E behavior attack_s recovery_s interval_s =
     py_bind (time_time) (\<lambda>t0.
     py_bind (poll_for HONEST_NODES E 15 interval_s ''baseline'' (new_div_tracker t0)) (\<lambda>tr1.
     py_then (enable_byzantine E behavior)
     (py_bind (poll_for HONEST_NODES E attack_s interval_s ''attack'' tr1) (\<lambda>tr2.
     py_then (disable_byzantine E)
     (poll_for HONEST_NODES E recovery_s interval_s ''recovery'' tr2)))))"

definition run_scenario :: "env \<Rightarrow> string \<Rightarrow> rat \<Rightarrow> rat \<Rightarrow> rat \<Rightarrow> (bool \<times> div_tracker) py" where
  "run_scenario E name attack_s recovery_s interval_s =
     py_bind (py_lift (dict_item SCENARIOS name)) (\<lambda>(behavior, descr).
     py_bind (byzantine_phases E behavior attack_s recovery_s interval_s) (\<lambda>tr.
     py_bind (ts_label E) (\<lambda>label.
     py_then (write_csv E (dt_samples tr) (path_join E8_RESULTS_DIR (''byzantine_'' @ name @ ''_'' @ label @ ''.csv'')))
     (py_bind (time_time) (\<lambda>now.
     py_then (write_file E (path_join E8_RESULTS_DIR (''byzantine_'' @ name @ ''_'' @ label @ ''_summary.md''))
           (byzantine_summary E name behavior descr (now - dt_start tr) tr))
     (py_return (dt_events tr = [], tr)))))))"

definition byzantine_main :: "env \<Rightarrow> string option \<Rightarrow> bool \<Rightarrow> rat \<Rightarrow> rat \<Rightarrow> rat \<Rightarrow> unit py" where
  "byzantine_main E scenario all_scenarios attack_s recovery_s interval_s =
     (if \<not> all_scenarios \<and> scenario = None then py_raise (Exn SystemExit ''2'')
      else if \<not> all_scenarios \<and> the scenario \<notin> set (dict_keys SCENARIOS) then py_raise (Exn SystemExit ''2'')
      else
        py_bind (py_map (\<lambda>name. run_scenario E name attack_s recovery_s interval_s)
                   (if all_scenarios then dict_keys SCENARIOS else [the scenario])) (\<lambda>results.
        if list_all fst results then py_return () else py_raise (Exn SystemExit ''1'')))"

section \<open>live_combined_attack.py\<close>

definition BYZANTINE_BEHAVIOR :: string where "BYZANTINE_BEHAVIOR = ''fake_fsm_state:SOVEREIGN''"

definition SAFETY_WITNESS_NODES :: "string list" where
  "SAFETY_WITNESS_NODES = [''engram-node02'', ''engram-node03'']"

definition two_digits :: "nat \<Rightarrow> string" where
  "two_digits i = pad_left 2 (show_nat i)"

definition A1_SWARM_SERVICES :: "string list" where
  "A1_SWARM_SERVICES = map (\<lambda>i. ''attacker-a1-'' @ two_digits i) [1 ..< 11]"

definition swarm_up :: "env \<Rightarrow> unit py" where
  "swarm_up E = py_bind (run_proc E (compose_cmd ''attacker-swarm-a1'' UP A1_SWARM_SERVICES) True) (\<lambda>_. py_return ())"

definition swarm_down :: "env \<Rightarrow> unit py" where
  "swarm_down E =
     py_bind (run_proc E (compose_cmd ''attacker-swarm-a1'' STOP A1_SWARM_SERVICES) False) (\<lambda>_.
     py_bind (run_proc E (compose_cmd ''attacker-swarm-a1'' RM A1_SWARM_SERVICES) False) (\<lambda>_. py_return ()))"

definition combined_phases :: "env \<Rightarrow> div_tracker py" where
  "combined_phases E =
     py_bind (time_time) (\<lambda>t0.
     py_bind (poll_for SAFETY_WITNESS_NODES E 15 3 ''baseline'' (new_div_tracker t0)) (\<lambda>tr1.
     py_then (enable_byzantine E BYZANTINE_BEHAVIOR)
     (py_then (swarm_up E)
     (py_bind (poll_for SAFETY_WITNESS_NODES E 120 3 ''combined_attack'' tr1) (\<lambda>tr2.
     py_then (swarm_down E)
     (py_then (disable_byzantine E)
     (poll_for SAFETY_WITNESS_NODES E 60 3 ''recovery'' tr2)))))))"

definition combined_summary :: "env \<Rightarrow> rat \<Rightarrow> div_tracker \<Rightarrow> string" where
  "combined_summary E elapsed tr =
     ''# LIVE Combined Attack (E8 A8)'' @ NL @ NL
     @ ''Byzantine behavior: `'' @ BYZANTINE_BEHAVIOR @ ''` on '' @ BYZANTINE_SERVICE
     @ '', simultaneous with the A1 peer-slot-exhaustion swarm (attacker-swarm-a1 profile).'' @ NL @ NL
     @ ''Total duration: '' @ fmt_fixed 0 elapsed @ ''s. Safety witness nodes: [''
     @ py_join '', '' (map repr_str SAFETY_WITNESS_NODES) @ ''].'' @ NL @ NL
     @ ''## Verdict'' @ NL @ NL
     @ ''- Safety held (witness nodes' AppHash never diverged): **'' @ py_bool (dt_events tr = []) @ ''**'' @ NL
     @ ''- Divergence events: '' @ show_nat (length (dt_events tr)) @ NL @ NL
     @ divergence_detail E (dt_events tr)"

definition combined_main :: "env \<Rightarrow> div_tracker py" where
  "combined_main E =
     py_bind (combined_phases E) (\<lambda>tr.
     py_bind (ts_label E) (\<lambda>label.
     py_then (write_csv E (dt_samples tr) (path_join E8_RESULTS_DIR (''combined_attack_a8_'' @ label @ ''.csv'')))
     (py_bind (time_time) (\<lambda>now.
     py_then (write_file E (path_join E8_RESULTS_DIR (''combined_attack_a8_'' @ label @ ''_summary.md''))
           (combined_summary E (now - dt_start tr) tr))
     (if dt_events tr = [] then py_return tr else py_raise (Exn SystemExit ''1''))))))"

section \<open>What the verdicts mean\<close>

lemma byzantine_phases_exact: "yields (byzantine_phases E b a r i) (div_ok HONEST_NODES)"
  unfolding byzantine_phases_def
  by (intro yields_effect [of _ _ time_time] yields_then yields_bind [OF poll_for_exact] poll_for_exact new_div_tracker_ok)

lemma combined_phases_exact: "yields (combined_phases E) (div_ok SAFETY_WITNESS_NODES)"
  unfolding combined_phases_def
  by (intro yields_effect [of _ _ time_time] yields_then yields_bind [OF poll_for_exact] poll_for_exact new_div_tracker_ok)

text \<open>The rounds of a run, as recorded.\<close>

definition rounds_of :: "NodeSample list \<Rightarrow> NodeSample list list \<Rightarrow> bool" where
  "rounds_of ss rounds \<longleftrightarrow> ss = concat rounds \<and> (\<forall>rs \<in> set rounds. map node rs = dict_keys NODE_RPC_PORTS)"

text \<open>C7. The verdict of a Byzantine-validator scenario is exact: it reports that safety held if and
  only if in no polling round two honest nodes were at the same height with different app hashes.\<close>

theorem run_scenario_verdict:
  assumes "run_scenario E name attack_s recovery_s interval_s w = Some (Inr (held, tr), w')"
  shows "\<exists>rounds. rounds_of (dt_samples tr) rounds \<and>
    (held \<longleftrightarrow> (\<forall>rs \<in> set rounds. \<forall>h. \<not> conflict HONEST_NODES rs h))"
proof -
  have "yields (run_scenario E name attack_s recovery_s interval_s)
      (\<lambda>(held, tr). div_ok HONEST_NODES tr \<and> (held \<longleftrightarrow> dt_events tr = []))"
    unfolding run_scenario_def
    by (rule yields_effect, rule yields_split, rule yields_bind [OF byzantine_phases_exact])
      (intro yields_effect yields_then yields_return, simp)
  from yieldsD [OF this assms] show ?thesis by (auto simp: exact_verdict_def rounds_of_def)
qed

text \<open>The combined attack returns normally only if in no round the two witness nodes disagreed at
  the same height; otherwise it exits with status 1 after having written its results.\<close>

theorem combined_main_verdict:
  assumes "combined_main E w = Some (Inr tr, w')"
  shows "\<exists>rounds. rounds_of (dt_samples tr) rounds \<and>
    (\<forall>rs \<in> set rounds. \<forall>h. \<not> conflict SAFETY_WITNESS_NODES rs h)"
proof -
  have "yields (combined_main E) (\<lambda>tr. div_ok SAFETY_WITNESS_NODES tr \<and> dt_events tr = [])"
    unfolding combined_main_def
    by (rule yields_bind [OF combined_phases_exact]) (intro yields_effect yields_then,
        auto intro!: yields_return yields_raise)
  from yieldsD [OF this assms] show ?thesis by (auto simp: exact_verdict_def rounds_of_def)
qed

text \<open>The comparison never spans two rounds: when node01 is one block ahead of node02 in every
  round, two different app hashes at the same height are recorded and yet no event is raised.\<close>

theorem divergence_across_rounds_missed:
  assumes "map node r1 = dict_keys NODE_RPC_PORTS" "map node r2 = dict_keys NODE_RPC_PORTS"
    and "distinct (map height r1)" "distinct (map height r2)"
    and "s1 \<in> set r1" "s2 \<in> set r2" "node s1 \<in> set W" "node s2 \<in> set W" "height s1 = height s2" "app_hash s1 \<noteq> app_hash s2"
  shows "dt_events (absorb_round W t2 ph r2 (absorb_round W t1 ph r1 tr)) = dt_events tr"
proof -
  have "round_divergences W rs = []" if "map node rs = dict_keys NODE_RPC_PORTS" "distinct (map height rs)" for rs
  proof -
    have d: "distinct (map node rs)" unfolding that(1) by (simp add: dict_keys_def NODE_RPC_PORTS_def)
    have "\<not> conflict W rs h" for h
      using that(2) unfolding conflict_def distinct_map inj_on_def by metis
    then show ?thesis using round_divergences_iff [OF d, of _ W] by (cases "round_divergences W rs") auto
  qed
  then show ?thesis using assms(1-4) by (simp add: absorb_round_def)
qed

section \<open>The attacks are undone\<close>

definition byz_on :: "string list" where "byz_on = recreate_cmd BYZANTINE_OVERLAY BYZANTINE_SERVICE"
definition byz_off :: "string list" where "byz_off = recreate_cmd [] BYZANTINE_SERVICE"

lemma byzantine_logs [logs_intros]:
  "logs command (enable_byzantine E b) [byz_on]" "logs command (disable_byzantine E) [byz_off]"
  using logs_bind [OF logs_command_run(2) logs_return, of E byz_on "[(''ENGRAM_BYZANTINE_BEHAVIOR'', b)]" True]
    logs_bind [OF logs_command_run(1) logs_return, of E byz_off False]
  by (simp_all add: enable_byzantine_def disable_byzantine_def byz_on_def byz_off_def)

lemma swarm_logs [logs_intros]:
  "logs command (swarm_up E) [compose_cmd ''attacker-swarm-a1'' UP A1_SWARM_SERVICES]"
  "logs command (swarm_down E) [compose_cmd ''attacker-swarm-a1'' STOP A1_SWARM_SERVICES,
     compose_cmd ''attacker-swarm-a1'' RM A1_SWARM_SERVICES]"
proof -
  have "logs command (swarm_up E) ([compose_cmd ''attacker-swarm-a1'' UP A1_SWARM_SERVICES] @ [])"
    unfolding swarm_up_def by (intro logs_intros)
  moreover have "logs command (swarm_down E) ([compose_cmd ''attacker-swarm-a1'' STOP A1_SWARM_SERVICES]
      @ [compose_cmd ''attacker-swarm-a1'' RM A1_SWARM_SERVICES] @ [])"
    unfolding swarm_down_def by (intro logs_intros)
  ultimately show "logs command (swarm_up E) [compose_cmd ''attacker-swarm-a1'' UP A1_SWARM_SERVICES]"
    "logs command (swarm_down E) [compose_cmd ''attacker-swarm-a1'' STOP A1_SWARM_SERVICES,
     compose_cmd ''attacker-swarm-a1'' RM A1_SWARM_SERVICES]" by simp_all
qed

lemma byzantine_phases_logs: "logs command (byzantine_phases E b a r i) [byz_on, byz_off]"
proof -
  have "logs command (byzantine_phases E b a r i) ([] @ [] @ [byz_on] @ [] @ [byz_off] @ [])"
    unfolding byzantine_phases_def by (intro logs_intros)
  then show ?thesis by simp
qed


section \<open>The runs complete in a quiet environment\<close>

lemma attack_poll_quiet:
  assumes "\<And>w p q. http E w p q = Inl (Exn URLError m)" "0 \<le> interval" "\<And>t rs st. quiet (step t rs st)"
  shows "quiet (attack_poll step E start seconds interval st)"
proof -
  have "wp (py_bind time_time (\<lambda>now. py_bind (sample_all_nodes E []) (\<lambda>rs. py_bind (step (now - start) rs s) (\<lambda>st'.
        py_then (time_sleep E interval) (py_return (Continue st' :: (_, unit) ctl))))))
      (\<lambda>k _. \<exists>s'. k = Continue s') (\<lambda>_ _. False) w" for s w
    unfolding wp_bind wp_time
    by (rule wp_mono [OF quiet_wp [OF sample_all_nodes_quiet [OF assms(1)]]])
      (use assms(2) in \<open>auto intro!: wp_mono [OF quiet_wp [OF assms(3)]] simp: wp_simps\<close>)
  then show ?thesis unfolding attack_poll_def by (intro quiet_bind quiet_simps quiet_loop)
qed

lemma finished_div_quiet [quiet_intros]:
  "0 \<le> i \<Longrightarrow> quiet (poll_for W finished_env s i ph tr)"
  "quiet (enable_byzantine finished_env b)" "quiet (disable_byzantine finished_env)"
  "quiet (swarm_up finished_env)" "quiet (swarm_down finished_env)"
  unfolding poll_for_def enable_byzantine_def disable_byzantine_def swarm_up_def swarm_down_def div_step_def
  by (intro quiet_intros attack_poll_quiet [of _ "[]"]; simp add: finished_docker_def)+

lemma finished_div_total [total_intros]:
  "total (enable_byzantine E b)" "total (disable_byzantine E)" "total (swarm_up E)" "total (swarm_down E)"
  unfolding enable_byzantine_def disable_byzantine_def swarm_up_def swarm_down_def by (intro total_intros)+

lemma run_scenario_runs:
  "\<exists>r w'. run_scenario finished_env ''a4_forge_btc_hash'' 60 30 3 start_world = Some (Inr r, w')"
proof -
  have "quiet (run_scenario finished_env ''a4_forge_btc_hash'' 60 30 3)"
    unfolding run_scenario_def byzantine_phases_def write_csv_def
    by (intro quiet_intros) (simp_all add: dict_item_def SCENARIOS_def)
  moreover have "total (run_scenario finished_env ''a4_forge_btc_hash'' 60 30 3)"
    unfolding run_scenario_def byzantine_phases_def by (intro total_intros) simp_all
  ultimately show ?thesis by (rule quiet_returns)
qed

theorem run_scenario_verdict_witness:
  "\<exists>held tr w' rounds. run_scenario finished_env ''a4_forge_btc_hash'' 60 30 3 start_world = Some (Inr (held, tr), w') \<and>
     rounds_of (dt_samples tr) rounds \<and> (held \<longleftrightarrow> (\<forall>rs \<in> set rounds. \<forall>h. \<not> conflict HONEST_NODES rs h))"
proof -
  obtain held tr w' where w: "run_scenario finished_env ''a4_forge_btc_hash'' 60 30 3 start_world = Some (Inr (held, tr), w')"
    using run_scenario_runs by (metis surj_pair)
  from run_scenario_verdict [OF w] w show ?thesis by blast
qed


lemma no_conflict_down: "\<forall>s \<in> set rs. height s \<le> 0 \<Longrightarrow> round_divergences W rs = []"
  by (simp add: round_divergences_def by_height_def witness_heights_def witnesses_def dict_of_def not_less)

lemma combined_main_runs: "\<exists>r w'. combined_main finished_env start_world = Some (Inr r, w')"
proof -
  have step: "yields (combined_phases finished_env) (\<lambda>tr. dt_events tr = [])"
  proof -
    have down: "wp (sample_all_nodes finished_env []) (\<lambda>rs _. \<forall>s \<in> set rs. height s \<le> 0) (\<lambda>_ _. True) w" for w
    proof -
      have q: "wp (query_node finished_env n None) (\<lambda>s _. height s \<le> 0) (\<lambda>_ _. True) v" for n v
        by (auto simp: query_node_def rpc_get_def wp_simps error_sample_def caught_by_def QUERY_ERRORS_def split: sum.splits)
      have "wp (py_map (\<lambda>n. query_node finished_env n None) ns)
          (\<lambda>v w'. length v = length ns \<and> (\<forall>s \<in> set v. height s \<le> 0)) (\<lambda>_ _. True) w" for ns w
        by (rule wp_map [where I = "\<lambda>ss _. \<forall>s \<in> set ss. height s \<le> 0"]) (auto intro!: wp_mono [OF q])
      then show ?thesis unfolding sample_all_nodes_def by (rule wp_mono) auto
    qed
    have "wp (poll_for W finished_env s i ph tr) (\<lambda>tr' _. dt_events tr' = []) (\<lambda>_ _. True) w"
      if "dt_events tr = []" for W s i ph tr w
      unfolding poll_for_def attack_poll_def wp_bind wp_time
    proof (rule wp_while [where I = "\<lambda>tr _. dt_events tr = []"])
      fix tr :: div_tracker and v
      assume "dt_events tr = []"
      then show "wp (py_bind time_time (\<lambda>now. py_bind (sample_all_nodes finished_env []) (\<lambda>rs.
          py_bind (div_step W ph (now - dt_start tr0) rs tr) (\<lambda>st'.
          py_then (time_sleep finished_env i) (py_return (Continue st'))))))
          (\<lambda>k w'. case k of Continue s' \<Rightarrow> dt_events s' = [] | Leave x \<Rightarrow>
             wp (loop_state (Leave x)) (\<lambda>tr' _. dt_events tr' = []) (\<lambda>_ _. True) w') (\<lambda>_ _. True) v" for tr0 :: div_tracker
        unfolding wp_bind wp_time
        by (intro wp_mono [OF down]) (auto simp: wp_simps div_step_def absorb_round_def no_conflict_down)
    qed (use that in \<open>auto simp: loop_state_def wp_simps\<close>)
    then have "yields (poll_for W finished_env s i ph tr) (\<lambda>tr. dt_events tr = [])" if "dt_events tr = []" for W s i ph tr
      using that by (intro yields_wp) auto
    then show ?thesis
      unfolding combined_phases_def
      by (intro yields_effect [of _ _ time_time] yields_then)
        (rule yields_bind, rule \<open>\<And>tr W s i ph. dt_events tr = [] \<Longrightarrow> yields (poll_for W finished_env s i ph tr) (\<lambda>tr. dt_events tr = [])\<close>,
         simp add: new_div_tracker_def, intro yields_then yields_bind [where P = "\<lambda>tr. dt_events tr = []"], auto)
  qed
  have "quiet (combined_phases finished_env)" "total (combined_phases finished_env)"
    unfolding combined_phases_def by (intro quiet_intros total_intros; simp)+
  then obtain tr v where ph: "combined_phases finished_env start_world = Some (Inr tr, v)"
    using quiet_returns by blast
  then have "dt_events tr = []" using yieldsD [OF step] by blast
  with ph show ?thesis
    by (simp add: combined_main_def py_bind_def py_then_def ts_label_def time_strftime_def write_csv_def
        write_file_def time_time_def py_return_def)
qed

theorem combined_main_verdict_witness:
  "\<exists>tr w' rounds. combined_main finished_env start_world = Some (Inr tr, w') \<and> rounds_of (dt_samples tr) rounds \<and>
    (\<forall>rs \<in> set rounds. \<forall>h. \<not> conflict SAFETY_WITNESS_NODES rs h)"
  using combined_main_runs combined_main_verdict by blast

definition seen :: "string \<Rightarrow> int \<Rightarrow> string \<Rightarrow> NodeSample" where
  "seen n h hash = (error_sample 0 n (Exn OSError []))\<lparr>height := h, app_hash := JStr hash\<rparr>"

theorem divergence_across_rounds_missed_witness:
  "dt_events (absorb_round HONEST_NODES 3 ''attack''
       [seen ''engram-node01'' 6 ''X'', seen ''engram-node02'' 5 ''B'', seen ''engram-node03'' 4 ''Y'', seen ''engram-node04'' 3 ''Z'']
     (absorb_round HONEST_NODES 0 ''attack''
       [seen ''engram-node01'' 5 ''A'', seen ''engram-node02'' 4 ''W'', seen ''engram-node03'' 3 ''V'', seen ''engram-node04'' 2 ''U'']
     (new_div_tracker 0))) = []"
proof -
  have "dt_events (new_div_tracker 0) = []" by (simp add: new_div_tracker_def)
  then show ?thesis
    using divergence_across_rounds_missed [of
        "[seen ''engram-node01'' 5 ''A'', seen ''engram-node02'' 4 ''W'', seen ''engram-node03'' 3 ''V'', seen ''engram-node04'' 2 ''U'']"
        "[seen ''engram-node01'' 6 ''X'', seen ''engram-node02'' 5 ''B'', seen ''engram-node03'' 4 ''Y'', seen ''engram-node04'' 3 ''Z'']"
        "seen ''engram-node01'' 5 ''A''" "seen ''engram-node02'' 5 ''B''" HONEST_NODES 3 "''attack''" 0 "new_div_tracker 0"]
    by (simp add: seen_def error_sample_def dict_keys_def NODE_RPC_PORTS_def HONEST_NODES_def BYZANTINE_SERVICE_def)
qed

end
