(* ===== verification/Attack_Runs.thy ===== *)
theory Attack_Runs
  imports Divergence
begin

text \<open>
  The remaining attack experiments of \<^verbatim>\<open>scripts/e8_attack_resilience/\<close>: censorship
  (\<^verbatim>\<open>live_censorship_test.py\<close>), timeout flooding (\<^verbatim>\<open>live_timeout_flood_test.py\<close>), double signing
  (\<^verbatim>\<open>live_double_signing_test.py\<close>) and withdrawals while SOVEREIGN (\<^verbatim>\<open>live_withdrawal_test.py\<close>).
\<close>

section \<open>Trackers with a block rate per phase\<close>

record rate_tracker = div_tracker +
  rt_phase_heights :: "(string, (rat \<times> int) list) dict"

text \<open>\<^verbatim>\<open>setdefault(phase, [])\<close> at the start of \<^verbatim>\<open>poll_for\<close>, and the point added per round.\<close>

definition open_phase :: "string \<Rightarrow> (string, 'a list) dict \<Rightarrow> (string, 'a list) dict" where
  "open_phase phase d = (if phase \<in> set (dict_keys d) then d else AList.update phase [] d)"

definition height_point :: "string list \<Rightarrow> rat \<Rightarrow> NodeSample list \<Rightarrow> (rat \<times> int) list" where
  "height_point W t rs =
     (let hs = dict_values (witness_heights W rs) in if hs = [] then [] else [(t, Max (set hs))])"

definition note_heights :: "string list \<Rightarrow> string \<Rightarrow> rat \<Rightarrow> NodeSample list \<Rightarrow> (string, (rat \<times> int) list) dict \<Rightarrow> (string, (rat \<times> int) list) dict" where
  "note_heights W phase t rs d =
     (case height_point W t rs of [] \<Rightarrow> d | p # _ \<Rightarrow> dict_append phase p d)"

definition height_rate :: "(string, (rat \<times> int) list) dict \<Rightarrow> string \<Rightarrow> rat" where
  "height_rate d phase =
     (let pts = dict_get d phase [] in
      if length pts < 2 then 0
      else (let (t0, h0) = hd pts; (t1, h1) = last pts in
            if t1 \<le> t0 then 0 else of_int (h1 - h0) / (t1 - t0)))"

definition new_rate_tracker :: "rat \<Rightarrow> rate_tracker" where
  "new_rate_tracker t = \<lparr>dt_start = t, dt_samples = [], dt_events = [], rt_phase_heights = []\<rparr>"

definition rate_absorb :: "string list \<Rightarrow> rat \<Rightarrow> string \<Rightarrow> NodeSample list \<Rightarrow> 'm rate_tracker_scheme \<Rightarrow> 'm rate_tracker_scheme" where
  "rate_absorb W t phase rs tr =
     (absorb_round W t phase rs tr)\<lparr>rt_phase_heights := note_heights W phase t rs (rt_phase_heights tr)\<rparr>"

interpretation rate_div: divergence_tracker W "rate_absorb W" dt_events dt_samples for W
  by unfold_locales (simp_all add: rate_absorb_def absorb_round_def)

section \<open>live_censorship_test.py\<close>

definition censor_poll_for :: "env \<Rightarrow> rat \<Rightarrow> rat \<Rightarrow> string \<Rightarrow> rate_tracker \<Rightarrow> rate_tracker py" where
  "censor_poll_for E seconds interval phase tr =
     attack_poll (\<lambda>t rs tr. py_return (rate_absorb HONEST_NODES t phase rs tr)) E (dt_start tr) seconds interval
       (tr\<lparr>rt_phase_heights := open_phase phase (rt_phase_heights tr)\<rparr>)"

definition NODE_URL :: string where
  "NODE_URL = ''http://localhost:'' @ py_str_int (snd (hd NODE_RPC_PORTS))"

definition run_cli :: "env \<Rightarrow> string list \<Rightarrow> proc py" where
  "run_cli E args = run_proc E ([''engramd''] @ args @ [''--node'', NODE_URL]) False"

definition build_target_tx_hex :: "env \<Rightarrow> string py" where
  "build_target_tx_hex E =
     py_bind time_time (\<lambda>now.
     py_bind (run_cli E [''tx-submit-forced-tx'', ''--payload'', ''e8-a7-censorship-target-'' @ repr_float E now, ''--dry-run'']) (\<lambda>p.
     if returncode p \<noteq> 0 then py_raise (Exn RuntimeError (''--dry-run failed: '' @ out_text p @ '' '' @ err_text p))
     else py_return (strip_ws (out_text p))))"

definition register_forced_tx :: "env \<Rightarrow> string \<Rightarrow> unit py" where
  "register_forced_tx E target_hex =
     py_bind (run_cli E [''tx-submit-forced-tx'', ''--payload-hex'', target_hex]) (\<lambda>p.
     if returncode p \<noteq> 0 then py_raise (Exn RuntimeError ''failed to register the forced tx'') else py_return ())"

definition broadcast_target_tx :: "env \<Rightarrow> string \<Rightarrow> unit py" where
  "broadcast_target_tx E target_hex =
     py_bind (run_proc E [''curl'', ''-s'', NODE_URL @ ''/broadcast_tx_sync?tx=0x'' @ target_hex] False) (\<lambda>_. py_return ())"

definition enable_censorship :: "env \<Rightarrow> string \<Rightarrow> unit py" where
  "enable_censorship E target_hex = enable_byzantine E (''censor_tx:'' @ target_hex)"

text \<open>The pattern \<^verbatim>\<open>round-skip|enterPrevote.*nil|received invalid proposal\<close>, ignoring case; \<^verbatim>\<open>.*\<close> is greedy
  and stays on the line.\<close>

definition lit :: "string \<Rightarrow> string \<Rightarrow> string option" where
  "lit p s = (if prefix p s then Some (drop (length p) s) else None)"

definition after_last_nil :: "string \<Rightarrow> string option" where
  "after_last_nil s =
     (let line = takeWhile (\<lambda>c. code_of c \<noteq> 10) s;
          pos = filter (\<lambda>i. prefix ''nil'' (drop i line)) [0 ..< length line] in
      if pos = [] then None else Some (drop (last pos + 3) s))"

definition reject_match :: "string \<Rightarrow> (unit \<times> string) option" where
  "reject_match s =
     (case lit ''round-skip'' s of Some r \<Rightarrow> Some ((), r)
      | None \<Rightarrow>
        (case Option.bind (lit ''enterprevote'' s) after_last_nil of Some r \<Rightarrow> Some ((), r)
         | None \<Rightarrow> map_option (Pair ()) (lit ''received invalid proposal'' s)))"

definition scan_logs_for_reject :: "env \<Rightarrow> string \<Rightarrow> string \<Rightarrow> nat py" where
  "scan_logs_for_reject E container since =
     py_bind (run_proc E [''docker'', ''logs'', ''--since'', since, container] False) (\<lambda>p.
     py_return (length (find_all reject_match (py_lower (out_text p @ err_text p)))))"

definition liveness_held :: "rat \<Rightarrow> rat \<Rightarrow> bool" where
  "liveness_held baseline_rate attack_rate \<longleftrightarrow> baseline_rate = 0 \<or> attack_rate \<ge> (1 / 2) * baseline_rate"

definition censorship_phases :: "env \<Rightarrow> (string \<times> string \<times> rate_tracker) py" where
  "censorship_phases E =
     py_bind (time_time) (\<lambda>t0.
     py_bind (censor_poll_for E 15 3 ''baseline'' (new_rate_tracker t0)) (\<lambda>tr1.
     py_bind (build_target_tx_hex E) (\<lambda>target_hex.
     py_then (enable_censorship E target_hex)
     (py_bind (censor_poll_for E 20 3 ''byzantine_armed'' tr1) (\<lambda>tr2.
     py_bind (time_strftime E ''%Y-%m-%dT%H:%M:%S'') (\<lambda>attack_start_ts.
     py_then (register_forced_tx E target_hex)
     (py_then (broadcast_target_tx E target_hex)
     (py_bind (censor_poll_for E 90 3 ''censoring'' tr2) (\<lambda>tr3.
     py_then (disable_byzantine E)
     (py_bind (censor_poll_for E 30 3 ''recovery'' tr3) (\<lambda>tr4.
     py_return (target_hex, attack_start_ts, tr4))))))))))))"

definition censorship_summary :: "env \<Rightarrow> nat \<Rightarrow> rat \<Rightarrow> rate_tracker \<Rightarrow> (string, nat) dict \<Rightarrow> string" where
  "censorship_summary E n_bytes elapsed tr signals =
     (let rate = height_rate (rt_phase_heights tr) in
      ''# LIVE Censorship test (E8 A7 adversarial half)'' @ NL @ NL
      @ ''Target tx: '' @ show_nat n_bytes @ '' bytes (hex, see raw CSV/logs for full value).'' @ NL @ NL
      @ ''Total duration: '' @ fmt_fixed 0 elapsed @ ''s.'' @ NL @ NL @ ''## Verdict'' @ NL @ NL
      @ ''- Safety held (honest AppHash never diverged at the same height): **'' @ py_bool (dt_events tr = []) @ ''**'' @ NL
      @ ''- Divergence events: '' @ show_nat (length (dt_events tr)) @ NL
      @ ''- Liveness held (block rate during censoring vs. baseline, no collapse toward 0): **''
      @ py_bool (liveness_held (rate ''baseline'') (rate ''censoring'')) @ ''** (baseline ''
      @ fmt_fixed 3 (rate ''baseline'') @ '' blocks/s, censoring '' @ fmt_fixed 3 (rate ''censoring'')
      @ '' blocks/s, recovery '' @ fmt_fixed 3 (rate ''recovery'') @ '' blocks/s)'' @ NL
      @ ''- Reject/round-skip log signals per honest node during the censoring window: {''
      @ py_join '', '' (map (\<lambda>(n, k). repr_str n @ '': '' @ show_nat k) signals) @ ''}'' @ NL @ NL
      @ divergence_detail E (dt_events tr))"

definition censorship_main :: "env \<Rightarrow> rate_tracker py" where
  "censorship_main E =
     py_bind (censorship_phases E) (\<lambda>(target_hex, attack_start_ts, tr).
     py_bind (py_map (\<lambda>c. scan_logs_for_reject E c attack_start_ts) HONEST_NODES) (\<lambda>counts.
     py_bind (ts_label E) (\<lambda>label.
     py_then (write_csv E (dt_samples tr) (path_join E8_RESULTS_DIR (''censorship_a7_'' @ label @ ''.csv'')))
     (py_bind (time_time) (\<lambda>now.
     py_then (write_file E (path_join E8_RESULTS_DIR (''censorship_a7_'' @ label @ ''_summary.md''))
           (censorship_summary E (length target_hex div 2) (now - dt_start tr) tr (zip HONEST_NODES counts)))
     (if dt_events tr = [] then py_return tr else py_raise (Exn SystemExit ''1'')))))))"

section \<open>live_timeout_flood_test.py\<close>

definition FLOOD_OVERLAY :: "string list" where
  "FLOOD_OVERLAY = [''docker/engram-node04-timeout-flood.yml'']"

definition enable_flood :: "env \<Rightarrow> int \<Rightarrow> unit py" where
  "enable_flood E interval_ms =
     py_bind (run_env E (recreate_cmd FLOOD_OVERLAY BYZANTINE_SERVICE)
                [(''ENGRAM_TIMEOUT_FLOOD_INTERVAL_MS'', py_str_int interval_ms)] True) (\<lambda>_. py_return ())"

definition disable_flood :: "env \<Rightarrow> unit py" where
  "disable_flood E = disable_byzantine E"

text \<open>One line of \<^verbatim>\<open>docker stats\<close>: container, CPU percentage, memory use.\<close>

definition parse_mem :: "string \<Rightarrow> rat result" where
  "parse_mem mem_raw =
     (let mem_value = strip_ws (hd (split_char (CHR ''/'') mem_raw)) in
      if contains mem_value ''MiB'' then py_float (rstrip_chars ''MiB'' mem_value)
      else rbind (py_float (rstrip_chars ''GiB'' mem_value)) (\<lambda>x. Inr (x * 1024)))"

definition parse_stats_line :: "string \<Rightarrow> (string \<times> rat \<times> rat) option" where
  "parse_stats_line line =
     (case split_char (CHR '','') line of
        [n, cpu_raw, mem_raw] \<Rightarrow>
          (case py_float (rstrip_chars ''%'' cpu_raw) of
             Inl _ \<Rightarrow> None
           | Inr cpu \<Rightarrow> (case parse_mem mem_raw of Inl _ \<Rightarrow> None | Inr mem \<Rightarrow> Some (n, cpu, mem)))
      | _ \<Rightarrow> None)"

definition sample_docker_stats :: "env \<Rightarrow> string list \<Rightarrow> (string, rat \<times> rat) dict py" where
  "sample_docker_stats E containers =
     py_try
       (py_bind (run_proc E ([''docker'', ''stats'', ''--no-stream'', ''--format'',
            ''{{.Container}},{{.CPUPerc}},{{.MemUsage}}''] @ containers) False) (\<lambda>p.
        py_return (dict_of fst snd (List.map_filter parse_stats_line (splitlines (strip_ws (out_text p)))))))
       [TimeoutExpired, OSError] (\<lambda>_. py_return [])"

text \<open>\<^verbatim>\<open>subprocess.Popen\<close> of \<^verbatim>\<open>docker logs -f\<close>, and \<^verbatim>\<open>communicate\<close> with its retry after \<^verbatim>\<open>kill\<close>: the environment
  answers both, the latter under the pseudo command \<^verbatim>\<open>communicate\<close>.\<close>

definition tail_cmd :: "string \<Rightarrow> string list" where
  "tail_cmd container = [''docker'', ''logs'', ''-f'', ''--tail'', ''0'', container]"

definition start_log_tail :: "env \<Rightarrow> string \<Rightarrow> string list option py" where
  "start_log_tail E container =
     py_try (py_bind (run_proc E (tail_cmd container) False) (\<lambda>_. py_return (Some (tail_cmd container))))
       [OSError] (\<lambda>_. py_return None)"

definition communicate :: "env \<Rightarrow> string list \<Rightarrow> string \<Rightarrow> string py" where
  "communicate E h timeout = py_bind (run_proc E (''communicate'' # timeout # h) False) (\<lambda>p. py_return (out_text p))"

definition count_drops :: "string \<Rightarrow> int" where
  "count_drops out = int (length (find_all (\<lambda>s. map_option (Pair ()) (lit ''rate limit exceeded'' s)) out))"

definition stop_log_tail :: "env \<Rightarrow> string list option \<Rightarrow> int py" where
  "stop_log_tail E handle =
     (case handle of None \<Rightarrow> py_return (-1)
      | Some h \<Rightarrow>
          py_try (py_bind (communicate E h ''10'') (\<lambda>out. py_return (count_drops out))) [TimeoutExpired]
            (\<lambda>_. py_try (py_bind (communicate E h ''5'') (\<lambda>out. py_return (count_drops out))) [TimeoutExpired]
                   (\<lambda>_. py_return (-1))))"

record flood_tracker = rate_tracker +
  ft_sample_stats :: bool
  ft_phase_stats :: "(string, (string, rat \<times> rat) dict list) dict"

definition new_flood_tracker :: "bool \<Rightarrow> rat \<Rightarrow> flood_tracker" where
  "new_flood_tracker sample_stats t = \<lparr>dt_start = t, dt_samples = [], dt_events = [], rt_phase_heights = [],
     ft_sample_stats = sample_stats, ft_phase_stats = []\<rparr>"

definition flood_step :: "env \<Rightarrow> string \<Rightarrow> rat \<Rightarrow> NodeSample list \<Rightarrow> flood_tracker \<Rightarrow> flood_tracker py" where
  "flood_step E phase t rs tr =
     py_bind (if ft_sample_stats tr
              then py_bind (sample_docker_stats E (dict_keys NODE_RPC_PORTS)) (\<lambda>s.
                   py_return (tr\<lparr>ft_phase_stats := dict_append phase s (ft_phase_stats tr)\<rparr>))
              else py_return tr)
       (\<lambda>tr'. py_return (rate_absorb HONEST_NODES t phase rs tr'))"

definition flood_poll_for :: "env \<Rightarrow> rat \<Rightarrow> rat \<Rightarrow> string \<Rightarrow> flood_tracker \<Rightarrow> flood_tracker py" where
  "flood_poll_for E seconds interval phase tr =
     attack_poll (flood_step E phase) E (dt_start tr) seconds interval
       (tr\<lparr>rt_phase_heights := open_phase phase (rt_phase_heights tr),
           ft_phase_stats := open_phase phase (ft_phase_stats tr)\<rparr>)"

definition stats_summary :: "'m flood_tracker_scheme \<Rightarrow> string \<Rightarrow> string \<Rightarrow> (rat \<times> rat \<times> rat \<times> rat) option" where
  "stats_summary tr phase n =
     (let vals = List.map_filter (\<lambda>s. map_of s n) (dict_get (ft_phase_stats tr) phase []);
          cpus = map fst vals; mems = map snd vals; k = of_nat (length vals) in
      if vals = [] then None
      else Some (sum_list cpus / k, Max (set cpus), sum_list mems / k, Max (set mems)))"

definition cadence_held :: "rat \<Rightarrow> rat \<Rightarrow> bool" where
  "cadence_held baseline_rate flood_rate \<longleftrightarrow> (if baseline_rate > 0 then flood_rate \<ge> (1 / 2) * baseline_rate else True)"

definition stats_rows :: "flood_tracker \<Rightarrow> string" where
  "stats_rows tr =
     concat (map (\<lambda>phase. concat (map (\<lambda>n. case stats_summary tr phase n of None \<Rightarrow> []
        | Some (avg_cpu, max_cpu, avg_mem, max_mem) \<Rightarrow>
            md_row [n, phase, fmt_fixed 2 avg_cpu, fmt_fixed 2 max_cpu, fmt_fixed 1 avg_mem, fmt_fixed 1 max_mem])
        (dict_keys NODE_RPC_PORTS))) [''baseline'', ''flood'', ''recovery''])"

definition flood_summary :: "env \<Rightarrow> int \<Rightarrow> rat \<Rightarrow> flood_tracker \<Rightarrow> (string, int) dict \<Rightarrow> string" where
  "flood_summary E interval_ms elapsed tr drops =
     (let rate = height_rate (rt_phase_heights tr) in
      ''# LIVE Timeout-flooding test'' @ NL @ NL
      @ ''docs/EXPERIMENT.md's E8 '' @ [CHR 0x22] @ ''Timeout flooding by Byzantine nodes'' @ [CHR 0x22]
      @ '' row -- node04 stays alive and honest everywhere else, but actively floods ''
      @ ''genuinely signed Timeout messages every '' @ py_str_int interval_ms
      @ ''ms (engram-consensus-core's timeoutFloodRoutine), instead of the crash-only (`chaos-crash`) ''
      @ ''approximation used previously.'' @ NL @ NL
      @ ''Total duration: '' @ fmt_fixed 0 elapsed @ ''s.'' @ NL @ NL @ ''## Verdict'' @ NL @ NL
      @ ''- Safety held (3 honest nodes' AppHash never diverged): **'' @ py_bool (dt_events tr = []) @ ''**'' @ NL
      @ ''- Divergence events: '' @ show_nat (length (dt_events tr)) @ NL
      @ ''- Cadence held (flood-phase height rate >= 50% of baseline): **''
      @ py_bool (cadence_held (rate ''baseline'') (rate ''flood'')) @ ''**'' @ NL
      @ ''  - baseline: '' @ fmt_fixed 3 (rate ''baseline'') @ '' blocks/s'' @ NL
      @ ''  - flood:    '' @ fmt_fixed 3 (rate ''flood'') @ '' blocks/s'' @ NL
      @ ''  - recovery: '' @ fmt_fixed 3 (rate ''recovery'') @ '' blocks/s'' @ NL @ NL
      @ divergence_detail E (dt_events tr)
      @ NL @ ''## Per-peer rate limiter (reactor.go's PeerState.allowTimeoutMessage)'' @ NL @ NL
      @ ''Real '' @ [CHR 0x22] @ ''rate limit exceeded'' @ [CHR 0x22] @ '' drop count on each honest node, counted from a ''
      @ ''live `docker logs -f` tail spanning the flood phase (not an inference):'' @ NL @ NL
      @ concat (map (\<lambda>(n, k). ''- '' @ n @ '': '' @ py_str_int k @ '' drops'' @ NL) drops)
      @ (if ft_sample_stats tr then
           NL @ ''## Resource usage (docker stats, CPU%/memory)'' @ NL @ NL
           @ ''| Node | Phase | Avg CPU% | Max CPU% | Avg Mem (MiB) | Max Mem (MiB) |'' @ NL
           @ ''|---|---|---:|---:|---:|---:|'' @ NL @ stats_rows tr
         else []))"

definition flood_run :: "env \<Rightarrow> int \<Rightarrow> rat \<Rightarrow> rat \<Rightarrow> rat \<Rightarrow> bool \<Rightarrow> (bool \<times> flood_tracker) py" where
  "flood_run E interval_ms flood_s recovery_s interval_s sample_stats =
     py_bind (time_time) (\<lambda>t0.
     py_bind (flood_poll_for E 30 interval_s ''baseline'' (new_flood_tracker sample_stats t0)) (\<lambda>tr1.
     py_bind (py_map (start_log_tail E) HONEST_NODES) (\<lambda>tails.
     py_then (enable_flood E interval_ms)
     (py_bind (flood_poll_for E flood_s interval_s ''flood'' tr1) (\<lambda>tr2.
     py_bind (py_map (stop_log_tail E) tails) (\<lambda>drops.
     py_then (disable_flood E)
     (py_bind (flood_poll_for E recovery_s interval_s ''recovery'' tr2) (\<lambda>tr3.
     py_bind (ts_label E) (\<lambda>label.
     py_then (write_csv E (dt_samples tr3) (path_join E8_RESULTS_DIR (''timeout_flood_'' @ label @ ''.csv'')))
     (py_bind (time_time) (\<lambda>now.
     py_then (write_file E (path_join E8_RESULTS_DIR (''timeout_flood_'' @ label @ ''_summary.md''))
           (flood_summary E interval_ms (now - dt_start tr3) tr3 (zip HONEST_NODES drops)))
     (py_return (dt_events tr3 = [] \<and> cadence_held (height_rate (rt_phase_heights tr3) ''baseline'')
                      (height_rate (rt_phase_heights tr3) ''flood''), tr3)))))))))))))"

definition flood_main :: "env \<Rightarrow> int \<Rightarrow> rat \<Rightarrow> rat \<Rightarrow> rat \<Rightarrow> bool \<Rightarrow> unit py" where
  "flood_main E interval_ms flood_s recovery_s interval_s sample_stats =
     py_bind (flood_run E interval_ms flood_s recovery_s interval_s sample_stats) (\<lambda>(ok, _).
     if ok then py_return () else py_raise (Exn SystemExit ''1''))"

section \<open>live_double_signing_test.py\<close>

definition WITNESS_CONTAINERS :: "string list" where
  "WITNESS_CONTAINERS = [''engram-node01'', ''engram-node02'', ''engram-node03'']"

definition DUPLICATE_SERVICE :: string where "DUPLICATE_SERVICE = ''engram-node04-double-sign''"
definition DUPLICATE_HOME :: string where "DUPLICATE_HOME = ''testnet-data/engram-node04-double-sign''"
definition REAL_NODE04_KEY :: string where
  "REAL_NODE04_KEY = ''testnet-data/engram-node04/config/priv_validator_key.json''"
definition REAL_GENESIS :: string where
  "REAL_GENESIS = ''testnet-data/engram-node01/config/genesis.json''"

definition compute_persistent_peers :: "env \<Rightarrow> string py" where
  "compute_persistent_peers E =
     py_bind (py_map (\<lambda>n.
        py_bind (py_lift (dict_item [(''engram-node01'', ''26657''), (''engram-node02'', ''26757''), (''engram-node03'', ''26857'')] n)) (\<lambda>port.
        py_bind (run_proc E [''curl'', ''-s'', ''http://localhost:'' @ port @ ''/status''] False) (\<lambda>p.
        py_bind (py_lift (rbind (json_loads (out_text p)) (\<lambda>j. rbind (json_item j ''result'') (\<lambda>r.
                   rbind (json_item r ''node_info'') (\<lambda>i. json_item i ''id''))))) (\<lambda>i.
        py_return (json_cell E i @ ''@'' @ n @ '':26656'')))))
        [''engram-node01'', ''engram-node02'', ''engram-node03''])
       (\<lambda>parts. py_return (py_join '','' parts))"

definition stage_duplicate_identity :: "env \<Rightarrow> unit py" where
  "stage_duplicate_identity E =
     (let config_dir = path_join DUPLICATE_HOME ''config''; data_dir = path_join DUPLICATE_HOME ''data'' in
      py_then (remove_tree config_dir)
     (py_then (remove_tree data_dir)
     (py_then (copy_file E REAL_NODE04_KEY (path_join config_dir ''priv_validator_key.json''))
     (py_then (copy_file E REAL_GENESIS (path_join config_dir ''genesis.json''))
     (write_file E (path_join data_dir ''priv_validator_state.json'')
            (''{'' @ [CHR 0x22] @ ''height'' @ [CHR 0x22] @ '':'' @ [CHR 0x22] @ ''0'' @ [CHR 0x22] @ '','' @ [CHR 0x22]
             @ ''round'' @ [CHR 0x22] @ '':0,'' @ [CHR 0x22] @ ''step'' @ [CHR 0x22] @ '':0}''))))))"

definition DOUBLE_SIGN_UP :: "string list" where
  "DOUBLE_SIGN_UP = [''docker'', ''compose'', ''--profile'', ''double-sign-harness'', ''up'', ''-d'', ''--build'', DUPLICATE_SERVICE]"

definition start_duplicate :: "env \<Rightarrow> string \<Rightarrow> unit py" where
  "start_duplicate E persistent_peers =
     py_then (stage_duplicate_identity E)
       (py_bind (run_env E DOUBLE_SIGN_UP [(''DUPLICATE_PERSISTENT_PEERS'', persistent_peers)] True) (\<lambda>_. py_return ()))"

definition stop_duplicate :: "env \<Rightarrow> unit py" where
  "stop_duplicate E =
     py_bind (run_proc E (compose_cmd ''double-sign-harness'' STOP [DUPLICATE_SERVICE]) False) (\<lambda>_.
     py_bind (run_proc E (compose_cmd ''double-sign-harness'' RM [DUPLICATE_SERVICE]) False) (\<lambda>_. py_return ()))"

text \<open>\<^verbatim>\<open>EVIDENCE_MARKER\<close>: four groups, two of non-white-space characters and two of digits.\<close>

definition group :: "(char \<Rightarrow> bool) \<Rightarrow> string \<Rightarrow> (string \<times> string) option" where
  "group p s = (if takeWhile p s = [] then None else Some (takeWhile p s, dropWhile p s))"

definition evidence_match :: "string \<Rightarrow> ((string \<times> string \<times> string \<times> string) \<times> string) option" where
  "evidence_match s =
     Option.bind (lit ''SLASHABLE EVIDENCE DETECTED type='' s) (\<lambda>r1.
     Option.bind (group (Not \<circ> is_space) r1) (\<lambda>(etype, r2).
     Option.bind (lit '' validator='' r2) (\<lambda>r3.
     Option.bind (group (Not \<circ> is_space) r3) (\<lambda>(validator, r4).
     Option.bind (lit '' offense_height='' r4) (\<lambda>r5.
     Option.bind (group is_digit r5) (\<lambda>(offense, r6).
     Option.bind (lit '' detected_at_height='' r6) (\<lambda>r7.
     map_option (\<lambda>(detected, r8). ((etype, validator, offense, detected), r8)) (group is_digit r7))))))))"

type_synonym evidence = "string \<times> string \<times> string \<times> string"

definition scan_logs_for_evidence :: "env \<Rightarrow> string \<Rightarrow> evidence list py" where
  "scan_logs_for_evidence E container =
     py_bind (run_proc E [''docker'', ''logs'', container] False) (\<lambda>p.
     py_return (find_all evidence_match (out_text p @ err_text p)))"

definition ds_poll_once :: "env \<Rightarrow> string \<Rightarrow> div_tracker \<Rightarrow> div_tracker py" where
  "ds_poll_once E phase tr =
     py_bind time_time (\<lambda>now.
     py_bind (sample_all_nodes E WITNESS_CONTAINERS) (\<lambda>rs.
     py_return (absorb_round WITNESS_CONTAINERS (now - dt_start tr) phase rs tr)))"

definition ds_poll_for :: "env \<Rightarrow> rat \<Rightarrow> rat \<Rightarrow> string \<Rightarrow> div_tracker \<Rightarrow> div_tracker py" where
  "ds_poll_for E seconds interval phase tr =
     py_bind time_time (\<lambda>t0.
     py_bind
       (py_while (\<lambda>_ w. clock w < t0 + seconds)
          (\<lambda>tr. py_bind (ds_poll_once E phase tr) (\<lambda>tr'.
                py_then (time_sleep E interval) (py_return (Continue tr')))) tr)
       loop_state)"

text \<open>One pass over the witnesses whose evidence is still missing.\<close>

definition ds_scan :: "env \<Rightarrow> (string, evidence list) dict \<Rightarrow> (string, evidence list) dict py" where
  "ds_scan E found =
     py_fold (\<lambda>found c.
       if c \<in> set (dict_keys found) then py_return found
       else py_bind (scan_logs_for_evidence E c) (\<lambda>entries.
            py_return (if entries = [] then found else AList.update c entries found))) found WITNESS_CONTAINERS"

definition ds_wait :: "env \<Rightarrow> div_tracker \<Rightarrow> (div_tracker \<times> (string, evidence list) dict) py" where
  "ds_wait E tr =
     py_bind time_time (\<lambda>t0.
     py_bind
       (py_while (\<lambda>(tr, found) w. clock w < t0 + 300 \<and> length found < length WITNESS_CONTAINERS)
          (\<lambda>(tr, found).
             py_bind (ds_poll_once E ''double_signing'' tr) (\<lambda>tr'.
             py_bind (ds_scan E found) (\<lambda>found'.
             if length found' < length WITNESS_CONTAINERS
             then py_then (time_sleep E 5) (py_return (Continue (tr', found')))
             else py_return (Continue (tr', found'))))) (tr, []))
       loop_state)"

definition evidence_line :: "string \<Rightarrow> evidence \<Rightarrow> string result" where
  "evidence_line c e =
     (case e of (etype, validator, offense_h, detected_h) \<Rightarrow>
        rbind (py_int detected_h) (\<lambda>d. rbind (py_int offense_h) (\<lambda>o'.
        Inr (''- '' @ c @ '': type='' @ etype @ '' validator='' @ validator @ '' offense_height='' @ offense_h
             @ '' detected_at_height='' @ detected_h @ '' latency='' @ py_str_int (d - o') @ '' blocks'' @ NL))))"

definition evidence_lines :: "(string, evidence list) dict \<Rightarrow> string result" where
  "evidence_lines found =
     rbind (rmap_list (\<lambda>(c, e). evidence_line c e) (concat (map (\<lambda>(c, es). map (Pair c) es) found))) (\<lambda>ls. Inr (concat ls))"

definition double_sign_summary :: "env \<Rightarrow> rat \<Rightarrow> div_tracker \<Rightarrow> (string, evidence list) dict \<Rightarrow> string \<Rightarrow> string" where
  "double_sign_summary E elapsed tr found lines =
     ''# LIVE Double-signing detection test (E8 A9)'' @ NL @ NL
     @ ''Total duration: '' @ fmt_fixed 0 elapsed @ ''s. Witnesses: [''
     @ py_join '', '' (map repr_str WITNESS_CONTAINERS) @ ''].'' @ NL @ NL @ ''## Verdict'' @ NL @ NL
     @ ''- '' @ show_nat (length found) @ ''/'' @ show_nat (length WITNESS_CONTAINERS)
     @ '' witness nodes logged real `DuplicateVoteEvidence`: **'' @ py_bool (length found = length WITNESS_CONTAINERS) @ ''**'' @ NL
     @ ''- Safety held (3 honest witnesses' AppHash never diverged at the same height during or after the ''
     @ ''double-signing window): **'' @ py_bool (dt_events tr = []) @ ''**'' @ NL
     @ ''- Divergence events: '' @ show_nat (length (dt_events tr)) @ NL @ NL
     @ (if dt_events tr = [] then [] else divergence_detail E (dt_events tr) @ NL)
     @ ''## Detection latency'' @ NL @ NL @ lines"

definition double_signing_main :: "env \<Rightarrow> (div_tracker \<times> (string, evidence list) dict) py" where
  "double_signing_main E =
     py_bind (time_time) (\<lambda>t0.
     py_then (py_each (\<lambda>c. py_bind (scan_logs_for_evidence E c) (\<lambda>_. py_return ())) WITNESS_CONTAINERS)
     (py_bind (ds_poll_for E 15 3 ''baseline'' (new_div_tracker t0)) (\<lambda>tr1.
     py_bind (compute_persistent_peers E) (\<lambda>peers.
     py_then (start_duplicate E peers)
     (py_bind (ds_wait E tr1) (\<lambda>(tr2, found).
     py_then (stop_duplicate E)
     (py_bind (ds_poll_for E 30 3 ''recovery'' tr2) (\<lambda>tr3.
     py_bind (ts_label E) (\<lambda>label.
     py_then (write_csv E (dt_samples tr3) (path_join E8_RESULTS_DIR (''double_signing_'' @ label @ ''.csv'')))
     (py_bind (time_time) (\<lambda>now.
     py_bind (py_lift (evidence_lines found)) (\<lambda>lines.
     py_then (write_file E (path_join E8_RESULTS_DIR (''double_signing_'' @ label @ ''_summary.md''))
           (double_sign_summary E (now - dt_start tr3) tr3 found lines))
     (if found = [] then py_raise (Exn SystemExit ''1'') else py_return (tr3, found))))))))))))))"

section \<open>live_withdrawal_test.py\<close>

definition WITHDRAWAL_PAYLOAD :: string where
  "WITHDRAWAL_PAYLOAD = ''TX_WITHDRAWAL live-e8-a5-test-payload''"

definition submit_withdrawal_tx :: "env \<Rightarrow> string \<Rightarrow> proc py" where
  "submit_withdrawal_tx E node_url =
     run_proc E [''engramd'', ''tx-submit-forced-tx'', ''--node'', node_url, ''--payload'', WITHDRAWAL_PAYLOAD] False"

text \<open>\<^verbatim>\<open>compute_divergence\<close> groups all samples of the run by height; a later hash of a node replaces an
  earlier one at the same height. Rows are node, height and hash.\<close>

definition heights_seen :: "('n \<times> int \<times> 'h) list \<Rightarrow> (int, ('n, 'h) dict) dict" where
  "heights_seen rows =
     fold (\<lambda>(n, h, a) d. if h > 0 then AList.update h (AList.update n a (dict_get d h [])) d else d) rows []"

definition compute_divergence :: "('n \<times> int \<times> 'h) list \<Rightarrow> (int \<times> ('n, 'h) dict) list" where
  "compute_divergence rows = filter (\<lambda>(h, hs). divergent hs) (sort_key fst (heights_seen rows))"

definition sample_key :: "NodeSample \<Rightarrow> string \<times> int \<times> json" where
  "sample_key s = (node s, height s, app_hash s)"

definition withdrawal_poll_for ::
  "env \<Rightarrow> rat \<Rightarrow> rat \<Rightarrow> string option \<Rightarrow> NodeSample list \<Rightarrow> (bool \<times> NodeSample list) py" where
  "withdrawal_poll_for E seconds interval target ss =
     py_bind time_time (\<lambda>t0.
     py_bind
       (py_while (\<lambda>_ w. clock w < t0 + seconds)
          (\<lambda>ss. py_bind (sample_all_nodes E []) (\<lambda>rs.
             if (case target of None \<Rightarrow> False | Some st \<Rightarrow> all_in_state st rs) then py_return (Leave (ss @ rs))
             else py_then (time_sleep E interval) (py_return (Continue (ss @ rs))))) ss)
       (\<lambda>k. case k of Leave ss' \<Rightarrow> py_return (True, ss') | Continue ss' \<Rightarrow> py_return (False, ss')))"

definition height_detail :: "env \<Rightarrow> (int \<times> (string, json) dict) list \<Rightarrow> string" where
  "height_detail E events =
     concat (map (\<lambda>(h, hs). ''- height='' @ py_str_int h @ '': '' @ repr_hashes E hs @ NL) events)"

definition withdrawal_summary ::
  "env \<Rightarrow> rat \<Rightarrow> bool \<Rightarrow> rat \<Rightarrow> rat \<Rightarrow> proc \<Rightarrow> (int \<times> (string, json) dict) list \<Rightarrow> string" where
  "withdrawal_summary E elapsed reached t_start t_end p events =
     ''# LIVE withdrawal-during-SOVEREIGN test (E8 A5)'' @ NL @ NL
     @ ''Total duration: '' @ fmt_fixed 0 elapsed @ ''s. Reached SOVEREIGN before submitting: '' @ py_bool reached @ ''.'' @ NL @ NL
     @ ''## Withdrawal tx submission (t='' @ fmt_fixed 0 t_start @ ''s to t='' @ fmt_fixed 0 t_end @ ''s)'' @ NL @ NL
     @ ''- CLI exit code: '' @ py_str_int (returncode p) @ NL
     @ ''- stdout: `'' @ strip_ws (out_text p) @ ''`'' @ NL @ ''- stderr: `'' @ strip_ws (err_text p) @ ''`'' @ NL @ NL
     @ ''## Verdict'' @ NL @ NL
     @ ''- Withdrawal correctly blocked while SOVEREIGN (tx never committed, CLI did not report success): **''
     @ py_bool (returncode p \<noteq> 0) @ ''**'' @ NL
     @ ''- Safety held (all 4 validators' AppHash never diverged at the same height): **'' @ py_bool (events = []) @ ''**'' @ NL
     @ ''- Divergence events: '' @ show_nat (length events) @ NL @ NL
     @ (if events = [] then [] else ''### Divergence detail'' @ NL @ NL @ height_detail E events)
     @ ''Note: CheckTx admits the tx to the mempool successfully -- the real rejection happens at ProcessProposal ''
     @ ''(the whole proposal containing it is rejected), so the tx is withheld/pending rather than returning an ''
     @ ''explicit error code. A CLI timeout here is the expected, correct signal, not a script failure.'' @ NL"

definition withdrawal_run :: "env \<Rightarrow> (bool \<times> bool \<times> NodeSample list) py" where
  "withdrawal_run E =
     py_bind (time_time) (\<lambda>start.
     py_bind (withdrawal_poll_for E 15 3 None []) (\<lambda>(_, ss1).
     py_then (docker E [''stop'', CELESTIA_BRIDGE])
     (py_bind (withdrawal_poll_for E 150 3 (Some ''SOVEREIGN'') ss1) (\<lambda>(reached, ss2).
     py_bind (time_time) (\<lambda>t1.
     py_bind (submit_withdrawal_tx E NODE_URL) (\<lambda>p.
     py_bind (time_time) (\<lambda>t2.
     py_then (docker E [''start'', CELESTIA_BRIDGE])
     (py_bind (withdrawal_poll_for E 60 3 None ss2) (\<lambda>(_, ss3).
     py_bind (ts_label E) (\<lambda>label.
     py_then (write_csv E ss3 (path_join E8_RESULTS_DIR (''withdrawal_test_'' @ label @ ''.csv'')))
     (py_bind (time_time) (\<lambda>now.
     py_then (write_file E (path_join E8_RESULTS_DIR (''withdrawal_test_'' @ label @ ''_summary.md''))
           (withdrawal_summary E (now - start) reached (t1 - start) (t2 - start) p (compute_divergence (map sample_key ss3))))
     (py_return (reached, returncode p \<noteq> 0, ss3))))))))))))))"

text \<open>\<^verbatim>\<open>--from-csv\<close>: the verdict is recomputed from the raw samples of an earlier run and appended to its
  summary. A cell that is missing in a short row is \<^verbatim>\<open>None\<close>, whose conversion raises \<^verbatim>\<open>TypeError\<close>.\<close>

definition backfill_row :: "csv_dict \<Rightarrow> (string option \<times> int \<times> string option) result" where
  "backfill_row r =
     rbind (dict_item r ''node'') (\<lambda>n.
     rbind (case rbind (dict_item r ''height'') cell_int of
              Inr h \<Rightarrow> Inr h
            | Inl e \<Rightarrow> if caught_by [KeyError, ValueError] e then Inr (-1) else Inl e) (\<lambda>h.
     Inr (n, h, dict_get r ''app_hash'' (Some []))))"

definition repr_cell :: "string option \<Rightarrow> string" where
  "repr_cell c = (case c of None \<Rightarrow> ''None'' | Some s \<Rightarrow> repr_str s)"

definition verdict_block :: "(int \<times> (string option, string option) dict) list \<Rightarrow> string" where
  "verdict_block events =
     NL @ ''## Safety (backfilled from raw samples, no rerun)'' @ NL @ NL
     @ ''- Safety held (all 4 validators' AppHash never diverged at the same height): **'' @ py_bool (events = []) @ ''**'' @ NL
     @ ''- Divergence events: '' @ show_nat (length events) @ NL
     @ (if events = [] then []
        else NL @ ''### Divergence detail'' @ NL @ NL
          @ concat (map (\<lambda>(h, hs). ''- height='' @ py_str_int h @ '': {''
              @ py_join '', '' (map (\<lambda>(n, a). repr_cell n @ '': '' @ repr_cell a) hs) @ ''}'' @ NL) events))"

definition backfill_from_csv :: "env \<Rightarrow> string \<Rightarrow> unit py" where
  "backfill_from_csv E csv_path = py_bind (read_file csv_path) (\<lambda>raw.
     py_bind (py_lift (rmap_list backfill_row (csv_dicts raw))) (\<lambda>rows.
     (let summary_path = py_replace ''.csv'' ''_summary.md'' csv_path in
     py_bind (read_file summary_path) (\<lambda>existing.
     write_file E summary_path (rstrip_chars NL (universal_newlines existing) @ NL @ verdict_block (compute_divergence rows))))))"

definition withdrawal_main :: "env \<Rightarrow> string list \<Rightarrow> unit py" where
  "withdrawal_main E argv =
     (case argv of
        a # rest \<Rightarrow>
          if a = ''--from-csv'' then
            (case rest of [] \<Rightarrow> py_raise (Exn IndexError ''list index out of range'') | p # _ \<Rightarrow> backfill_from_csv E p)
          else py_bind (withdrawal_run E) (\<lambda>_. py_return ())
      | [] \<Rightarrow> py_bind (withdrawal_run E) (\<lambda>_. py_return ()))"


section \<open>The verdicts of the flood and of the censorship test\<close>

abbreviation rate_ok :: "'m rate_tracker_scheme \<Rightarrow> bool" where
  "rate_ok tr \<equiv> exact_verdict (dict_keys NODE_RPC_PORTS) HONEST_NODES (dt_events tr) (dt_samples tr)"

abbreviation rate_of :: "'m rate_tracker_scheme \<Rightarrow> string \<Rightarrow> rat" where
  "rate_of tr \<equiv> height_rate (rt_phase_heights tr)"

lemma rate_absorb_exact:
  "rate_ok tr \<Longrightarrow> map node rs = dict_keys NODE_RPC_PORTS \<Longrightarrow> rate_ok (rate_absorb HONEST_NODES t ph rs tr)"
  by (rule rate_div.exact_absorb) simp_all

lemma censor_poll_for_exact: "rate_ok tr \<Longrightarrow> yields (censor_poll_for E s i ph tr) rate_ok"
  unfolding censor_poll_for_def
  by (rule attack_poll_yields) (auto intro!: yields_return rate_absorb_exact)

lemma flood_step_exact:
  "rate_ok tr \<Longrightarrow> map node rs = dict_keys NODE_RPC_PORTS \<Longrightarrow> yields (flood_step E ph t rs tr) rate_ok"
  unfolding flood_step_def
  by (rule yields_bind [where P = rate_ok])
    (auto intro!: yields_return yields_effect rate_absorb_exact)

lemma flood_poll_for_exact: "rate_ok tr \<Longrightarrow> yields (flood_poll_for E s i ph tr) rate_ok"
  unfolding flood_poll_for_def by (rule attack_poll_yields) (auto intro: flood_step_exact)

lemma new_rate_trackers_ok: "rate_ok (new_rate_tracker t)" "rate_ok (new_flood_tracker b t)"
  by (simp_all add: new_rate_tracker_def new_flood_tracker_def exact_verdict_init)

lemma censorship_phases_exact: "yields (censorship_phases E) (\<lambda>(_, _, tr). rate_ok tr)"
  unfolding censorship_phases_def
  by (intro yields_effect [of _ _ time_time] yields_effect [of _ _ "build_target_tx_hex E"]
      yields_effect [of _ _ "time_strftime E f" for f] yields_then
      yields_bind [OF censor_poll_for_exact] new_rate_trackers_ok yields_return) auto

text \<open>C11. The flood test succeeds exactly if in no polling round two honest nodes were at the same
  height with different app hashes and the block rate under flood was at least half the baseline
  rate; the censorship test ends normally only if no round has such a conflict.\<close>

theorem flood_and_censorship_verdicts:
  shows "(flood_run E interval_ms flood_s recovery_s interval_s sample_stats w = Some (Inr (ok, tr), w') \<longrightarrow>
      (\<exists>rounds. rounds_of (dt_samples tr) rounds \<and>
        (ok \<longleftrightarrow> (\<forall>rs \<in> set rounds. \<forall>h. \<not> conflict HONEST_NODES rs h) \<and>
          (rate_of tr ''baseline'' \<le> 0 \<or> rate_of tr ''baseline'' / 2 \<le> rate_of tr ''flood'')))) \<and>
    (censorship_main E w = Some (Inr tr', w'') \<longrightarrow>
      (\<exists>rounds. rounds_of (dt_samples tr') rounds \<and> (\<forall>rs \<in> set rounds. \<forall>h. \<not> conflict HONEST_NODES rs h)))"
proof (intro conjI impI)
  assume r: "flood_run E interval_ms flood_s recovery_s interval_s sample_stats w = Some (Inr (ok, tr), w')"
  have "yields (flood_run E interval_ms flood_s recovery_s interval_s sample_stats)
      (\<lambda>(ok, tr). rate_ok tr \<and> (ok \<longleftrightarrow> dt_events tr = [] \<and> cadence_held (height_rate (rt_phase_heights tr) ''baseline'')
                      (height_rate (rt_phase_heights tr) ''flood'')))"
    unfolding flood_run_def
    by (rule yields_effect, rule yields_bind [OF flood_poll_for_exact], rule new_rate_trackers_ok,
        rule yields_effect, rule yields_then, rule yields_bind [OF flood_poll_for_exact], assumption,
        rule yields_effect, rule yields_then, rule yields_bind [OF flood_poll_for_exact], assumption)
      (intro yields_effect yields_then yields_return, simp)
  from yieldsD [OF this r] have ok: "rate_ok tr" "ok \<longleftrightarrow> dt_events tr = [] \<and>
      (rate_of tr ''baseline'' \<le> 0 \<or> rate_of tr ''baseline'' / 2 \<le> rate_of tr ''flood'')"
    by (auto simp: cadence_held_def)
  then show "\<exists>rounds. rounds_of (dt_samples tr) rounds \<and>
      (ok \<longleftrightarrow> (\<forall>rs \<in> set rounds. \<forall>h. \<not> conflict HONEST_NODES rs h) \<and>
        (rate_of tr ''baseline'' \<le> 0 \<or> rate_of tr ''baseline'' / 2 \<le> rate_of tr ''flood''))"
    unfolding exact_verdict_def rounds_of_def by metis
next
  assume r: "censorship_main E w = Some (Inr tr', w'')"
  have "yields (censorship_main E) (\<lambda>tr. rate_ok tr \<and> dt_events tr = [])"
    unfolding censorship_main_def
    by (rule yields_bind [OF censorship_phases_exact])
      (auto intro!: yields_effect yields_then yields_return yields_raise)
  from yieldsD [OF this r] show "\<exists>rounds. rounds_of (dt_samples tr') rounds \<and>
      (\<forall>rs \<in> set rounds. \<forall>h. \<not> conflict HONEST_NODES rs h)"
    unfolding exact_verdict_def rounds_of_def by metis
qed

section \<open>Every attack run ends\<close>

lemma attack_step_facts [total_intros, emits_intros]:
  "total (sample_docker_stats E cs)" "total (start_log_tail E c)" "total (stop_log_tail E h)"
  "total (enable_flood E k)" "total (disable_flood E)"
  "(\<And>a v r. S (RunProc a v r)) \<Longrightarrow> emits S (sample_docker_stats E cs)"
  unfolding sample_docker_stats_def start_log_tail_def stop_log_tail_def communicate_def enable_flood_def disable_flood_def
  by (intro total_intros emits_intros; simp)+

lemma flood_poll_total [total_intros]: "0 < i \<Longrightarrow> total (flood_poll_for E s i ph tr)"
  unfolding flood_poll_for_def flood_step_def
  by (intro total_intros emits_intros) simp_all

lemma censor_poll_total [total_intros]: "0 < i \<Longrightarrow> total (censor_poll_for E s i ph tr)"
  unfolding censor_poll_for_def by (intro total_intros emits_intros)

lemma censorship_step_total [total_intros]:
  "total (build_target_tx_hex E)" "total (register_forced_tx E h)" "total (broadcast_target_tx E h)"
  "total (enable_censorship E h)" "total (scan_logs_for_reject E c t)" "total (run_cli E args)"
  unfolding build_target_tx_hex_def register_forced_tx_def broadcast_target_tx_def enable_censorship_def
    scan_logs_for_reject_def run_cli_def
  by (intro total_intros)+

lemma ds_poll_once_total [total_intros]: "total (ds_poll_once E ph tr)"
  unfolding ds_poll_once_def by (intro total_intros)

lemma ds_poll_once_clock: "wp (ds_poll_once E ph tr) (\<lambda>_ w'. clock w \<le> clock w') (\<lambda>_ _. True) w"
  unfolding ds_poll_once_def wp_bind wp_time
  by (rule wp_mono [OF wp_sample_all_nodes]) (auto simp: wp_simps)

lemma ds_poll_total [total_intros]: "0 < i \<Longrightarrow> total (ds_poll_for E s i ph tr)"
  unfolding ds_poll_for_def loop_state_def
  by (intro total_intros deadline_while_total [where \<delta> = i], assumption)
    (auto intro!: wp_mono [OF ds_poll_once_clock] simp: wp_simps emit_def)

lemma scan_evidence_facts [total_intros, emits_intros]:
  "total (scan_logs_for_evidence E c)" "(\<And>a v r. S (RunProc a v r)) \<Longrightarrow> emits S (scan_logs_for_evidence E c)"
  unfolding scan_logs_for_evidence_def by (intro total_intros emits_intros; simp)+

lemma ds_scan_facts [total_intros, emits_intros]:
  "total (ds_scan E found)" "(\<And>a v r. S (RunProc a v r)) \<Longrightarrow> emits S (ds_scan E found)"
  unfolding ds_scan_def by (intro total_intros emits_intros; simp)+

lemma ds_wait_total [total_intros]: "total (ds_wait E tr)"
  unfolding ds_wait_def
proof (intro total_intros guarded_while_total [where \<delta> = 5])
  fix t0 and s :: "div_tracker \<times> (string, evidence list) dict" and w :: world
  obtain tr found where s: "s = (tr, found)" by (cases s)
  have scan: "wp (ds_scan E found) (\<lambda>_ v'. clock v \<le> clock v') (\<lambda>_ _. True) v" for v
    by (rule wp_mono [OF wp_emits [OF ds_scan_facts(2)]]) (auto dest: grows_clock)
  have sc: "wp (ds_scan E found) (\<lambda>found' v'. length found' < length WITNESS_CONTAINERS \<longrightarrow>
      clock w + 5 \<le> clock (emit E (Slept 5) 5 v')) (\<lambda>_ _. True) v" if "clock w \<le> clock v" for v
    by (rule wp_mono [OF scan]) (use that in \<open>auto simp: emit_def\<close>)
  show "wp (case s of (tr, found) \<Rightarrow> py_bind (ds_poll_once E ''double_signing'' tr) (\<lambda>tr'. py_bind (ds_scan E found) (\<lambda>found'.
      if length found' < length WITNESS_CONTAINERS then py_then (time_sleep E 5) (py_return (Continue (tr', found')))
      else py_return (Continue (tr', found')))))
     (\<lambda>k w'. case k of Continue s' \<Rightarrow> clock w + 5 \<le> clock w' \<or>
        \<not> (case s' of (tr, found) \<Rightarrow> \<lambda>w. clock w < t0 + 300 \<and> length found < length WITNESS_CONTAINERS) w'
      | Leave (_ :: unit) \<Rightarrow> True) (\<lambda>_ _. True) w"
    unfolding s prod.case wp_bind
    by (rule wp_mono [OF ds_poll_once_clock], rule wp_mono [OF sc], assumption) (auto simp: wp_simps)
qed auto

lemma double_sign_step_total [total_intros]:
  "total (compute_persistent_peers E)" "total (start_duplicate E p)" "total (stop_duplicate E)"
  unfolding compute_persistent_peers_def start_duplicate_def stop_duplicate_def stage_duplicate_identity_def Let_def copy_file_def
  by (intro total_intros)+

lemma withdrawal_poll_total [total_intros]: "0 < i \<Longrightarrow> total (withdrawal_poll_for E s i target ss)"
  unfolding withdrawal_poll_for_def
  by (intro total_intros deadline_while_total [where \<delta> = i], assumption)
    (auto intro!: wp_mono [OF wp_sample_all_nodes] simp: wp_simps emit_def)

lemma censorship_main_total: "total (censorship_main E)"
  unfolding censorship_main_def censorship_phases_def by (intro total_intros) simp_all

lemma flood_run_total: "0 < i \<Longrightarrow> total (flood_run E k s r i b)"
  unfolding flood_run_def by (intro total_intros)

lemma double_signing_main_total: "total (double_signing_main E)"
  unfolding double_signing_main_def by (intro total_intros) simp_all

lemma withdrawal_run_total: "total (withdrawal_run E)"
  unfolding withdrawal_run_def submit_withdrawal_tx_def by (intro total_intros) simp_all

lemma attack_mains_total:
  "total (withdrawal_main E argv)" "total (combined_main E)"
  "0 < i \<Longrightarrow> total (byzantine_main E scenario all_scenarios a r i)"
  "0 < i \<Longrightarrow> total (flood_main E interval_ms f r i sample_stats)"
  unfolding withdrawal_main_def backfill_from_csv_def Let_def combined_main_def combined_phases_def
    byzantine_main_def run_scenario_def byzantine_phases_def flood_main_def
  by (intro total_intros withdrawal_run_total flood_run_total; simp)+

section \<open>Double signing\<close>

abbreviation ds_ok :: "div_tracker \<Rightarrow> bool" where
  "ds_ok tr \<equiv> exact_verdict WITNESS_CONTAINERS WITNESS_CONTAINERS (dt_events tr) (dt_samples tr)"

lemma wp_ds_poll_once: "ds_ok tr \<Longrightarrow> wp (ds_poll_once E ph tr) (\<lambda>tr' _. ds_ok tr') (\<lambda>_ _. True) w"
  unfolding ds_poll_once_def wp_bind wp_time
  by (rule wp_mono [OF wp_sample_all_nodes])
    (auto simp: wp_simps node_list_def WITNESS_CONTAINERS_def intro!: plain_div.exact_absorb)

lemma ds_poll_for_exact: "ds_ok tr \<Longrightarrow> yields (ds_poll_for E s i ph tr) ds_ok"
  unfolding ds_poll_for_def
  by (rule yields_wp, unfold wp_bind wp_time, rule wp_while [where I = "\<lambda>tr _. ds_ok tr"])
    (auto simp: loop_state_def wp_simps intro!: wp_mono [OF wp_ds_poll_once])

text \<open>The table of evidence: witnesses only, one entry each, never empty.\<close>

definition evidence_ok :: "(string, evidence list) dict \<Rightarrow> bool" where
  "evidence_ok found \<longleftrightarrow> distinct (dict_keys found) \<and> set (dict_keys found) \<subseteq> set WITNESS_CONTAINERS \<and> [] \<notin> set (dict_values found)"

lemma evidence_ok_update:
  "evidence_ok found \<Longrightarrow> c \<in> set WITNESS_CONTAINERS \<Longrightarrow> es \<noteq> [] \<Longrightarrow> c \<notin> set (dict_keys found) \<Longrightarrow> evidence_ok (AList.update c es found)"
  by (auto simp: evidence_ok_def dict_keys_def dict_values_def update_fresh)

lemma wp_ds_scan: "evidence_ok found \<Longrightarrow> wp (ds_scan E found) (\<lambda>found' _. evidence_ok found') (\<lambda>_ _. True) w"
  unfolding ds_scan_def
  by (rule wp_fold [where I = "\<lambda>_ found _. evidence_ok found"])
    (auto simp: wp_simps scan_logs_for_evidence_def intro: evidence_ok_update split: sum.splits)

lemma ds_wait_exact: "ds_ok tr \<Longrightarrow> yields (ds_wait E tr) (\<lambda>(tr, found). ds_ok tr \<and> evidence_ok found)"
  unfolding ds_wait_def
  by (rule yields_wp, unfold wp_bind wp_time,
      rule wp_while [where I = "\<lambda>(tr, found) _. ds_ok tr \<and> evidence_ok found"])
    (auto simp: loop_state_def wp_simps evidence_ok_def [of "[]"] dict_keys_def dict_values_def
      intro!: wp_mono [OF wp_ds_poll_once] wp_mono [OF wp_ds_scan])

text \<open>A double-signing run that ends normally sampled complete rounds of the three witnesses, its
  divergence log is empty exactly if no round has a conflict among them, and it has found evidence:
  the table holds at least one witness, only witnesses, each once, and no empty list of evidence.
  A divergence does not make the run fail.\<close>

theorem double_signing_verdict:
  assumes "double_signing_main E w = Some (Inr (tr, found), w')"
  shows "\<exists>rounds. dt_samples tr = concat rounds \<and> (\<forall>rs \<in> set rounds. map node rs = WITNESS_CONTAINERS) \<and>
    (dt_events tr = [] \<longleftrightarrow> (\<forall>rs \<in> set rounds. \<forall>h. \<not> conflict WITNESS_CONTAINERS rs h)) \<and>
    found \<noteq> [] \<and> evidence_ok found"
proof -
  have "yields (double_signing_main E) (\<lambda>(tr, found). ds_ok tr \<and> found \<noteq> [] \<and> evidence_ok found)"
    unfolding double_signing_main_def
    by (rule yields_effect, rule yields_then, rule yields_bind [OF ds_poll_for_exact],
        simp add: new_div_tracker_def exact_verdict_init, rule yields_effect, rule yields_then,
        rule yields_bind [OF ds_wait_exact], assumption, rule yields_split, rule yields_then,
        rule yields_bind [OF ds_poll_for_exact], simp)
      (intro yields_effect yields_then, auto intro!: yields_return yields_raise)
  from yieldsD [OF this assms] show ?thesis unfolding exact_verdict_def by auto
qed

text \<open>A cluster in which every witness has logged the same piece of evidence.\<close>

definition evidence_log :: string where
  "evidence_log = ''SLASHABLE EVIDENCE DETECTED type=DUPLICATE_VOTE validator=AB12 offense_height=5 detected_at_height=7''"

definition status_text :: string where
  "status_text = ''{'' @ [CHR 0x22] @ ''result'' @ [CHR 0x22] @ '':{'' @ [CHR 0x22] @ ''node_info'' @ [CHR 0x22] @ '':{'' @ [CHR 0x22]
     @ ''id'' @ [CHR 0x22] @ '':'' @ [CHR 0x22] @ ''ab'' @ [CHR 0x22] @ ''}}}''"

definition evidence_env :: env where
  "evidence_env = static_env (\<lambda>_ _. Inl (Exn URLError []))
     (\<lambda>argv _. Inr \<lparr>returncode = 0, out_text = (if hd argv = ''curl'' then status_text else evidence_log), err_text = []\<rparr>)"

definition evidence_world :: world where
  "evidence_world = start_world\<lparr>fs := (\<lambda>p. if p \<in> {REAL_NODE04_KEY, REAL_GENESIS} then Some ''{}'' else None)\<rparr>"

lemma evidence_log_found: "find_all evidence_match evidence_log = [(''DUPLICATE_VOTE'', ''AB12'', ''5'', ''7'')]"
  by code_simp

lemma status_text_id:
  "rbind (json_loads status_text) (\<lambda>j. rbind (json_item j ''result'') (\<lambda>r. rbind (json_item r ''node_info'') (\<lambda>i. json_item i ''id'')))
     = Inr (JStr ''ab'')"
  by code_simp

abbreviation all_evidence :: "(string, evidence list) dict" where
  "all_evidence \<equiv> map (\<lambda>c. (c, [(''DUPLICATE_VOTE'', ''AB12'', ''5'', ''7'')])) WITNESS_CONTAINERS"

lemma evidence_poll_once: "quiet (ds_poll_once evidence_env ph tr)"
  unfolding ds_poll_once_def
  by (intro quiet_intros sample_nodes_quiet [of _ "[]"])
    (auto simp: evidence_env_def WITNESS_CONTAINERS_def dict_keys_def NODE_RPC_PORTS_def)

lemma evidence_scan: "wp (ds_scan evidence_env []) (\<lambda>found _. found = all_evidence) (\<lambda>_ _. False) w"
  by (simp add: ds_scan_def WITNESS_CONTAINERS_def scan_logs_for_evidence_def evidence_env_def evidence_log_found
      wp_simps dict_keys_def)

lemma evidence_wait: "wp (ds_wait evidence_env tr) (\<lambda>(_, found) _. found = all_evidence) (\<lambda>_ _. False) w"
  unfolding ds_wait_def wp_bind wp_time
  by (rule wp_while [where I = "\<lambda>(_, found) v. found = [] \<and> clock v = clock w \<or> found = all_evidence"])
    (auto simp: loop_state_def wp_simps WITNESS_CONTAINERS_def
      intro!: wp_mono [OF quiet_wp [OF evidence_poll_once]] wp_mono [OF evidence_scan])

lemma evidence_poll_for: "quiet (ds_poll_for evidence_env s 3 ph tr)" "keeps_fs (ds_poll_for evidence_env s 3 ph tr)"
proof -
  show "keeps_fs (ds_poll_for evidence_env s 3 ph tr)"
    unfolding ds_poll_for_def ds_poll_once_def loop_state_def by (intro keeps_intros)
  have "wp (py_bind (ds_poll_once evidence_env ph tr) (\<lambda>tr'. py_then (time_sleep evidence_env 3) (py_return (Continue tr' :: (_, unit) ctl))))
      (\<lambda>k _. \<exists>s'. k = Continue s') (\<lambda>_ _. False) w" for tr w
    unfolding wp_bind by (rule wp_mono [OF quiet_wp [OF evidence_poll_once]]) (simp_all add: wp_simps)
  then show "quiet (ds_poll_for evidence_env s 3 ph tr)"
    unfolding ds_poll_for_def by (intro quiet_bind quiet_simps quiet_loop)
qed

lemma evidence_scan_quiet: "quiet (scan_logs_for_evidence evidence_env c)" "keeps_fs (scan_logs_for_evidence evidence_env c)"
  unfolding scan_logs_for_evidence_def by (intro quiet_intros keeps_intros; simp add: evidence_env_def)+

lemma evidence_peers: "quiet (compute_persistent_peers evidence_env)" "keeps_fs (compute_persistent_peers evidence_env)"
proof -
  show "keeps_fs (compute_persistent_peers evidence_env)"
    unfolding compute_persistent_peers_def by (intro keeps_intros)
  show "quiet (compute_persistent_peers evidence_env)"
    by (simp add: quiet_def compute_persistent_peers_def wp_simps evidence_env_def dict_item_def status_text_id)
qed

lemma evidence_start:
  assumes "fs w = fs evidence_world"
  shows "wp (start_duplicate evidence_env peers) (\<lambda>_ _. True) (\<lambda>_ _. False) w"
proof -
  have paths: "\<not> prefix (path_join DUPLICATE_HOME d @ ''/'') p" if "p \<in> {REAL_NODE04_KEY, REAL_GENESIS}" "d \<in> {''config'', ''data''}" for p d
    using that by (auto simp: REAL_NODE04_KEY_def REAL_GENESIS_def DUPLICATE_HOME_def path_join_def)
  show ?thesis
    using assms paths
    by (auto simp: start_duplicate_def stage_duplicate_identity_def copy_file_def wp_simps evidence_env_def evidence_world_def
        emit_def Let_def split: option.splits)
qed

lemma double_signing_runs: "\<exists>r w'. double_signing_main evidence_env evidence_world = Some (Inr r, w')"
proof -
  have "case evidence_lines all_evidence of Inl _ \<Rightarrow> False | Inr _ \<Rightarrow> True" by code_simp
  then obtain ls where lines: "evidence_lines all_evidence = Inr ls" by (auto split: sum.splits)
  have ne: "WITNESS_CONTAINERS \<noteq> []" by (simp add: WITNESS_CONTAINERS_def)
  have tail: "quiet (py_then (stop_duplicate evidence_env) (py_bind (ds_poll_for evidence_env 30 3 ''recovery'' tr2) (\<lambda>tr3.
      py_bind (ts_label evidence_env) (\<lambda>label.
      py_then (write_csv evidence_env (dt_samples tr3) (path_join E8_RESULTS_DIR (''double_signing_'' @ label @ ''.csv'')))
      (py_bind time_time (\<lambda>now. py_bind (py_lift (evidence_lines all_evidence)) (\<lambda>lines.
      py_then (write_file evidence_env (path_join E8_RESULTS_DIR (''double_signing_'' @ label @ ''_summary.md''))
         (double_sign_summary evidence_env (now - dt_start tr3) tr3 all_evidence lines))
      (if all_evidence = [] then py_raise (Exn SystemExit ''1'') else py_return (tr3, all_evidence)))))))))" for tr2
    unfolding stop_duplicate_def write_csv_def
    by (intro quiet_intros evidence_poll_for; simp add: evidence_env_def lines ne)
  have "wp (double_signing_main evidence_env) (\<lambda>_ _. True) (\<lambda>_ _. False) evidence_world"
    unfolding double_signing_main_def wp_bind wp_then wp_time
    by (rule wp_mono [OF quiet_keeps [OF _ _ refl]], intro quiet_intros evidence_scan_quiet,
        intro keeps_intros evidence_scan_quiet,
        rule wp_mono [OF quiet_keeps [OF evidence_poll_for]], assumption,
        rule wp_mono [OF quiet_keeps [OF evidence_peers]], assumption,
        rule wp_mono [OF evidence_start], assumption, rule wp_mono [OF evidence_wait])
      (auto simp only: split_paired_all prod.case intro!: quiet_wp [OF tail])
  then show ?thesis using double_signing_main_total by (rule wp_returns)
qed

theorem double_signing_verdict_witness:
  "\<exists>tr found w'. double_signing_main evidence_env evidence_world = Some (Inr (tr, found), w') \<and> found \<noteq> [] \<and> evidence_ok found \<and>
    (\<exists>rounds. dt_samples tr = concat rounds \<and> (dt_events tr = [] \<longleftrightarrow> (\<forall>rs \<in> set rounds. \<forall>h. \<not> conflict WITNESS_CONTAINERS rs h)))"
proof -
  obtain tr found w' where w: "double_signing_main evidence_env evidence_world = Some (Inr (tr, found), w')"
    using double_signing_runs by (metis surj_pair)
  from double_signing_verdict [OF w] w show ?thesis by blast
qed

section \<open>Withdrawals: the check over a whole run\<close>

text \<open>The specification: the last hash that a node reported at a height.\<close>

definition last_at :: "('n \<times> int \<times> 'h) list \<Rightarrow> int \<Rightarrow> 'n \<Rightarrow> 'h option" where
  "last_at rows h n = map_of (rev (map (\<lambda>(n, h, a). ((h, n), a)) rows)) (h, n)"

lemma last_at_snoc:
  "last_at (rows @ [(n, h, a)]) h' n' = (if n' = n \<and> h' = h then Some a else last_at rows h' n')"
  by (auto simp: last_at_def)

lemma heights_seen_snoc:
  "heights_seen (rows @ [(n, h, a)]) =
     (if 0 < h then AList.update h (AList.update n a (dict_get (heights_seen rows) h [])) (heights_seen rows) else heights_seen rows)"
  by (simp add: heights_seen_def)

lemma heights_seen_invar:
  "distinct (map fst (heights_seen rows)) \<and>
   (\<forall>h. distinct (map fst (dict_get (heights_seen rows) h [])) \<and>
     map_of (dict_get (heights_seen rows) h []) = (if 0 < h then last_at rows h else (\<lambda>_. None)))"
proof (induction rows rule: rev_induct)
  case Nil
  then show ?case by (auto simp: heights_seen_def dict_get_def last_at_def)
next
  case (snoc r rows)
  obtain n h a where r: "r = (n, h, a)" by (cases r)
  have get: "dict_get (AList.update h v d) h' [] = (if h' = h then v else dict_get d h' [])" for v h' and d :: "(int, ('a, 'b) dict) dict"
    by (simp add: dict_get_def update_conv')
  show ?case
    using snoc.IH by (auto simp: r heights_seen_snoc get last_at_snoc distinct_update update_conv' fun_eq_iff)
qed

lemma divergent_map_of:
  assumes "distinct (map fst hs)"
  shows "divergent hs \<longleftrightarrow> (\<exists>n n' a a'. map_of hs n = Some a \<and> map_of hs n' = Some a' \<and> a \<noteq> a')"
  using assms unfolding divergent_iff by (force simp: map_of_eq_Some_iff image_iff)

lemma compute_divergence_sorted: "sorted_wrt (<) (map fst (compute_divergence rows))"
proof -
  have "distinct (map fst (heights_seen rows))" using heights_seen_invar by blast
  then have "distinct (map fst (sort_key fst (heights_seen rows)))" by (simp add: distinct_map)
  moreover have "sorted (map fst (sort_key fst (heights_seen rows)))" by simp
  ultimately show ?thesis
    unfolding compute_divergence_def by (simp add: strict_sorted_iff sorted_filter distinct_map_filter)
qed

lemma compute_divergence_heights:
  "h \<in> set (map fst (compute_divergence rows)) \<longleftrightarrow>
     0 < h \<and> (\<exists>n n' a a'. last_at rows h n = Some a \<and> last_at rows h n' = Some a' \<and> a \<noteq> a')"
proof -
  let ?d = "heights_seen rows"
  have d: "distinct (map fst ?d)" using heights_seen_invar by blast
  have "h \<in> set (map fst (compute_divergence rows)) \<longleftrightarrow> divergent (dict_get ?d h [])"
  proof (cases "map_of ?d h")
    case None
    then have "h \<notin> fst ` set ?d" by (simp add: map_of_eq_None_iff)
    with None show ?thesis by (auto simp: compute_divergence_def dict_get_def divergent_def image_iff)
  next
    case (Some hs)
    then have "(h, hs') \<in> set ?d \<longleftrightarrow> hs' = hs" for hs' using d by (metis map_of_eq_Some_iff option.inject)
    with Some show ?thesis by (auto simp: compute_divergence_def dict_get_def image_iff)
  qed
  also have "\<dots> \<longleftrightarrow> (\<exists>n n' a a'. map_of (dict_get ?d h []) n = Some a \<and> map_of (dict_get ?d h []) n' = Some a' \<and> a \<noteq> a')"
    by (rule divergent_map_of) (use heights_seen_invar in blast)
  also have "\<dots> \<longleftrightarrow> 0 < h \<and> (\<exists>n n' a a'. last_at rows h n = Some a \<and> last_at rows h n' = Some a' \<and> a \<noteq> a')"
    using heights_seen_invar [of rows] by auto
  finally show ?thesis .
qed

text \<open>C12. The check of the withdrawal test covers the whole run: it reports a height, once and in
  ascending order, exactly if the last app hashes that two nodes showed at this positive height,
  in any rounds, differ.\<close>

theorem compute_divergence_exact:
  "sorted_wrt (<) (map fst (compute_divergence rows)) \<and>
   set (map fst (compute_divergence rows)) =
     {h. 0 < h \<and> (\<exists>n n' a a'. last_at rows h n = Some a \<and> last_at rows h n' = Some a' \<and> a \<noteq> a')}"
  using compute_divergence_sorted compute_divergence_heights by blast

section \<open>Withdrawals: recomputing the verdict from the written samples\<close>

definition sample_cells :: "NodeSample \<Rightarrow> string option \<times> int \<times> string option" where
  "sample_cells s = (Some (node s), height s, (case app_hash s of JStr a \<Rightarrow> Some a | _ \<Rightarrow> None))"

lemma backfill_row_sample:
  "app_hash s = JStr a \<Longrightarrow> backfill_row (zip SAMPLE_FIELDS (map Some (sample_row E s))) = Inr (sample_cells s)"
  by (simp add: backfill_row_def SAMPLE_FIELDS_def sample_row_def dict_item_def cell_int_def py_int_of_str dict_get_def
      sample_cells_def)

lemma last_at_sample_cells:
  assumes "\<forall>s \<in> set ss. \<exists>a. app_hash s = JStr a"
  shows "last_at (map sample_key ss) h n = map_option (\<lambda>c. JStr (the c)) (last_at (map sample_cells ss) h (Some n))"
  using assms
proof (induction ss rule: rev_induct)
  case Nil
  then show ?case by (simp add: last_at_def)
next
  case (snoc s ss)
  then show ?case by (auto simp: sample_key_def [of s] sample_cells_def [of s] last_at_snoc)
qed

lemma last_at_cells_Some:
  assumes "\<forall>s \<in> set ss. \<exists>a. app_hash s = JStr a"
  shows "last_at (map sample_cells ss) h n = Some c \<Longrightarrow> \<exists>m x. n = Some m \<and> c = Some x"
  using assms
proof (induction ss rule: rev_induct)
  case Nil
  then show ?case by (simp add: last_at_def)
next
  case (snoc s ss)
  then show ?case by (auto simp: sample_cells_def [of s] last_at_snoc split: if_splits)
qed

lemma compute_divergence_cells:
  assumes "\<forall>s \<in> set ss. \<exists>a. app_hash s = JStr a"
  shows "map fst (compute_divergence (map sample_cells ss)) = map fst (compute_divergence (map sample_key ss))"
proof -
  have "(\<exists>n n' a a'. last_at (map sample_cells ss) h n = Some a \<and> last_at (map sample_cells ss) h n' = Some a' \<and> a \<noteq> a') \<longleftrightarrow>
      (\<exists>n n' a a'. last_at (map sample_key ss) h n = Some a \<and> last_at (map sample_key ss) h n' = Some a' \<and> a \<noteq> a')"
    (is "?L \<longleftrightarrow> ?R") for h
  proof
    assume ?L
    then obtain n n' a a' where r: "last_at (map sample_cells ss) h n = Some a" "last_at (map sample_cells ss) h n' = Some a'" "a \<noteq> a'"
      by blast
    from last_at_cells_Some [OF assms r(1)] last_at_cells_Some [OF assms r(2)]
    obtain m x m' x' where "n = Some m" "a = Some x" "n' = Some m'" "a' = Some x'" by blast
    with r show ?R unfolding last_at_sample_cells [OF assms]
      by (intro exI [of _ m] exI [of _ m'] exI [of _ "JStr x"] exI [of _ "JStr x'"]) simp
  next
    assume ?R
    then show ?L unfolding last_at_sample_cells [OF assms] by fastforce
  qed
  then have "set (map fst (compute_divergence (map sample_cells ss))) = set (map fst (compute_divergence (map sample_key ss)))"
    by (auto simp only: set_eq_iff compute_divergence_heights)
  then show ?thesis
    using compute_divergence_sorted [of "map sample_cells ss"] compute_divergence_sorted [of "map sample_key ss"]
    by (simp add: strict_sorted_iff sorted_distinct_set_unique)
qed

text \<open>C13. Recomputing the verdict of a run from the CSV file it wrote gives the run's own verdict: for samples
  whose app hashes are text, \<^verbatim>\<open>--from-csv\<close> appends to the summary a block computed from a table with the
  same divergent heights as the samples in memory.\<close>

theorem backfill_agrees_with_run:
  assumes "\<forall>s \<in> set ss. \<exists>a. app_hash s = JStr a"
    and "fs w csv_path = Some (samples_csv E ss)" "fs w (py_replace ''.csv'' ''_summary.md'' csv_path) = Some existing"
  shows "\<exists>events w'. withdrawal_main E [''--from-csv'', csv_path] w = Some (Inr (), w') \<and>
    map fst events = map fst (compute_divergence (map sample_key ss)) \<and>
    fs w' (py_replace ''.csv'' ''_summary.md'' csv_path) =
      Some (rstrip_chars NL (universal_newlines existing) @ NL @ verdict_block events)"
proof -
  have "rmap_list backfill_row (csv_dicts (samples_csv E ss)) = Inr (map sample_cells ss)"
    unfolding samples_csv_dicts
    using assms(1) by (subst rmap_list_Inr [where g = "\<lambda>r. case backfill_row r of Inr x \<Rightarrow> x | Inl _ \<Rightarrow> undefined"])
      (auto simp: backfill_row_sample)
  then show ?thesis
    using assms compute_divergence_cells [OF assms(1)]
    by (intro exI [of _ "compute_divergence (map sample_cells ss)"])
      (simp add: withdrawal_main_def backfill_from_csv_def py_bind_def read_file_def py_lift_def Let_def write_file_def)
qed

definition backfill_world :: world where
  "backfill_world = start_world\<lparr>fs := [''r.csv'' \<mapsto> samples_csv finished_env [seen ''engram-node01'' 5 ''AA'', seen ''engram-node02'' 5 ''BB''],
     ''r_summary.md'' \<mapsto> ''# run'' @ NL]\<rparr>"

theorem backfill_agrees_with_run_witness:
  "\<exists>events w'. withdrawal_main finished_env [''--from-csv'', ''r.csv''] backfill_world = Some (Inr (), w') \<and>
     map fst events = [5] \<and> fs w' ''r_summary.md'' = Some (''# run'' @ NL @ verdict_block events)"
proof -
  have p: "py_replace ''.csv'' ''_summary.md'' ''r.csv'' = ''r_summary.md''" by code_simp
  have "map fst (compute_divergence (map sample_key [seen ''engram-node01'' 5 ''AA'', seen ''engram-node02'' 5 ''BB''])) = [5]"
    by code_simp
  moreover have "rstrip_chars NL (universal_newlines (''# run'' @ NL)) @ NL = ''# run'' @ NL" by code_simp
  ultimately show ?thesis
    using backfill_agrees_with_run [of "[seen ''engram-node01'' 5 ''AA'', seen ''engram-node02'' 5 ''BB'']" backfill_world "''r.csv''"
        finished_env "''# run'' @ NL"]
    by (simp add: p seen_def backfill_world_def del: append.simps)
qed

lemma finished_flood_quiet: "quiet (flood_run finished_env k s r 3 b)"
proof -
  have "quiet (flood_step finished_env ph t rs tr)" for ph t rs tr
    unfolding flood_step_def sample_docker_stats_def by (intro quiet_intros) (simp add: finished_docker_def)
  then have "quiet (flood_poll_for finished_env s 3 ph tr)" for s ph tr
    unfolding flood_poll_for_def by (intro attack_poll_quiet [of _ "[]"]) simp_all
  then show ?thesis
    unfolding flood_run_def start_log_tail_def stop_log_tail_def communicate_def enable_flood_def disable_flood_def
      disable_byzantine_def write_csv_def
    by (intro quiet_intros) (simp_all add: finished_docker_def)
qed

theorem flood_and_censorship_verdicts_witness:
  "\<exists>ok tr w' rounds. flood_run finished_env 50 60 30 3 True start_world = Some (Inr (ok, tr), w') \<and> rounds_of (dt_samples tr) rounds \<and>
    (ok \<longleftrightarrow> (\<forall>rs \<in> set rounds. \<forall>h. \<not> conflict HONEST_NODES rs h) \<and>
       (rate_of tr ''baseline'' \<le> 0 \<or> rate_of tr ''baseline'' / 2 \<le> rate_of tr ''flood''))"
proof -
  have "total (flood_run finished_env 50 60 30 3 True)" by (rule flood_run_total) simp
  then obtain ok tr w' where w: "flood_run finished_env 50 60 30 3 True start_world = Some (Inr (ok, tr), w')"
    using quiet_returns [OF finished_flood_quiet] by (metis surj_pair)
  with flood_and_censorship_verdicts [of finished_env 50 60 30 3 True start_world ok tr w'] show ?thesis by auto
qed

section \<open>Memory figures of docker stats\<close>

text \<open>A figure in bytes is taken for one in GiB: the branch for everything that is not MiB strips any of
  the letters of the unit.\<close>

lemma parse_mem_examples:
  "parse_mem ''73.86MiB / 768MiB'' = Inr (7386 / 100)" "parse_mem ''1.5GiB / 2GiB'' = Inr 1536"
  "parse_mem ''512B / 768MiB'' = Inr (512 * 1024)"
  by (simp_all add: parse_mem_def py_float_def strip_ws_def lstrip_ws_def rstrip_ws_def rstrip_chars_def contains_def
      exponent_def scale10_def digits_value_def is_digit_def is_space_def code_of_def Let_def sublist_Cons_right)

end
