(* ===== verification/P2p_Attacks.thy ===== *)
theory P2p_Attacks
  imports Attack_Runs Hysteresis "HOL-Library.List_Lexorder" "HOL-Library.Char_ord"
begin

text \<open>
  The live P2P attacks of \<^verbatim>\<open>scripts/e4_p2p_eclipse_detection/\<close>: the churn attack (\<^verbatim>\<open>live_churn_attack.py\<close>) and the
  relay-latency attack (\<^verbatim>\<open>live_relay_latency_attack.py\<close>), which share a tracker of the nodes' states per phase.
  Shown here: what their verdicts say about the sampled rounds, that the attackers and the network delays they
  set up are taken down again, and that the retried \<^verbatim>\<open>docker compose up\<close> makes at most three attempts.
\<close>

definition E4_RESULTS_DIR :: string where
  "E4_RESULTS_DIR = ''scripts/e4_p2p_eclipse_detection/results_live''"

section \<open>The tracker of states per phase\<close>

text \<open>A row of the timeline: time, phase and the states of the nodes.\<close>

type_synonym state_row = "rat \<times> string \<times> (string, string) dict"

record state_tracker =
  st_start :: rat
  st_rows :: "state_row list"
  st_samples :: "NodeSample list"

definition new_state_tracker :: "rat \<Rightarrow> state_tracker" where
  "new_state_tracker t = \<lparr>st_start = t, st_rows = [], st_samples = []\<rparr>"

text \<open>\<^verbatim>\<open>round(t, 1)\<close>\<close>

definition round1 :: "rat \<Rightarrow> rat" where
  "round1 x = of_int (round_half_even (x * 10)) / 10"

definition state_poll_once :: "string \<Rightarrow> rat \<Rightarrow> NodeSample list \<Rightarrow> state_tracker \<Rightarrow> state_tracker" where
  "state_poll_once phase t samples tr =
     tr\<lparr>st_samples := st_samples tr @ samples,
        st_rows := st_rows tr @ [(round1 t, phase, dict_of node fsm_state samples)]\<rparr>"

definition state_step :: "string \<Rightarrow> rat \<Rightarrow> NodeSample list \<Rightarrow> state_tracker \<Rightarrow> state_tracker py" where
  "state_step phase t samples tr = py_return (state_poll_once phase t samples tr)"

definition state_poll_for :: "env \<Rightarrow> rat \<Rightarrow> rat \<Rightarrow> string \<Rightarrow> state_tracker \<Rightarrow> state_tracker py" where
  "state_poll_for E seconds interval phase tr = attack_poll (state_step phase) E (st_start tr) seconds interval tr"

text \<open>\<^verbatim>\<open>{s for r in tr.rows if r["phase"] == phase for s in r["states"].values() if s}\<close>\<close>

definition phase_states :: "string \<Rightarrow> state_row list \<Rightarrow> string list" where
  "phase_states phase rows =
     remdups (concat (map (\<lambda>(t, p, states). if p = phase then filter (\<lambda>s. s \<noteq> []) (dict_values states) else []) rows))"

definition final_states :: "state_row list \<Rightarrow> (string, string) dict" where
  "final_states rows = (if rows = [] then [] else snd (snd (last rows)))"

definition fsm_deviated :: "string list \<Rightarrow> string list \<Rightarrow> bool" where
  "fsm_deviated baseline attack = (if baseline \<noteq> [] then \<not> set attack \<subseteq> set baseline else attack \<noteq> [])"

definition fsm_recovered :: "string list \<Rightarrow> string list \<Rightarrow> bool" where
  "fsm_recovered baseline recovery = (if baseline \<noteq> [] then set recovery \<subseteq> set baseline else True)"

text \<open>\<^verbatim>\<open>f"{sorted(states)}"\<close> and \<^verbatim>\<open>f"{states}"\<close>.\<close>

definition repr_sorted :: "string list \<Rightarrow> string" where
  "repr_sorted states = ''['' @ py_join '', '' (map repr_str (sort states)) @ '']''"

definition repr_states :: "(string, string) dict \<Rightarrow> string" where
  "repr_states d = ''{'' @ py_join '', '' (map (\<lambda>(n, s). repr_str n @ '': '' @ repr_str s) d) @ ''}''"

definition verdict_part :: "env \<Rightarrow> string \<Rightarrow> state_tracker \<Rightarrow> string" where
  "verdict_part E deviated_line tr =
     (let baseline = phase_states ''baseline'' (st_rows tr); attack = phase_states ''attack'' (st_rows tr);
          recovery = phase_states ''recovery'' (st_rows tr) in
      ''## Verdict'' @ NL @ NL
      @ ''- Baseline FSM states: '' @ repr_sorted baseline @ NL
      @ ''- Attack-window FSM states: '' @ repr_sorted attack @ NL
      @ ''- Recovery-window FSM states: '' @ repr_sorted recovery @ NL
      @ ''- Final state: '' @ repr_states (final_states (st_rows tr)) @ NL @ NL
      @ deviated_line @ ''**'' @ py_bool (fsm_deviated baseline attack) @ ''**'' @ NL
      @ ''- FSM recovered back to baseline states afterward (hysteresis bounded it): **''
      @ py_bool (fsm_recovered baseline recovery) @ ''**'' @ NL @ NL
      @ ''## Full timeline'' @ NL @ NL
      @ ''| t (s) | phase | states |'' @ NL @ ''|---:|---|---|'' @ NL
      @ concat (map (\<lambda>(t, phase, states). md_row [repr_float E t, phase, repr_states states]) (st_rows tr)))"

section \<open>live_churn_attack.py\<close>

definition ATTACKER_PROFILE :: string where "ATTACKER_PROFILE = ''attacker-swarm-a3''"
definition ATTACKER_SERVICES :: "string list" where "ATTACKER_SERVICES = [''attacker-a3-01'', ''attacker-a3-02'']"
definition MAX_CHURN_RATE :: nat where "MAX_CHURN_RATE = 5"

text \<open>The loop of \<^verbatim>\<open>attacker_up\<close> with \<open>n\<close> attempts left, \<open>e\<close> the last error.\<close>

fun retry_run :: "env \<Rightarrow> string list \<Rightarrow> nat \<Rightarrow> exn \<Rightarrow> unit py" where
  "retry_run E argv 0 e = py_raise e"
| "retry_run E argv (Suc n) e =
     py_try (py_bind (run_proc E argv True) (\<lambda>_. py_return ()))
       [CalledProcessError] (\<lambda>e'. py_then (time_sleep E 5) (retry_run E argv n e'))"

definition attacker_up :: "env \<Rightarrow> unit py" where
  "attacker_up E = retry_run E (compose_cmd ATTACKER_PROFILE UP ATTACKER_SERVICES) 3 (Exn TypeError ''exceptions must derive from BaseException'')"

definition attacker_down :: "env \<Rightarrow> unit py" where
  "attacker_down E =
     py_then (run_proc E (compose_cmd ATTACKER_PROFILE STOP ATTACKER_SERVICES) False)
     (py_then (run_proc E (compose_cmd ATTACKER_PROFILE RM ATTACKER_SERVICES) False) (py_return ()))"

definition stop_attacker :: "env \<Rightarrow> unit py" where
  "stop_attacker E = py_each (\<lambda>svc. py_then (run_proc E [''docker'', ''stop'', svc] False) (py_return ())) ATTACKER_SERVICES"

definition start_attacker :: "env \<Rightarrow> unit py" where
  "start_attacker E = py_each (\<lambda>svc. py_then (run_proc E [''docker'', ''start'', svc] False) (py_return ())) ATTACKER_SERVICES"

definition churn_cycle :: "env \<Rightarrow> rat \<Rightarrow> rat \<Rightarrow> rat \<Rightarrow> state_tracker \<Rightarrow> nat \<Rightarrow> state_tracker py" where
  "churn_cycle E on_s off_s interval_s tr i =
     py_then (stop_attacker E)
     (py_bind (state_poll_for E on_s interval_s ''attack'' tr) (\<lambda>tr1.
      py_then (start_attacker E)
      (state_poll_for E off_s interval_s ''attack'' tr1)))"

definition churn_phases :: "env \<Rightarrow> rat \<Rightarrow> rat \<Rightarrow> rat \<Rightarrow> rat \<Rightarrow> int \<Rightarrow> rat \<Rightarrow> rat \<Rightarrow> state_tracker py" where
  "churn_phases E baseline_s settle_s churn_on_s churn_off_s churn_cycles recovery_s interval_s = py_bind (time_time) (\<lambda>t0.
     py_bind (state_poll_for E baseline_s interval_s ''baseline'' (new_state_tracker t0)) (\<lambda>tr1.
     py_then (attacker_up E)
     (py_bind (state_poll_for E settle_s interval_s ''settle'' tr1) (\<lambda>tr2.
     py_bind (py_fold (churn_cycle E churn_on_s churn_off_s interval_s) tr2 [0 ..< nat churn_cycles]) (\<lambda>tr3.
     py_then (attacker_down E)
     (state_poll_for E recovery_s interval_s ''recovery'' tr3))))))"

definition churn_summary :: "env \<Rightarrow> rat \<Rightarrow> rat \<Rightarrow> int \<Rightarrow> rat \<Rightarrow> state_tracker \<Rightarrow> string" where
  "churn_summary E churn_on_s churn_off_s churn_cycles elapsed tr =
     ''# LIVE E4 churn attack, A3 (Churn-based Rotation)'' @ NL @ NL
     @ ''attacker-a3-01 dials engram-node02, attacker-a3-02 dials engram-node04 (the real, ''
     @ ''empirically-confirmed next proposer after node02 in this cluster's rotation order, ''
     @ ''node02 -> node04 -> node01 -> node03, per /dump_consensus_state); churn = ''
     @ py_str_int churn_cycles @ '' real `docker stop`/`docker start` cycles on both attacker ''
     @ ''containers together each cycle (on='' @ fmt_fixed 0 churn_on_s @ ''s stopped, off=''
     @ fmt_fixed 0 churn_off_s @ ''s reconnected) -- a genuine TCP teardown each cycle, not netem ''
     @ ''packet loss (an earlier design using 100% loss never actually disconnected ''
     @ ''CometBFT's MConnection, confirmed via real node02 logs). ''
     @ ''MaxChurnRate='' @ show_nat MAX_CHURN_RATE @ '' (1h rolling window). Total duration: '' @ fmt_fixed 0 elapsed @ ''s.'' @ NL @ NL
     @ ''**Quorum note:** no FSM transition is the correct, expected outcome for this design, ''
     @ ''not a detection failure. `ProcessProposal` (x/sovereignty/proposal.go:293-303) has ''
     @ ''every validator independently recompute `fsm_state` from its OWN local metrics and ''
     @ ''reject any disagreeing proposal; CometBFT needs >2/3 voting power to commit. Only ''
     @ ''node02/node04 (2 of 4, 50%) see degraded PeerChurnRate here, so the honest majority ''
     @ ''(node01/node03) always rejects an unhealthy claim, forcing round-retries until an ''
     @ ''honest proposer's ANCHORED claim commits instead. A real, confirmed churn_rate ''
     @ ''excursion on a MINORITY of validators (well past MaxChurnRate on both attacked nodes, ''
     @ ''per the sensor_snapshot diagnostic line) cannot force a transition by design -- ''
     @ [CHR 0x27] @ ''sensors propose, consensus decides'' @ [CHR 0x27] @ '' means no minority view, however degraded, moves ''
     @ ''committed state. A supermajority attack (>=3 of 4 validators) would be a structurally ''
     @ ''different experiment.'' @ NL @ NL
     @ verdict_part E (''- FSM deviated from baseline during the churn window (False is the expected/correct outcome here ''
         @ ''-- see Quorum note above): '') tr"

definition churn_main :: "env \<Rightarrow> rat \<Rightarrow> rat \<Rightarrow> rat \<Rightarrow> rat \<Rightarrow> int \<Rightarrow> rat \<Rightarrow> rat \<Rightarrow> (bool \<times> bool \<times> state_tracker) py" where
  "churn_main E baseline_s settle_s churn_on_s churn_off_s churn_cycles recovery_s interval_s = py_bind (churn_phases E baseline_s settle_s churn_on_s churn_off_s churn_cycles recovery_s interval_s) (\<lambda>tr.
     (let baseline_states = phase_states ''baseline'' (st_rows tr) in
     py_bind (ts_label E) (\<lambda>label.
     py_then (write_csv E (st_samples tr) (path_join E4_RESULTS_DIR (''churn_attack_a3_'' @ label @ ''.csv'')))
     (py_bind (time_time) (\<lambda>now.
     py_then (write_file E (path_join E4_RESULTS_DIR (''churn_attack_a3_'' @ label @ ''_summary.md''))
       (churn_summary E churn_on_s churn_off_s churn_cycles (now - st_start tr) tr))
     (py_return (fsm_deviated baseline_states (phase_states ''attack'' (st_rows tr)),
       fsm_recovered baseline_states (phase_states ''recovery'' (st_rows tr)), tr)))))))"

section \<open>live_relay_latency_attack.py\<close>

definition RELAY_TARGET_NODE :: string where "RELAY_TARGET_NODE = ''engram-node04''"
definition MAX_PEER_LATENCY_MS :: int where "MAX_PEER_LATENCY_MS = 200"
definition DELAY_MS :: int where "DELAY_MS = 350"
definition JITTER_MS :: int where "JITTER_MS = 50"
definition PAIRWISE_LINK_PREFIX :: string where "PAIRWISE_LINK_PREFIX = ''172.40.''"
definition NETEM_HELPER_IMAGE :: string where "NETEM_HELPER_IMAGE = ''nicolaka/netshoot''"

definition link_interface :: "string \<Rightarrow> string option" where
  "link_interface line =
     (let parts = split_ws line in
      if 4 \<le> length parts \<and> startswith (parts ! 3) PAIRWISE_LINK_PREFIX then Some (parts ! 1) else None)"

definition pairwise_link_interfaces :: "env \<Rightarrow> string \<Rightarrow> string list py" where
  "pairwise_link_interfaces E container =
     py_bind (run_proc E [''docker'', ''run'', ''--rm'', ''--net'', ''container:'' @ container, NETEM_HELPER_IMAGE,
        ''ip'', ''-o'', ''addr'', ''show''] True) (\<lambda>p.
     py_return (List.map_filter link_interface (splitlines (out_text p))))"

definition netem_run :: "string \<Rightarrow> string list \<Rightarrow> string list" where
  "netem_run container args =
     [''docker'', ''run'', ''--rm'', ''--net'', ''container:'' @ container, ''--cap-add'', ''NET_ADMIN'', NETEM_HELPER_IMAGE,
      ''tc'', ''qdisc''] @ args"

definition add_delay_cmd :: "string \<Rightarrow> int \<Rightarrow> int \<Rightarrow> string \<Rightarrow> string list" where
  "add_delay_cmd container delay_ms jitter_ms iface =
     netem_run container [''add'', ''dev'', iface, ''root'', ''netem'', ''delay'', py_str_int delay_ms @ ''ms'', py_str_int jitter_ms @ ''ms'']"

definition del_delay_cmd :: "string \<Rightarrow> string \<Rightarrow> string list" where
  "del_delay_cmd container iface = netem_run container [''del'', ''dev'', iface, ''root'']"

definition apply_delay :: "env \<Rightarrow> string \<Rightarrow> string list \<Rightarrow> int \<Rightarrow> int \<Rightarrow> unit py" where
  "apply_delay E container ifaces delay_ms jitter_ms =
     py_each (\<lambda>iface. py_then (run_proc E (add_delay_cmd container delay_ms jitter_ms iface) True) (py_return ())) ifaces"

definition clear_delay :: "env \<Rightarrow> string \<Rightarrow> string list \<Rightarrow> unit py" where
  "clear_delay E container ifaces =
     py_each (\<lambda>iface. py_then (run_proc E (del_delay_cmd container iface) False) (py_return ())) ifaces"

definition relay_phases :: "env \<Rightarrow> rat \<Rightarrow> rat \<Rightarrow> rat \<Rightarrow> rat \<Rightarrow> (string list \<times> state_tracker) py" where
  "relay_phases E baseline_s attack_s recovery_s interval_s = py_bind (time_time) (\<lambda>t0.
     py_bind (pairwise_link_interfaces E RELAY_TARGET_NODE) (\<lambda>ifaces.
     py_then ((if ifaces = [] then py_raise (Exn SystemExit ''1'') else py_return ()))
     (py_bind (state_poll_for E baseline_s interval_s ''baseline'' (new_state_tracker t0)) (\<lambda>tr1.
     py_then (py_try (apply_delay E RELAY_TARGET_NODE ifaces DELAY_MS JITTER_MS) [CalledProcessError]
       (\<lambda>_. py_then (clear_delay E RELAY_TARGET_NODE ifaces) (py_raise (Exn SystemExit ''1''))))
     (py_bind (state_poll_for E attack_s interval_s ''attack'' tr1) (\<lambda>tr2.
     py_then (clear_delay E RELAY_TARGET_NODE ifaces)
     (py_bind (state_poll_for E recovery_s interval_s ''recovery'' tr2) (\<lambda>tr3.
     py_return (ifaces, tr3)))))))))"

definition relay_summary :: "env \<Rightarrow> string list \<Rightarrow> rat \<Rightarrow> state_tracker \<Rightarrow> string" where
  "relay_summary E ifaces elapsed tr =
     ''# LIVE E4 relay-latency attack, A4 (Relay Node Attack)'' @ NL @ NL
     @ py_str_int DELAY_MS @ ''ms +-'' @ py_str_int JITTER_MS @ ''ms netem delay held on '' @ RELAY_TARGET_NODE @ [CHR 0x27] @ ''s real P2P interfaces ''
     @ ''('' @ py_join '', '' ifaces @ '', the pairwise validator-link networks -- not eth0/Pumba's ''
     @ ''default, see module doc) for the whole attack window -- not toggled, a sustained ''
     @ ''degradation. MaxPeerLatency='' @ py_str_int MAX_PEER_LATENCY_MS @ ''ms. Total duration: '' @ fmt_fixed 0 elapsed @ ''s.'' @ NL @ NL
     @ ''**Quorum note:** unlike A3's single-peer-link churn (visible to only 1-2 of 4 ''
     @ ''validators' own local view, see live_churn_attack.py's module doc), delaying all of ''
     @ RELAY_TARGET_NODE @ [CHR 0x27] @ ''s real P2P links degrades every OTHER validator's own RTT measurement ''
     @ ''of its connection to '' @ RELAY_TARGET_NODE @ '' too -- all 4 validators should independently ''
     @ ''compute Healthy=false, past the >2/3 quorum `ProcessProposal` ''
     @ ''(x/sovereignty/proposal.go:293-303) requires to commit. A real FSM transition is ''
     @ ''therefore the expected outcome here, unlike A3's minority-visible design.'' @ NL @ NL
     @ verdict_part E (''- FSM deviated from baseline during the delay window (True is the expected/correct outcome here ''
         @ ''-- see Quorum note above): '') tr"

definition relay_main :: "env \<Rightarrow> rat \<Rightarrow> rat \<Rightarrow> rat \<Rightarrow> rat \<Rightarrow> (bool \<times> bool \<times> state_tracker) py" where
  "relay_main E baseline_s attack_s recovery_s interval_s = py_bind (relay_phases E baseline_s attack_s recovery_s interval_s) (\<lambda>(ifaces, tr).
     (let baseline_states = phase_states ''baseline'' (st_rows tr) in
     py_bind (ts_label E) (\<lambda>label.
     py_then (write_csv E (st_samples tr) (path_join E4_RESULTS_DIR (''relay_latency_attack_a4_'' @ label @ ''.csv'')))
     (py_bind (time_time) (\<lambda>now.
     py_then (write_file E (path_join E4_RESULTS_DIR (''relay_latency_attack_a4_'' @ label @ ''_summary.md''))
       (relay_summary E ifaces (now - st_start tr) tr))
     (py_return (fsm_deviated baseline_states (phase_states ''attack'' (st_rows tr)),
       fsm_recovered baseline_states (phase_states ''recovery'' (st_rows tr)), tr)))))))"

section \<open>What the verdicts mean\<close>

text \<open>A tracker grows by complete rounds of a phase.\<close>

abbreviation round_states :: "NodeSample list \<Rightarrow> (string, string) dict" where
  "round_states rs \<equiv> dict_of node fsm_state rs"

definition full_rounds :: "NodeSample list list \<Rightarrow> bool" where
  "full_rounds B \<longleftrightarrow> (\<forall>rs \<in> set B. map node rs = dict_keys NODE_RPC_PORTS)"

definition polled :: "string \<Rightarrow> state_tracker \<Rightarrow> NodeSample list list \<Rightarrow> state_tracker \<Rightarrow> bool" where
  "polled phase tr B tr' \<longleftrightarrow>
     full_rounds B \<and> st_samples tr' = st_samples tr @ concat B \<and>
     map snd (st_rows tr') = map snd (st_rows tr) @ map (\<lambda>rs. (phase, round_states rs)) B"

lemma polled_refl: "polled phase tr [] tr"
  by (simp add: polled_def full_rounds_def)

lemma polled_trans: "polled phase tr B tr1 \<Longrightarrow> polled phase tr1 C tr2 \<Longrightarrow> polled phase tr (B @ C) tr2"
  by (auto simp: polled_def full_rounds_def)

lemma state_poll_for_polled: "yields (state_poll_for E s i phase tr) (\<lambda>tr'. \<exists>B. polled phase tr B tr')"
  unfolding state_poll_for_def
proof (rule attack_poll_yields)
  show "\<exists>B. polled phase tr B tr" using polled_refl by blast
  fix t st and rs :: "NodeSample list"
  assume "\<exists>B. polled phase tr B st" and n: "map node rs = dict_keys NODE_RPC_PORTS"
  then obtain B where b: "polled phase tr B st" by blast
  moreover have "polled phase st [rs] (state_poll_once phase t rs st)"
    using n by (simp add: polled_def full_rounds_def state_poll_once_def)
  ultimately show "yields (state_step phase t rs st) (\<lambda>tr'. \<exists>B. polled phase tr B tr')"
    unfolding state_step_def by (intro yields_return) (blast dest: polled_trans)
qed

lemma churn_cycle_polled: "yields (churn_cycle E on off i tr k) (\<lambda>tr'. \<exists>B. polled ''attack'' tr B tr')"
  unfolding churn_cycle_def
  by (rule yields_then, rule yields_bind [OF state_poll_for_polled], rule yields_then)
    (auto intro!: yields_mono [OF state_poll_for_polled] dest: polled_trans)

lemma churn_cycles_polled:
  "yields (py_fold (churn_cycle E on off i) tr ks) (\<lambda>tr'. \<exists>B. polled ''attack'' tr B tr')"
proof (rule yields_fold)
  show "\<exists>B. polled ''attack'' tr B tr" using polled_refl by blast
  show "yields (churn_cycle E on off i st k) (\<lambda>tr'. \<exists>B. polled ''attack'' tr B tr')" if "\<exists>B. polled ''attack'' tr B st" for st k
    using that by (intro yields_mono [OF churn_cycle_polled]) (blast dest: polled_trans)
qed

text \<open>The states that the rounds of a phase showed.\<close>

definition shown :: "NodeSample list list \<Rightarrow> string set" where
  "shown B = {s. s \<noteq> [] \<and> (\<exists>rs \<in> set B. \<exists>x \<in> set rs. fsm_state x = s)}"

lemma round_states_values: "map node rs = dict_keys NODE_RPC_PORTS \<Longrightarrow> dict_values (round_states rs) = map fsm_state rs"
proof -
  assume "map node rs = dict_keys NODE_RPC_PORTS"
  then have "distinct (map node rs)" by simp
  then show ?thesis by (simp add: dict_of_distinct dict_values_def comp_def)
qed

lemma phase_states_append: "set (phase_states ph (xs @ ys)) = set (phase_states ph xs) \<union> set (phase_states ph ys)"
  by (simp add: phase_states_def)

lemma phase_states_snd:
  "set (phase_states ph rows) = (\<Union>(p, d) \<in> set (map snd rows). if p = ph then {s \<in> set (dict_values d). s \<noteq> []} else {})"
  by (induction rows) (auto simp: phase_states_def split: if_split_asm)

lemma phase_states_rounds:
  "full_rounds B \<Longrightarrow> (\<Union>(p, d) \<in> set (map (\<lambda>rs. (phase, round_states rs)) B). if p = ph then {s \<in> set (dict_values d). s \<noteq> []} else {}) =
     (if phase = ph then shown B else {})"
  by (auto simp: shown_def full_rounds_def round_states_values)

text \<open>The rounds of a run, by phase, and its verdicts over them.\<close>

definition phased :: "(string \<times> NodeSample list list) list \<Rightarrow> state_tracker \<Rightarrow> bool" where
  "phased PB tr \<longleftrightarrow>
     (\<forall>(ph, B) \<in> set PB. full_rounds B) \<and> st_samples tr = concat (concat (map snd PB)) \<and>
     map snd (st_rows tr) = concat (map (\<lambda>(ph, B). map (\<lambda>rs. (ph, round_states rs)) B) PB)"

lemma phased_states:
  assumes "phased PB tr"
  shows "set (phase_states ph (st_rows tr)) = shown (concat (map snd (filter (\<lambda>(p, B). p = ph) PB)))"
proof -
  have f: "\<forall>(p, B) \<in> set PB. full_rounds B"
    and r: "map snd (st_rows tr) = concat (map (\<lambda>(p, B). map (\<lambda>rs. (p, round_states rs)) B) PB)"
    using assms by (simp_all add: phased_def)
  let ?g = "\<lambda>(p, d). if p = ph then {s \<in> set (dict_values d). s \<noteq> []} else {}"
  have "(\<Union> (?g ` set (concat (map (\<lambda>(p, B). map (\<lambda>rs. (p, round_states rs)) B) PB)))) =
      shown (concat (map snd (filter (\<lambda>(p, B). p = ph) PB)))"
    using f
  proof (induction PB)
    case Nil
    then show ?case by (simp add: shown_def)
  next
    case (Cons pb PB)
    obtain p B where pb: "pb = (p, B)" by fastforce
    have "\<Union> (?g ` set (map (\<lambda>rs. (p, round_states rs)) B)) = (if p = ph then shown B else {})"
      using phase_states_rounds [of B ph p] Cons.prems pb by simp
    moreover have "shown (B @ C) = shown B \<union> shown C" for B C by (auto simp: shown_def)
    ultimately show ?case using Cons by (simp add: pb image_Un)
  qed
  then show ?thesis unfolding phase_states_snd r .
qed

lemma phased_three:
  "polled p1 (new_state_tracker t) B tr1 \<Longrightarrow> polled p2 tr1 C tr2 \<Longrightarrow> polled p3 tr2 D tr3 \<Longrightarrow>
   phased [(p1, B), (p2, C), (p3, D)] tr3"
  by (auto simp: phased_def polled_def new_state_tracker_def)

lemma phased_four:
  "polled p1 (new_state_tracker t) B tr1 \<Longrightarrow> polled p2 tr1 C tr2 \<Longrightarrow> polled p3 tr2 D tr3 \<Longrightarrow> polled p4 tr3 F tr4 \<Longrightarrow>
   phased [(p1, B), (p2, C), (p3, D), (p4, F)] tr4"
  by (auto simp: phased_def polled_def new_state_tracker_def)

lemma churn_phases_phased:
  "yields (churn_phases E b s on off n r i)
     (\<lambda>tr. \<exists>B S A R. phased [(''baseline'', B), (''settle'', S), (''attack'', A), (''recovery'', R)] tr)"
  unfolding churn_phases_def
  by (rule yields_effect, rule yields_bind [OF state_poll_for_polled], rule yields_then,
      rule yields_bind [OF state_poll_for_polled], rule yields_bind [OF churn_cycles_polled], rule yields_then,
      rule yields_mono [OF state_poll_for_polled])
    (blast dest: phased_four)

lemma relay_phases_phased:
  "yields (relay_phases E b a r i)
     (\<lambda>(_, tr). \<exists>B A R. phased [(''baseline'', B), (''attack'', A), (''recovery'', R)] tr)"
  unfolding relay_phases_def
  by (rule yields_effect, rule yields_effect, rule yields_then, rule yields_bind [OF state_poll_for_polled], rule yields_then,
      rule yields_bind [OF state_poll_for_polled], rule yields_then, rule yields_bind [OF state_poll_for_polled], rule yields_return)
    (auto dest: phased_three)

lemma fsm_deviated_shown:
  "set baseline = B \<Longrightarrow> set attack = A \<Longrightarrow> fsm_deviated baseline attack \<longleftrightarrow> \<not> A \<subseteq> B"
  by (auto simp: fsm_deviated_def)

lemma fsm_recovered_shown:
  "set baseline = B \<Longrightarrow> set recovery = R \<Longrightarrow> fsm_recovered baseline recovery \<longleftrightarrow> B = {} \<or> R \<subseteq> B"
  by (auto simp: fsm_recovered_def)

lemma churn_main_verdict:
  "yields (churn_main E b s on off n r i) (\<lambda>(dev, rec, tr). \<exists>B S A R.
     phased [(''baseline'', B), (''settle'', S), (''attack'', A), (''recovery'', R)] tr \<and>
     (dev \<longleftrightarrow> \<not> shown A \<subseteq> shown B) \<and> (rec \<longleftrightarrow> shown B = {} \<or> shown R \<subseteq> shown B))"
  unfolding churn_main_def Let_def
proof (rule yields_bind [OF churn_phases_phased], rule yields_effect, rule yields_then, rule yields_effect, rule yields_then, rule yields_return)
  fix tr
  assume "\<exists>B S A R. phased [(''baseline'', B), (''settle'', S), (''attack'', A), (''recovery'', R)] tr"
  then obtain B S A R where p: "phased [(''baseline'', B), (''settle'', S), (''attack'', A), (''recovery'', R)] tr" by blast
  have "set (phase_states ''baseline'' (st_rows tr)) = shown B" "set (phase_states ''attack'' (st_rows tr)) = shown A"
    "set (phase_states ''recovery'' (st_rows tr)) = shown R"
    by (simp_all add: phased_states [OF p])
  with p show "case (fsm_deviated (phase_states ''baseline'' (st_rows tr)) (phase_states ''attack'' (st_rows tr)),
      fsm_recovered (phase_states ''baseline'' (st_rows tr)) (phase_states ''recovery'' (st_rows tr)), tr) of
     (dev, rec, tr) \<Rightarrow> \<exists>B S A R. phased [(''baseline'', B), (''settle'', S), (''attack'', A), (''recovery'', R)] tr \<and>
       (dev \<longleftrightarrow> \<not> shown A \<subseteq> shown B) \<and> (rec \<longleftrightarrow> shown B = {} \<or> shown R \<subseteq> shown B)"
    by (auto simp: fsm_deviated_shown fsm_recovered_shown)
qed

lemma relay_main_verdict:
  "yields (relay_main E b a r i) (\<lambda>(dev, rec, tr). \<exists>B A R.
     phased [(''baseline'', B), (''attack'', A), (''recovery'', R)] tr \<and>
     (dev \<longleftrightarrow> \<not> shown A \<subseteq> shown B) \<and> (rec \<longleftrightarrow> shown B = {} \<or> shown R \<subseteq> shown B))"
  unfolding relay_main_def Let_def
proof (rule yields_bind [OF relay_phases_phased], rule yields_split, rule yields_effect, rule yields_then, rule yields_effect,
    rule yields_then, rule yields_return)
  fix x :: "string list \<times> state_tracker" and ifaces tr
  assume "case x of (_, tr) \<Rightarrow> \<exists>B A R. phased [(''baseline'', B), (''attack'', A), (''recovery'', R)] tr" "x = (ifaces, tr)"
  then obtain B A R where p: "phased [(''baseline'', B), (''attack'', A), (''recovery'', R)] tr" by auto
  have "set (phase_states ''baseline'' (st_rows tr)) = shown B" "set (phase_states ''attack'' (st_rows tr)) = shown A"
    "set (phase_states ''recovery'' (st_rows tr)) = shown R"
    by (simp_all add: phased_states [OF p])
  with p show "case (fsm_deviated (phase_states ''baseline'' (st_rows tr)) (phase_states ''attack'' (st_rows tr)),
      fsm_recovered (phase_states ''baseline'' (st_rows tr)) (phase_states ''recovery'' (st_rows tr)), tr) of
     (dev, rec, tr) \<Rightarrow> \<exists>B A R. phased [(''baseline'', B), (''attack'', A), (''recovery'', R)] tr \<and>
       (dev \<longleftrightarrow> \<not> shown A \<subseteq> shown B) \<and> (rec \<longleftrightarrow> shown B = {} \<or> shown R \<subseteq> shown B)"
    by (auto simp: fsm_deviated_shown fsm_recovered_shown)
qed


section \<open>What the attacks set up is taken down\<close>

lemma state_poll_for_facts [total_intros, emits_intros]:
  "0 < interval \<Longrightarrow> total (state_poll_for E seconds interval phase tr)"
  "(\<And>p q r. S (RpcGet p q r)) \<Longrightarrow> (\<And>t. S (Slept t)) \<Longrightarrow> emits S (state_poll_for E seconds interval phase tr)"
  unfolding state_poll_for_def state_step_def
  by (intro total_intros emits_intros; simp add: total_intros emits_intros)+

lemma called_caught: "caught_by [CalledProcessError] e \<longleftrightarrow> exn_class e = CalledProcessError"
  by (cases "exn_class e") (simp_all add: caught_by_def)

text \<open>Between \<open>lo\<close> and \<open>hi\<close> runs of one command, and no other.\<close>

definition tried :: "string list \<Rightarrow> nat \<Rightarrow> nat \<Rightarrow> world \<Rightarrow> world \<Rightarrow> bool" where
  "tried argv lo hi w w' \<longleftrightarrow> (\<exists>evs j. log w' = log w @ evs \<and> lo \<le> j \<and> j \<le> hi \<and> trace command evs = replicate j argv)"

lemma tried_refl: "tried argv 0 hi w w"
  unfolding tried_def by (intro exI [of _ "[]"] exI [of _ 0]) simp

lemma tried_once: "tried argv 1 (Suc n) w (emit E (RunProc argv [] r) 0 w)"
  unfolding tried_def by (intro exI [of _ "[RunProc argv [] r]"] exI [of _ 1]) (simp add: emit_def)

lemma tried_again:
  assumes "tried argv lo hi (emit E (Slept 5) 5 (emit E (RunProc argv [] r) 0 w)) w'" "lo' \<le> Suc lo"
  shows "tried argv lo' (Suc hi) w w'"
proof -
  obtain evs j where "log w' = log w @ ([RunProc argv [] r, Slept 5] @ evs)" "lo \<le> j" "j \<le> hi" "trace command evs = replicate j argv"
    using assms(1) by (auto simp: tried_def emit_def)
  with assms(2) show ?thesis
    unfolding tried_def by (intro exI [of _ "[RunProc argv [] r, Slept 5] @ evs"] exI [of _ "Suc j"]) simp
qed

lemma retry_run_wp:
  "wp (retry_run E argv n e) (\<lambda>_. tried argv 1 n w) (\<lambda>e' w'. exn_class e' = CalledProcessError \<longrightarrow> tried argv n n w w') w"
proof (induction n arbitrary: e w)
  case 0
  then show ?case by (simp add: wp_simps tried_refl)
next
  case (Suc n)
  have step: "wp (retry_run E argv n e') (\<lambda>_. tried argv 1 (Suc n) w)
     (\<lambda>e' w'. exn_class e' = CalledProcessError \<longrightarrow> tried argv (Suc n) (Suc n) w w')
     (emit E (Slept 5) 5 (emit E (RunProc argv [] r) 0 w))" for e' r
    by (rule wp_mono [OF Suc.IH]) (auto elim: tried_again)
  show ?case
    using step tried_once by (auto simp: wp_simps called_caught split: sum.split)
qed

abbreviation cycle_commands :: "string list list" where
  "cycle_commands \<equiv> map (\<lambda>svc. [''docker'', ''stop'', svc]) ATTACKER_SERVICES @ map (\<lambda>svc. [''docker'', ''start'', svc]) ATTACKER_SERVICES"

lemma state_poll_for_logs [logs_intros]: "logs command (state_poll_for E s i ph tr) []"
  by (rule logs_emits, intro emits_intros) simp_all

lemma attacker_logs [logs_intros]:
  "logs command (attacker_down E) [compose_cmd ATTACKER_PROFILE STOP ATTACKER_SERVICES, compose_cmd ATTACKER_PROFILE RM ATTACKER_SERVICES]"
  "logs command (stop_attacker E) (map (\<lambda>svc. [''docker'', ''stop'', svc]) ATTACKER_SERVICES)"
  "logs command (start_attacker E) (map (\<lambda>svc. [''docker'', ''start'', svc]) ATTACKER_SERVICES)"
proof -
  show "logs command (attacker_down E) [compose_cmd ATTACKER_PROFILE STOP ATTACKER_SERVICES, compose_cmd ATTACKER_PROFILE RM ATTACKER_SERVICES]"
    unfolding attacker_down_def
    by (rule logs_cong, rule logs_then [OF logs_command_run(1) logs_then [OF logs_command_run(1) logs_return]]) simp
  have each: "logs command (py_each (\<lambda>svc. py_then (run_proc E (c svc) False) (py_return ())) xs) (map c xs)" for c xs
    by (rule logs_cong [OF logs_each [OF logs_then [OF logs_command_run(1) logs_return]]]) simp
  show "logs command (stop_attacker E) (map (\<lambda>svc. [''docker'', ''stop'', svc]) ATTACKER_SERVICES)"
    "logs command (start_attacker E) (map (\<lambda>svc. [''docker'', ''start'', svc]) ATTACKER_SERVICES)"
    unfolding stop_attacker_def start_attacker_def by (rule each)+
qed

lemma churn_cycle_logs: "logs command (churn_cycle E on off i tr k) cycle_commands"
  unfolding churn_cycle_def
  by (rule logs_cong, rule logs_then [OF attacker_logs(2)], rule logs_bind [OF state_poll_for_logs],
      rule logs_then [OF attacker_logs(3) state_poll_for_logs]) simp

lemma churn_tail_logs:
  "logs command (py_bind (state_poll_for E s i ''settle'' tr1) (\<lambda>tr2.
      py_bind (py_fold (churn_cycle E on off i) tr2 [0..<n]) (\<lambda>tr3.
      py_then (attacker_down E) (state_poll_for E r i ''recovery'' tr3))))
     (concat (replicate n cycle_commands) @
      [compose_cmd ATTACKER_PROFILE STOP ATTACKER_SERVICES, compose_cmd ATTACKER_PROFILE RM ATTACKER_SERVICES])"
  by (rule logs_cong, rule logs_bind [OF state_poll_for_logs], rule logs_bind [OF logs_fold [OF churn_cycle_logs]],
      rule logs_then [OF attacker_logs(1) state_poll_for_logs]) simp

text \<open>C19. The churn attack runs exactly these commands: \<^verbatim>\<open>docker compose up\<close> for the two attackers, tried at most three times; per
  cycle a stop and a start of both; and at the end \<^verbatim>\<open>stop\<close> and \<^verbatim>\<open>rm -f\<close> of the attackers alone, never of the whole project.
  When bringing the attackers up fails, it has been tried three times.\<close>

theorem churn_attack_commands:
  "(\<forall>b s on off n r i w x w'. churn_main E b s on off n r i w = Some (Inr x, w') \<longrightarrow>
      (\<exists>evs j. log w' = log w @ evs \<and> 1 \<le> j \<and> j \<le> 3 \<and>
         trace command evs = replicate j (compose_cmd ATTACKER_PROFILE UP ATTACKER_SERVICES)
           @ concat (replicate (nat n) (map (\<lambda>svc. [''docker'', ''stop'', svc]) ATTACKER_SERVICES @
               map (\<lambda>svc. [''docker'', ''start'', svc]) ATTACKER_SERVICES))
           @ [compose_cmd ATTACKER_PROFILE STOP ATTACKER_SERVICES, compose_cmd ATTACKER_PROFILE RM ATTACKER_SERVICES])) \<and>
   (\<forall>w e w'. attacker_up E w = Some (Inl e, w') \<and> exn_class e = CalledProcessError \<longrightarrow>
      (\<exists>evs. log w' = log w @ evs \<and> trace command evs = replicate 3 (compose_cmd ATTACKER_PROFILE UP ATTACKER_SERVICES)))"
  (is "?main \<and> ?fail")
proof
  let ?up = "compose_cmd ATTACKER_PROFILE UP ATTACKER_SERVICES"
  let ?down = "[compose_cmd ATTACKER_PROFILE STOP ATTACKER_SERVICES, compose_cmd ATTACKER_PROFILE RM ATTACKER_SERVICES]"
  let ?X = "{replicate j ?up |j. 1 \<le> j \<and> j \<le> 3}"
  show ?fail
    using wp_Inl [OF _ retry_run_wp] unfolding attacker_up_def tried_def by (metis le_antisym)
  have up: "logs_in command (attacker_up E) ?X"
    unfolding logs_in_def attacker_up_def using wp_Inr [OF _ retry_run_wp] unfolding tried_def by blast
  show ?main
  proof (intro allI impI)
    fix b s on off n r i w x w'
    assume run: "churn_main E b s on off n r i w = Some (Inr x, w')"
    let ?Y = "{xs @ concat (replicate (nat n) cycle_commands) @ ?down |xs. xs \<in> ?X}"
    have "logs_in command (churn_phases E b s on off n r i) ?Y"
      unfolding churn_phases_def
    proof (rule logs_in_bind [where X = "{[]}" and Y = ?Y, OF logs_in_logs [OF logs_time]], rule singletonI,
        rule logs_in_bind [where X = "{[]}" and Y = ?Y, OF logs_in_logs [OF state_poll_for_logs]], rule singletonI, rule logs_in_then [OF up])
      show "logs_in command (py_bind (state_poll_for E s i ''settle'' tr1) (\<lambda>tr2.
          py_bind (py_fold (churn_cycle E on off i) tr2 [0..<nat n]) (\<lambda>tr3.
          py_then (attacker_down E) (state_poll_for E r i ''recovery'' tr3)))) {concat (replicate (nat n) cycle_commands) @ ?down}" for tr1
        by (rule logs_in_logs [OF logs_cong [OF churn_tail_logs refl]]) simp
    qed auto
    then have "logs_in command (churn_main E b s on off n r i) ?Y"
      unfolding churn_main_def Let_def write_csv_def
      by (rule logs_in_bind [where Y = "{[]}", OF _ logs_in_logs [OF logs_emits]], intro emits_intros) simp_all
    from logs_inD [OF this run]
    show "\<exists>evs j. log w' = log w @ evs \<and> 1 \<le> j \<and> j \<le> 3 \<and>
       trace command evs = replicate j ?up @ concat (replicate (nat n) cycle_commands) @ ?down"
      by blast
  qed
qed

text \<open>The interfaces whose delay has been set and not removed since.\<close>

abbreviation relay_add :: "string \<Rightarrow> string list" where
  "relay_add iface \<equiv> add_delay_cmd RELAY_TARGET_NODE DELAY_MS JITTER_MS iface"

abbreviation relay_del :: "string \<Rightarrow> string list" where
  "relay_del iface \<equiv> del_delay_cmd RELAY_TARGET_NODE iface"

definition delayed :: "event list \<Rightarrow> string set" where
  "delayed evs = fold (\<lambda>ev D. {i. command ev = [relay_add i] \<or> i \<in> D \<and> command ev \<noteq> [relay_del i]}) evs {}"

definition failed_add :: "event list \<Rightarrow> bool" where
  "failed_add evs \<longleftrightarrow> (\<exists>i p. RunProc (relay_add i) [] (Inr p) \<in> set evs \<and> returncode p \<noteq> 0)"

definition unspawned :: "event list \<Rightarrow> bool" where
  "unspawned evs \<longleftrightarrow> (\<exists>argv vars e. RunProc argv vars (Inl e) \<in> set evs)"

lemma relay_cmd_simps [simp]:
  "relay_add i = relay_add j \<longleftrightarrow> i = j" "relay_del i = relay_del j \<longleftrightarrow> i = j" "relay_add i \<noteq> relay_del j" "relay_del i \<noteq> relay_add j"
  by (simp_all add: add_delay_cmd_def del_delay_cmd_def netem_run_def)

lemma delayed_snoc: "delayed (evs @ [ev]) = {i. command ev = [relay_add i] \<or> i \<in> delayed evs \<and> command ev \<noteq> [relay_del i]}"
  by (simp add: delayed_def)

lemma delayed_other:
  "list_all (\<lambda>ev. \<forall>i. command ev \<noteq> [relay_add i] \<and> command ev \<noteq> [relay_del i]) es \<Longrightarrow> delayed (evs @ es) = delayed evs"
  by (induction es rule: rev_induct) (simp_all add: delayed_snoc flip: append_assoc)

definition since :: "world \<Rightarrow> (event list \<Rightarrow> bool) \<Rightarrow> world \<Rightarrow> bool" where
  "since w0 \<Phi> w \<longleftrightarrow> (\<exists>evs. log w = log w0 @ evs \<and> \<Phi> evs)"

lemma since_mono: "since w0 \<Phi> w \<Longrightarrow> (\<And>evs. \<Phi> evs \<Longrightarrow> \<Psi> evs) \<Longrightarrow> since w0 \<Psi> w"
  unfolding since_def by blast

lemma since_emit: "since w0 \<Phi> w \<Longrightarrow> (\<And>evs. \<Phi> evs \<Longrightarrow> \<Psi> (evs @ [ev])) \<Longrightarrow> since w0 \<Psi> (emit E ev d w)"
  unfolding since_def emit_def by (fastforce intro: exI [of _ "_ @ [ev]"])

text \<open>Steps that do not touch the delays.\<close>

abbreviation bystander :: "event \<Rightarrow> bool" where
  "bystander ev \<equiv> (\<forall>i. command ev \<noteq> [relay_add i] \<and> command ev \<noteq> [relay_del i])"

definition links :: "(string set \<Rightarrow> bool) \<Rightarrow> bool \<Rightarrow> event list \<Rightarrow> bool" where
  "links D ok evs \<longleftrightarrow> D (delayed evs) \<and> (ok \<longrightarrow> \<not> failed_add evs)"

lemma links_bystander:
  assumes "list_all bystander es" "links D ok evs"
  shows "links D ok (evs @ es)"
proof -
  have "failed_add (evs @ es) \<longleftrightarrow> failed_add evs"
    using assms(1) by (fastforce simp: failed_add_def list_all_iff)
  then show ?thesis using assms by (simp add: links_def delayed_other)
qed

lemma wp_bystander:
  assumes "emits bystander m" "since w0 (links D ok) w"
  shows "wp m (\<lambda>_. since w0 (links D ok)) (\<lambda>_. since w0 (links D ok)) w"
proof (rule wp_mono [OF wp_emits [OF assms(1)]])
  show "since w0 (links D ok) w'" if "grows bystander w w'" for w'
    using that assms(2) by (fastforce simp: since_def grows_def intro: links_bystander)
  then show "since w0 (links D ok) w'" if "grows bystander w w'" for w' using that .
qed

lemma state_poll_bystander: "emits bystander (state_poll_for E s i ph tr)"
  by (intro emits_intros) simp_all

lemma apply_delay_wp:
  assumes "since w0 (links (\<lambda>D. D \<subseteq> I) True) w" "set ifaces \<subseteq> I"
  shows "wp (apply_delay E RELAY_TARGET_NODE ifaces DELAY_MS JITTER_MS) (\<lambda>_. since w0 (links (\<lambda>D. D \<subseteq> I) True))
    (\<lambda>e. since w0 (links (\<lambda>D. D \<subseteq> I) (exn_class e \<noteq> CalledProcessError))) w"
  using assms
proof (induction ifaces arbitrary: w)
  case Nil
  then show ?case by (simp add: apply_delay_def wp_simps)
next
  case (Cons x xs)
  have "since w0 (links (\<lambda>D. D \<subseteq> I) ok) (emit E (RunProc (relay_add x) [] r) 0 w)"
    if "ok \<longrightarrow> (\<forall>p. r = Inr p \<longrightarrow> returncode p = 0)" for r ok
    by (rule since_emit [OF Cons.prems(1)]) (use that Cons.prems(2) in \<open>auto simp: links_def delayed_snoc failed_add_def\<close>)
  with Cons.IH Cons.prems(2) show ?case
    by (auto simp: apply_delay_def wp_simps split: sum.split)
qed

lemma clear_delay_wp:
  assumes "since w0 (links (\<lambda>D. D \<subseteq> set ifaces) ok) w"
  shows "wp (clear_delay E RELAY_TARGET_NODE ifaces) (\<lambda>_. since w0 (links (\<lambda>D. D = {}) ok)) (\<lambda>_. since w0 unspawned) w"
  using assms
proof (induction ifaces arbitrary: w)
  case Nil
  then show ?case by (simp add: clear_delay_def wp_simps)
next
  case (Cons x xs)
  have "since w0 (links (\<lambda>D. D \<subseteq> set xs) ok) (emit E (RunProc (relay_del x) [] r) 0 w)" for r
    by (rule since_emit [OF Cons.prems]) (auto simp: links_def delayed_snoc failed_add_def)
  moreover have "since w0 unspawned (emit E (RunProc (relay_del x) [] (Inl e)) 0 w)" for e
    by (rule since_emit [OF Cons.prems]) (auto simp: unspawned_def)
  ultimately show ?case using Cons.IH by (auto simp: clear_delay_def wp_simps split: sum.split)
qed

definition relay_end :: "event list \<Rightarrow> bool" where
  "relay_end evs \<longleftrightarrow> failed_add evs \<longrightarrow> delayed evs = {} \<or> unspawned evs"

lemma relay_phases_wp:
  "wp (relay_phases E b a r i) (\<lambda>_. since w (links (\<lambda>D. D = {}) True)) (\<lambda>_. since w relay_end) w"
proof -
  have ends: "since w (links D True) v \<Longrightarrow> since w relay_end v" for D v
    by (erule since_mono) (simp add: links_def relay_end_def)
  have empty: "since w (links (\<lambda>D. D = {}) ok) v \<Longrightarrow> since w relay_end v" for ok v
    by (erule since_mono) (simp add: links_def relay_end_def)
  have uns: "since w unspawned v \<Longrightarrow> since w relay_end v" for v
    by (erule since_mono) (simp add: relay_end_def)
  have poll: "since w (links D True) v \<Longrightarrow> (\<And>tr v'. since w (links D True) v' \<Longrightarrow> Q tr v') \<Longrightarrow>
      wp (state_poll_for E s i ph tr) Q (\<lambda>_. since w relay_end) v" for D v Q s ph tr
    by (rule wp_mono [OF wp_bystander [OF state_poll_bystander]]) (auto intro: ends)
  have start: "since w (links (\<lambda>D. D = {}) True) w"
    by (simp add: since_def links_def delayed_def failed_add_def)
  have find: "wp (pairwise_link_interfaces E RELAY_TARGET_NODE) (\<lambda>_. since w (links (\<lambda>D. D = {}) True)) (\<lambda>_. since w relay_end) w"
  proof (rule wp_mono [OF wp_bystander [OF _ start]])
    show "emits bystander (pairwise_link_interfaces E RELAY_TARGET_NODE)"
      unfolding pairwise_link_interfaces_def
      by (intro emits_intros) (simp_all add: add_delay_cmd_def del_delay_cmd_def netem_run_def NETEM_HELPER_IMAGE_def)
  qed (auto intro: ends)
  have clear: "wp (py_then (clear_delay E RELAY_TARGET_NODE ifaces) m) Q (\<lambda>_. since w relay_end) v"
    if "since w (links (\<lambda>D. D \<subseteq> set ifaces) ok) v"
      "\<And>v'. since w (links (\<lambda>D. D = {}) ok) v' \<Longrightarrow> wp m Q (\<lambda>_. since w relay_end) v'" for v ok and m :: "'b py" and Q ifaces
    unfolding wp_then by (rule wp_mono [OF clear_delay_wp [OF that(1)]]) (auto intro: that(2) uns)
  have attack: "wp (py_try (apply_delay E RELAY_TARGET_NODE ifaces DELAY_MS JITTER_MS) [CalledProcessError]
       (\<lambda>_. py_then (clear_delay E RELAY_TARGET_NODE ifaces) (py_raise (Exn SystemExit ''1''))))
     (\<lambda>_. since w (links (\<lambda>D. D \<subseteq> set ifaces) True)) (\<lambda>_. since w relay_end) v"
    if "since w (links (\<lambda>D. D = {}) True) v" for ifaces v
    unfolding wp_try
  proof (rule wp_mono [OF apply_delay_wp [OF _ order_refl]])
    show "since w (links (\<lambda>D. D \<subseteq> set ifaces) True) v" using that by (rule since_mono) (simp add: links_def)
    fix e v'
    assume "since w (links (\<lambda>D. D \<subseteq> set ifaces) (exn_class e \<noteq> CalledProcessError)) v'"
    then show "(if caught_by [CalledProcessError] e
        then wp (py_then (clear_delay E RELAY_TARGET_NODE ifaces) (py_raise (Exn SystemExit ''1'')))
          (\<lambda>_. since w (links (\<lambda>D. D \<subseteq> set ifaces) True)) (\<lambda>_. since w relay_end)
        else (\<lambda>w'. since w relay_end w')) v'"
      by (auto simp: called_caught wp_raise intro!: clear intro: ends empty)
  qed
  show ?thesis
    unfolding relay_phases_def wp_bind [of time_time] wp_time
  proof (rule wp_seq [OF find], rule wp_seq_then [where I = "\<lambda>_. since w (links (\<lambda>D. D = {}) True)"])
    fix ifaces v
    assume v: "since w (links (\<lambda>D. D = {}) True) v"
    show "wp (if ifaces = [] then py_raise (Exn SystemExit ''1'') else py_return ())
        (\<lambda>_. since w (links (\<lambda>D. D = {}) True)) (\<lambda>_. since w relay_end) v"
      using v by (auto simp: wp_simps intro: ends)
  next
    fix ifaces v
    assume v: "since w (links (\<lambda>D. D = {}) True) v"
    show "wp (py_bind (state_poll_for E b i ''baseline'' (new_state_tracker (clock w))) (\<lambda>tr1.
       py_then (py_try (apply_delay E RELAY_TARGET_NODE ifaces DELAY_MS JITTER_MS) [CalledProcessError]
         (\<lambda>_. py_then (clear_delay E RELAY_TARGET_NODE ifaces) (py_raise (Exn SystemExit ''1''))))
       (py_bind (state_poll_for E a i ''attack'' tr1) (\<lambda>tr2.
        py_then (clear_delay E RELAY_TARGET_NODE ifaces)
        (py_bind (state_poll_for E r i ''recovery'' tr2) (\<lambda>tr3. py_return (ifaces, tr3)))))))
      (\<lambda>_. since w (links (\<lambda>D. D = {}) True)) (\<lambda>_. since w relay_end) v"
      by (rule wp_seq [OF poll [OF v]], assumption, rule wp_seq_then [OF attack], assumption, rule wp_seq [OF poll], assumption, assumption,
          rule clear, assumption, rule wp_seq [OF poll], assumption, assumption, simp add: wp_return)
  qed
qed

lemma relay_main_wp:
  "wp (relay_main E b a r i) (\<lambda>_. since w (links (\<lambda>D. D = {}) True)) (\<lambda>_. since w relay_end) w"
  unfolding relay_main_def Let_def write_csv_def
  by (rule wp_seq [OF relay_phases_wp], simp only: split_paired_all prod.case, rule wp_mono [OF wp_bystander], intro emits_intros)
    (auto elim!: since_mono simp: links_def relay_end_def)


section \<open>The attacks in concrete environments\<close>

lemma churn_main_total: "0 < i \<Longrightarrow> total (churn_main E b s on off n r i)"
proof -
  have "total (retry_run E argv k e)" for argv k e
    by (induction k arbitrary: e) (auto intro!: total_intros)
  then show "0 < i \<Longrightarrow> total (churn_main E b s on off n r i)"
    unfolding churn_main_def churn_phases_def churn_cycle_def attacker_up_def attacker_down_def stop_attacker_def start_attacker_def Let_def
    by (intro total_intros)
qed

lemma relay_main_total: "0 < i \<Longrightarrow> total (relay_main E b a r i)"
  unfolding relay_main_def relay_phases_def pairwise_link_interfaces_def apply_delay_def clear_delay_def Let_def
  by (intro total_intros)

definition link_docker :: "string list \<Rightarrow> (string \<times> string) list \<Rightarrow> proc result" where
  "link_docker argv vars = Inr \<lparr>returncode = 0, out_text = ''3: eth3    inet 172.40.14.4/24'', err_text = []\<rparr>"

abbreviation link_env :: env where
  "link_env \<equiv> static_env (\<lambda>_ _. Inl (Exn URLError [])) link_docker"

lemma link_ifaces: "List.map_filter link_interface (splitlines ''3: eth3    inet 172.40.14.4/24'') = [''eth3'']"
  by code_simp

lemma link_poll_quiet [quiet_intros]: "0 \<le> i \<Longrightarrow> quiet (state_poll_for link_env s i ph tr)"
  unfolding state_poll_for_def state_step_def by (intro attack_poll_quiet [of _ "[]"] quiet_intros) simp_all

lemma churn_main_runs: "\<exists>dev rec tr w'. churn_main link_env 30 20 15 20 8 120 5 start_world = Some (Inr (dev, rec, tr), w')"
proof -
  have "quiet (attacker_up link_env)"
    unfolding attacker_up_def numeral_3_eq_3 retry_run.simps by (intro quiet_intros) (simp add: link_docker_def)
  then have "quiet (churn_main link_env 30 20 15 20 8 120 5)"
    unfolding churn_main_def churn_phases_def churn_cycle_def attacker_down_def stop_attacker_def start_attacker_def Let_def write_csv_def
    by (intro quiet_intros) (simp_all add: link_docker_def)
  from quiet_returns [OF this churn_main_total] show ?thesis by (simp add: split_paired_Ex)
qed

lemma link_interfaces_quiet: "quiet (f [''eth3'']) \<Longrightarrow> quiet (py_bind (pairwise_link_interfaces link_env c) f)"
  unfolding quiet_def wp_bind pairwise_link_interfaces_def
  by (simp add: wp_simps link_docker_def link_ifaces)

lemma relay_main_runs: "\<exists>dev rec tr w'. relay_main link_env 30 240 120 5 start_world = Some (Inr (dev, rec, tr), w')"
proof -
  have "quiet (relay_phases link_env 30 240 120 5)"
    unfolding relay_phases_def apply_delay_def clear_delay_def
    by (rule quiet_bind, rule quiet_simps, rule link_interfaces_quiet, simp only: list.distinct if_False)
      (intro quiet_intros; simp add: link_docker_def)
  then have "quiet (relay_main link_env 30 240 120 5)"
    unfolding relay_main_def Let_def write_csv_def by (intro quiet_intros)
  from quiet_returns [OF this relay_main_total] show ?thesis by (simp add: split_paired_Ex)
qed


theorem churn_attack_commands_witness:
  "\<exists>x w' evs j. churn_main link_env 30 20 15 20 8 120 5 start_world = Some (Inr x, w') \<and>
     log w' = log start_world @ evs \<and> 1 \<le> j \<and> j \<le> 3 \<and>
     trace command evs = replicate j (compose_cmd ATTACKER_PROFILE UP ATTACKER_SERVICES)
       @ concat (replicate (nat 8) (map (\<lambda>svc. [''docker'', ''stop'', svc]) ATTACKER_SERVICES @
           map (\<lambda>svc. [''docker'', ''start'', svc]) ATTACKER_SERVICES))
       @ [compose_cmd ATTACKER_PROFILE STOP ATTACKER_SERVICES, compose_cmd ATTACKER_PROFILE RM ATTACKER_SERVICES]"
proof -
  obtain x w' where c: "churn_main link_env 30 20 15 20 8 120 5 start_world = Some (Inr x, w')"
    using churn_main_runs by blast
  from churn_attack_commands [of link_env, THEN conjunct1, rule_format, OF c] c show ?thesis by blast
qed


end
