(* ===== verification/Sybil_Attack.thy ===== *)
theory Sybil_Attack
  imports P2p_Attacks
begin

text \<open>
  The Sybil attack of \<^verbatim>\<open>scripts/e4_p2p_eclipse_detection/live_sybil_attack.py\<close> and the subnet counts of
  \<^verbatim>\<open>scripts/framework/logger.py\<close> it relies on, with the parts of Python's \<^verbatim>\<open>ipaddress\<close> that these use. Shown here:
  the counts are the numbers of connected peers per subnet, and what the four verdicts of a run say.
\<close>

section \<open>Internet addresses\<close>

text \<open>\<^verbatim>\<open>ipaddress.IPv4Address\<close>: four decimal octets without leading zeros.\<close>

definition parse_octet :: "string \<Rightarrow> nat option" where
  "parse_octet s =
     (if s = [] \<or> \<not> list_all is_digit s \<or> 3 < length s \<or> (s \<noteq> ''0'' \<and> hd s = CHR ''0'') \<or> 255 < digits_value s
      then None else Some (digits_value s))"

fun all_some :: "'a option list \<Rightarrow> 'a list option" where
  "all_some [] = Some []"
| "all_some (x # xs) = Option.bind x (\<lambda>y. map_option ((#) y) (all_some xs))"

definition parse_v4 :: "string \<Rightarrow> nat list option" where
  "parse_v4 s = (let parts = split_char (CHR ''.'') s in if length parts = 4 then all_some (map parse_octet parts) else None)"

definition show_v4 :: "nat list \<Rightarrow> string" where
  "show_v4 octets = py_join ''.'' (map show_nat octets)"

text \<open>\<^verbatim>\<open>ipaddress.IPv6Address\<close>: eight groups of up to four hexadecimal digits, one run of groups may be
  left out, the last two groups may be written as an IPv4 address, a scope may follow.\<close>

definition parse_hextet :: "string \<Rightarrow> nat option" where
  "parse_hextet s =
     (if s = [] \<or> 4 < length s then None
      else map_option (foldl (\<lambda>a d. 16 * a + d) 0) (all_some (map hex_value s)))"

fun show_hex :: "nat \<Rightarrow> string" where
  "show_hex n =
     (let d = [char_of (if n mod 16 < 10 then 48 + n mod 16 else 87 + n mod 16)] in
      if n < 16 then d else show_hex (n div 16) @ d)"

declare show_hex.simps [simp del]

definition v6_parts :: "string \<Rightarrow> string list option" where
  "v6_parts addr =
     (let parts = split_char (CHR '':'') addr in
      if addr = [] \<or> length parts < 3 then None
      else if CHR ''.'' \<in> set (last parts) then
        (case parse_v4 (last parts) of
           Some [a, b, c, d] \<Rightarrow> Some (butlast parts @ [show_hex (256 * a + b), show_hex (256 * c + d)])
         | _ \<Rightarrow> None)
      else Some parts)"

definition v6_groups :: "string list \<Rightarrow> nat list option" where
  "v6_groups parts =
     (let n = length parts; skips = filter (\<lambda>i. parts ! i = []) [1 ..< n - 1] in
      if 9 < n then None
      else case skips of
        [] \<Rightarrow> if n \<noteq> 8 \<or> hd parts = [] \<or> last parts = [] then None else all_some (map parse_hextet parts)
      | [i] \<Rightarrow>
          (let hi = (if hd parts = [] then i - 1 else i); lo = (if last parts = [] then n - i - 2 else n - i - 1) in
           if (hd parts = [] \<and> hi \<noteq> 0) \<or> (last parts = [] \<and> lo \<noteq> 0) \<or> 8 \<le> hi + lo then None
           else Option.bind (all_some (map parse_hextet (take hi parts))) (\<lambda>hs.
                map_option (\<lambda>ls. hs @ replicate (8 - (hi + lo)) 0 @ ls)
                  (all_some (map parse_hextet (drop (n - lo) parts)))))
      | _ \<Rightarrow> None)"

definition parse_v6 :: "string \<Rightarrow> (nat list \<times> string option) option" where
  "parse_v6 s =
     (let addr = takeWhile (\<lambda>c. c \<noteq> CHR ''%'') s; rest = dropWhile (\<lambda>c. c \<noteq> CHR ''%'') s in
      if CHR ''/'' \<in> set s \<or> (rest \<noteq> [] \<and> (tl rest = [] \<or> CHR ''%'' \<in> set (tl rest))) then None
      else Option.bind (v6_parts addr) (\<lambda>parts.
           map_option (\<lambda>gs. (gs, if rest = [] then None else Some (tl rest))) (v6_groups parts)))"

text \<open>\<^verbatim>\<open>_compress_hextets\<close>: the first longest run of at least two zero groups is left out.\<close>

fun zero_run :: "nat \<Rightarrow> nat \<Rightarrow> nat \<Rightarrow> nat \<Rightarrow> nat \<Rightarrow> nat list \<Rightarrow> nat \<times> nat" where
  "zero_run i start len best best_len [] = (best, best_len)"
| "zero_run i start len best best_len (h # hs) =
     (if h = 0 then
        (let start' = (if len = 0 then i else start) in
         if best_len < len + 1 then zero_run (i + 1) start' (len + 1) start' (len + 1) hs
         else zero_run (i + 1) start' (len + 1) best best_len hs)
      else zero_run (i + 1) 0 0 best best_len hs)"

definition show_v6 :: "nat list \<Rightarrow> string" where
  "show_v6 groups =
     (case zero_run 0 0 0 0 0 groups of (start, len) \<Rightarrow>
        if 1 < len then
          py_join '':'' ((if start = 0 then [[]] else []) @ map show_hex (take start groups) @ [[]]
            @ map show_hex (drop (start + len) groups) @ (if start + len = length groups then [[]] else []))
        else py_join '':'' (map show_hex groups))"

section \<open>Subnet counts\<close>

text \<open>\<^verbatim>\<open>_subnet_of\<close>: the network address of the /24 or /48 network; a scope survives only when there is
  nothing to mask out.\<close>

definition subnet_of :: "string \<Rightarrow> string result" where
  "subnet_of ip =
     (case parse_v4 ip of
        Some octets \<Rightarrow> Inr (show_v4 (take 3 octets @ [0]))
      | None \<Rightarrow>
          (case parse_v6 ip of
             Some (gs, scope) \<Rightarrow>
               (let net = take 3 gs @ replicate 5 0 in
                Inr (show_v6 net @ (case scope of Some sc \<Rightarrow> if net = gs then ''%'' @ sc else [] | None \<Rightarrow> [])))
           | None \<Rightarrow> Inl (Exn ValueError (ip @ '' does not appear to be an IPv4 or IPv6 address''))))"

text \<open>A remote address that is not text is no address either.\<close>

definition json_subnet :: "json \<Rightarrow> string result" where
  "json_subnet j = (case j of JStr ip \<Rightarrow> subnet_of ip | _ \<Rightarrow> Inl (Exn ValueError ''not an IPv4 or IPv6 address''))"

definition peer_ip :: "json \<Rightarrow> json result" where
  "peer_ip p = json_get p ''remote_ip'' (JStr [])"

fun count_subnets :: "(string, nat) dict \<Rightarrow> json list \<Rightarrow> (string, nat) dict result" where
  "count_subnets counts [] = Inr counts"
| "count_subnets counts (p # ps) =
     rbind (peer_ip p) (\<lambda>ip.
     if \<not> json_truthy ip then count_subnets counts ps
     else rbind (json_subnet ip) (\<lambda>subnet. count_subnets (AList.update subnet (dict_get counts subnet 0 + 1) counts) ps))"

definition peers_of :: "json \<Rightarrow> json list result" where
  "peers_of info =
     rbind (json_get info ''result'' (JObj [])) (\<lambda>r.
     rbind (json_get r ''peers'' (JArr [])) json_list)"

definition peer_subnet_counts :: "env \<Rightarrow> string \<Rightarrow> int option \<Rightarrow> (string, nat) dict py" where
  "peer_subnet_counts E n port =
     py_bind (net_info E n port) (\<lambda>info.
     py_lift (rbind (peers_of info) (count_subnets [])))"

section \<open>live_sybil_attack.py\<close>

definition SYBIL_TARGET_NODE :: string where "SYBIL_TARGET_NODE = ''engram-node01''"
definition TARGET_SUBNET :: string where "TARGET_SUBNET = ''172.28.0.0''"
definition MAX_PEERS_PER_SUBNET :: nat where "MAX_PEERS_PER_SUBNET = 8"
definition ALL_VALIDATORS :: "string list" where "ALL_VALIDATORS = dict_keys NODE_RPC_PORTS"

record leg =
  profile :: string
  services :: "string list"
  description :: string

definition LEGS :: "(string, leg) dict" where
  "LEGS =
     [(''a1'', \<lparr>profile = ''attacker-swarm-a1'',
         services = map (\<lambda>i. ''attacker-a1-'' @ two_digits i) [1 ..< 11],
         description = ''10 attackers, all on engram-net (same subnet as the 4 real validators)''\<rparr>),
      (''a2'', \<lparr>profile = ''attacker-swarm-a2'',
         services = map (\<lambda>suffix. ''attacker-a2-'' @ suffix)
           [''a1'', ''a2'', ''a3'', ''b1'', ''b2'', ''b3'', ''c1'', ''c2'', ''c3'', ''d1'', ''d2'', ''d3''],
         description = ''12 attackers across 4 distinct subnets (attacker-subnet-a/b/c/d, 3 each)''\<rparr>)]"

definition sybil_swarm_up :: "env \<Rightarrow> string \<Rightarrow> string list \<Rightarrow> unit py" where
  "sybil_swarm_up E prof svcs =
     retry_run E (compose_cmd prof UP svcs) 3 (Exn TypeError ''exceptions must derive from BaseException'')"

definition sybil_swarm_down :: "env \<Rightarrow> string \<Rightarrow> string list \<Rightarrow> unit py" where
  "sybil_swarm_down E prof svcs =
     py_then (run_proc E (compose_cmd prof STOP svcs) False)
     (py_then (run_proc E (compose_cmd prof RM svcs) False) (py_return ()))"

record sybil_row =
  row_t :: rat
  row_phase :: string
  row_fsm_state :: string
  row_height :: int
  target_subnet_peer_count :: nat
  total_peers :: nat
  subnet_distribution :: "(string, nat) dict"

record sybil_tracker = flood_tracker +
  sy_rows :: "sybil_row list"

definition new_sybil_tracker :: "bool \<Rightarrow> rat \<Rightarrow> sybil_tracker" where
  "new_sybil_tracker sample_stats t = \<lparr>dt_start = t, dt_samples = [], dt_events = [], rt_phase_heights = [],
     ft_sample_stats = sample_stats, ft_phase_stats = [], sy_rows = []\<rparr>"

text \<open>A failure to count the peers is an empty count.\<close>

definition observed_counts :: "env \<Rightarrow> (string, nat) dict py" where
  "observed_counts E = py_try (peer_subnet_counts E SYBIL_TARGET_NODE None) [Exception] (\<lambda>_. py_return [])"

definition sybil_row_of :: "string \<Rightarrow> rat \<Rightarrow> NodeSample \<Rightarrow> (string, nat) dict \<Rightarrow> sybil_row" where
  "sybil_row_of phase t s counts =
     \<lparr>row_t = round1 t, row_phase = phase, row_fsm_state = fsm_state s, row_height = height s,
      target_subnet_peer_count = dict_get counts TARGET_SUBNET 0, total_peers = sum_list (dict_values counts),
      subnet_distribution = counts\<rparr>"

definition sybil_step :: "env \<Rightarrow> string \<Rightarrow> string list \<Rightarrow> rat \<Rightarrow> NodeSample list \<Rightarrow> sybil_tracker \<Rightarrow> sybil_tracker py" where
  "sybil_step E phase stats_containers t rs tr =
     (case find (\<lambda>x. node x = SYBIL_TARGET_NODE) rs of
        None \<Rightarrow> py_raise (Exn StopIteration [])
      | Some s \<Rightarrow> py_bind (observed_counts E) (\<lambda>counts.
     (let tr1 = rate_absorb ALL_VALIDATORS t phase rs
            (tr\<lparr>rt_phase_heights := open_phase phase (rt_phase_heights tr), ft_phase_stats := open_phase phase (ft_phase_stats tr)\<rparr>) in
     py_bind ((if ft_sample_stats tr1
                  then py_bind (sample_docker_stats E (if stats_containers = [] then ALL_VALIDATORS else stats_containers)) (\<lambda>st.
                       py_return (tr1\<lparr>ft_phase_stats := dict_append phase st (ft_phase_stats tr1)\<rparr>))
                  else py_return tr1)) (\<lambda>tr2.
     py_return (tr2\<lparr>sy_rows := sy_rows tr2 @ [sybil_row_of phase t s counts]\<rparr>)))))"

definition sybil_poll_for :: "env \<Rightarrow> rat \<Rightarrow> rat \<Rightarrow> string \<Rightarrow> string list \<Rightarrow> sybil_tracker \<Rightarrow> sybil_tracker py" where
  "sybil_poll_for E seconds interval phase stats_containers tr =
     attack_poll (sybil_step E phase stats_containers) E (dt_start tr) seconds interval tr"

definition last_target_count :: "sybil_row list \<Rightarrow> nat" where
  "last_target_count rows = (if rows = [] then 0 else target_subnet_peer_count (last rows))"

definition phase_rows :: "string \<Rightarrow> sybil_row list \<Rightarrow> sybil_row list" where
  "phase_rows phase rows = filter (\<lambda>r. row_phase r = phase) rows"

definition sybil_fsm_healthy :: "sybil_row list \<Rightarrow> bool" where
  "sybil_fsm_healthy rows =
     (let baseline_states = set (filter (\<lambda>s. s \<noteq> []) (map row_fsm_state (phase_rows ''baseline'' rows)));
          attack_states = set (filter (\<lambda>s. s \<noteq> [])
            (map row_fsm_state (filter (\<lambda>r. row_phase r \<in> {''attack'', ''recovery''}) rows))) in
      if baseline_states \<noteq> {} then attack_states \<subseteq> baseline_states else True)"

definition stats_table :: "sybil_tracker \<Rightarrow> string list \<Rightarrow> string" where
  "stats_table tr containers =
     ''## Resource usage during attack (docker stats)'' @ NL @ NL
     @ ''| Container | Avg CPU% | Max CPU% | Avg Mem (MiB) | Max Mem (MiB) |'' @ NL @ ''|---|---:|---:|---:|---:|'' @ NL
     @ concat (map (\<lambda>c. case stats_summary tr ''attack'' c of
          Some (avg_cpu, max_cpu, avg_mem, max_mem) \<Rightarrow>
            md_row [c, fmt_fixed 2 avg_cpu, fmt_fixed 2 max_cpu, fmt_fixed 1 avg_mem, fmt_fixed 1 max_mem]
        | None \<Rightarrow> md_row [c, ''n/a'', ''n/a'', ''n/a'', ''n/a'']) containers)
     @ NL"

definition sybil_summary :: "env \<Rightarrow> string \<Rightarrow> leg \<Rightarrow> rat \<Rightarrow> nat \<Rightarrow> nat \<Rightarrow> nat \<Rightarrow> nat \<Rightarrow> string list \<Rightarrow> sybil_tracker \<Rightarrow> string" where
  "sybil_summary E name l elapsed baseline_count peak_count peak_total final_count containers tr =
     (let rate = height_rate (rt_phase_heights tr) in
      ''# LIVE Sybil/slot-exhaustion attack, leg '' @ repr_str name @ NL @ NL
      @ description l @ NL @ NL
      @ ''Total duration: '' @ fmt_fixed 0 elapsed @ ''s. MaxPeersPerSubnet='' @ show_nat MAX_PEERS_PER_SUBNET @ ''.'' @ NL @ NL
      @ ''## Real observed subnet-peer counts (target: engram-node01, subnet 172.28.0.0/24)'' @ NL @ NL
      @ ''- Baseline (pre-attack): '' @ show_nat baseline_count @ NL
      @ ''- Peak during attack: '' @ show_nat peak_count @ '' (peak total peers across all subnets: '' @ show_nat peak_total @ '')'' @ NL
      @ ''- After teardown (recovery): '' @ show_nat final_count @ NL @ NL
      @ ''## Verdict'' @ NL @ NL
      @ ''- Ingress filter held the target subnet at or below MaxPeersPerSubnet during the attack: **''
      @ py_bool (peak_count \<le> MAX_PEERS_PER_SUBNET) @ ''**'' @ NL
      @ ''- FSM state never left ANCHORED/SUSPICIOUS during the attack (no false SOVEREIGN degradation from a defended attack): **''
      @ py_bool (sybil_fsm_healthy (sy_rows tr)) @ ''**'' @ NL
      @ ''- Safety held (all 4 validators' AppHash never diverged at the same height): **'' @ py_bool (dt_events tr = []) @ ''**'' @ NL
      @ ''- Divergence events: '' @ show_nat (length (dt_events tr)) @ NL
      @ ''- Liveness held (block rate during attack vs. baseline, no collapse toward 0): **''
      @ py_bool (liveness_held (rate ''baseline'') (rate ''attack'')) @ ''** (baseline '' @ fmt_fixed 3 (rate ''baseline'')
      @ '' blocks/s, attack '' @ fmt_fixed 3 (rate ''attack'') @ '' blocks/s, recovery '' @ fmt_fixed 3 (rate ''recovery'') @ '' blocks/s)'' @ NL @ NL
      @ (if dt_events tr = [] then [] else divergence_detail E (dt_events tr) @ NL)
      @ (if ft_sample_stats tr then stats_table tr containers else [])
      @ ''## Full timeline'' @ NL @ NL
      @ ''| t (s) | phase | fsm_state | height | target_subnet_peers | total_peers |'' @ NL @ ''|---:|---|---|---:|---:|---:|'' @ NL
      @ concat (map (\<lambda>r. md_row [repr_float E (row_t r), row_phase r, row_fsm_state r, py_str_int (row_height r),
          show_nat (target_subnet_peer_count r), show_nat (total_peers r)]) (sy_rows tr)))"

text \<open>The verdicts printed at the end.\<close>

record sybil_verdict =
  filter_held :: bool
  fsm_stayed_healthy :: bool
  safety_held :: bool
  sybil_liveness_held :: bool
  peak_target_subnet_count :: nat

definition sybil_main :: "env \<Rightarrow> string \<Rightarrow> rat \<Rightarrow> rat \<Rightarrow> rat \<Rightarrow> rat \<Rightarrow> bool \<Rightarrow> (sybil_verdict \<times> sybil_tracker) py" where
  "sybil_main E name baseline_s attack_s recovery_s interval_s sample_stats = py_bind (py_lift (dict_item LEGS name)) (\<lambda>l.
     py_bind (time_time) (\<lambda>t0.
     (let containers = ALL_VALIDATORS @ services l in
     py_bind (sybil_poll_for E baseline_s interval_s ''baseline'' [] (new_sybil_tracker sample_stats t0)) (\<lambda>tr1.
     py_then (sybil_swarm_up E (profile l) (services l))
     (py_bind (sybil_poll_for E attack_s interval_s ''attack'' containers tr1) (\<lambda>tr2.
     py_bind (py_lift (py_max id (map target_subnet_peer_count (phase_rows ''attack'' (sy_rows tr2))))) (\<lambda>peak_count.
     py_bind (py_lift (py_max id (map total_peers (phase_rows ''attack'' (sy_rows tr2))))) (\<lambda>peak_total.
     py_then (sybil_swarm_down E (profile l) (services l))
     (py_bind (sybil_poll_for E recovery_s interval_s ''recovery'' [] tr2) (\<lambda>tr.
     py_bind (ts_label E) (\<lambda>label.
     py_then (write_csv E (dt_samples tr) (path_join E4_RESULTS_DIR (''sybil_attack_'' @ name @ ''_'' @ label @ ''.csv'')))
     (py_bind (time_time) (\<lambda>now.
     py_then (write_file E (path_join E4_RESULTS_DIR (''sybil_attack_'' @ name @ ''_'' @ label @ ''_summary.md''))
       (sybil_summary E name l (now - dt_start tr) (last_target_count (sy_rows tr1)) peak_count peak_total
          (last_target_count (sy_rows tr)) containers tr))
     (py_return
       (\<lparr>filter_held = (peak_count \<le> MAX_PEERS_PER_SUBNET),
         fsm_stayed_healthy = sybil_fsm_healthy (sy_rows tr),
         safety_held = (dt_events tr = []),
         sybil_liveness_held = liveness_held (height_rate (rt_phase_heights tr) ''baseline'') (height_rate (rt_phase_heights tr) ''attack''),
         peak_target_subnet_count = peak_count\<rparr>, tr)))))))))))))))"

section \<open>The counts are the numbers of peers\<close>

lemma split_char_fresh: "c \<notin> set s \<Longrightarrow> split_char c s = [s]"
  by (induction s) auto

lemma split_char_append: "c \<notin> set s \<Longrightarrow> split_char c (s @ c # t) = s # split_char c t"
  by (induction s) auto

lemma split_char_join: "xs \<noteq> [] \<Longrightarrow> \<forall>s \<in> set xs. c \<notin> set s \<Longrightarrow> split_char c (py_join [c] xs) = xs"
proof (induction xs rule: induct_list012)
  case (3 x y zs)
  then show ?case by (simp add: split_char_append)
qed (simp_all add: split_char_fresh)

lemma show_nat_not_dot: "CHR ''.'' \<notin> set (show_nat n)"
  using show_nat_digits [of n] by (auto simp: is_digit_def code_of_def)

lemma digit_char_zero: "d < 10 \<Longrightarrow> digit_char d = CHR ''0'' \<Longrightarrow> d = 0"
proof -
  assume d: "d < 10" "digit_char d = CHR ''0''"
  have "code_of (digit_char d) = code_of (CHR ''0'')" by (simp only: d)
  with d(1) show "d = 0" by (simp add: code_of_def [of "CHR ''0''"])
qed

lemma show_nat_lead: "n \<noteq> 0 \<Longrightarrow> hd (show_nat n) \<noteq> CHR ''0''"
proof (induction n rule: show_nat.induct)
  case (1 n)
  show ?case
  proof (cases "n < 10")
    case True
    with 1 show ?thesis by (auto simp: show_nat.simps [of n] dest: digit_char_zero)
  next
    case False
    with 1 show ?thesis by (simp add: show_nat.simps [of n])
  qed
qed

lemma parse_octet_show: "n < 256 \<Longrightarrow> parse_octet (show_nat n) = Some n"
proof -
  assume n: "n < 256"
  have v: "digits_value (show_nat n) = n" unfolding digits_value_def by (rule show_nat_value)
  have d: "list_all is_digit (show_nat n)" using show_nat_digits [of n] by (simp add: list_all_iff)
  have l: "length (show_nat n) \<le> 3"
    using n by (simp add: show_nat.simps [of n] show_nat.simps [of "n div 10"] show_nat.simps [of "n div 10 div 10"])
  have z: "show_nat n = ''0'' \<or> hd (show_nat n) \<noteq> CHR ''0''"
    using show_nat_lead [of n] by (cases "n = 0") (simp_all add: show_nat.simps [of 0] digit_char_def)
  show ?thesis using n v d l z by (auto simp: parse_octet_def)
qed

lemma all_some_map: "(\<And>x. x \<in> set xs \<Longrightarrow> f x = Some (g x)) \<Longrightarrow> all_some (map f xs) = Some (map g xs)"
  by (induction xs) auto

lemma parse_show_v4: "length os = 4 \<Longrightarrow> \<forall>n \<in> set os. n < 256 \<Longrightarrow> parse_v4 (show_v4 os) = Some os"
proof -
  assume l: "length os = 4" and o: "\<forall>n \<in> set os. n < 256"
  have "split_char (CHR ''.'') (show_v4 os) = map show_nat os"
    unfolding show_v4_def by (rule split_char_join) (use l show_nat_not_dot in auto)
  moreover have "all_some (map (\<lambda>n. parse_octet (show_nat n)) os) = Some (map (\<lambda>n. n) os)"
    by (rule all_some_map) (use o parse_octet_show in auto)
  ultimately show ?thesis using l by (simp add: parse_v4_def comp_def)
qed

lemma subnet_of_v4: "a < 256 \<Longrightarrow> b < 256 \<Longrightarrow> c < 256 \<Longrightarrow> d < 256 \<Longrightarrow> subnet_of (show_v4 [a, b, c, d]) = Inr (show_v4 [a, b, c, 0])"
  by (simp add: subnet_of_def parse_show_v4)

definition in_subnet :: "string \<Rightarrow> json \<Rightarrow> bool" where
  "in_subnet s p \<longleftrightarrow> (\<exists>ip. peer_ip p = Inr ip \<and> json_truthy ip \<and> json_subnet ip = Inr s)"

definition addressed :: "json \<Rightarrow> bool" where
  "addressed p \<longleftrightarrow> (\<exists>ip. peer_ip p = Inr ip \<and> json_truthy ip)"

lemma get_update: "dict_get (AList.update k v d) s z = (if s = k then v else dict_get d s z)"
  by (simp add: dict_get_def update_conv')

lemma sum_update: "sum_list (dict_values (AList.update k (dict_get d k 0 + 1) d)) = Suc (sum_list (dict_values d))" if "distinct (map fst d)"
  for d :: "(string, nat) dict"
  using that
proof (induction d)
  case (Cons kv d)
  obtain k' v where kv: "kv = (k', v)" by fastforce
  show ?case
  proof (cases "k' = k")
    case True
    then show ?thesis by (simp add: kv dict_get_def dict_values_def)
  next
    case False
    then have "dict_get ((k', v) # d) k 0 = dict_get d k 0" by (simp add: dict_get_def)
    with False Cons show ?thesis by (simp add: kv dict_values_def)
  qed
qed (simp add: dict_get_def dict_values_def)

lemma count_subnets_exact:
  "count_subnets counts ps = Inr counts' \<Longrightarrow> distinct (map fst counts) \<Longrightarrow>
   distinct (map fst counts') \<and> (\<forall>s. dict_get counts' s 0 = dict_get counts s 0 + length (filter (in_subnet s) ps)) \<and>
   sum_list (dict_values counts') = sum_list (dict_values counts) + length (filter addressed ps)"
proof (induction ps arbitrary: counts)
  case (Cons p ps)
  obtain ip where ip: "peer_ip p = Inr ip" using Cons.prems(1) by (cases "peer_ip p") (auto simp: rbind_def)
  show ?case
  proof (cases "json_truthy ip")
    case False
    then have "\<not> addressed p" "\<not> in_subnet s p" for s using ip by (simp_all add: addressed_def in_subnet_def)
    with Cons False ip show ?thesis by (simp add: rbind_def)
  next
    case True
    then obtain sn where sn: "json_subnet ip = Inr sn"
      using Cons.prems(1) ip by (cases "json_subnet ip") (auto simp: rbind_def)
    let ?c = "AList.update sn (dict_get counts sn 0 + 1) counts"
    have "addressed p" "in_subnet s p \<longleftrightarrow> s = sn" for s using ip True sn by (auto simp: addressed_def in_subnet_def)
    moreover have "count_subnets ?c ps = Inr counts'" using Cons.prems(1) ip True sn by (simp add: rbind_def)
    moreover have "distinct (map fst ?c)" using Cons.prems(2) by (simp add: distinct_update)
    ultimately show ?thesis using Cons.IH [of ?c] sum_update [OF Cons.prems(2), of sn] by (simp add: get_update)
  qed
qed simp

text \<open>\<^verbatim>\<open>peer_subnet_counts\<close> counts exactly: of the peers listed in the node's answer it gives, for every subnet, the
  number whose remote address lies in it, and altogether every peer that has an address; no subnet has two entries.\<close>

theorem peer_subnet_counts_exact:
  assumes "peer_subnet_counts E n port w = Some (Inr counts, w')"
  shows "\<exists>info ps. net_info E n port w = Some (Inr info, w') \<and> peers_of info = Inr ps \<and> distinct (dict_keys counts) \<and>
    (\<forall>s. dict_get counts s 0 = length (filter (\<lambda>p. \<exists>ip. peer_ip p = Inr ip \<and> json_truthy ip \<and> json_subnet ip = Inr s) ps)) \<and>
    sum_list (dict_values counts) = length (filter (\<lambda>p. \<exists>ip. peer_ip p = Inr ip \<and> json_truthy ip) ps)"
proof -
  obtain info where info: "net_info E n port w = Some (Inr info, w')" and "rbind (peers_of info) (count_subnets []) = Inr counts"
    using assms by (auto simp: peer_subnet_counts_def py_bind_def py_lift_def split: option.splits sum.splits)
  then obtain ps where ps: "peers_of info = Inr ps" "count_subnets [] ps = Inr counts"
    by (cases "peers_of info") (auto simp: rbind_def)
  from count_subnets_exact [OF ps(2)] show ?thesis
    using info ps(1) unfolding in_subnet_def [abs_def] addressed_def [abs_def]
    by (simp add: dict_keys_def dict_get_def dict_values_def)
qed

definition peer_info :: json where
  "peer_info = JObj [(''result'', JObj [(''peers'', JArr [
     JObj [(''remote_ip'', JStr ''172.28.0.11'')], JObj [(''remote_ip'', JStr ''172.40.14.1'')],
     JObj [(''remote_ip'', JStr ''172.28.0.12'')], JObj [(''remote_ip'', JStr [])]])])]"

abbreviation peer_env :: env where
  "peer_env \<equiv> static_env (\<lambda>_ path. if path = ''/net_info'' then Inr peer_info else Inl (Exn URLError [])) link_docker"

lemma peer_env_counts:
  "\<exists>w'. peer_subnet_counts peer_env SYBIL_TARGET_NODE None w = Some (Inr [(''172.28.0.0'', 2), (''172.40.14.0'', 1)], w')"
proof -
  have "rbind (peers_of peer_info) (count_subnets []) = Inr [(''172.28.0.0'', 2), (''172.40.14.0'', 1)]" by code_simp
  then show ?thesis
    by (simp add: peer_subnet_counts_def net_info_def resolve_port_def dict_item_def NODE_RPC_PORTS_def SYBIL_TARGET_NODE_def
        py_bind_def py_lift_def rpc_get_def http_get_def Let_def)
qed

theorem peer_subnet_counts_exact_witness:
  "\<exists>counts w' info ps. peer_subnet_counts peer_env SYBIL_TARGET_NODE None start_world = Some (Inr counts, w') \<and>
    net_info peer_env SYBIL_TARGET_NODE None start_world = Some (Inr info, w') \<and> peers_of info = Inr ps \<and> distinct (dict_keys counts) \<and>
    sum_list (dict_values counts) = length (filter (\<lambda>p. \<exists>ip. peer_ip p = Inr ip \<and> json_truthy ip) ps)"
proof -
  obtain counts w' where c: "peer_subnet_counts peer_env SYBIL_TARGET_NODE None start_world = Some (Inr counts, w')"
    using peer_env_counts by blast
  from peer_subnet_counts_exact [OF c] c show ?thesis by blast
qed

section \<open>What the verdicts mean\<close>

abbreviation sybil_ok :: "sybil_tracker \<Rightarrow> bool" where
  "sybil_ok tr \<equiv> exact_verdict (dict_keys NODE_RPC_PORTS) ALL_VALIDATORS (dt_events tr) (dt_samples tr)"

text \<open>A poll of a phase adds rows of that phase, and keeps the log of events exact.\<close>

definition sybil_polled :: "string \<Rightarrow> sybil_tracker \<Rightarrow> sybil_tracker \<Rightarrow> bool" where
  "sybil_polled phase tr tr' \<longleftrightarrow>
     sybil_ok tr' \<and> (\<exists>rows. sy_rows tr' = sy_rows tr @ rows \<and> (\<forall>r \<in> set rows. row_phase r = phase))"

lemma sybil_step_polled:
  assumes "sybil_polled phase tr0 tr" "map node rs = dict_keys NODE_RPC_PORTS"
  shows "yields (sybil_step E phase cs t rs tr) (sybil_polled phase tr0)"
proof -
  let ?tr1 = "rate_absorb ALL_VALIDATORS t phase rs
    (tr\<lparr>rt_phase_heights := open_phase phase (rt_phase_heights tr), ft_phase_stats := open_phase phase (ft_phase_stats tr)\<rparr>)"
  have "sybil_ok (tr\<lparr>rt_phase_heights := open_phase phase (rt_phase_heights tr), ft_phase_stats := open_phase phase (ft_phase_stats tr)\<rparr>)"
    using assms(1) by (simp add: sybil_polled_def)
  from rate_div.exact_absorb [OF this assms(2) distinct_nodes] have "sybil_ok ?tr1" .
  moreover have "sy_rows ?tr1 = sy_rows tr" by (simp add: rate_absorb_def absorb_round_def)
  ultimately have p: "sybil_polled phase tr0 ?tr1" using assms(1) by (simp add: sybil_polled_def)
  then have "sybil_polled phase tr0 (?tr1\<lparr>ft_phase_stats := d\<rparr>)" for d by (simp add: sybil_polled_def)
  with p have s: "yields (if ft_sample_stats ?tr1
      then py_bind (sample_docker_stats E cs') (\<lambda>st. py_return (?tr1\<lparr>ft_phase_stats := dict_append phase st (ft_phase_stats ?tr1)\<rparr>))
      else py_return ?tr1) (sybil_polled phase tr0)" for cs'
    by (auto intro!: yields_effect yields_return)
  have r: "sybil_polled phase tr0 (tr2\<lparr>sy_rows := sy_rows tr2 @ [sybil_row_of phase t x counts]\<rparr>)" if "sybil_polled phase tr0 tr2" for tr2 x counts
    using that by (auto simp: sybil_polled_def sybil_row_of_def)
  show ?thesis
    unfolding sybil_step_def Let_def
    by (rule yields_option, rule yields_raise, rule yields_effect, rule yields_bind [OF s], rule yields_return, rule r)
qed

lemma sybil_poll_for_polled: "sybil_ok tr \<Longrightarrow> yields (sybil_poll_for E s i phase cs tr) (sybil_polled phase tr)"
  unfolding sybil_poll_for_def
  by (rule attack_poll_yields) (auto simp: sybil_polled_def [of phase tr tr] intro: sybil_step_polled)

lemma py_max_nat: "py_max id xs = Inr m \<Longrightarrow> xs \<noteq> [] \<and> m = Max (set xs)" for xs :: "nat list"
  by (cases xs) (auto dest!: py_max_Inr [of id "_ # _"] intro: Max_eqI [symmetric] simp del: py_max.simps(2))

text \<open>The verdicts as statements about the rows and rounds of the run.\<close>

definition sybil_verdict_ok :: "sybil_verdict \<Rightarrow> sybil_tracker \<Rightarrow> bool" where
  "sybil_verdict_ok v tr \<longleftrightarrow>
     (let attack = phase_rows ''attack'' (sy_rows tr); rate = height_rate (rt_phase_heights tr) in
      attack \<noteq> [] \<and> peak_target_subnet_count v = Max (target_subnet_peer_count ` set attack) \<and>
      (filter_held v \<longleftrightarrow> (\<forall>r \<in> set attack. target_subnet_peer_count r \<le> 8)) \<and>
      (fsm_stayed_healthy v \<longleftrightarrow> sybil_fsm_healthy (sy_rows tr)) \<and>
      (safety_held v \<longleftrightarrow> dt_events tr = []) \<and>
      (sybil_liveness_held v \<longleftrightarrow> rate ''baseline'' = 0 \<or> rate ''baseline'' \<le> 2 * rate ''attack''))"

lemma sybil_polled_attack:
  "sybil_polled phase tr tr' \<Longrightarrow> phase \<noteq> ''attack'' \<Longrightarrow> phase_rows ''attack'' (sy_rows tr') = phase_rows ''attack'' (sy_rows tr)"
  by (auto simp: sybil_polled_def phase_rows_def)

lemma sybil_verdict_holds:
  assumes "sybil_polled ''recovery'' tr2 tr"
    and "py_max id (map target_subnet_peer_count (phase_rows ''attack'' (sy_rows tr2))) = Inr peak"
  shows "sybil_verdict_ok \<lparr>filter_held = (peak \<le> MAX_PEERS_PER_SUBNET), fsm_stayed_healthy = sybil_fsm_healthy (sy_rows tr),
      safety_held = (dt_events tr = []),
      sybil_liveness_held = liveness_held (height_rate (rt_phase_heights tr) ''baseline'') (height_rate (rt_phase_heights tr) ''attack''),
      peak_target_subnet_count = peak\<rparr> tr"
proof -
  have a: "phase_rows ''attack'' (sy_rows tr) = phase_rows ''attack'' (sy_rows tr2)" by (rule sybil_polled_attack [OF assms(1)]) simp
  from py_max_nat [OF assms(2)]
  have p: "phase_rows ''attack'' (sy_rows tr2) \<noteq> []" "peak = Max (target_subnet_peer_count ` set (phase_rows ''attack'' (sy_rows tr2)))"
    by simp_all
  then have "peak \<le> 8 \<longleftrightarrow> (\<forall>r \<in> set (phase_rows ''attack'' (sy_rows tr2)). target_subnet_peer_count r \<le> 8)" by simp
  with a p show ?thesis by (auto simp: sybil_verdict_ok_def Let_def MAX_PEERS_PER_SUBNET_def liveness_held_def)
qed

lemma sybil_main_verdict: "yields (sybil_main E name b a r i ss) (\<lambda>(v, tr). sybil_ok tr \<and> sybil_verdict_ok v tr)"
proof -
  have new: "sybil_ok (new_sybil_tracker ss t)" for t by (simp add: new_sybil_tracker_def exact_verdict_init)
  have ok: "sybil_polled ph tr tr' \<Longrightarrow> sybil_ok tr'" for ph tr tr' by (simp add: sybil_polled_def)
  show ?thesis
    unfolding sybil_main_def Let_def
    by (rule yields_effect, rule yields_effect, rule yields_bind [OF sybil_poll_for_polled [OF new]], rule yields_then,
        rule yields_bind [OF sybil_poll_for_polled [OF ok]], assumption, rule yields_bind [OF yields_lift], rule yields_effect, rule yields_then,
        rule yields_bind [OF sybil_poll_for_polled [OF ok]], assumption, rule yields_effect, rule yields_then, rule yields_effect, rule yields_then,
        rule yields_return) (simp add: ok sybil_verdict_holds)
qed

lemma sybil_fsm_healthy_iff:
  "sybil_fsm_healthy rows \<longleftrightarrow>
     (\<forall>x \<in> set rows. row_phase x = ''baseline'' \<longrightarrow> row_fsm_state x = []) \<or>
     (\<forall>x \<in> set rows. row_phase x \<in> {''attack'', ''recovery''} \<and> row_fsm_state x \<noteq> [] \<longrightarrow>
        (\<exists>y \<in> set rows. row_phase y = ''baseline'' \<and> row_fsm_state y = row_fsm_state x))"
proof -
  let ?B = "set (filter (\<lambda>s. s \<noteq> []) (map row_fsm_state (phase_rows ''baseline'' rows)))"
  let ?A = "set (filter (\<lambda>s. s \<noteq> []) (map row_fsm_state (filter (\<lambda>r. row_phase r \<in> {''attack'', ''recovery''}) rows)))"
  have "(if b \<noteq> {} then a \<subseteq> b else True) \<longleftrightarrow> b = {} \<or> a \<subseteq> b" for a b :: "string set" by simp
  then have "sybil_fsm_healthy rows \<longleftrightarrow> ?B = {} \<or> ?A \<subseteq> ?B" by (simp only: sybil_fsm_healthy_def Let_def)
  moreover have mem: "x \<in> ?A \<longleftrightarrow> x \<noteq> [] \<and> (\<exists>r \<in> set rows. row_phase r \<in> {''attack'', ''recovery''} \<and> row_fsm_state r = x)"
    "x \<in> ?B \<longleftrightarrow> x \<noteq> [] \<and> (\<exists>r \<in> set rows. row_phase r = ''baseline'' \<and> row_fsm_state r = x)" for x
    by (auto simp: phase_rows_def)
  moreover have "?B = {} \<longleftrightarrow> (\<forall>x \<in> set rows. row_phase x = ''baseline'' \<longrightarrow> row_fsm_state x = [])"
    by (auto simp: phase_rows_def filter_empty_conv)
  moreover have "?A \<subseteq> ?B \<longleftrightarrow> (\<forall>x \<in> set rows. row_phase x \<in> {''attack'', ''recovery''} \<and> row_fsm_state x \<noteq> [] \<longrightarrow>
        (\<exists>y \<in> set rows. row_phase y = ''baseline'' \<and> row_fsm_state y = row_fsm_state x))"
    unfolding subset_iff mem by blast
  ultimately show ?thesis by (simp only:)
qed

text \<open>C22. The four verdicts of a Sybil run. The samples of a run that completes are rounds over all four validators, and "safety held" is
  reported exactly if in no round two validators had different app hashes at the same height; the peak is the largest
  count of the attack rows, of which there is at least one, and "filter held" is reported exactly if every one of them is at
  most eight; "liveness held" exactly if the attack block rate is at least half of the baseline rate; and
  "FSM stayed healthy" exactly if the target's states after the baseline had all been seen in it (or it showed none).\<close>

theorem sybil_attack_verdicts:
  assumes "sybil_main E name b a r i ss w = Some (Inr (v, tr), w')"
  shows "(\<exists>rounds. dt_samples tr = concat rounds \<and> (\<forall>rs \<in> set rounds. map node rs = dict_keys NODE_RPC_PORTS) \<and>
      (safety_held v \<longleftrightarrow> (\<forall>rs \<in> set rounds. \<forall>h. \<not> conflict ALL_VALIDATORS rs h))) \<and>
    phase_rows ''attack'' (sy_rows tr) \<noteq> [] \<and>
    peak_target_subnet_count v = Max (target_subnet_peer_count ` set (phase_rows ''attack'' (sy_rows tr))) \<and>
    (filter_held v \<longleftrightarrow> (\<forall>r \<in> set (phase_rows ''attack'' (sy_rows tr)). target_subnet_peer_count r \<le> 8)) \<and>
    (sybil_liveness_held v \<longleftrightarrow> height_rate (rt_phase_heights tr) ''baseline'' = 0 \<or>
      height_rate (rt_phase_heights tr) ''baseline'' \<le> 2 * height_rate (rt_phase_heights tr) ''attack'') \<and>
    (fsm_stayed_healthy v \<longleftrightarrow>
      (\<forall>x \<in> set (sy_rows tr). row_phase x = ''baseline'' \<longrightarrow> row_fsm_state x = []) \<or>
      (\<forall>x \<in> set (sy_rows tr). row_phase x \<in> {''attack'', ''recovery''} \<and> row_fsm_state x \<noteq> [] \<longrightarrow>
         (\<exists>y \<in> set (sy_rows tr). row_phase y = ''baseline'' \<and> row_fsm_state y = row_fsm_state x)))"
  unfolding sybil_fsm_healthy_iff [symmetric]
  using yieldsD [OF sybil_main_verdict assms]
  by (simp add: exact_verdict_def sybil_verdict_ok_def Let_def)

section \<open>A run in a quiet environment\<close>

lemma attack_poll_once:
  assumes "0 < seconds" "\<And>t rs st'. st' = st \<or> Q st' \<Longrightarrow> map node rs = dict_keys NODE_RPC_PORTS \<Longrightarrow> yields (step t rs st') Q"
  shows "yields (attack_poll step E start seconds interval st) Q"
  unfolding attack_poll_def
proof (rule yields_wp)
  fix w :: world
  let ?I = "\<lambda>s v. s = st \<and> clock v = clock w \<or> Q s"
  let ?b = "\<lambda>s. py_bind time_time (\<lambda>now. py_bind (sample_all_nodes E []) (\<lambda>rs. py_bind (step (now - start) rs s) (\<lambda>st'.
         py_then (time_sleep E interval) (py_return (Continue st')))))"
  let ?K = "\<lambda>(k :: (_, unit) ctl) w'. case k of Continue s' \<Rightarrow> ?I s' w' | Leave x \<Rightarrow> True"
  have body: "wp (?b s) ?K (\<lambda>_ _. True) v" if i: "?I s v" for s and v :: world
    unfolding wp_bind wp_time
  proof (rule wp_mono [OF wp_sample_all_nodes])
    fix rs :: "NodeSample list" and v' :: world
    assume "map node rs = node_list [] \<and> sorted (map timestamp rs) \<and> clock v \<le> clock v' \<and>
      (\<forall>s\<in>set rs. clock v \<le> timestamp s \<and> timestamp s \<le> clock v')"
    then have y: "yields (step (clock v - start) rs s) Q" using assms(2) [of s rs] i by (auto simp: node_list_def)
    show "wp (step (clock v - start) rs s) (\<lambda>st'. wp (py_then (time_sleep E interval) (py_return (Continue st'))) ?K (\<lambda>_ _. True)) (\<lambda>_ _. True) v'"
      by (rule wpI) (auto simp: wp_simps dest: yieldsD [OF y])
  qed simp
  have "wp (py_while (\<lambda>_ v. clock v < clock w + seconds) ?b st) (\<lambda>k _. case k of Continue s \<Rightarrow> Q s | Leave (_ :: unit) \<Rightarrow> True) (\<lambda>_ _. True) w"
  proof (rule wp_while [where I = ?I])
    show "wp (?b s) (\<lambda>k w'. case k of Continue s' \<Rightarrow> ?I s' w' | Leave x \<Rightarrow> (case Leave x of Continue s \<Rightarrow> Q s | Leave (_ :: unit) \<Rightarrow> True)) (\<lambda>_ _. True) v"
      if "?I s v" for s v
      by (rule wp_mono [OF body [OF that]]) (auto split: ctl.splits)
  qed (use assms(1) in auto)
  then show "wp (py_bind time_time (\<lambda>t0. py_bind (py_while (\<lambda>_ w. clock w < t0 + seconds) ?b st) loop_state)) (\<lambda>x _. Q x) (\<lambda>_ _. True) w"
    unfolding wp_bind wp_time by (rule wp_mono) (auto simp: loop_state_def wp_simps split: ctl.splits)
qed

lemma observed_counts_quiet: "quiet (observed_counts link_env)"
proof -
  have c: "wp (peer_subnet_counts link_env SYBIL_TARGET_NODE None) (\<lambda>_ _. True) (\<lambda>e _. exn_class e = URLError) w" for w
    by (simp add: peer_subnet_counts_def net_info_def rpc_get_def resolve_port_def dict_item_def NODE_RPC_PORTS_def SYBIL_TARGET_NODE_def wp_simps)
  show ?thesis
    unfolding observed_counts_def quiet_def wp_try
    by (rule allI, rule wp_mono [OF c]) (simp_all add: caught_by_def wp_return_abs)
qed

lemma sybil_step_attack:
  "map node rs = dict_keys NODE_RPC_PORTS \<Longrightarrow>
   yields (sybil_step E ''attack'' cs t rs tr) (\<lambda>tr'. phase_rows ''attack'' (sy_rows tr') \<noteq> [])"
  unfolding sybil_step_def Let_def
  by (rule yields_option, rule yields_raise, rule yields_effect, rule yields_effect, rule yields_return)
    (simp add: phase_rows_def sybil_row_of_def)

lemma sybil_target_found: "map node rs = dict_keys NODE_RPC_PORTS \<Longrightarrow> find (\<lambda>x. node x = SYBIL_TARGET_NODE) rs \<noteq> None"
proof -
  assume n: "map node rs = dict_keys NODE_RPC_PORTS"
  have "SYBIL_TARGET_NODE \<in> set (map node rs)"
    unfolding n by (simp add: dict_keys_def NODE_RPC_PORTS_def SYBIL_TARGET_NODE_def)
  then show ?thesis by (auto simp: find_None_iff)
qed

lemma quiet_yields_wp: "quiet m \<Longrightarrow> yields m P \<Longrightarrow> wp m (\<lambda>x _. P x) (\<lambda>_ _. False) w"
  using quiet_wp [of m w] by (auto simp: wp_def yields_def split: option.splits sum.splits)

lemma attack_poll_quiet_nodes:
  assumes "\<And>w p q. http E w p q = Inl (Exn URLError m)" "0 \<le> interval"
    and "\<And>t rs st. map node rs = dict_keys NODE_RPC_PORTS \<Longrightarrow> quiet (step t rs st)"
  shows "quiet (attack_poll step E start seconds interval st)"
proof -
  have nodes: "yields (sample_all_nodes E []) (\<lambda>rs. map node rs = dict_keys NODE_RPC_PORTS)"
    by (rule yields_wp, rule wp_mono [OF wp_sample_all_nodes]) (simp_all add: node_list_def)
  have "wp (py_bind time_time (\<lambda>now. py_bind (sample_all_nodes E []) (\<lambda>rs. py_bind (step (now - start) rs s) (\<lambda>st'.
        py_then (time_sleep E interval) (py_return (Continue st' :: (_, unit) ctl))))))
      (\<lambda>k _. \<exists>s'. k = Continue s') (\<lambda>_ _. False) w" for s w
    unfolding wp_bind wp_time
    by (rule wp_mono [OF quiet_yields_wp [OF sample_all_nodes_quiet [OF assms(1)] nodes]])
      (use assms(2) in \<open>auto intro!: wp_mono [OF quiet_wp [OF assms(3)]] simp: wp_simps\<close>)
  then show ?thesis unfolding attack_poll_def by (intro quiet_bind quiet_simps quiet_loop)
qed

lemma link_stats_quiet: "quiet (sample_docker_stats link_env cs)"
  unfolding sample_docker_stats_def by (intro quiet_intros) (simp_all add: link_docker_def)

lemma sybil_poll_quiet: "0 \<le> i \<Longrightarrow> quiet (sybil_poll_for link_env s i ph cs tr)"
  unfolding sybil_poll_for_def
proof (rule attack_poll_quiet_nodes [of _ "[]"])
  fix t st and rs :: "NodeSample list"
  assume "map node rs = dict_keys NODE_RPC_PORTS"
  then obtain x where "find (\<lambda>x. node x = SYBIL_TARGET_NODE) rs = Some x" using sybil_target_found by blast
  then show "quiet (sybil_step link_env ph cs t rs st)"
    unfolding sybil_step_def Let_def
    by (simp only: option.case) (intro quiet_intros observed_counts_quiet link_stats_quiet)
qed simp_all

lemma sybil_attack_rows:
  "0 < s \<Longrightarrow> yields (sybil_poll_for E s i ''attack'' cs tr) (\<lambda>tr'. phase_rows ''attack'' (sy_rows tr') \<noteq> [])"
  unfolding sybil_poll_for_def by (rule attack_poll_once) (auto intro: sybil_step_attack)

lemma sybil_main_total: "0 < i \<Longrightarrow> total (sybil_main E name b a r i ss)"
proof -
  have "total (retry_run E argv k e)" for argv k e
    by (induction k arbitrary: e) (auto intro!: total_intros)
  moreover have "0 < i \<Longrightarrow> total (sybil_poll_for E s i ph cs tr)" for s ph cs tr
    unfolding sybil_poll_for_def sybil_step_def observed_counts_def peer_subnet_counts_def net_info_def rpc_get_def sample_docker_stats_def Let_def
    by (intro total_intros emits_intros) simp_all
  ultimately show "0 < i \<Longrightarrow> total (sybil_main E name b a r i ss)"
    unfolding sybil_main_def sybil_swarm_up_def sybil_swarm_down_def Let_def
    by (intro total_intros)
qed

lemma sybil_main_runs: "\<exists>v tr w'. sybil_main link_env ''a1'' 30 90 60 5 True start_world = Some (Inr (v, tr), w')"
proof -
  obtain l where l: "dict_item LEGS ''a1'' = Inr l" by (simp add: LEGS_def dict_item_def)
  have up: "quiet (sybil_swarm_up link_env p s)" for p s
    unfolding sybil_swarm_up_def numeral_3_eq_3 retry_run.simps by (intro quiet_intros) (simp add: link_docker_def)
  have down: "quiet (sybil_swarm_down link_env p s)" for p s
    unfolding sybil_swarm_down_def by (intro quiet_intros) (simp_all add: link_docker_def)
  have max: "\<exists>m. py_max id (map f rows) = Inr m" if "rows \<noteq> []" for f :: "sybil_row \<Rightarrow> nat" and rows
    using that by (cases rows) simp_all
  have "wp (sybil_main link_env ''a1'' 30 90 60 5 True) (\<lambda>_ _. True) (\<lambda>_ _. False) start_world"
    unfolding sybil_main_def Let_def l write_csv_def
    by (rule wp_seq [where I = "\<lambda>x _. x = l"], simp add: wp_simps, rule wp_seq [OF quiet_wp], rule quiet_simps,
        rule wp_seq [OF quiet_wp [OF sybil_poll_quiet]], simp, rule wp_seq_then [OF quiet_wp [OF up]],
        rule wp_seq [OF quiet_yields_wp [OF sybil_poll_quiet sybil_attack_rows]], simp, simp,
        rule quiet_wp, intro quiet_intros sybil_poll_quiet down max) simp_all
  from wp_returns [OF this sybil_main_total] show ?thesis by (auto simp: split_paired_Ex)
qed

theorem sybil_attack_verdicts_witness:
  "\<exists>v tr w'. sybil_main link_env ''a1'' 30 90 60 5 True start_world = Some (Inr (v, tr), w') \<and>
     phase_rows ''attack'' (sy_rows tr) \<noteq> [] \<and>
     (filter_held v \<longleftrightarrow> (\<forall>r \<in> set (phase_rows ''attack'' (sy_rows tr)). target_subnet_peer_count r \<le> 8))"
proof -
  obtain v tr w' where m: "sybil_main link_env ''a1'' 30 90 60 5 True start_world = Some (Inr (v, tr), w')"
    using sybil_main_runs by blast
  show ?thesis
    by (rule exI [of _ v], rule exI [of _ tr], rule exI [of _ w']) (use m sybil_attack_verdicts [OF m] in blast)
qed

end
