(* ===== verification/Combined_Trace.thy ===== *)
theory Combined_Trace
  imports Attack_Runs
begin

text \<open>
  The combined-failure trace of \<^verbatim>\<open>scripts/e9_trace_driven/live_combined_trace.py\<close> and the log scraper it uses,
  \<^verbatim>\<open>sensor_log_scraper.py\<close>: one continuous run that layers a delayed Bitcoin node, a stopped DA bridge and
  bursts of packet loss, heals them and waits for recovery; afterwards the nodes' local sensor readings are
  taken from their container logs and dated by the nearest sample.

  Shown here: the commands a completed run has issued, in order; that the packet loss is never started while the
  Bitcoin delay is still active; that scraping a log gives back the readings the node printed; how readings
  are selected and dated; and the well-formedness of what the tracker collects.
\<close>

section \<open>sensor_log_scraper.py\<close>

record sensor_row =
  sn_node :: string
  sn_height :: int
  sn_btc_gap :: int
  sn_btc_spv_failed :: bool
  sn_da_gap :: int
  sn_da_failed :: bool
  sn_attestation_failed :: bool
  sn_active_anchors :: int
  sn_clean_peers :: int
  sn_churn_rate :: int
  sn_avg_tenure :: int
  sn_peer_latency :: int

text \<open>The pieces of \<^verbatim>\<open>SENSOR_SNAPSHOT_RE\<close>: \<open>name=(\d+)\<close> and \<open>name=(true|false)\<close>. No piece can match in two
  ways, so the groups need no backtracking. A group of digits is read by \<^verbatim>\<open>int()\<close>; the flag is the
  comparison of its group with \<^verbatim>\<open>"true"\<close>.\<close>

definition int_group :: "string \<Rightarrow> string \<Rightarrow> (int \<times> string) option" where
  "int_group name s =
     Option.bind (lit name s) (\<lambda>r. map_option (\<lambda>(ds, r'). (int (digits_value ds), r')) (group is_digit r))"

definition bool_group :: "string \<Rightarrow> string \<Rightarrow> (bool \<times> string) option" where
  "bool_group name s =
     Option.bind (lit name s) (\<lambda>r.
       case lit ''true'' r of Some r' \<Rightarrow> Some (True, r') | None \<Rightarrow> map_option (Pair False) (lit ''false'' r))"

definition sensor_match :: "string \<Rightarrow> string \<Rightarrow> (sensor_row \<times> string) option" where
  "sensor_match container s =
     Option.bind (int_group ''engramd: sensor_snapshot height='' s) (\<lambda>(h, s1).
     Option.bind (int_group '' btc_gap='' s1) (\<lambda>(btc, s2).
     Option.bind (bool_group '' btc_spv_failed='' s2) (\<lambda>(spv, s3).
     Option.bind (int_group '' da_gap='' s3) (\<lambda>(da, s4).
     Option.bind (bool_group '' da_failed='' s4) (\<lambda>(daf, s5).
     Option.bind (bool_group '' attestation_failed='' s5) (\<lambda>(att, s6).
     Option.bind (int_group '' active_anchors='' s6) (\<lambda>(anchors, s7).
     Option.bind (int_group '' clean_peers='' s7) (\<lambda>(clean, s8).
     Option.bind (int_group '' churn_rate='' s8) (\<lambda>(churn, s9).
     Option.bind (int_group '' avg_tenure='' s9) (\<lambda>(tenure, s10).
     map_option (\<lambda>(lat, s11).
       (\<lparr>sn_node = container, sn_height = h, sn_btc_gap = btc, sn_btc_spv_failed = spv, sn_da_gap = da,
         sn_da_failed = daf, sn_attestation_failed = att, sn_active_anchors = anchors, sn_clean_peers = clean,
         sn_churn_rate = churn, sn_avg_tenure = tenure, sn_peer_latency = lat\<rparr>, s11))
       (int_group '' peer_latency='' s10)))))))))))"

definition scrape_sensor_snapshots :: "env \<Rightarrow> string \<Rightarrow> sensor_row list py" where
  "scrape_sensor_snapshots E container =
     py_bind
       (py_try (py_bind (run_proc E [''docker'', ''logs'', container] False) (\<lambda>p. py_return (Some p)))
          [TimeoutExpired, OSError] (\<lambda>_. py_return None))
       (\<lambda>r. py_return (case r of None \<Rightarrow> []
          | Some p \<Rightarrow> find_all (sensor_match container) (out_text p @ err_text p)))"

definition nearest_timestamp :: "int \<Rightarrow> NodeSample list \<Rightarrow> rat option result" where
  "nearest_timestamp h rpc_samples =
     (if rpc_samples = [] then Inr None
      else rbind (py_min (\<lambda>s. \<bar>height s - h\<bar>) rpc_samples) (\<lambda>closest. Inr (Some (timestamp closest))))"

section \<open>live_combined_trace.py: the tracker\<close>

definition E9_RESULTS_DIR :: string where
  "E9_RESULTS_DIR = ''scripts/e9_trace_driven/results_live''"

record trace_tracker = "NodeSample tracker" +
  tr_markers :: "(rat \<times> string) list"

definition new_trace_tracker :: "rat \<Rightarrow> trace_tracker" where
  "new_trace_tracker t = \<lparr>tr_start = t, tr_samples = [], tr_transitions = [], tr_last_state = [], tr_phase = ''init'', tr_markers = []\<rparr>"

definition mark :: "string \<Rightarrow> trace_tracker \<Rightarrow> trace_tracker py" where
  "mark ev tr = py_bind time_time (\<lambda>now. py_return (tr\<lparr>tr_markers := tr_markers tr @ [(now - tr_start tr, ev)]\<rparr>))"

definition trace_round :: "rat \<Rightarrow> NodeSample list \<Rightarrow> trace_tracker \<Rightarrow> trace_tracker" where
  "trace_round now rs tr = fold (note_state now) rs (tr\<lparr>tr_samples := tr_samples tr @ rs\<rparr>)"

definition trace_poll :: "env \<Rightarrow> rat \<Rightarrow> rat \<Rightarrow> string \<Rightarrow> trace_tracker \<Rightarrow> trace_tracker py" where
  "trace_poll E seconds interval phase tr = tracker_poll trace_round E seconds interval (set_phase phase tr)"

definition trace_wait :: "env \<Rightarrow> string \<Rightarrow> rat \<Rightarrow> string \<Rightarrow> trace_tracker \<Rightarrow> (bool \<times> trace_tracker) py" where
  "trace_wait E target timeout_s phase tr = tracker_wait trace_round E target timeout_s (set_phase phase tr)"

section \<open>live_combined_trace.py: the run\<close>

definition WAN_CHOICES :: "string list" where
  "WAN_CHOICES = [''none'', ''chaos-wan-latency'', ''chaos-wan-loss'']"

definition wan_up :: "env \<Rightarrow> string \<Rightarrow> unit py" where
  "wan_up E wan = (if wan \<noteq> ''none'' then py_then (start_pumba_wan_profile E wan 15) (py_return ()) else py_return ())"

definition wan_down :: "env \<Rightarrow> string \<Rightarrow> unit py" where
  "wan_down E wan = (if wan \<noteq> ''none'' then cleanup_wan_profile E wan else py_return ())"

definition wan_resume :: "env \<Rightarrow> string \<Rightarrow> unit py" where
  "wan_resume E wan =
     (if wan \<noteq> ''none''
      then py_then (wait_for_no_active_netem E 20) (py_then (start_pumba_wan_profile E wan 15) (py_return ()))
      else py_return ())"

definition loss_phase :: "nat \<Rightarrow> string \<Rightarrow> string" where
  "loss_phase i state = ''P4_triple_fault_churn_cycle_'' @ show_nat (i + 1) @ ''_'' @ state"

definition loss_cycle :: "env \<Rightarrow> trace_tracker \<Rightarrow> nat \<Rightarrow> trace_tracker py" where
  "loss_cycle E tr i = py_then (wait_for_no_active_netem E 20)
     (py_then (start_pumba_profile E ''chaos-loss'' 15)
     (py_bind (trace_poll E 20 2 (loss_phase i ''on'') tr) (\<lambda>tr1.
     py_then (cleanup_profile E ''chaos-loss'')
     (trace_poll E 10 2 (loss_phase i ''off'') tr1))))"

text \<open>Phases 1 to 3: baseline, delayed Bitcoin node, stopped DA bridge on top.\<close>

definition layer_phases :: "env \<Rightarrow> trace_tracker \<Rightarrow> trace_tracker py" where
  "layer_phases E tr = py_bind (trace_poll E 15 3 ''P1_baseline'' tr) (\<lambda>tr1.
     py_then (wait_for_no_active_netem E 20)
     (py_then (start_pumba_profile E ''chaos-btc-delay'' 15)
     (py_bind (mark ''chaos-btc-delay started (BTC congestion pressure)'' tr1) (\<lambda>tr2.
     py_bind (trace_poll E 60 3 ''P2_btc_pressure_building'' tr2) (\<lambda>tr3.
     py_then (docker E [''stop'', CELESTIA_BRIDGE])
     (py_bind (mark ''celestia-bridge stopped (DA outage layered on BTC pressure)'' tr3) (\<lambda>tr4.
     trace_poll E 60 3 ''P3_btc_plus_da'' tr4)))))))"

text \<open>Phases 4 and 5: packet-loss bursts, with the WAN profile paused, then a short hold.\<close>

definition loss_phases :: "env \<Rightarrow> string \<Rightarrow> trace_tracker \<Rightarrow> trace_tracker py" where
  "loss_phases E wan tr = py_then (wan_down E wan)
     (py_bind (mark ''chaos-loss churn burst starting (3rd simultaneous fault class)'' tr) (\<lambda>tr1.
     py_bind (py_fold (loss_cycle E) tr1 [0 ..< 3]) (\<lambda>tr2.
     py_bind (mark ''P2P churn burst complete'' tr2) (\<lambda>tr3.
     py_then (wan_resume E wan)
     (trace_poll E 30 3 ''P5_peak_triple_fault'' tr3)))))"

text \<open>Phases 6 and 7: healing and recovery.\<close>

definition heal_phases :: "env \<Rightarrow> string \<Rightarrow> trace_tracker \<Rightarrow> (bool \<times> trace_tracker) py" where
  "heal_phases E wan tr = py_then (cleanup_profile E ''chaos-btc-delay'')
     (py_bind (mark ''chaos-btc-delay cleaned up'' tr) (\<lambda>tr1.
     py_then (docker E [''start'', CELESTIA_BRIDGE])
     (py_bind (mark ''celestia-bridge restarted'' tr1) (\<lambda>tr2.
     py_bind (trace_poll E 30 3 ''P6_healing'' tr2) (\<lambda>tr3.
     py_bind (trace_wait E ''ANCHORED'' 600 ''P7_recovery'' tr3) (\<lambda>(reached, tr4).
     py_then (wan_down E wan)
     (py_return (reached, tr4))))))))"

definition trace_phases :: "env \<Rightarrow> string \<Rightarrow> (bool \<times> trace_tracker) py" where
  "trace_phases E wan = py_bind (time_time) (\<lambda>t0.
     py_then (wan_up E wan)
     (py_bind (layer_phases E (new_trace_tracker t0)) (\<lambda>tr1.
     py_bind (loss_phases E wan tr1) (\<lambda>tr2.
     heal_phases E wan tr2))))"

definition trace_summary :: "rat \<Rightarrow> bool \<Rightarrow> string \<Rightarrow> trace_tracker \<Rightarrow> string" where
  "trace_summary elapsed reached wan tr =
     ''# LIVE E9 combined-failure trace (BTC + DA + P2P churn, overlapping)'' @ NL @ NL
     @ ''Total duration: '' @ fmt_fixed 0 elapsed @ ''s. Final phase reached ANCHORED: '' @ py_bool reached
     @ ''. WAN-realism baseline: '' @ wan @ ''.'' @ NL @ NL
     @ ''## Fault-injection / healing event markers'' @ NL @ NL
     @ ''| t (s) | Event |'' @ NL @ ''|---:|---|'' @ NL
     @ concat (map (\<lambda>(t, ev). md_row [fmt_fixed 0 t, ev]) (tr_markers tr))
     @ NL @ ''## Real transitions observed'' @ NL @ NL
     @ ''| t (s) | Phase | Node | From | To |'' @ NL @ ''|---:|---|---|---|---|'' @ NL
     @ transition_rows (tr_transitions tr)"

section \<open>live_combined_trace.py: the sensor readings\<close>

text \<open>A scraped row with the \<^verbatim>\<open>approx_timestamp\<close> added to it.\<close>

type_synonym dated_row = "sensor_row \<times> rat option"

definition date_rows :: "int \<Rightarrow> int \<Rightarrow> NodeSample list \<Rightarrow> sensor_row list \<Rightarrow> dated_row list result" where
  "date_rows lo hi node_samples rows =
     rmap_list (\<lambda>row. rbind (nearest_timestamp (sn_height row) node_samples) (\<lambda>t. Inr (row, t)))
       (filter (\<lambda>row. lo \<le> sn_height row \<and> sn_height row \<le> hi) rows)"

definition node_sensor_rows :: "env \<Rightarrow> NodeSample list \<Rightarrow> string \<Rightarrow> dated_row list py" where
  "node_sensor_rows E samples n =
     (let node_samples = filter (\<lambda>s. node s = n) samples; heights = map height node_samples in
      py_bind (py_lift (py_min id heights)) (\<lambda>lo.
      py_bind (py_lift (py_max id heights)) (\<lambda>hi.
      py_bind (scrape_sensor_snapshots E n) (\<lambda>rows.
      py_lift (date_rows lo hi node_samples rows)))))"

definition collect_sensor_rows :: "env \<Rightarrow> NodeSample list \<Rightarrow> dated_row list py" where
  "collect_sensor_rows E samples =
     py_bind (py_map (node_sensor_rows E samples) (dict_keys NODE_RPC_PORTS)) (\<lambda>rows. py_return (concat rows))"

definition SENSOR_FIELDS :: "string list" where
  "SENSOR_FIELDS = [''node'', ''height'', ''btc_gap'', ''btc_spv_failed'', ''da_gap'', ''da_failed'', ''attestation_failed'',
     ''active_anchors'', ''clean_peers'', ''churn_rate'', ''avg_tenure'', ''peer_latency'', ''approx_timestamp'']"

definition sensor_cells :: "env \<Rightarrow> dated_row \<Rightarrow> string list" where
  "sensor_cells E r =
     (let s = fst r in
      [sn_node s, py_str_int (sn_height s), py_str_int (sn_btc_gap s), py_bool (sn_btc_spv_failed s),
       py_str_int (sn_da_gap s), py_bool (sn_da_failed s), py_bool (sn_attestation_failed s),
       py_str_int (sn_active_anchors s), py_str_int (sn_clean_peers s), py_str_int (sn_churn_rate s),
       py_str_int (sn_avg_tenure s), py_str_int (sn_peer_latency s),
       (case snd r of None \<Rightarrow> [] | Some t \<Rightarrow> repr_float E t)])"

definition sensors_csv :: "env \<Rightarrow> dated_row list \<Rightarrow> string" where
  "sensors_csv E rows = csv_row SENSOR_FIELDS @ concat (map (csv_row \<circ> sensor_cells E) rows)"

text \<open>The end of \<^verbatim>\<open>main\<close>: samples, summary and sensor readings are written.\<close>

definition combined_report :: "env \<Rightarrow> string \<Rightarrow> bool \<Rightarrow> trace_tracker \<Rightarrow> (trace_tracker \<times> dated_row list) py" where
  "combined_report E wan reached tr = py_bind (ts_label E) (\<lambda>label.
     (let base = path_join E9_RESULTS_DIR (''e9_combined_trace_'' @ label) in
     py_then (write_csv E (tr_samples tr) (base @ ''.csv''))
     (py_bind (time_time) (\<lambda>now.
     py_then (write_file E (base @ ''_summary.md'') (trace_summary (now - tr_start tr) reached wan tr))
     (py_bind (collect_sensor_rows E (tr_samples tr)) (\<lambda>rows.
     py_then ((if rows \<noteq> [] then write_file E (base @ ''_sensors.csv'') (sensors_csv E rows) else py_return ()))
     (py_return (tr, rows))))))))"

definition combined_trace_main :: "env \<Rightarrow> string \<Rightarrow> (trace_tracker \<times> dated_row list) py" where
  "combined_trace_main E wan =
     (if wan \<notin> set WAN_CHOICES then py_raise (Exn SystemExit ''2'')
      else py_bind (trace_phases E wan) (\<lambda>(reached, tr). combined_report E wan reached tr))"

section \<open>The commands of a run\<close>

text \<open>The commands that inject or undo a fault: \<^verbatim>\<open>docker compose\<close> on an injector, \<^verbatim>\<open>docker stop\<close> and
  \<^verbatim>\<open>docker start\<close> of the bridge. Left out are inspections, the clearing of queueing disciplines and
  the reading of logs.\<close>

definition fault_command :: "event \<Rightarrow> string list list" where
  "fault_command ev = filter (\<lambda>argv. compose_target argv \<noteq> None \<or> argv = outage_on \<or> argv = outage_off) (command ev)"

lemma fault_command_simps [simp]:
  "fault_command (RpcGet port q a) = []" "fault_command (Slept s) = []" "fault_command (Wrote f x) = []"
  "fault_command (RunProc (inspect_cmd c) vs r) = []" "fault_command (RunProc (clear_cmd c) vs r) = []"
  "fault_command (RunProc [''docker'', ''logs'', c] vs r) = []"
  "fault_command (RunProc (compose_cmd p STOP ss) vs r) = [compose_cmd p STOP ss]"
  "fault_command (RunProc (compose_cmd p RM ss) vs r) = [compose_cmd p RM ss]"
  "fault_command (RunProc (compose_cmd p UP ss) vs r) = [compose_cmd p UP ss]"
  "fault_command (RunProc outage_on vs r) = [outage_on]" "fault_command (RunProc outage_off vs r) = [outage_off]"
  by (simp_all add: fault_command_def)
    (simp_all add: inspect_cmd_def clear_cmd_def outage_on_def outage_off_def)

lemma start_faults:
  assumes "map_of PROFILE_TO_SERVICE p = Some svc"
  shows "logs fault_command (start_pumba_profile E p t) [compose_cmd p UP [svc]]"
proof -
  have "logs fault_command (up_detached E p) ([compose_cmd p UP [svc]] @ [])"
    unfolding up_detached_def
    by (intro logs_if logs_raise logs_bind_lift logs_bind logs_lift)
      (auto simp: assms dict_item_def intro!: logs_run_proc)
  moreover have "logs fault_command (poll_until E t i (started_check E c)) []" for c i
    by (rule logs_emits, intro emits_intros) simp_all
  ultimately have "logs fault_command (start_pumba_profile E p t) (([compose_cmd p UP [svc]] @ []) @ [] @ [])"
    unfolding start_pumba_profile_def by (intro logs_intros)
  then show ?thesis by simp
qed

lemma clear_faults: "logs fault_command (py_each (clear_netem_qdisc E) cs) []"
  by (rule logs_emits, intro emits_intros) simp

lemma cleanup_faults:
  assumes "map_of PROFILE_TO_SERVICE p = Some svc"
  shows "logs fault_command (cleanup_profile E p) [compose_cmd p STOP [svc], compose_cmd p RM [svc]]"
proof -
  have "logs fault_command (cleanup_profile E p) ([compose_cmd p STOP [svc]] @ [compose_cmd p RM [svc]] @ [])"
    unfolding cleanup_profile_def
    by (intro logs_bind_lift logs_bind) (auto simp: assms dict_item_def intro!: logs_run_proc clear_faults)
  then show ?thesis by simp
qed

definition wan_starts :: "string \<Rightarrow> string list list" where
  "wan_starts wan = (if wan = ''none'' then [] else [compose_cmd wan UP (dict_get WAN_PROFILE_TO_SERVICES wan [])])"

definition wan_stops :: "string \<Rightarrow> string list list" where
  "wan_stops wan = (if wan = ''none'' then [] else
     [compose_cmd wan STOP (dict_get WAN_PROFILE_TO_SERVICES wan []), compose_cmd wan RM (dict_get WAN_PROFILE_TO_SERVICES wan [])])"

lemma start_wan_faults:
  "logs fault_command (start_pumba_wan_profile E p t) [compose_cmd p UP (dict_get WAN_PROFILE_TO_SERVICES p [])]"
proof -
  have "logs fault_command (poll_until E t i (wan_started_check E cs)) []" for cs i
    by (rule logs_emits, intro emits_intros) simp_all
  then have "logs fault_command (start_pumba_wan_profile E p t) ([compose_cmd p UP (dict_get WAN_PROFILE_TO_SERVICES p [])] @ [] @ [])"
    unfolding start_pumba_wan_profile_def
    by (intro logs_bind_lift logs_bind) (auto simp: dict_item_eq_Inr dict_get_def intro!: logs_run_proc logs_intros)
  then show ?thesis by simp
qed

lemma cleanup_wan_faults:
  "logs fault_command (cleanup_wan_profile E p)
     [compose_cmd p STOP (dict_get WAN_PROFILE_TO_SERVICES p []), compose_cmd p RM (dict_get WAN_PROFILE_TO_SERVICES p [])]"
proof -
  have "logs fault_command (cleanup_wan_profile E p) ([compose_cmd p STOP (dict_get WAN_PROFILE_TO_SERVICES p [])]
      @ [compose_cmd p RM (dict_get WAN_PROFILE_TO_SERVICES p [])] @ [])"
    unfolding cleanup_wan_profile_def
    by (intro logs_bind_lift logs_bind) (auto simp: dict_item_eq_Inr dict_get_def intro!: logs_run_proc clear_faults)
  then show ?thesis by simp
qed

lemma wait_netem_faults [logs_intros]: "logs fault_command (wait_for_no_active_netem E t) []"
  by (rule logs_emits, intro emits_intros) simp_all

lemma wan_start_faults:
  "wan \<noteq> ''none'' \<Longrightarrow> logs fault_command (py_then (start_pumba_wan_profile E wan 15) (py_return ())) (wan_starts wan)"
  using logs_then [OF start_wan_faults logs_return] by (simp add: wan_starts_def)

lemma wan_up_faults [logs_intros]: "logs fault_command (wan_up E wan) (wan_starts wan)"
  unfolding wan_up_def by (intro logs_if wan_start_faults) (simp_all add: wan_starts_def logs_return)

lemma wan_down_faults [logs_intros]: "logs fault_command (wan_down E wan) (wan_stops wan)"
  unfolding wan_down_def
  by (intro logs_if) (simp_all add: wan_stops_def logs_return cleanup_wan_faults)

lemma wan_resume_faults [logs_intros]: "logs fault_command (wan_resume E wan) (wan_starts wan)"
proof -
  have "logs fault_command (wan_resume E wan) ([] @ wan_starts wan)"
    unfolding wan_resume_def
    by (intro logs_if logs_then wait_netem_faults wan_start_faults) (simp_all add: wan_starts_def logs_return)
  then show ?thesis by simp
qed

lemma mark_faults [logs_intros]: "logs P (mark ev tr) []"
  unfolding mark_def using logs_bind [OF logs_time logs_return] by fastforce

lemma trace_step_faults [logs_intros]:
  "logs fault_command (trace_poll E s i p tr) []" "logs fault_command (trace_wait E t s p tr) []"
  unfolding trace_poll_def trace_wait_def by (rule logs_emits, intro emits_intros, simp_all)+

lemma bridge_faults [logs_intros]:
  "logs fault_command (docker E [''stop'', CELESTIA_BRIDGE]) [outage_on]"
  "logs fault_command (docker E [''start'', CELESTIA_BRIDGE]) [outage_off]"
proof -
  have "logs fault_command (docker E [''stop'', CELESTIA_BRIDGE]) ([outage_on] @ [])"
    "logs fault_command (docker E [''start'', CELESTIA_BRIDGE]) ([outage_off] @ [])"
    unfolding docker_def
    by (intro logs_bind logs_run_proc logs_return; simp add: outage_on_def [symmetric] outage_off_def [symmetric])+
  then show "logs fault_command (docker E [''stop'', CELESTIA_BRIDGE]) [outage_on]"
    "logs fault_command (docker E [''start'', CELESTIA_BRIDGE]) [outage_off]" by simp_all
qed

abbreviation loss_up :: "string list" where "loss_up \<equiv> compose_cmd ''chaos-loss'' UP [''pumba-loss'']"
abbreviation loss_off :: "string list list" where
  "loss_off \<equiv> [compose_cmd ''chaos-loss'' STOP [''pumba-loss''], compose_cmd ''chaos-loss'' RM [''pumba-loss'']]"
abbreviation btc_up :: "string list" where "btc_up \<equiv> compose_cmd ''chaos-btc-delay'' UP [''pumba-btc-delay'']"
abbreviation btc_off :: "string list list" where
  "btc_off \<equiv> [compose_cmd ''chaos-btc-delay'' STOP [''pumba-btc-delay''], compose_cmd ''chaos-btc-delay'' RM [''pumba-btc-delay'']]"

lemma injector_faults [logs_intros]:
  "logs fault_command (start_pumba_profile E ''chaos-loss'' t) [loss_up]"
  "logs fault_command (cleanup_profile E ''chaos-loss'') loss_off"
  "logs fault_command (start_pumba_profile E ''chaos-btc-delay'' t) [btc_up]"
  "logs fault_command (cleanup_profile E ''chaos-btc-delay'') btc_off"
  by (rule start_faults cleanup_faults, simp add: PROFILE_TO_SERVICE_def)+

lemma loss_cycle_faults: "logs fault_command (loss_cycle E tr i) (loss_up # loss_off)"
proof -
  have "logs fault_command (loss_cycle E tr i) ([] @ [loss_up] @ [] @ loss_off @ [])"
    unfolding loss_cycle_def by (intro logs_intros)
  then show ?thesis by simp
qed

lemma trace_phases_faults:
  "logs fault_command (trace_phases E wan)
     (wan_starts wan @ [btc_up, outage_on] @ wan_stops wan @ concat (replicate 3 (loss_up # loss_off))
      @ wan_starts wan @ btc_off @ [outage_off] @ wan_stops wan)"
proof -
  have cycles: "logs fault_command (py_fold (loss_cycle E) tr [0 ..< 3]) (concat (replicate 3 (loss_up # loss_off)))" for tr
    using logs_fold [OF loss_cycle_faults, where xs = "[0 ..< 3]"] by simp
  have "logs fault_command (layer_phases E tr) ([] @ [] @ [btc_up] @ [] @ [] @ [outage_on] @ [] @ [])" for tr
    unfolding layer_phases_def by (intro logs_intros)
  moreover have "logs fault_command (loss_phases E wan tr)
      (wan_stops wan @ [] @ concat (replicate 3 (loss_up # loss_off)) @ [] @ wan_starts wan @ [])" for tr
    unfolding loss_phases_def by (intro logs_intros cycles)
  moreover have "logs fault_command (heal_phases E wan tr) (btc_off @ [] @ [outage_off] @ [] @ [] @ [] @ wan_stops wan @ [])" for tr
    unfolding heal_phases_def by (intro logs_intros)
  ultimately have "logs fault_command (trace_phases E wan) ([] @ wan_starts wan @ ([] @ [] @ [btc_up] @ [] @ [] @ [outage_on] @ [] @ [])
      @ (wan_stops wan @ [] @ concat (replicate 3 (loss_up # loss_off)) @ [] @ wan_starts wan @ [])
      @ (btc_off @ [] @ [outage_off] @ [] @ [] @ [] @ wan_stops wan @ []))"
    unfolding trace_phases_def by (intro logs_intros)
  then show ?thesis by simp
qed

lemma scrape_faults: "logs fault_command (collect_sensor_rows E ss) []"
  unfolding collect_sensor_rows_def node_sensor_rows_def scrape_sensor_snapshots_def Let_def
  by (rule logs_emits, intro emits_intros) simp


section \<open>Packet loss and Bitcoin delay do not overlap\<close>

definition BTC_INJECTOR :: string where "BTC_INJECTOR = ''pumba-btc-delay-injector''"

definition starts_of :: "string list \<Rightarrow> event \<Rightarrow> bool" where
  "starts_of argv ev \<longleftrightarrow> argv \<in> set (command ev)"

text \<open>After these events the Bitcoin injector has been seen finished since it was last brought up.\<close>

definition btc_calm :: "event list \<Rightarrow> bool" where
  "btc_calm evs \<longleftrightarrow> (\<exists>before seen after. evs = before @ seen # after \<and>
     inspected BTC_INJECTOR {''missing'', ''exited''} seen \<and> (\<forall>ev \<in> set after. \<not> starts_of btc_up ev))"

text \<open>At every start of the packet loss, it has.\<close>

definition faults_apart :: "event list \<Rightarrow> bool" where
  "faults_apart evs \<longleftrightarrow> (\<forall>before ev after. evs = before @ ev # after \<and> starts_of loss_up ev \<longrightarrow> btc_calm before)"

lemma btc_calm_append: "btc_calm evs \<Longrightarrow> (\<forall>ev \<in> set new. \<not> starts_of btc_up ev) \<Longrightarrow> btc_calm (evs @ new)"
proof -
  assume "btc_calm evs" and new: "\<forall>ev \<in> set new. \<not> starts_of btc_up ev"
  then obtain a seen b where "evs = a @ seen # b" "inspected BTC_INJECTOR {''missing'', ''exited''} seen"
    "\<forall>ev \<in> set b. \<not> starts_of btc_up ev" unfolding btc_calm_def by blast
  with new show ?thesis unfolding btc_calm_def by (intro exI [of _ a] exI [of _ seen] exI [of _ "b @ new"]) auto
qed

lemma faults_apart_snoc:
  "faults_apart (evs @ [ev]) \<longleftrightarrow> faults_apart evs \<and> (starts_of loss_up ev \<longrightarrow> btc_calm evs)"
proof
  assume l: "faults_apart (evs @ [ev])"
  have "btc_calm a" if "evs = a @ e # b" "starts_of loss_up e" for a e b
  proof -
    from that have "evs @ [ev] = a @ e # (b @ [ev])" by simp
    with l that show ?thesis unfolding faults_apart_def by blast
  qed
  moreover have "btc_calm evs" if "starts_of loss_up ev"
    using l that unfolding faults_apart_def by blast
  ultimately show "faults_apart evs \<and> (starts_of loss_up ev \<longrightarrow> btc_calm evs)" by (auto simp: faults_apart_def)
next
  assume r: "faults_apart evs \<and> (starts_of loss_up ev \<longrightarrow> btc_calm evs)"
  show "faults_apart (evs @ [ev])"
    unfolding faults_apart_def
  proof (intro allI impI, elim conjE)
    fix a e b assume e: "evs @ [ev] = a @ e # b" "starts_of loss_up e"
    show "btc_calm a"
    proof (cases b rule: rev_cases)
      case Nil
      with e r show ?thesis by simp
    next
      case (snoc b' z)
      with e have "evs = a @ e # b'" by simp
      with e r show ?thesis unfolding faults_apart_def by blast
    qed
  qed
qed

lemma faults_apart_append:
  "faults_apart evs \<Longrightarrow> (\<forall>ev \<in> set new. \<not> starts_of loss_up ev) \<Longrightarrow> faults_apart (evs @ new)"
proof (induction new rule: rev_induct)
  case (snoc x xs)
  then show ?case using faults_apart_snoc [of "evs @ xs" x] by simp
qed simp

text \<open>The assertion carried through the run: the events since \<open>w\<close> keep the faults apart, and, for \<open>b\<close>, the
  injector is known to be finished.\<close>

definition apart_since :: "world \<Rightarrow> bool \<Rightarrow> world \<Rightarrow> bool" where
  "apart_since w b v \<longleftrightarrow> (\<exists>evs. log v = log w @ evs \<and> faults_apart evs \<and> (b \<longrightarrow> btc_calm evs))"

lemma apart_weaken: "apart_since w b v \<Longrightarrow> apart_since w False v"
  by (auto simp: apart_since_def)

lemma apart_grows:
  assumes "apart_since w b v" "grows (\<lambda>ev. \<not> starts_of loss_up ev \<and> (b \<longrightarrow> \<not> starts_of btc_up ev)) v v'"
  shows "apart_since w b v'"
proof -
  from assms obtain evs new where "log v = log w @ evs" "faults_apart evs" "b \<longrightarrow> btc_calm evs" "log v' = log v @ new"
    "\<forall>ev \<in> set new. \<not> starts_of loss_up ev \<and> (b \<longrightarrow> \<not> starts_of btc_up ev)"
    unfolding apart_since_def grows_def list_all_iff by blast
  then show ?thesis
    unfolding apart_since_def using faults_apart_append btc_calm_append by (intro exI [of _ "evs @ new"]) auto
qed

lemma apart_emits:
  assumes "emits (\<lambda>ev. \<not> starts_of loss_up ev \<and> \<not> starts_of btc_up ev) m" "apart_since w b v"
  shows "wp m (\<lambda>_. apart_since w b) (\<lambda>_. apart_since w False) v"
  by (rule wp_mono [OF wp_emits [OF assms(1)]])
    (auto intro: apart_weaken [of w b] intro!: apart_grows [OF assms(2)] elim: grows_mono)

lemma starts_of_simps [simp]:
  "\<not> starts_of loss_up (RpcGet port q a)" "\<not> starts_of loss_up (Slept s)" "\<not> starts_of loss_up (Wrote f x)"
  "\<not> starts_of btc_up (RpcGet port q a)" "\<not> starts_of btc_up (Slept s)" "\<not> starts_of btc_up (Wrote f x)"
  "starts_of argv (RunProc argv' vs r) \<longleftrightarrow> argv = argv'"
  by (auto simp: starts_of_def)

lemma other_commands [simp]:
  "loss_up \<noteq> inspect_cmd c" "btc_up \<noteq> inspect_cmd c" "loss_up \<noteq> clear_cmd c" "btc_up \<noteq> clear_cmd c"
  "loss_up \<noteq> [''docker'', verb, c]" "btc_up \<noteq> [''docker'', verb, c]"
  "loss_up \<noteq> compose_cmd p STOP ss" "btc_up \<noteq> compose_cmd p STOP ss" "loss_up \<noteq> compose_cmd p RM ss" "btc_up \<noteq> compose_cmd p RM ss"
  "compose_cmd p v ss = compose_cmd p' v ss' \<longleftrightarrow> p = p' \<and> ss = ss'"
  by (auto simp: compose_cmd_def inspect_cmd_def clear_cmd_def STOP_def RM_def UP_def)

lemma apart_wait:
  assumes "apart_since w b v"
  shows "wp (wait_for_no_active_netem E t) (\<lambda>_. apart_since w True) (\<lambda>_. apart_since w False) v"
proof (rule wp_mono [OF wp_conj [OF apart_emits wait_netem_swept]])
  show "emits (\<lambda>ev. \<not> starts_of loss_up ev \<and> \<not> starts_of btc_up ev) (wait_for_no_active_netem E t)"
    by (intro emits_intros) simp_all
  fix u and v' :: world
  assume a: "apart_since w b v' \<and> (\<exists>evs sweep. log v' = log v @ evs @ sweep \<and>
      list_all2 (\<lambda>c. inspected c {''missing'', ''exited''}) netem_containers sweep)"
  from assms obtain old where old: "log v = log w @ old" unfolding apart_since_def by blast
  from a obtain new e1 e2 e3 e4 e5 e6 where new: "log v' = log v @ new @ [e1, e2, e3, e4, e5, e6]"
    and seen: "inspected BTC_INJECTOR {''missing'', ''exited''} e4" "\<not> starts_of btc_up e5" "\<not> starts_of btc_up e6"
    by (auto simp: netem_containers_def list_all2_Cons1 BTC_INJECTOR_def inspected_def)
  from a obtain evs where evs: "log v' = log w @ evs" "faults_apart evs" unfolding apart_since_def by blast
  with old new have "evs = (old @ new @ [e1, e2, e3]) @ e4 # [e5, e6]" by simp
  with seen have "btc_calm evs"
    unfolding btc_calm_def by (intro exI [of _ "old @ new @ [e1, e2, e3]"] exI [of _ e4] exI [of _ "[e5, e6]"]) auto
  with evs show "apart_since w True v'" unfolding apart_since_def by blast
qed (use assms in auto)

lemma apart_emit:
  "apart_since w True v \<Longrightarrow> apart_since w True (emit E (RunProc loss_up vs r) d v)"
  "apart_since w b v \<Longrightarrow> apart_since w False (emit E (RunProc btc_up vs r) d v)"
proof -
  assume "apart_since w True v"
  then obtain evs where "log v = log w @ evs" "faults_apart evs" "btc_calm evs" unfolding apart_since_def by blast
  then show "apart_since w True (emit E (RunProc loss_up vs r) d v)"
    unfolding apart_since_def emit_def
    by (intro exI [of _ "evs @ [RunProc loss_up vs r]"]) (auto simp: faults_apart_snoc intro: btc_calm_append)
next
  assume "apart_since w b v"
  then obtain evs where "log v = log w @ evs" "faults_apart evs" unfolding apart_since_def by blast
  then show "apart_since w False (emit E (RunProc btc_up vs r) d v)"
    unfolding apart_since_def emit_def by (intro exI [of _ "evs @ [RunProc btc_up vs r]"]) (auto simp: faults_apart_snoc)
qed

lemma apart_started:
  "apart_since w b v \<Longrightarrow> wp (py_bind (poll_until E t (3 / 10) (started_check E c)) (\<lambda>r.
     case r of Some c \<Rightarrow> py_return c | None \<Rightarrow> py_raise e)) (\<lambda>_. apart_since w b) (\<lambda>_. apart_since w False) v"
  by (rule apart_emits) (intro emits_intros; simp)

lemma lift_Inr: "py_lift (Inr x) = py_return x"
  by (simp add: fun_eq_iff py_lift_def py_return_def)

lemma up_detached_known:
  "up_detached E ''chaos-loss'' = py_bind (run_proc E loss_up True) (\<lambda>_. py_return ''pumba-loss-injector'')"
  "up_detached E ''chaos-btc-delay'' = py_bind (run_proc E btc_up True) (\<lambda>_. py_return BTC_INJECTOR)"
  by (simp_all add: up_detached_def dict_keys_def dict_item_def PROFILE_TO_SERVICE_def PROFILE_TO_CONTAINER_def
      BTC_INJECTOR_def lift_Inr bind_return)

lemma apart_start_loss:
  assumes "apart_since w True v"
  shows "wp (start_pumba_profile E ''chaos-loss'' t) (\<lambda>_. apart_since w True) (\<lambda>_. apart_since w False) v"
  unfolding start_pumba_profile_def up_detached_known
proof (rule wp_seq [where I = "\<lambda>_. apart_since w True"])
  show "wp (py_bind (run_proc E loss_up True) (\<lambda>_. py_return ''pumba-loss-injector'')) (\<lambda>_. apart_since w True) (\<lambda>_. apart_since w False) v"
    using assms by (auto simp: wp_simps intro: apart_emit apart_weaken split: sum.splits)
qed (rule apart_started)

lemma apart_start_btc:
  assumes "apart_since w b v"
  shows "wp (start_pumba_profile E ''chaos-btc-delay'' t) (\<lambda>_. apart_since w False) (\<lambda>_. apart_since w False) v"
  unfolding start_pumba_profile_def up_detached_known
proof (rule wp_seq [where I = "\<lambda>_. apart_since w False"])
  show "wp (py_bind (run_proc E btc_up True) (\<lambda>_. py_return BTC_INJECTOR)) (\<lambda>_. apart_since w False) (\<lambda>_. apart_since w False) v"
    using assms by (auto simp: wp_simps intro: apart_emit apart_weaken split: sum.splits)
qed (rule apart_started)

text \<open>Operations that start neither of the two profiles.\<close>

abbreviation starts_neither :: "'a py \<Rightarrow> bool" where
  "starts_neither m \<equiv> emits (\<lambda>ev. \<not> starts_of loss_up ev \<and> \<not> starts_of btc_up ev) m"

lemma trace_steps_neither [emits_intros]:
  "starts_neither (trace_poll E s i p tr)" "starts_neither (trace_wait E t s p tr)" "starts_neither (mark ev tr)"
  "starts_neither (cleanup_profile E pr)" "starts_neither (cleanup_wan_profile E pr)"
  "starts_neither (docker E [''stop'', c])" "starts_neither (docker E [''start'', c])"
  "starts_neither (write_csv E ss f)" "starts_neither (collect_sensor_rows E ss)"
  unfolding trace_poll_def trace_wait_def mark_def cleanup_profile_def cleanup_wan_profile_def write_csv_def
    collect_sensor_rows_def node_sensor_rows_def scrape_sensor_snapshots_def Let_def
  by (intro emits_intros; simp)+

lemma wan_start_neither [emits_intros]: "starts_neither (start_pumba_wan_profile E p t)"
  unfolding start_pumba_wan_profile_def
  by (rule emits_bind_lift, intro emits_intros)
    (auto simp: dict_item_eq_Inr WAN_PROFILE_TO_SERVICES_def split: if_splits)

lemma wan_neither [emits_intros]:
  "starts_neither (wan_up E wan)" "starts_neither (wan_down E wan)" "starts_neither (wan_resume E wan)"
  unfolding wan_up_def wan_down_def wan_resume_def by (intro emits_intros; simp)+

lemma apart_cycle:
  assumes "apart_since w b v"
  shows "wp (loss_cycle E tr i) (\<lambda>_. apart_since w True) (\<lambda>_. apart_since w False) v"
  unfolding loss_cycle_def
  by (rule wp_seq_then [OF apart_wait [OF assms]], rule wp_seq_then [OF apart_start_loss], assumption,
      rule apart_emits) (intro emits_intros)

lemma apart_cycles:
  assumes "apart_since w b v"
  shows "wp (py_fold (loss_cycle E) tr is) (\<lambda>_. apart_since w False) (\<lambda>_. apart_since w False) v"
  by (rule wp_fold [where I = "\<lambda>_ _. apart_since w False", THEN wp_mono])
    (use assms in \<open>auto intro: apart_weaken wp_mono [OF apart_cycle]\<close>)

lemma apart_layer:
  assumes "apart_since w b v"
  shows "wp (layer_phases E tr) (\<lambda>_. apart_since w False) (\<lambda>_. apart_since w False) v"
  unfolding layer_phases_def
  by (rule wp_seq [OF apart_emits [OF _ assms]], intro emits_intros, rule wp_seq_then [OF apart_wait], assumption,
      rule wp_seq_then [OF apart_start_btc], assumption, rule apart_emits) (intro emits_intros)

lemma apart_churn:
  assumes "apart_since w b v"
  shows "wp (loss_phases E wan tr) (\<lambda>_. apart_since w False) (\<lambda>_. apart_since w False) v"
  unfolding loss_phases_def
  by (rule wp_seq_then [OF apart_emits [OF _ assms]], intro emits_intros, rule wp_seq [OF apart_emits], intro emits_intros,
      assumption, rule wp_seq [OF apart_cycles], assumption, rule apart_emits) (intro emits_intros)

lemma apart_combined:
  assumes "apart_since w b v"
  shows "wp (trace_phases E wan) (\<lambda>_. apart_since w False) (\<lambda>_. apart_since w False) v"
  unfolding trace_phases_def
  by (rule wp_seq [OF apart_emits [OF emits_time assms]], rule wp_seq_then [OF apart_emits], intro emits_intros, assumption,
      rule wp_seq [OF apart_layer], assumption, rule wp_seq [OF apart_churn], assumption, rule apart_emits)
    (unfold heal_phases_def, intro emits_intros)

text \<open>C24. The three faults of the combined trace are not active together, contrary to the description of its phase 4: in
  every run, completed or not, whenever the packet loss is started, the injector of the Bitcoin delay was inspected after its
  last start and found missing or finished. The wait before each burst refuses to go on while it still runs.\<close>

theorem combined_trace_faults_apart:
  assumes "combined_trace_main E wan w = Some (r, w')"
  shows "\<exists>evs. log w' = log w @ evs \<and> faults_apart evs"
proof -
  have start: "apart_since w False w" by (simp add: apart_since_def faults_apart_def)
  have "wp (combined_trace_main E wan) (\<lambda>_. apart_since w False) (\<lambda>_. apart_since w False) w"
    unfolding combined_trace_main_def combined_report_def Let_def wp_if
    by (simp add: start wp_raise, rule impI, rule wp_seq [OF apart_combined [OF start]], rule apart_emits)
      (intro emits_intros; simp)
  with assms have "apart_since w False w'" by (auto simp: wp_def split: sum.splits)
  then show ?thesis by (auto simp: apart_since_def)
qed

section \<open>Scraping gives back what the node printed\<close>

text \<open>The line \<^verbatim>\<open>x/sovereignty/sensors_refresh.go\<close> prints for a block.\<close>

definition flag_text :: "bool \<Rightarrow> string" where
  "flag_text b = (if b then ''true'' else ''false'')"

definition snapshot_line :: "sensor_row \<Rightarrow> string" where
  "snapshot_line r =
     ''engramd: sensor_snapshot height='' @ py_str_int (sn_height r) @ '' btc_gap='' @ py_str_int (sn_btc_gap r)
     @ '' btc_spv_failed='' @ flag_text (sn_btc_spv_failed r) @ '' da_gap='' @ py_str_int (sn_da_gap r)
     @ '' da_failed='' @ flag_text (sn_da_failed r) @ '' attestation_failed='' @ flag_text (sn_attestation_failed r)
     @ '' active_anchors='' @ py_str_int (sn_active_anchors r) @ '' clean_peers='' @ py_str_int (sn_clean_peers r)
     @ '' churn_rate='' @ py_str_int (sn_churn_rate r) @ '' avg_tenure='' @ py_str_int (sn_avg_tenure r)
     @ '' peer_latency='' @ py_str_int (sn_peer_latency r)"

text \<open>The readings are counters and gaps, never negative.\<close>

definition row_ok :: "string \<Rightarrow> sensor_row \<Rightarrow> bool" where
  "row_ok container r \<longleftrightarrow> sn_node r = container \<and>
     list_all (\<lambda>x. 0 \<le> x) [sn_height r, sn_btc_gap r, sn_da_gap r, sn_active_anchors r, sn_clean_peers r,
       sn_churn_rate r, sn_avg_tenure r, sn_peer_latency r]"

text \<open>A container log: snapshots among other lines.\<close>

datatype log_line = Other string | Snapshot sensor_row

fun show_line :: "log_line \<Rightarrow> string" where
  "show_line (Other s) = s @ NL"
| "show_line (Snapshot r) = snapshot_line r @ NL"

fun line_ok :: "string \<Rightarrow> log_line \<Rightarrow> bool" where
  "line_ok c (Other s) \<longleftrightarrow> hd NL \<notin> set s \<and> \<not> contains s ''engramd: sensor_snapshot height=''"
| "line_ok c (Snapshot r) \<longleftrightarrow> row_ok c r"

fun snapshots :: "log_line list \<Rightarrow> sensor_row list" where
  "snapshots [] = []"
| "snapshots (Snapshot r # ls) = r # snapshots ls"
| "snapshots (Other s # ls) = snapshots ls"

lemma lit_append [simp]: "lit p (p @ s) = Some s"
  by (simp add: lit_def)

lemma lit_Some: "lit p s = Some r \<longleftrightarrow> s = p @ r"
  by (auto simp: lit_def prefix_def)

lemma group_show:
  assumes "rest = [] \<or> \<not> is_digit (hd rest)"
  shows "group is_digit (show_nat n @ rest) = Some (show_nat n, rest)"
proof -
  have "takeWhile is_digit (show_nat n @ rest) = show_nat n @ takeWhile is_digit rest"
    "dropWhile is_digit (show_nat n @ rest) = dropWhile is_digit rest"
    using show_nat_digits [of n] by simp_all
  moreover have "takeWhile is_digit rest = []" "dropWhile is_digit rest = rest"
    using assms by (cases rest; simp)+
  ultimately show ?thesis by (simp add: group_def)
qed

lemma int_group_show:
  "0 \<le> i \<Longrightarrow> rest = [] \<or> \<not> is_digit (hd rest) \<Longrightarrow> int_group name (name @ py_str_int i @ rest) = Some (i, rest)"
  by (simp add: int_group_def py_str_int_def group_show digits_value_def show_nat_value)

lemma bool_group_show: "bool_group name (name @ flag_text b @ rest) = Some (b, rest)"
  by (simp add: bool_group_def flag_text_def lit_def)

lemma sensor_match_line:
  assumes "row_ok c r" "rest = [] \<or> \<not> is_digit (hd rest)"
  shows "sensor_match c (snapshot_line r @ rest) = Some (r, rest)"
  using assms
  by (simp add: sensor_match_def snapshot_line_def int_group_show bool_group_show row_ok_def is_digit_def code_of_def
      del: append_Cons)
lemma find_all_skip:
  "(\<And>a b. noise = a @ b \<Longrightarrow> b \<noteq> [] \<Longrightarrow> m (b @ s) = None) \<Longrightarrow> find_all m (noise @ s) = find_all m s"
proof (induction noise)
  case (Cons c cs)
  have "m (c # cs @ s) = None" using Cons.prems [of "[]" "c # cs"] by simp
  moreover have "find_all m (cs @ s) = find_all m s"
    by (rule Cons.IH) (use Cons.prems [of "c # a" b for a b] in simp)
  ultimately show ?case by simp
qed simp

lemma find_all_hit:
  "m s = Some (x, rest) \<Longrightarrow> length rest < length s \<Longrightarrow> find_all m s = x # find_all m rest"
  by (cases s) auto

lemma prefix_before: "z \<notin> set p \<Longrightarrow> prefix p (a @ z # b) \<Longrightarrow> prefix p a"
  by (auto simp: prefix_append prefix_Cons)

lemma sensor_match_other:
  assumes "line_ok c (Other l)" "l @ NL = a @ b" "b \<noteq> []"
  shows "sensor_match c (b @ s) = None"
proof -
  let ?p = "''engramd: sensor_snapshot height=''"
  obtain b' where b: "b = b' @ NL" "l = a @ b'"
    using assms(2,3) by (cases b rule: rev_cases) (auto simp: NL_def)
  have "\<not> prefix ?p (b @ s)"
  proof
    assume "prefix ?p (b @ s)"
    then have "prefix ?p (b' @ char_of (10 :: nat) # s)" by (simp only: b NL_def append.assoc append_Cons append_Nil)
    then have "prefix ?p b'" by (rule prefix_before [rotated]) (simp add: char_of_def)
    then obtain z where "b' = ?p @ z" by (rule prefixE)
    with b(2) have "sublist ?p l" by (simp only: sublist_appendI)
    with assms(1) show False by (simp add: contains_def)
  qed
  then show ?thesis by (simp add: sensor_match_def int_group_def lit_def)
qed

lemma find_all_other: "line_ok c (Other l) \<Longrightarrow> find_all (sensor_match c) (l @ NL @ s) = find_all (sensor_match c) s"
  using find_all_skip [where noise = "l @ NL" and m = "sensor_match c" and s = s] sensor_match_other by simp

lemma find_all_snapshot:
  assumes "row_ok c r"
  shows "find_all (sensor_match c) (snapshot_line r @ NL @ s) = r # find_all (sensor_match c) s"
proof -
  have "sensor_match c (snapshot_line r @ NL @ s) = Some (r, NL @ s)"
    by (rule sensor_match_line [OF assms]) (simp add: NL_def is_digit_def code_of_def)
  then have "find_all (sensor_match c) (snapshot_line r @ NL @ s) = r # find_all (sensor_match c) (NL @ s)"
    by (rule find_all_hit) (simp add: snapshot_line_def)
  also have "find_all (sensor_match c) (NL @ s) = find_all (sensor_match c) s"
    using find_all_other [of c "[]" s] by (simp add: contains_def)
  finally show ?thesis .
qed

lemma find_all_log:
  "list_all (line_ok c) ls \<Longrightarrow> find_all (sensor_match c) (concat (map show_line ls)) = snapshots ls"
proof (induction ls)
  case (Cons l ls)
  then show ?case by (cases l) (simp_all add: find_all_other find_all_snapshot del: line_ok.simps(1))
qed simp

text \<open>C25. Scraping a container's log gives back exactly the readings the node printed into it, in order: whatever other lines
  the log has, as long as none of them contains the beginning of a snapshot line, the result of
  \<^verbatim>\<open>scrape_sensor_snapshots\<close> is the list of the snapshots. When docker does not answer in time or cannot be run, the result is empty.\<close>

theorem scrape_sensor_snapshots_roundtrip:
  assumes "list_all (line_ok c) (ls @ ls')"
  shows "(\<forall>p. spawn E w [''docker'', ''logs'', c] [] = Inr p \<and> out_text p = concat (map show_line ls) \<and>
        err_text p = concat (map show_line ls') \<longrightarrow>
      (\<exists>w'. scrape_sensor_snapshots E c w = Some (Inr (snapshots (ls @ ls')), w'))) \<and>
    (\<forall>e. spawn E w [''docker'', ''logs'', c] [] = Inl e \<and> caught_by [TimeoutExpired, OSError] e \<longrightarrow>
      (\<exists>w'. scrape_sensor_snapshots E c w = Some (Inr [], w')))"
proof (intro conjI allI impI; elim conjE)
  fix p assume p: "spawn E w [''docker'', ''logs'', c] [] = Inr p"
    and "out_text p = concat (map show_line ls)" "err_text p = concat (map show_line ls')"
  then have "out_text p @ err_text p = concat (map show_line (ls @ ls'))" by simp
  then have "find_all (sensor_match c) (out_text p @ err_text p) = snapshots (ls @ ls')"
    using find_all_log [OF assms] by simp
  then show "\<exists>w'. scrape_sensor_snapshots E c w = Some (Inr (snapshots (ls @ ls')), w')"
    using p by (simp add: scrape_sensor_snapshots_def run_defs)
next
  fix e assume "spawn E w [''docker'', ''logs'', c] [] = Inl e" "caught_by [TimeoutExpired, OSError] e"
  then show "\<exists>w'. scrape_sensor_snapshots E c w = Some (Inr [], w')"
    by (simp add: scrape_sensor_snapshots_def run_defs)
qed

definition example_row :: sensor_row where
  "example_row = \<lparr>sn_node = ''engram-node01'', sn_height = 120, sn_btc_gap = 3, sn_btc_spv_failed = False, sn_da_gap = 7,
     sn_da_failed = True, sn_attestation_failed = False, sn_active_anchors = 2, sn_clean_peers = 3, sn_churn_rate = 0,
     sn_avg_tenure = 15, sn_peer_latency = 40\<rparr>"

definition example_log :: "log_line list" where
  "example_log = [Other ''INF committed state'', Snapshot example_row, Other []]"

definition log_docker :: "string list \<Rightarrow> (string \<times> string) list \<Rightarrow> proc result" where
  "log_docker argv vars = Inr \<lparr>returncode = 0,
     out_text = (if last argv = ''engram-node01'' then concat (map show_line example_log) else []), err_text = []\<rparr>"

lemma example_log_ok: "list_all (line_ok ''engram-node01'') (example_log @ [])"
  by (simp add: example_log_def example_row_def row_ok_def NL_def contains_def sublist_code char_of_def)

theorem scrape_sensor_snapshots_roundtrip_witness:
  "\<exists>w'. scrape_sensor_snapshots (static_env (\<lambda>_ _. Inl (Exn URLError [])) log_docker) ''engram-node01'' start_world
     = Some (Inr [example_row], w')"
  using scrape_sensor_snapshots_roundtrip [OF example_log_ok,
      of "static_env (\<lambda>_ _. Inl (Exn URLError [])) log_docker" start_world]
  by (simp add: log_docker_def) (simp add: example_log_def)
section \<open>Selecting and dating the readings\<close>

lemma find_all_in: "x \<in> set (find_all m s) \<Longrightarrow> \<exists>s' rest. m s' = Some (x, rest)"
proof (induction m s rule: find_all.induct)
  case (2 m c cs)
  show ?case
  proof (cases "m (c # cs)")
    case None
    with 2 show ?thesis by simp
  next
    case (Some p)
    then obtain y rest where m: "m (c # cs) = Some (y, rest)" by (cases p) simp
    with 2 show ?thesis by (cases "length rest < length (c # cs)") auto
  qed
qed simp

lemma sensor_match_node: "sensor_match c s = Some (r, rest) \<Longrightarrow> sn_node r = c"
  by (auto simp: sensor_match_def split: bind_splits)

lemma scrape_node: "yields (scrape_sensor_snapshots E c) (\<lambda>rows. \<forall>r \<in> set rows. sn_node r = c)"
  unfolding scrape_sensor_snapshots_def
  by (rule yields_effect, rule yields_return) (auto dest!: find_all_in sensor_match_node split: option.splits)

lemma rmap_list_set: "rmap_list f xs = Inr ys \<Longrightarrow> y \<in> set ys \<Longrightarrow> \<exists>x \<in> set xs. f x = Inr y"
  by (induction xs arbitrary: ys) (auto simp: rbind_eq_Inr)

text \<open>The sample that dates a reading: one of the node's samples with the least distance in height.\<close>

definition dated_by :: "NodeSample list \<Rightarrow> dated_row \<Rightarrow> bool" where
  "dated_by ss r \<longleftrightarrow> (\<exists>s \<in> set ss. snd r = Some (timestamp s) \<and>
     (\<forall>s' \<in> set ss. \<bar>height s - sn_height (fst r)\<bar> \<le> \<bar>height s' - sn_height (fst r)\<bar>))"

definition within_run :: "NodeSample list \<Rightarrow> sensor_row \<Rightarrow> bool" where
  "within_run ss r \<longleftrightarrow> (\<exists>a \<in> set ss. \<exists>b \<in> set ss. height a \<le> sn_height r \<and> sn_height r \<le> height b)"

lemma nearest_timestamp_dates:
  "nearest_timestamp (sn_height row) ss = Inr t \<Longrightarrow> ss \<noteq> [] \<Longrightarrow> dated_by ss (row, t)"
  by (auto simp: nearest_timestamp_def rbind_eq_Inr dated_by_def dest: py_min_Inr)

lemma date_rows_ok:
  assumes "py_min id (map height ss) = Inr lo" "py_max id (map height ss) = Inr hi"
    and "date_rows lo hi ss rows = Inr out" "r \<in> set out"
  shows "fst r \<in> set rows \<and> within_run ss (fst r) \<and> dated_by ss r"
proof -
  from assms(3,4) obtain row t where row: "row \<in> set rows" "lo \<le> sn_height row" "sn_height row \<le> hi"
    "nearest_timestamp (sn_height row) ss = Inr t" "r = (row, t)"
    unfolding date_rows_def by (auto dest!: rmap_list_set simp: rbind_eq_Inr)
  have "within_run ss row" "ss \<noteq> []"
    using py_min_Inr [OF assms(1)] py_max_Inr [OF assms(2)] row(2,3) by (auto simp: within_run_def)
  with row show ?thesis using nearest_timestamp_dates by simp
qed

lemma node_sensor_rows_ok:
  "yields (node_sensor_rows E samples n) (\<lambda>out. \<forall>r \<in> set out.
     sn_node (fst r) = n \<and> within_run (filter (\<lambda>s. node s = n) samples) (fst r) \<and> dated_by (filter (\<lambda>s. node s = n) samples) r)"
  unfolding node_sensor_rows_def Let_def
  by (rule yields_bind [OF yields_lift], rule yields_bind [OF yields_lift], rule yields_bind [OF scrape_node],
      rule yields_mono [OF yields_lift]) (auto dest: date_rows_ok)

lemma list_all2_set2D: "list_all2 R xs ys \<Longrightarrow> y \<in> set ys \<Longrightarrow> \<exists>x \<in> set xs. R x y"
  by (induction rule: list_all2_induct) auto

lemma collect_sensor_rows_ok:
  "yields (collect_sensor_rows E samples) (\<lambda>rows. \<forall>r \<in> set rows. sn_node (fst r) \<in> set (dict_keys NODE_RPC_PORTS) \<and>
     within_run (filter (\<lambda>s. node s = sn_node (fst r)) samples) (fst r) \<and>
     dated_by (filter (\<lambda>s. node s = sn_node (fst r)) samples) r)"
  unfolding collect_sensor_rows_def
proof (rule yields_bind [OF yields_map [OF node_sensor_rows_ok]], rule yields_return)
  fix yss :: "dated_row list list"
  assume "list_all2 (\<lambda>n out. \<forall>r \<in> set out. sn_node (fst r) = n \<and> within_run (filter (\<lambda>s. node s = n) samples) (fst r) \<and>
     dated_by (filter (\<lambda>s. node s = n) samples) r) (dict_keys NODE_RPC_PORTS) yss"
  then show "\<forall>r \<in> set (concat yss). sn_node (fst r) \<in> set (dict_keys NODE_RPC_PORTS) \<and>
     within_run (filter (\<lambda>s. node s = sn_node (fst r)) samples) (fst r) \<and>
     dated_by (filter (\<lambda>s. node s = sn_node (fst r)) samples) r"
    by (auto dest!: list_all2_set2D)
qed

text \<open>Every reading that goes into the sensors file belongs to one of the four validators, has a height between two heights
  sampled from that validator in this run (readings of earlier runs in the same log are dropped), and is dated by a sample
  of that validator whose height is closest to it.\<close>

theorem sensor_rows_dated:
  assumes "collect_sensor_rows E samples w = Some (Inr rows, w')" "(row, t) \<in> set rows"
  shows "sn_node row \<in> set (dict_keys NODE_RPC_PORTS) \<and>
    (\<exists>a \<in> set samples. \<exists>b \<in> set samples. node a = sn_node row \<and> node b = sn_node row \<and>
       height a \<le> sn_height row \<and> sn_height row \<le> height b) \<and>
    (\<exists>s \<in> set samples. node s = sn_node row \<and> t = Some (timestamp s) \<and>
       (\<forall>s' \<in> set samples. node s' = sn_node row \<longrightarrow> \<bar>height s - sn_height row\<bar> \<le> \<bar>height s' - sn_height row\<bar>))"
proof -
  let ?ss = "filter (\<lambda>s. node s = sn_node row) samples"
  have "sn_node row \<in> set (dict_keys NODE_RPC_PORTS)" and in_run: "within_run ?ss row" and dated: "dated_by ?ss (row, t)"
    using yieldsD [OF collect_sensor_rows_ok assms(1)] assms(2) by auto
  moreover from in_run obtain a b where "a \<in> set ?ss" "b \<in> set ?ss" "height a \<le> sn_height row" "sn_height row \<le> height b"
    unfolding within_run_def by blast
  moreover from dated obtain s where "s \<in> set ?ss" "t = Some (timestamp s)"
    "\<forall>s' \<in> set ?ss. \<bar>height s - sn_height row\<bar> \<le> \<bar>height s' - sn_height row\<bar>"
    unfolding dated_by_def by auto
  ultimately show ?thesis by (intro conjI) (auto intro: bexI [of _ a] bexI [of _ b] bexI [of _ s])
qed

definition example_samples :: "NodeSample list" where
  "example_samples = concat (map (\<lambda>n. map (\<lambda>(t, h). \<lparr>timestamp = t, node = n, height = h, app_hash = JNull,
     catching_up = False, fsm_state = ''ANCHORED'', safe_blocks = 0, suspicious_duration = 0, reanchoring_proof_valid = False,
     error = []\<rparr>) [(10, 118), (13, 121)]) (dict_keys NODE_RPC_PORTS))"

abbreviation log_env :: env where
  "log_env \<equiv> static_env (\<lambda>_ _. Inl (Exn URLError [])) log_docker"

lemma example_found: "find_all (sensor_match ''engram-node01'') (concat (map show_line example_log)) = [example_row]"
  using find_all_log [OF example_log_ok] by (simp add: example_log_def)

lemma example_node_rows:
  "n \<in> set (dict_keys NODE_RPC_PORTS) \<Longrightarrow>
   \<exists>w'. node_sensor_rows log_env example_samples n w
     = Some (Inr (if n = ''engram-node01'' then [(example_row, Some 13)] else []), w')"
  by (auto simp: node_sensor_rows_def example_samples_def scrape_sensor_snapshots_def dict_keys_def NODE_RPC_PORTS_def
      log_docker_def run_defs date_rows_def nearest_timestamp_def example_found example_row_def)

lemma example_rows:
  "\<exists>w'. collect_sensor_rows log_env example_samples start_world = Some (Inr [(example_row, Some 13)], w')"
proof -
  let ?f = "node_sensor_rows log_env example_samples"
  obtain w1 where 1: "?f ''engram-node01'' start_world = Some (Inr [(example_row, Some 13)], w1)"
    using example_node_rows [of "''engram-node01''" start_world] by (auto simp: dict_keys_def NODE_RPC_PORTS_def)
  obtain w2 where 2: "?f ''engram-node02'' w1 = Some (Inr [], w2)"
    using example_node_rows [of "''engram-node02''" w1] by (auto simp: dict_keys_def NODE_RPC_PORTS_def)
  obtain w3 where 3: "?f ''engram-node03'' w2 = Some (Inr [], w3)"
    using example_node_rows [of "''engram-node03''" w2] by (auto simp: dict_keys_def NODE_RPC_PORTS_def)
  obtain w4 where 4: "?f ''engram-node04'' w3 = Some (Inr [], w4)"
    using example_node_rows [of "''engram-node04''" w3] by (auto simp: dict_keys_def NODE_RPC_PORTS_def)
  show ?thesis
    by (simp add: collect_sensor_rows_def dict_keys_def NODE_RPC_PORTS_def py_bind_def py_return_def 1 2 3 4)
qed

theorem sensor_rows_dated_witness:
  "\<exists>w'. collect_sensor_rows log_env example_samples start_world = Some (Inr [(example_row, Some 13)], w') \<and>
     (\<exists>s \<in> set example_samples. node s = ''engram-node01'' \<and> (13 :: rat) = timestamp s \<and>
        (\<forall>s' \<in> set example_samples. node s' = ''engram-node01'' \<longrightarrow> \<bar>height s - 120\<bar> \<le> \<bar>height s' - 120\<bar>))"
proof -
  obtain w' where w: "collect_sensor_rows log_env example_samples start_world = Some (Inr [(example_row, Some 13)], w')"
    using example_rows by blast
  from sensor_rows_dated [OF w, of example_row "Some 13"] w show ?thesis by (auto simp: example_row_def)
qed
section \<open>What the tracker collects is well-formed\<close>

abbreviation validators :: "string set" where "validators \<equiv> set (dict_keys NODE_RPC_PORTS)"

text \<open>Times of a log: ascending, from the start of the run up to \<open>d\<close> seconds after it.\<close>

definition timed :: "rat \<Rightarrow> rat list \<Rightarrow> bool" where
  "timed d ts \<longleftrightarrow> sorted ts \<and> (\<forall>t \<in> set ts. 0 \<le> t \<and> t \<le> d)"

definition wf_transition :: "rat \<times> string \<times> string \<times> string \<times> string \<Rightarrow> bool" where
  "wf_transition c = (case c of (t, phase, n, frm, to) \<Rightarrow>
     phase \<noteq> [] \<and> n \<in> validators \<and> frm \<noteq> [] \<and> to \<noteq> [] \<and> frm \<noteq> to)"

definition wf_trace :: "rat \<Rightarrow> trace_tracker \<Rightarrow> bool" where
  "wf_trace now tr \<longleftrightarrow> tr_start tr \<le> now \<and> tr_phase tr \<noteq> [] \<and>
     timed (now - tr_start tr) (map fst (tr_markers tr)) \<and>
     timed (now - tr_start tr) (map fst (tr_transitions tr)) \<and>
     list_all wf_transition (tr_transitions tr) \<and>
     distinct (dict_keys (tr_last_state tr)) \<and> set (dict_keys (tr_last_state tr)) \<subseteq> validators \<and>
     [] \<notin> set (dict_values (tr_last_state tr)) \<and>
     list_all (\<lambda>s. node s \<in> validators) (tr_samples tr)"

lemma timed_snoc: "timed d ts \<Longrightarrow> 0 \<le> d \<Longrightarrow> timed d (ts @ [d])"
  by (auto simp: timed_def sorted_append)

lemma timed_mono: "timed d ts \<Longrightarrow> d \<le> d' \<Longrightarrow> timed d' ts"
  by (force simp: timed_def)

lemma wf_trace_mono: "wf_trace now tr \<Longrightarrow> now \<le> now' \<Longrightarrow> wf_trace now' tr"
  by (auto simp: wf_trace_def elim: timed_mono)

lemma wf_new: "wf_trace t (new_trace_tracker t)"
  by (simp add: wf_trace_def new_trace_tracker_def timed_def dict_keys_def dict_values_def)

lemma wf_set_phase: "wf_trace now tr \<Longrightarrow> wf_trace now (set_phase p tr)"
  by (simp add: wf_trace_def set_phase_def)

lemma wf_marked: "wf_trace now tr \<Longrightarrow> wf_trace now (tr\<lparr>tr_markers := tr_markers tr @ [(now - tr_start tr, ev)]\<rparr>)"
  by (simp add: wf_trace_def timed_snoc)

lemma update_values: "set (dict_values (AList.update k v d)) \<subseteq> insert v (set (dict_values d))"
  unfolding dict_values_def by (induction d) auto

lemma wf_note_state:
  assumes "wf_trace now tr" "node s \<in> validators"
  shows "wf_trace now (note_state now s tr)"
proof -
  let ?prev = "dict_get (tr_last_state tr) (node s) []" and ?tr' = "note_state now s tr"
  let ?changed = "fsm_state s \<noteq> [] \<and> ?prev \<noteq> [] \<and> ?prev \<noteq> fsm_state s"
  have t: "tr_transitions ?tr' = tr_transitions tr @
      (if ?changed then [(now - tr_start tr, tr_phase tr, node s, ?prev, fsm_state s)] else [])"
    by (simp add: note_state_def Let_def)
  have m: "tr_markers ?tr' = tr_markers tr" by (simp add: note_state_def Let_def)
  have l: "tr_last_state ?tr' = (if fsm_state s \<noteq> [] then AList.update (node s) (fsm_state s) (tr_last_state tr) else tr_last_state tr)"
    by (simp add: note_state_def Let_def)
  have "timed (now - tr_start tr) (map fst (tr_transitions ?tr'))"
    using assms(1) timed_snoc [of "now - tr_start tr" "map fst (tr_transitions tr)"] by (simp add: wf_trace_def t)
  moreover have "list_all wf_transition (tr_transitions ?tr')"
    using assms by (simp add: wf_trace_def t wf_transition_def)
  moreover have "distinct (dict_keys (tr_last_state ?tr'))" "set (dict_keys (tr_last_state ?tr')) \<subseteq> validators"
    using assms by (auto simp: wf_trace_def l dict_keys_def distinct_update dom_update)
  moreover have "[] \<notin> set (dict_values (tr_last_state ?tr'))"
    using assms(1) update_values [of "node s" "fsm_state s" "tr_last_state tr"] by (auto simp: wf_trace_def l)
  ultimately show ?thesis using assms(1) by (simp add: wf_trace_def m)
qed

lemma wf_round:
  assumes "wf_trace now tr" "map node rs = dict_keys NODE_RPC_PORTS"
  shows "wf_trace now (trace_round now rs tr)"
proof -
  have "set (map node rs) = validators" using assms(2) by simp
  then have nodes: "\<forall>s \<in> set rs. node s \<in> validators" by auto
  have "wf_trace now tr \<Longrightarrow> \<forall>s \<in> set rs. node s \<in> validators \<Longrightarrow> wf_trace now (fold (note_state now) rs tr)" for rs tr
    by (induction rs arbitrary: tr) (auto intro: wf_note_state)
  moreover have "wf_trace now (tr\<lparr>tr_samples := tr_samples tr @ rs\<rparr>)"
    using assms(1) nodes by (auto simp: wf_trace_def list_all_iff)
  ultimately show ?thesis using nodes unfolding trace_round_def by blast
qed

text \<open>The observation of one sample, and the interface of the trackers.\<close>

definition trace_observe :: "rat \<Rightarrow> NodeSample \<Rightarrow> trace_tracker \<Rightarrow> trace_tracker" where
  "trace_observe now s tr = note_state now s (tr\<lparr>tr_samples := tr_samples tr @ [s]\<rparr>)"

lemma note_state_samples_update: "note_state now s (tr\<lparr>tr_samples := x\<rparr>) = (note_state now s tr)\<lparr>tr_samples := x\<rparr>"
  by (simp add: note_state_def Let_def)

lemma trace_round_steps: "trace_round now rs tr = fold (trace_observe now) rs tr"
proof -
  have "fold (note_state now) rs (tr\<lparr>tr_samples := x @ rs\<rparr>) = fold (trace_observe now) rs (tr\<lparr>tr_samples := x\<rparr>)" for x tr
  proof (induction rs arbitrary: tr x)
    case (Cons r rs)
    show ?case using Cons [of "x @ [r]" "note_state now r tr"]
      by (simp add: trace_observe_def note_state_samples_update)
  qed simp
  from this [of "tr_samples tr" tr] show ?thesis by (simp add: trace_round_def)
qed

interpretation trace_e9: transition_tracker trace_observe tr_last tr_changes tr_samples
  by unfold_locales (simp_all add: trace_observe_def note_state_last note_state_changes)
lemma wf_steady:
  "steady m \<Longrightarrow> wf_trace (clock v) tr \<Longrightarrow> wp m (\<lambda>_ v'. wf_trace (clock v') tr) (\<lambda>_ _. True) v"
  by (rule wp_mono [OF wp_emits]) (auto dest: grows_clock intro: wf_trace_mono)

lemma wf_mark: "wf_trace (clock v) tr \<Longrightarrow> wp (mark ev tr) (\<lambda>tr' v'. wf_trace (clock v') tr') (\<lambda>_ _. True) v"
  by (simp add: mark_def wp_simps wf_marked)

lemma wf_poll:
  assumes "wf_trace (clock v) tr" "0 \<le> i"
  shows "wp (trace_poll E s i p tr) (\<lambda>tr' v'. wf_trace (clock v') tr') (\<lambda>_ _. True) v"
  unfolding trace_poll_def tracker_poll_def wp_bind wp_time
proof (rule wp_while [where I = "\<lambda>tr v. wf_trace (clock v) tr"])
  fix tr and v :: world assume "wf_trace (clock v) tr"
  then show "wp (py_bind (sample_all_nodes E []) (\<lambda>rs. py_bind time_time (\<lambda>now. py_then (time_sleep E i)
      (py_return (Continue (trace_round now rs tr))))))
    (\<lambda>k w'. case k of Continue tr' \<Rightarrow> wf_trace (clock w') tr'
       | Leave x \<Rightarrow> wp (loop_state (Leave x)) (\<lambda>tr' v'. wf_trace (clock v') tr') (\<lambda>_ _. True) w') (\<lambda>_ _. True) v"
    unfolding wp_bind using assms(2)
    by (intro wp_mono [OF wp_sample_all_nodes])
      (auto simp: wp_simps emit_def node_list_def intro!: wf_trace_mono [OF wf_round] elim: wf_trace_mono)
qed (use assms(1) in \<open>auto simp: loop_state_def wp_simps wf_set_phase\<close>)

lemma wf_wait:
  assumes "wf_trace (clock v) tr"
  shows "wp (trace_wait E target s p tr) (\<lambda>(b, tr') v'. wf_trace (clock v') tr') (\<lambda>_ _. True) v"
  unfolding trace_wait_def tracker_wait_def wp_bind wp_time
proof (rule wp_while [where I = "\<lambda>tr v. wf_trace (clock v) tr"])
  fix tr and v :: world assume "wf_trace (clock v) tr"
  then show "wp (py_bind (sample_all_nodes E []) (\<lambda>rs. py_bind time_time (\<lambda>now.
      if all_in_state target rs then py_return (Leave (trace_round now rs tr))
      else py_then (time_sleep E 2) (py_return (Continue (trace_round now rs tr))))))
    (\<lambda>k w'. case k of Continue tr' \<Rightarrow> wf_trace (clock w') tr'
       | Leave x \<Rightarrow> wp (case Leave x of Leave tr' \<Rightarrow> py_return (True, tr') | Continue tr' \<Rightarrow> py_return (False, tr'))
          (\<lambda>(b, tr') v'. wf_trace (clock v') tr') (\<lambda>_ _. True) w') (\<lambda>_ _. True) v"
    unfolding wp_bind
    by (intro wp_mono [OF wp_sample_all_nodes])
      (auto simp: wp_simps emit_def node_list_def intro!: wf_round wf_trace_mono [OF wf_round] elim: wf_trace_mono)
qed (use assms in \<open>auto simp: wp_simps wf_set_phase\<close>)

lemma injector_steady:
  "steady (start_pumba_profile E p t)" "steady (cleanup_profile E p)" "steady (cleanup_wan_profile E p)"
  "steady (start_pumba_wan_profile E p t)" "steady (wait_for_no_active_netem E t)" "steady (docker E args)"
  by (rule emits_mono [OF start_scoped] emits_mono [OF cleanup_scoped] emits_mono [OF cleanup_wan_scoped]
      emits_mono [OF start_wan_scoped], simp)+ (intro emits_intros; simp)+

lemma wan_steady: "steady (wan_up E wan)" "steady (wan_down E wan)" "steady (wan_resume E wan)"
  unfolding wan_up_def wan_down_def wan_resume_def by (intro emits_intros injector_steady)+

lemma wf_cycle:
  "wf_trace (clock v) tr \<Longrightarrow> wp (loss_cycle E tr i) (\<lambda>tr' v'. wf_trace (clock v') tr') (\<lambda>_ _. True) v"
  unfolding loss_cycle_def
  by (rule wp_seq_then [OF wf_steady], rule injector_steady, assumption,
      rule wp_seq_then [OF wf_steady], rule injector_steady, assumption, rule wp_seq [OF wf_poll], assumption, simp,
      rule wp_seq_then [OF wf_steady], rule injector_steady, assumption, rule wf_poll) simp_all

lemma wf_layer:
  "wf_trace (clock v) tr \<Longrightarrow> wp (layer_phases E tr) (\<lambda>tr' v'. wf_trace (clock v') tr') (\<lambda>_ _. True) v"
  unfolding layer_phases_def
  by (rule wp_seq [OF wf_poll], assumption, simp, rule wp_seq_then [OF wf_steady], rule injector_steady, assumption,
      rule wp_seq_then [OF wf_steady], rule injector_steady, assumption, rule wp_seq [OF wf_mark], assumption,
      rule wp_seq [OF wf_poll], assumption, simp, rule wp_seq_then [OF wf_steady], rule injector_steady, assumption,
      rule wp_seq [OF wf_mark], assumption, rule wf_poll) simp_all

lemma wf_cycles:
  "wf_trace (clock v) tr \<Longrightarrow> wp (py_fold (loss_cycle E) tr is) (\<lambda>tr' v'. wf_trace (clock v') tr') (\<lambda>_ _. True) v"
  by (rule wp_fold [where I = "\<lambda>_ tr v. wf_trace (clock v) tr"]) (auto intro: wf_cycle)

lemma wf_churn:
  "wf_trace (clock v) tr \<Longrightarrow> wp (loss_phases E wan tr) (\<lambda>tr' v'. wf_trace (clock v') tr') (\<lambda>_ _. True) v"
  unfolding loss_phases_def
  by (rule wp_seq_then [OF wf_steady], rule wan_steady, assumption, rule wp_seq [OF wf_mark], assumption,
      rule wp_seq [OF wf_cycles], assumption, rule wp_seq [OF wf_mark], assumption,
      rule wp_seq_then [OF wf_steady], rule wan_steady, assumption, rule wf_poll) simp_all

lemma wf_heal:
  "wf_trace (clock v) tr \<Longrightarrow> wp (heal_phases E wan tr) (\<lambda>(b, tr') v'. wf_trace (clock v') tr') (\<lambda>_ _. True) v"
  unfolding heal_phases_def
  by (rule wp_seq_then [OF wf_steady], rule injector_steady, assumption, rule wp_seq [OF wf_mark], assumption,
      rule wp_seq_then [OF wf_steady], rule injector_steady, assumption, rule wp_seq [OF wf_mark], assumption,
      rule wp_seq [OF wf_poll], assumption, simp, rule wp_seq [OF wf_wait], assumption)
    (auto simp: wp_simps intro!: wf_steady [OF wan_steady(2)])

lemma wf_combined: "wp (trace_phases E wan) (\<lambda>(b, tr') v'. wf_trace (clock v') tr') (\<lambda>_ _. True) v"
  unfolding trace_phases_def wp_bind [of time_time] wp_time
  by (rule wp_seq_then [OF wf_steady], rule wan_steady, rule wf_new, rule wp_seq [OF wf_layer], assumption,
      rule wp_seq [OF wf_churn], assumption, rule wf_heal)
text \<open>Every validator has been sampled, and the log of transitions is exact.\<close>

definition trace_full :: "trace_tracker \<Rightarrow> bool" where
  "trace_full tr \<longleftrightarrow> validators \<subseteq> node ` set (tr_samples tr) \<and> exact_log (tr_changes tr) (tr_last tr) (tr_samples tr)"

lemma trace_set_phase [simp]: "tr_changes (set_phase p tr) = tr_changes tr" "tr_last (set_phase p tr) = tr_last tr"
  "tr_samples (set_phase p tr) = tr_samples tr"
  by (simp_all add: set_phase_def tr_changes_def tr_last_def fun_eq_iff)

lemma trace_poll_first:
  assumes "exact_log (tr_changes tr) (tr_last tr) (tr_samples tr)" "0 < s"
  shows "yields (trace_poll E s i p tr) trace_full"
  unfolding trace_poll_def
  by (rule yields_wp, rule wp_mono [OF wp_conj [OF trace_e9.exact_poll trace_e9.poll_covers]])
    (use assms in \<open>auto simp: trace_round_steps trace_full_def\<close>)

lemma trace_full_exact: "trace_full tr \<Longrightarrow> exact_log (tr_changes tr) (tr_last tr) (tr_samples tr)"
  by (simp add: trace_full_def)

lemma trace_full_prefix: "trace_full tr \<Longrightarrow> prefix (tr_samples tr) (tr_samples tr') \<Longrightarrow>
   exact_log (tr_changes tr') (tr_last tr') (tr_samples tr') \<Longrightarrow> trace_full tr'"
  unfolding trace_full_def by (meson image_mono order_trans set_mono_prefix)

lemma trace_poll_full: "trace_full tr \<Longrightarrow> yields (trace_poll E s i p tr) trace_full"
  unfolding trace_poll_def
  by (rule yields_wp, rule wp_mono [OF trace_e9.exact_poll])
    (auto simp: trace_round_steps dest: trace_full_exact intro: trace_full_prefix)

lemma trace_wait_full: "trace_full tr \<Longrightarrow> yields (trace_wait E t s p tr) (\<lambda>r. trace_full (snd r))"
  unfolding trace_wait_def
  by (rule yields_wp, rule wp_mono [OF trace_e9.exact_wait])
    (auto simp: trace_round_steps dest: trace_full_exact intro: trace_full_prefix)

lemma tr_markers_update [simp]:
  "tr_last (tr\<lparr>tr_markers := x\<rparr>) = tr_last tr" "tr_changes (tr\<lparr>tr_markers := x\<rparr>) = tr_changes tr"
  by (auto simp: tr_last_def tr_changes_def)

lemma mark_full: "trace_full tr \<Longrightarrow> yields (mark ev tr) trace_full"
  unfolding mark_def by (rule yields_effect, rule yields_return) (simp add: trace_full_def)

lemmas full_steps = yields_then yields_bind [OF trace_poll_full] yields_bind [OF mark_full] trace_poll_full

lemma layer_full:
  "exact_log (tr_changes tr) (tr_last tr) (tr_samples tr) \<Longrightarrow> yields (layer_phases E tr) trace_full"
  unfolding layer_phases_def
  by (rule yields_bind [OF trace_poll_first]) (auto intro!: full_steps)

lemma churn_full: "trace_full tr \<Longrightarrow> yields (loss_phases E wan tr) trace_full"
  unfolding loss_phases_def loss_cycle_def by (auto intro!: full_steps yields_bind [OF yields_fold [where P = trace_full]])

lemma heal_full: "trace_full tr \<Longrightarrow> yields (heal_phases E wan tr) (\<lambda>r. trace_full (snd r))"
  unfolding heal_phases_def by (auto intro!: full_steps yields_bind [OF trace_wait_full] yields_return)

lemma combined_full: "yields (trace_phases E wan) (\<lambda>r. trace_full (snd r))"
proof -
  have "exact_log (tr_changes (new_trace_tracker t)) (tr_last (new_trace_tracker t)) (tr_samples (new_trace_tracker t))" for t
    using exact_log_init by (simp add: new_trace_tracker_def tr_changes_def tr_last_def [abs_def] exact_log_def reported_def)
  then show ?thesis
    unfolding trace_phases_def
    by (intro yields_effect [of _ _ time_time] yields_then yields_bind [OF layer_full] yields_bind [OF churn_full] heal_full)
qed

lemma combined_report_steady: "steady (combined_report E wan reached tr)"
  unfolding combined_report_def collect_sensor_rows_def node_sensor_rows_def scrape_sensor_snapshots_def Let_def write_csv_def
  by (intro emits_intros) simp_all

lemma combined_report_tracker: "yields (combined_report E wan reached tr) (\<lambda>r. fst r = tr)"
  unfolding combined_report_def Let_def by (intro yields_effect yields_then yields_return) simp

text \<open>C26. What a completed combined trace has collected is well-formed: the times of the markers and of the transitions ascend
  from the start of the run to its end, every transition is between two different states of a validator in a named phase, the
  table of last states has one entry per validator at most and no empty state, all samples are of validators and every validator
  was sampled, and the transitions of each validator are exactly the adjacent changes of the states it reported.\<close>

theorem combined_trace_well_formed:
  assumes "combined_trace_main E wan w = Some (Inr (tr, rows), w')"
  shows "wf_trace (clock w') tr \<and> validators \<subseteq> node ` set (tr_samples tr) \<and>
    map snd (filter (\<lambda>c. fst c = n) (tr_changes tr)) = adjacent_changes (reported n (tr_samples tr))"
proof -
  have "wp (combined_report E wan b tr) (\<lambda>(tr', _) v'. wf_trace (clock v') tr') (\<lambda>_ _. True) v" if "wf_trace (clock v) tr" for b tr v
    using wp_conj [OF wf_steady [OF combined_report_steady that] wp_yields [OF combined_report_tracker]]
    by (rule wp_mono) auto
  then have "wp (combined_trace_main E wan) (\<lambda>(tr', _) v'. wf_trace (clock v') tr') (\<lambda>_ _. True) w"
    unfolding combined_trace_main_def wp_if by (auto simp: wp_raise intro!: wp_seq [OF wf_combined])
  from wp_Inr [OF assms this] have "wf_trace (clock w') tr" by simp
  moreover have "yields (combined_trace_main E wan) (\<lambda>r. trace_full (fst r))"
    unfolding combined_trace_main_def
    by (auto intro!: yields_raise yields_bind [OF combined_full] intro: yields_mono [OF combined_report_tracker])
  from yieldsD [OF this assms] have "trace_full tr" by simp
  ultimately show ?thesis by (auto simp: trace_full_def exact_log_def)
qed
section \<open>A run that completes\<close>

lemma trace_steps_total [total_intros]:
  "0 < i \<Longrightarrow> total (trace_poll E s i p tr)" "total (trace_wait E t s p tr)" "total (mark ev tr)"
  unfolding trace_poll_def trace_wait_def mark_def by (intro total_intros; assumption)+

lemma wan_total [total_intros]: "total (wan_up E wan)" "total (wan_down E wan)" "total (wan_resume E wan)"
  unfolding wan_up_def wan_down_def wan_resume_def by (intro total_intros)+

lemma trace_phases_total [total_intros]: "total (trace_phases E wan)"
  unfolding trace_phases_def layer_phases_def loss_phases_def heal_phases_def loss_cycle_def
  by (intro total_intros) simp_all

lemma combined_trace_total: "total (combined_trace_main E wan)"
  unfolding combined_trace_main_def combined_report_def collect_sensor_rows_def node_sensor_rows_def
    scrape_sensor_snapshots_def Let_def
  by (intro total_intros)

lemma trace_steps_quiet [quiet_intros]:
  "0 \<le> i \<Longrightarrow> quiet (trace_poll finished_env s i p tr)" "quiet (trace_wait finished_env t s p tr)" "quiet (mark ev tr)"
  unfolding trace_poll_def trace_wait_def mark_def by (intro quiet_intros; assumption)+

lemma btc_finished:
  "\<exists>w'. start_pumba_profile finished_env ''chaos-btc-delay'' 15 w = Some (Inr BTC_INJECTOR, w')"
  "\<exists>w'. cleanup_profile finished_env ''chaos-btc-delay'' w = Some (Inr (), w')"
  by (simp_all add: start_pumba_profile_def up_detached_known run_defs finished_docker_def poll_until_def py_while.simps
      started_check_def container_status_def status_of_def cleanup_profile_def dict_item_def PROFILE_TO_SERVICE_def
      PROFILE_TO_NETEM_TARGETS_def dict_get_def clear_netem_qdisc_def)

lemma quiet_value: "(\<And>w. \<exists>w'. m w = Some (Inr x, w')) \<Longrightarrow> quiet m"
  by (rule quietI) blast

lemma injector_quiet [quiet_intros]:
  "quiet (wait_for_no_active_netem finished_env 20)"
  "quiet (start_pumba_profile finished_env ''chaos-loss'' 15)" "quiet (cleanup_profile finished_env ''chaos-loss'')"
  "quiet (start_pumba_profile finished_env ''chaos-btc-delay'' 15)" "quiet (cleanup_profile finished_env ''chaos-btc-delay'')"
  using wait_finished [of 20]
  by (auto intro: quiet_value [OF start_finished] quiet_value [OF cleanup_finished] quiet_value [OF btc_finished(1)]
      quiet_value [OF btc_finished(2)] quiet_value)

lemma wan_quiet [quiet_intros]:
  "quiet (start_pumba_wan_profile finished_env ''chaos-wan-latency'' 15)"
  "quiet (cleanup_wan_profile finished_env ''chaos-wan-latency'')"
  by (rule quietI, simp add: start_pumba_wan_profile_def wan_started_check_def dict_item_def WAN_PROFILE_TO_SERVICES_def
      run_defs finished_docker_def poll_until_def py_while.simps container_status_def status_of_def
      cleanup_wan_profile_def WAN_PROFILE_TO_NETEM_TARGETS_def dict_get_def clear_netem_qdisc_def)+

lemma trace_phases_quiet: "quiet (trace_phases finished_env ''chaos-wan-latency'')"
  unfolding trace_phases_def layer_phases_def loss_phases_def heal_phases_def loss_cycle_def
    wan_up_def wan_down_def wan_resume_def
  by (intro quiet_intros) simp_all

lemma date_rows_returns: "ss \<noteq> [] \<Longrightarrow> \<exists>out. date_rows lo hi ss rows = Inr out"
proof -
  assume ss: "ss \<noteq> []"
  then obtain s ss' where "ss = s # ss'" by (cases ss) auto
  then have "rbind (nearest_timestamp (sn_height row) ss) (\<lambda>t. Inr (row, t)) =
      Inr (row, Some (timestamp (first_min (\<lambda>s. \<bar>height s - sn_height row\<bar>) s ss')))" for row
    by (simp add: nearest_timestamp_def)
  then show ?thesis unfolding date_rows_def by (intro exI, rule rmap_list_Inr)
qed

lemma collect_quiet:
  assumes "validators \<subseteq> node ` set ss"
  shows "quiet (collect_sensor_rows finished_env ss)"
proof -
  have "quiet (node_sensor_rows finished_env ss n)" if "n \<in> validators" for n
  proof -
    from assms that obtain s where "s \<in> set ss" "node s = n" by auto
    then obtain x xs where ns: "filter (\<lambda>s. node s = n) ss = x # xs" by (cases "filter (\<lambda>s. node s = n) ss") (auto simp: filter_empty_conv)
    have "\<exists>out. date_rows lo hi (x # xs) rows = Inr out" for lo hi rows by (rule date_rows_returns) simp
    then show ?thesis
      unfolding node_sensor_rows_def scrape_sensor_snapshots_def Let_def ns
      by (intro quiet_intros) (auto simp: finished_docker_def)
  qed
  then show ?thesis unfolding collect_sensor_rows_def by (intro quiet_intros)
qed

lemma combined_trace_runs: "\<exists>r w'. combined_trace_main finished_env ''chaos-wan-latency'' start_world = Some (Inr r, w')"
proof -
  have "wp (trace_phases finished_env ''chaos-wan-latency'') (\<lambda>r _. trace_full (snd r)) (\<lambda>_ _. False) w" for w
    using wp_conj [OF wp_yields [OF combined_full] quiet_wp [OF trace_phases_quiet]] by (rule wp_mono) auto
  moreover have "trace_full tr \<Longrightarrow> quiet (combined_report finished_env wan b tr)" for wan b tr
    unfolding combined_report_def Let_def write_csv_def trace_full_def by (intro quiet_intros collect_quiet) simp_all
  ultimately have "quiet (combined_trace_main finished_env ''chaos-wan-latency'')"
    unfolding quiet_def combined_trace_main_def WAN_CHOICES_def by (auto intro!: wp_seq)
  then show ?thesis using combined_trace_total by (rule quiet_returns)
qed


theorem combined_trace_faults_apart_witness:
  "\<exists>r w'. combined_trace_main finished_env ''chaos-wan-latency'' start_world = Some (r, w') \<and> faults_apart (log w')"
proof -
  obtain r w' where w: "combined_trace_main finished_env ''chaos-wan-latency'' start_world = Some (Inr r, w')"
    using combined_trace_runs by blast
  from combined_trace_faults_apart [OF w] w show ?thesis by auto
qed

theorem combined_trace_well_formed_witness:
  "\<exists>tr rows w'. combined_trace_main finished_env ''chaos-wan-latency'' start_world = Some (Inr (tr, rows), w') \<and>
     wf_trace (clock w') tr \<and> validators \<subseteq> node ` set (tr_samples tr)"
proof -
  obtain tr rows w' where w: "combined_trace_main finished_env ''chaos-wan-latency'' start_world = Some (Inr (tr, rows), w')"
    using combined_trace_runs by auto
  from combined_trace_well_formed [OF w] w show ?thesis by blast
qed

end
