(* ===== verification/Consensus_Overhead.thy ===== *)
theory Consensus_Overhead
  imports Attack_Runs "HOL-Library.List_Lexorder" "HOL-Library.Char_ord"
begin

text \<open>
  Two measurements of \<^verbatim>\<open>scripts/e7_consensus_overhead/\<close>: the share of nil votes of a validator that is cut off from the DA
  network (\<^verbatim>\<open>live_sensor_mismatch.py\<close>) and the size of the proposal marker in committed blocks (\<^verbatim>\<open>live_overhead_scan.py\<close>).

  Shown here: the ratios a run reports are those of the distinct heights its rows hold, phase by phase, and the validator is
  reconnected; a scan has one row per block it could read, in order of height, and its buckets by state partition the blocks with
  a marker.
\<close>

definition E7_RESULTS_DIR :: string where
  "E7_RESULTS_DIR = ''scripts/e7_consensus_overhead/results_live''"

section \<open>live_sensor_mismatch.py\<close>

definition MISMATCH_NODE :: string where "MISMATCH_NODE = ''engram-node04''"

definition TARGET_CELESTIA_IP :: string where "TARGET_CELESTIA_IP = ''172.22.0.130''"

definition isolate_da :: "env \<Rightarrow> unit py" where
  "isolate_da E = docker E [''network'', ''disconnect'', ''celestia-net'', MISMATCH_NODE]"

definition reconnect_da :: "env \<Rightarrow> unit py" where
  "reconnect_da E = docker E [''network'', ''connect'', ''--ip'', TARGET_CELESTIA_IP, ''celestia-net'', MISMATCH_NODE]"

text \<open>A row: time, phase and the reading, which is the committed height with the vote, or nothing.\<close>

type_synonym vote_row = "rat \<times> string \<times> (int \<times> json) option"

record vote_tracker =
  vt_start :: rat
  vt_target_address :: json
  vt_rows :: "vote_row list"
  vt_seen_heights :: "int list"

definition new_vote_tracker :: "rat \<Rightarrow> json \<Rightarrow> vote_tracker" where
  "new_vote_tracker t a = \<lparr>vt_start = t, vt_target_address = a, vt_rows = [], vt_seen_heights = []\<rparr>"

definition record_vote :: "rat \<Rightarrow> string \<Rightarrow> (int \<times> json) option \<Rightarrow> vote_tracker \<Rightarrow> vote_tracker" where
  "record_vote t phase r tr =
     tr\<lparr>vt_rows := vt_rows tr @ [(t, phase, r)],
        vt_seen_heights := (case r of None \<Rightarrow> vt_seen_heights tr | Some (h, _) \<Rightarrow> List.insert h (vt_seen_heights tr))\<rparr>"

definition vote_poll_once :: "env \<Rightarrow> string \<Rightarrow> vote_tracker \<Rightarrow> vote_tracker py" where
  "vote_poll_once E phase tr = py_bind (time_time) (\<lambda>now.
     py_bind (py_try (py_bind (dump_consensus_state E MISMATCH_NODE None) (\<lambda>dump.
            py_lift (own_precommit_status dump (vt_target_address tr)))) [Exception] (\<lambda>_. py_return None)) (\<lambda>r.
     py_return (record_vote (now - vt_start tr) phase r tr)))"

definition vote_poll_for :: "env \<Rightarrow> rat \<Rightarrow> rat \<Rightarrow> string \<Rightarrow> vote_tracker \<Rightarrow> vote_tracker py" where
  "vote_poll_for E seconds interval phase tr =
     py_bind time_time (\<lambda>t0.
     py_bind
       (py_while (\<lambda>_ w. clock w < t0 + seconds)
          (\<lambda>tr. py_bind (vote_poll_once E phase tr) (\<lambda>tr'.
                py_then (time_sleep E interval) (py_return (Continue tr')))) tr)
       loop_state)"

definition NIL_VOTE :: json where "NIL_VOTE = JStr ''nil-Vote''"

text \<open>The dictionary \<^verbatim>\<open>seen\<close>: the votes of a phase by height, the last one read wins.\<close>

definition phase_votes :: "vote_row list \<Rightarrow> string \<Rightarrow> (int, json) dict" where
  "phase_votes rows phase =
     fold (\<lambda>(t, p, r) d. case r of Some (h, v) \<Rightarrow> if p = phase then AList.update h v d else d | None \<Rightarrow> d) rows []"

definition nil_ratio :: "vote_row list \<Rightarrow> string \<Rightarrow> rat option" where
  "nil_ratio rows phase =
     (let seen = phase_votes rows phase in
      if seen = [] then None
      else Some (of_nat (length (filter (\<lambda>v. v = NIL_VOTE) (dict_values seen))) / of_nat (length seen)))"

text \<open>\<^verbatim>\<open>_HEIGHT_ROUND_RE.search\<close>: the leftmost place where the pattern matches; the second group as a number.\<close>

fun re_search :: "(string \<Rightarrow> 'a option) \<Rightarrow> string \<Rightarrow> 'a option" where
  "re_search m [] = m []"
| "re_search m (c # cs) = (case m (c # cs) of Some x \<Rightarrow> Some x | None \<Rightarrow> re_search m cs)"

definition height_round :: "string \<Rightarrow> int option" where
  "height_round s =
     Option.bind (group is_digit s) (\<lambda>(h, r1).
     Option.bind (lit ''/'' r1) (\<lambda>r2.
     Option.bind (group is_digit r2) (\<lambda>(rd, r3).
     map_option (\<lambda>_. int (digits_value rd)) (lit ''/'' r3))))"

text \<open>The round of one vote; \<^verbatim>\<open>search\<close> on a value that is not text raises.\<close>

definition vote_round :: "json \<Rightarrow> int option result" where
  "vote_round v =
     (if json_truthy v \<and> v \<noteq> NIL_VOTE
      then (case v of JStr s \<Rightarrow> Inr (re_search height_round s)
            | _ \<Rightarrow> Inl (Exn TypeError ''expected string or bytes-like object''))
      else Inr None)"

definition rounds_seen :: "vote_row list \<Rightarrow> string option \<Rightarrow> int list result" where
  "rounds_seen rows phase =
     rbind (rmap_list (\<lambda>(t, p, r). case r of
               Some (h, v) \<Rightarrow> if phase \<noteq> None \<and> phase \<noteq> Some [] \<and> phase \<noteq> Some p then Inr None else vote_round v
             | None \<Rightarrow> Inr None) rows)
       (\<lambda>rs. Inr (sort (remdups (List.map_filter id rs))))"

definition row_heights :: "vote_row list \<Rightarrow> int list" where
  "row_heights rows = List.map_filter (\<lambda>(t, p, r). map_option fst r) rows"

definition cluster_progressed :: "vote_row list \<Rightarrow> bool" where
  "cluster_progressed rows \<longleftrightarrow>
     2 \<le> length (row_heights rows) \<and> Min (set (row_heights rows)) < Max (set (row_heights rows))"

record mismatch_verdict =
  mv_baseline :: "rat option"
  mv_isolated :: "rat option"
  mv_recovery :: "rat option"
  mv_rounds :: "int list"
  mv_progressed :: bool

text \<open>\<^verbatim>\<open>f"{x}"\<close> for the values the summary shows.\<close>

definition show_ratio :: "env \<Rightarrow> rat option \<Rightarrow> string" where
  "show_ratio E r = (case r of None \<Rightarrow> ''None'' | Some q \<Rightarrow> repr_float E q)"

definition show_json :: "env \<Rightarrow> json \<Rightarrow> string" where
  "show_json E j = (if j = JNull then ''None'' else json_cell E j)"

definition show_int_list :: "int list \<Rightarrow> string" where
  "show_int_list xs = ''['' @ py_join '', '' (map py_str_int xs) @ '']''"

definition vote_row_cells :: "env \<Rightarrow> vote_row \<Rightarrow> string list" where
  "vote_row_cells E row = (case row of (t, phase, r) \<Rightarrow>
     [fmt_fixed 0 t, phase, (case r of None \<Rightarrow> ''None'' | Some (h, _) \<Rightarrow> py_str_int h),
      (case r of None \<Rightarrow> ''None'' | Some (_, v) \<Rightarrow> show_json E v)])"

definition MISMATCH_METHOD :: string where
  "MISMATCH_METHOD = ''**Method:** measured via `round_state.last_commit.votes[index]` -- the SETTLED ''
     @ ''precommit record for the block that just committed, not the in-progress round's ''
     @ ''live votes (which mostly show \"not yet received\" at this cluster's ~1s block ''
     @ ''time, an unusable signal, confirmed live this session). A validator that prevotes ''
     @ ''nil precommits nil too (nothing to lock onto), so this reliably reflects the same ''
     @ ''underlying REJECT event one voting step later. Ratio is over DISTINCT committed ''
     @ ''heights (deduped -- last_commit repeats across polls between blocks).'' @ NL @ NL"

definition mismatch_summary :: "env \<Rightarrow> rat \<Rightarrow> mismatch_verdict \<Rightarrow> vote_tracker \<Rightarrow> string" where
  "mismatch_summary E elapsed v tr =
     ''# LIVE nil-prevote under sensor mismatch (E7)'' @ NL @ NL
     @ ''Target: '' @ MISMATCH_NODE @ '' ('' @ show_json E (vt_target_address tr) @ ''), isolated from `celestia-net` only ''
     @ ''(`engram-net`/`bitcoin-net` untouched). Total duration: '' @ fmt_fixed 0 elapsed @ ''s.'' @ NL @ NL
     @ MISMATCH_METHOD
     @ ''## Verdict'' @ NL @ NL
     @ ''- Baseline nil-prevote ratio: '' @ show_ratio E (mv_baseline v) @ NL
     @ ''- Isolated nil-prevote ratio: '' @ show_ratio E (mv_isolated v) @ NL
     @ ''- Recovery nil-prevote ratio: '' @ show_ratio E (mv_recovery v) @ NL
     @ ''- Cluster kept committing throughout, no halt (3-of-4 quorum unaffected): **'' @ py_bool (mv_progressed v) @ ''**'' @ NL @ NL
     @ ''## Consensus rounds observed (E3's own still-open \"rounds/block\" promise, same poller)'' @ NL @ NL
     @ ''- Distinct commit-round numbers seen across the whole run: '' @ show_int_list (mv_rounds v) @ NL @ NL
     @ ''## Full timeline'' @ NL @ NL
     @ ''| t (s) | phase | committed_height | own_precommit |'' @ NL @ ''|---:|---|---:|---|'' @ NL
     @ concat (map (md_row \<circ> vote_row_cells E) (vt_rows tr))"

definition mismatch_phases :: "env \<Rightarrow> vote_tracker \<Rightarrow> vote_tracker py" where
  "mismatch_phases E tr = py_bind (vote_poll_for E 20 2 ''baseline'' tr) (\<lambda>tr1.
     py_then (isolate_da E)
     (py_bind (vote_poll_for E 60 2 ''isolated'' tr1) (\<lambda>tr2.
     py_then (reconnect_da E)
     (vote_poll_for E 30 2 ''recovery'' tr2))))"

definition mismatch_verdict_of :: "vote_row list \<Rightarrow> mismatch_verdict result" where
  "mismatch_verdict_of rows =
     rbind (rounds_seen rows None) (\<lambda>rounds.
     Inr \<lparr>mv_baseline = nil_ratio rows ''baseline'', mv_isolated = nil_ratio rows ''isolated'',
          mv_recovery = nil_ratio rows ''recovery'', mv_rounds = rounds, mv_progressed = cluster_progressed rows\<rparr>)"

definition sensor_mismatch_main :: "env \<Rightarrow> (mismatch_verdict \<times> vote_tracker) py" where
  "sensor_mismatch_main E = py_bind (own_validator_address E MISMATCH_NODE None) (\<lambda>target_address.
     py_bind (time_time) (\<lambda>t0.
     py_bind (mismatch_phases E (new_vote_tracker t0 target_address)) (\<lambda>tr.
     py_bind (py_lift (mismatch_verdict_of (vt_rows tr))) (\<lambda>v.
     py_bind (ts_label E) (\<lambda>label.
     py_bind (time_time) (\<lambda>now.
     py_then (write_file E (path_join E7_RESULTS_DIR (''sensor_mismatch_'' @ label @ ''_summary.md''))
       (mismatch_summary E (now - vt_start tr) v tr))
     (py_return (v, tr))))))))"

section \<open>What the reported ratios mean\<close>

text \<open>The votes read for a height in a phase, in order.\<close>

definition votes_at :: "vote_row list \<Rightarrow> string \<Rightarrow> int \<Rightarrow> json list" where
  "votes_at rows phase h =
     List.map_filter (\<lambda>(t, p, r). case r of Some (h', v) \<Rightarrow> if p = phase \<and> h' = h then Some v else None | None \<Rightarrow> None) rows"

definition heights_in :: "vote_row list \<Rightarrow> string \<Rightarrow> int set" where
  "heights_in rows phase = {h. votes_at rows phase h \<noteq> []}"

lemma votes_at_snoc:
  "votes_at (rows @ [(t, p, r)]) phase h =
     votes_at rows phase h @ (case r of Some (h', v) \<Rightarrow> if p = phase \<and> h' = h then [v] else [] | None \<Rightarrow> [])"
  by (auto simp: votes_at_def List.map_filter_def split: option.splits)

lemma phase_votes_snoc:
  "phase_votes (rows @ [(t, p, r)]) phase =
     (case r of Some (h, v) \<Rightarrow> if p = phase then AList.update h v (phase_votes rows phase) else phase_votes rows phase
      | None \<Rightarrow> phase_votes rows phase)"
  by (simp add: phase_votes_def split: option.splits)

lemma phase_votes_distinct: "distinct (map fst (phase_votes rows phase))"
proof (induction rows rule: rev_induct)
  case (snoc row rows)
  then show ?case by (cases row) (auto simp: phase_votes_snoc distinct_update split: option.splits)
qed (simp add: phase_votes_def)

lemma phase_votes_map:
  "map_of (phase_votes rows phase) h = (if votes_at rows phase h = [] then None else Some (last (votes_at rows phase h)))"
proof (induction rows rule: rev_induct)
  case (snoc row rows)
  then show ?case by (cases row) (auto simp: phase_votes_snoc votes_at_snoc update_conv' split: option.splits)
qed (simp add: phase_votes_def votes_at_def List.map_filter_def)

lemma alist_count:
  assumes "distinct (map fst d)"
  shows "length d = card {k. map_of d k \<noteq> None}" "length (filter P (map snd d)) = card {k. \<exists>v. map_of d k = Some v \<and> P v}"
proof -
  have keys: "{k. map_of d k \<noteq> None} = set (map fst d)" by (auto simp: map_of_eq_None_iff)
  then show "length d = card {k. map_of d k \<noteq> None}" using distinct_card [OF assms] by simp
  let ?f = "filter (\<lambda>x. P (snd x)) d"
  have "distinct (map fst ?f)" using assms by (rule distinct_map_filter)
  moreover have "set (map fst ?f) = {k. \<exists>v. map_of d k = Some v \<and> P v}"
    using assms by (force simp: map_of_eq_Some_iff)
  ultimately have "length ?f = card {k. \<exists>v. map_of d k = Some v \<and> P v}" using distinct_card by fastforce
  then show "length (filter P (map snd d)) = card {k. \<exists>v. map_of d k = Some v \<and> P v}"
    by (simp add: filter_map comp_def)
qed

lemma nil_ratio_spec:
  "nil_ratio rows phase =
     (if heights_in rows phase = {} then None
      else Some (of_nat (card {h \<in> heights_in rows phase. last (votes_at rows phase h) = NIL_VOTE}) / of_nat (card (heights_in rows phase))))"
proof -
  let ?d = "phase_votes rows phase"
  have d: "distinct (map fst ?d)" by (rule phase_votes_distinct)
  have m: "map_of ?d h = (if votes_at rows phase h = [] then None else Some (last (votes_at rows phase h)))" for h
    by (rule phase_votes_map)
  have all: "{k. map_of ?d k \<noteq> None} = heights_in rows phase" by (auto simp: m heights_in_def)
  have nils: "{k. \<exists>v. map_of ?d k = Some v \<and> v = NIL_VOTE} = {h \<in> heights_in rows phase. last (votes_at rows phase h) = NIL_VOTE}"
    by (auto simp: m heights_in_def)
  have "?d = [] \<longleftrightarrow> heights_in rows phase = {}"
    unfolding all [symmetric] by (auto simp: map_of_eq_None_iff)
  then show ?thesis
    using alist_count(1) [OF d, unfolded all] alist_count(2) [OF d, of "\<lambda>v. v = NIL_VOTE", unfolded nils]
    unfolding nil_ratio_def Let_def dict_values_def by simp
qed

lemma row_heights_set: "set (row_heights rows) = {h. \<exists>t p v. (t, p, Some (h, v)) \<in> set rows}"
  by (force simp: row_heights_def List.map_filter_def split: option.splits)

lemma cluster_progressed_spec:
  "cluster_progressed rows \<longleftrightarrow>
     (\<exists>t p h v t' p' h' v'. (t, p, Some (h, v)) \<in> set rows \<and> (t', p', Some (h', v')) \<in> set rows \<and> h < h')"
proof -
  let ?H = "set (row_heights rows)"
  have "cluster_progressed rows \<longleftrightarrow> (\<exists>h \<in> ?H. \<exists>h' \<in> ?H. h < h')"
  proof
    assume p: "cluster_progressed rows"
    then have "?H \<noteq> {}" by (auto simp: cluster_progressed_def)
    with p show "\<exists>h \<in> ?H. \<exists>h' \<in> ?H. h < h'"
      unfolding cluster_progressed_def by (meson List.finite_set Max_in Min_in)
  next
    assume "\<exists>h \<in> ?H. \<exists>h' \<in> ?H. h < h'"
    then obtain h h' where h: "h \<in> ?H" "h' \<in> ?H" "h < h'" by blast
    then have "Min ?H < Max ?H" by (meson List.finite_set Max_ge Min_le le_less_trans less_le_trans)
    moreover have "2 \<le> length (row_heights rows)"
      using h card_length [of "row_heights rows"] card_mono [of ?H "{h, h'}"] by auto
    ultimately show "cluster_progressed rows" by (simp add: cluster_progressed_def)
  qed
  then show ?thesis unfolding row_heights_set by blast
qed

lemma rmap_list_Inr_set: "rmap_list f xs = Inr ys \<Longrightarrow> set ys = {y. \<exists>x \<in> set xs. f x = Inr y}"
  by (induction xs arbitrary: ys) (auto simp: rbind_eq_Inr)

lemma vote_round_Some: "vote_round v = Inr (Some n) \<longleftrightarrow> (\<exists>s. v = JStr s \<and> s \<noteq> ''nil-Vote'' \<and> re_search height_round s = Some n)"
  by (auto simp: vote_round_def NIL_VOTE_def height_round_def group_def split: json.splits if_splits)

lemma rounds_seen_spec:
  assumes "rounds_seen rows None = Inr rs"
  shows "sorted rs \<and> distinct rs \<and>
    set rs = {n. \<exists>t p h s. (t, p, Some (h, JStr s)) \<in> set rows \<and> s \<noteq> ''nil-Vote'' \<and> re_search height_round s = Some n}"
proof -
  let ?f = "\<lambda>(t :: rat, p :: string, r). case r of Some (h :: int, v) \<Rightarrow> vote_round v | None \<Rightarrow> Inr None"
  from assms obtain ys where ys: "rmap_list ?f rows = Inr ys" "rs = sort (remdups (List.map_filter id ys))"
    by (auto simp: rounds_seen_def rbind_eq_Inr cong: option.case_cong)
  have "set rs = {n. Some n \<in> set ys}" unfolding ys(2) by (force simp: List.map_filter_def)
  also have "\<dots> = {n. \<exists>t p h v. (t, p, Some (h, v)) \<in> set rows \<and> vote_round v = Inr (Some n)}"
    unfolding rmap_list_Inr_set [OF ys(1)] by (force split: option.splits)
  also have "\<dots> = {n. \<exists>t p h s. (t, p, Some (h, JStr s)) \<in> set rows \<and> s \<noteq> ''nil-Vote'' \<and> re_search height_round s = Some n}"
    unfolding vote_round_Some by blast
  finally show ?thesis using ys(2) by simp
qed

section \<open>The run\<close>

lemma vote_poll_once_logs [logs_intros]: "logs command (vote_poll_once E ph tr) []"
  unfolding vote_poll_once_def dump_consensus_state_def rpc_get_def by (rule logs_emits, intro emits_intros) simp

lemma vote_poll_for_logs [logs_intros]: "logs command (vote_poll_for E s i ph tr) []"
  unfolding vote_poll_for_def loop_state_def vote_poll_once_def dump_consensus_state_def rpc_get_def
  by (rule logs_emits, intro emits_intros) simp_all

text \<open>A phase adds rows of that phase, at least one when it lasts.\<close>

definition added :: "string \<Rightarrow> vote_tracker \<Rightarrow> vote_tracker \<Rightarrow> bool" where
  "added ph tr tr' \<longleftrightarrow> (\<exists>new. vt_rows tr' = vt_rows tr @ new \<and> list_all (\<lambda>(t, p, r). p = ph) new \<and> new \<noteq> [])"

lemma vote_poll_once_adds: "yields (vote_poll_once E ph tr) (\<lambda>tr'. \<exists>t r. vt_rows tr' = vt_rows tr @ [(t, ph, r)])"
  unfolding vote_poll_once_def by (intro yields_effect yields_return) (auto simp: record_vote_def)

lemma vote_poll_for_adds:
  assumes "0 < s"
  shows "yields (vote_poll_for E s i ph tr) (added ph tr)"
proof (rule yields_wp)
  fix w :: world
  let ?I = "\<lambda>tr' v. added ph tr tr' \<or> (tr' = tr \<and> v = w)"
  show "wp (vote_poll_for E s i ph tr) (\<lambda>tr' _. added ph tr tr') (\<lambda>_ _. True) w"
    unfolding vote_poll_for_def wp_bind wp_time
  proof (rule wp_while [where I = ?I])
    fix tr1 v assume i: "?I tr1 v"
    have step: "added ph tr tr2" if "\<exists>t r. vt_rows tr2 = vt_rows tr1 @ [(t, ph, r)]" for tr2
      using i that by (auto simp: added_def)
    show "wp (py_bind (vote_poll_once E ph tr1) (\<lambda>tr'. py_then (time_sleep E i) (py_return (Continue tr'))))
      (\<lambda>k w'. case k of Continue s' \<Rightarrow> ?I s' w'
       | Leave x \<Rightarrow> wp (loop_state (Leave x)) (\<lambda>tr' _. added ph tr tr') (\<lambda>_ _. True) w') (\<lambda>_ _. True) v"
      unfolding wp_bind by (rule wp_mono [OF wp_yields [OF vote_poll_once_adds]]) (use step in \<open>auto simp: wp_simps\<close>)
  qed (use assms in \<open>auto simp: loop_state_def wp_simps\<close>)
qed

definition phases_of :: "vote_row list \<Rightarrow> string list" where
  "phases_of rows = map (\<lambda>(t, p, r). p) rows"

lemma added_phases: "added ph tr tr' \<Longrightarrow> \<exists>n > 0. phases_of (vt_rows tr') = phases_of (vt_rows tr) @ replicate n ph"
proof -
  assume "added ph tr tr'"
  then obtain new where new: "vt_rows tr' = vt_rows tr @ new" "list_all (\<lambda>(t, p, r). p = ph) new" "new \<noteq> []"
    by (auto simp: added_def)
  then have "map (\<lambda>(t, p, r). p) new = replicate (length new) ph"
    by (intro replicate_eqI) (auto simp: list_all_iff)
  with new show ?thesis by (intro exI [of _ "length new"]) (simp add: phases_of_def)
qed

lemma mismatch_phases_adds:
  assumes "vt_rows tr = []"
  shows "yields (mismatch_phases E tr) (\<lambda>tr'. \<exists>a b c. 0 < a \<and> 0 < b \<and> 0 < c \<and>
    phases_of (vt_rows tr') = replicate a ''baseline'' @ replicate b ''isolated'' @ replicate c ''recovery'')"
  unfolding mismatch_phases_def
proof (rule yields_bind [OF vote_poll_for_adds], simp, rule yields_then, rule yields_bind [OF vote_poll_for_adds], simp,
    rule yields_then, rule yields_mono [OF vote_poll_for_adds], simp)
  fix t1 t2 t3 assume a: "added ''baseline'' tr t1" "added ''isolated'' t1 t2" "added ''recovery'' t2 t3"
  have "phases_of (vt_rows tr) = []" using assms by (simp add: phases_of_def)
  with added_phases [OF a(1)] added_phases [OF a(2)] added_phases [OF a(3)] obtain x y z where "0 < x" "0 < y" "0 < z"
    "phases_of (vt_rows t3) = replicate x ''baseline'' @ replicate y ''isolated'' @ replicate z ''recovery''" by auto
  then show "\<exists>a b c. 0 < a \<and> 0 < b \<and> 0 < c \<and>
      phases_of (vt_rows t3) = replicate a ''baseline'' @ replicate b ''isolated'' @ replicate c ''recovery''" by blast
qed

text \<open>C27. A completed sensor-mismatch run has disconnected the validator from the DA network and connected it again with its
  static address, in this order and with no other command; its rows are those of the baseline, then of the isolation, then of the
  recovery, each phase with at least one; the nil ratio it reports for a phase is the number of distinct committed heights read in
  that phase whose last reading was a nil vote, divided by the number of distinct heights, and is absent exactly when no height was
  read; the cluster is reported to have progressed exactly if two rows show different heights; and the rounds are those found in the
  votes read.\<close>

theorem sensor_mismatch_verdict:
  assumes "sensor_mismatch_main E w = Some (Inr (v, tr), w')"
  shows "(\<exists>evs. log w' = log w @ evs \<and> trace command evs =
      [[''docker'', ''network'', ''disconnect'', ''celestia-net'', MISMATCH_NODE],
       [''docker'', ''network'', ''connect'', ''--ip'', TARGET_CELESTIA_IP, ''celestia-net'', MISMATCH_NODE]]) \<and>
    (\<exists>a b c. 0 < a \<and> 0 < b \<and> 0 < c \<and> phases_of (vt_rows tr) =
      replicate a ''baseline'' @ replicate b ''isolated'' @ replicate c ''recovery'') \<and>
    list_all (\<lambda>(ratio, phase). ratio =
        (if heights_in (vt_rows tr) phase = {} then None
         else Some (of_nat (card {h \<in> heights_in (vt_rows tr) phase. last (votes_at (vt_rows tr) phase h) = NIL_VOTE})
                    / of_nat (card (heights_in (vt_rows tr) phase)))))
      [(mv_baseline v, ''baseline''), (mv_isolated v, ''isolated''), (mv_recovery v, ''recovery'')] \<and>
    (mv_progressed v \<longleftrightarrow> (\<exists>t p h x t' p' h' x'. (t, p, Some (h, x)) \<in> set (vt_rows tr) \<and>
       (t', p', Some (h', x')) \<in> set (vt_rows tr) \<and> h < h')) \<and>
    set (mv_rounds v) = {n. \<exists>t p h s. (t, p, Some (h, JStr s)) \<in> set (vt_rows tr) \<and> s \<noteq> ''nil-Vote'' \<and>
       re_search height_round s = Some n}"
proof -
  let ?d = "[''docker'', ''network'', ''disconnect'', ''celestia-net'', MISMATCH_NODE]"
  let ?c = "[''docker'', ''network'', ''connect'', ''--ip'', TARGET_CELESTIA_IP, ''celestia-net'', MISMATCH_NODE]"
  have "logs command (mismatch_phases E tr) ([] @ [?d] @ [] @ [?c] @ [])" for tr
    unfolding mismatch_phases_def isolate_da_def reconnect_da_def by (intro logs_intros)
  moreover have "logs command (own_validator_address E n p) []" for n p
    unfolding own_validator_address_def rpc_get_def by (rule logs_emits, intro emits_intros) simp
  ultimately have "logs command (sensor_mismatch_main E) ([] @ [] @ ([] @ [?d] @ [] @ [?c] @ []) @ [] @ [] @ [] @ [] @ [])"
    unfolding sensor_mismatch_main_def by (intro logs_intros)
  from logsD [OF this assms] have 1: "\<exists>evs. log w' = log w @ evs \<and> trace command evs = [?d, ?c]" by simp
  let ?ph = "\<lambda>tr'. \<exists>a b c. 0 < a \<and> 0 < b \<and> 0 < c \<and>
    phases_of (vt_rows tr') = replicate a ''baseline'' @ replicate b ''isolated'' @ replicate c ''recovery''"
  have "yields (sensor_mismatch_main E) (\<lambda>(v, tr). ?ph tr \<and> mismatch_verdict_of (vt_rows tr) = Inr v)"
    unfolding sensor_mismatch_main_def
    by (rule yields_effect, rule yields_effect, rule yields_bind [OF mismatch_phases_adds],
        simp add: new_vote_tracker_def, rule yields_bind [OF yields_lift], intro yields_effect yields_then yields_return) simp
  from yieldsD [OF this assms] have 2: "?ph tr" "mismatch_verdict_of (vt_rows tr) = Inr v" by simp_all
  then have 3: "mv_baseline v = nil_ratio (vt_rows tr) ''baseline''" "mv_isolated v = nil_ratio (vt_rows tr) ''isolated''"
    "mv_recovery v = nil_ratio (vt_rows tr) ''recovery''" "mv_progressed v = cluster_progressed (vt_rows tr)"
    "rounds_seen (vt_rows tr) None = Inr (mv_rounds v)"
    by (auto simp: mismatch_verdict_of_def rbind_eq_Inr)
  show ?thesis
    using 1 2(1) rounds_seen_spec [OF 3(5)] by (simp add: 3(1-4) nil_ratio_spec cluster_progressed_spec)
qed

text \<open>A cluster whose target validator votes nil at height 41.\<close>

definition nil_dump :: json where
  "nil_dump = JObj [(''result'', JObj [(''round_state'', JObj
     [(''height'', JInt 42), (''validators'', JObj [(''validators'', JArr [JObj [(''address'', JStr ''AA'')]])]),
      (''last_commit'', JObj [(''votes'', JArr [NIL_VOTE])])])])]"

definition nil_http :: "int \<Rightarrow> string \<Rightarrow> json result" where
  "nil_http port path =
     (if path = ''/status'' then Inr (JObj [(''result'', JObj [(''validator_info'', JObj [(''address'', JStr ''AA'')])])])
      else Inr nil_dump)"

abbreviation nil_env :: env where "nil_env \<equiv> static_env nil_http finished_docker"

lemma nil_status: "own_precommit_status nil_dump (JStr ''AA'') = Inr (Some (41, NIL_VOTE))"
  by (simp add: own_precommit_status_def nil_dump_def dict_item_def dict_get_def NIL_VOTE_def)

definition all_nil :: "vote_tracker \<Rightarrow> bool" where
  "all_nil tr \<longleftrightarrow> vt_target_address tr = JStr ''AA'' \<and> list_all (\<lambda>(t, p, r). r = Some (41, NIL_VOTE)) (vt_rows tr)"

lemma nil_poll_once:
  "all_nil tr \<Longrightarrow> wp (vote_poll_once nil_env ph tr) (\<lambda>tr' w'. all_nil tr' \<and> clock w' = clock w) (\<lambda>_ _. False) w"
  by (simp add: vote_poll_once_def dump_consensus_state_def resolve_port_def dict_item_def NODE_RPC_PORTS_def MISMATCH_NODE_def
      rpc_get_def wp_simps nil_http_def nil_status all_nil_def record_vote_def emit_def)

lemma nil_poll_for: "all_nil tr \<Longrightarrow> 0 \<le> i \<Longrightarrow> wp (vote_poll_for nil_env s i ph tr) (\<lambda>tr' _. all_nil tr') (\<lambda>_ _. False) w"
  unfolding vote_poll_for_def wp_bind wp_time
  by (rule wp_while [where I = "\<lambda>tr _. all_nil tr"])
    (auto simp: loop_state_def wp_simps intro!: wp_mono [OF nil_poll_once])

lemma vote_poll_total [total_intros]:
  assumes "0 < i"
  shows "total (vote_poll_for E s i ph tr)"
proof -
  have once: "total (vote_poll_once E ph tr)" "steady (vote_poll_once E ph tr)" for tr
    unfolding vote_poll_once_def dump_consensus_state_def rpc_get_def by (intro total_intros emits_intros; simp)+
  show ?thesis
    unfolding vote_poll_for_def
  proof (intro total_intros deadline_while_total [where \<delta> = i] assms once)
    fix tr :: vote_tracker and w
    show "wp (py_bind (vote_poll_once E ph tr) (\<lambda>tr'. py_then (time_sleep E i) (py_return (Continue tr'))))
      (\<lambda>k w'. case k of Continue _ \<Rightarrow> clock w + i \<le> clock w' | Leave (_ :: unit) \<Rightarrow> True) (\<lambda>_ _. True) w"
      unfolding wp_bind using assms
      by (intro wp_mono [OF wp_emits [OF once(2)]]) (auto simp: wp_simps emit_def dest: grows_clock)
  qed
qed

lemma sensor_mismatch_total: "total (sensor_mismatch_main E)"
  unfolding sensor_mismatch_main_def mismatch_phases_def own_validator_address_def rpc_get_def isolate_da_def reconnect_da_def
  by (intro total_intros) simp_all

lemma all_nil_rounds: "all_nil tr \<Longrightarrow> rounds_seen (vt_rows tr) None = Inr []"
proof -
  assume a: "all_nil tr"
  have "rmap_list (\<lambda>(t, p, r). case r of Some (h, v) \<Rightarrow> vote_round v | None \<Rightarrow> Inr None) (vt_rows tr) = Inr (map (\<lambda>_. None) (vt_rows tr))"
    by (rule rmap_list_Inr) (use a in \<open>auto simp: all_nil_def list_all_iff vote_round_def NIL_VOTE_def split: option.splits\<close>)
  then show ?thesis by (simp add: rounds_seen_def List.map_filter_def filter_empty_conv cong: option.case_cong)
qed

lemma nil_run:
  "\<exists>v tr w'. sensor_mismatch_main nil_env start_world = Some (Inr (v, tr), w') \<and> all_nil tr"
proof -
  have d: "quiet (isolate_da nil_env)" "quiet (reconnect_da nil_env)"
    unfolding isolate_da_def reconnect_da_def docker_def by (intro quiet_intros, simp add: finished_docker_def)+
  have "wp (mismatch_phases nil_env tr) (\<lambda>tr' _. all_nil tr') (\<lambda>_ _. False) w" if "all_nil tr" for tr w
    unfolding mismatch_phases_def wp_bind wp_then
    using that by (auto intro!: wp_mono [OF nil_poll_for] wp_mono [OF quiet_wp [OF d(1)]] wp_mono [OF quiet_wp [OF d(2)]])
  then have ph: "wp (mismatch_phases nil_env (new_vote_tracker t (JStr ''AA''))) (\<lambda>tr' _. all_nil tr') (\<lambda>_ _. False) w" for t w
    by (simp add: all_nil_def new_vote_tracker_def)
  have verdict: "\<exists>v. mismatch_verdict_of (vt_rows tr) = Inr v" if "all_nil tr" for tr
    using that by (simp add: mismatch_verdict_of_def all_nil_rounds)
  have "wp (sensor_mismatch_main nil_env) (\<lambda>(v, tr) _. all_nil tr) (\<lambda>_ _. False) start_world"
    unfolding sensor_mismatch_main_def own_validator_address_def wp_bind [of "py_bind _ _"]
    using verdict
    by (auto simp: wp_simps resolve_port_def dict_item_def NODE_RPC_PORTS_def MISMATCH_NODE_def rpc_get_def nil_http_def
        intro!: wp_mono [OF ph] split: sum.splits) fastforce
  from wp_total [OF this sensor_mismatch_total] show ?thesis by auto
qed

lemma nil_votes:
  "list_all (\<lambda>(t, p, r). r = Some (41, NIL_VOTE)) rows \<Longrightarrow> set (votes_at rows ph h) \<subseteq> (if h = 41 then {NIL_VOTE} else {})"
proof (induction rows rule: rev_induct)
  case (snoc row rows)
  then show ?case by (cases row) (auto simp: votes_at_snoc split: if_splits)
qed (simp add: votes_at_def List.map_filter_def)

theorem sensor_mismatch_verdict_witness:
  "\<exists>v tr w'. sensor_mismatch_main nil_env start_world = Some (Inr (v, tr), w') \<and> mv_isolated v = Some 1 \<and> \<not> mv_progressed v"
proof -
  obtain v tr w' where w: "sensor_mismatch_main nil_env start_world = Some (Inr (v, tr), w')" and nil: "all_nil tr"
    using nil_run by blast
  note verdict = sensor_mismatch_verdict [OF w]
  then obtain a b c where "0 < b" and ph: "phases_of (vt_rows tr) =
      replicate a ''baseline'' @ replicate b ''isolated'' @ replicate c ''recovery''" by blast
  then have "''isolated'' \<in> set (phases_of (vt_rows tr))" by simp
  then obtain t r where "(t, ''isolated'', r) \<in> set (vt_rows tr)" by (auto simp: phases_of_def)
  with nil have "(t, ''isolated'', Some (41, NIL_VOTE)) \<in> set (vt_rows tr)" by (auto simp: all_nil_def list_all_iff)
  then have some: "votes_at (vt_rows tr) ''isolated'' 41 \<noteq> []"
    unfolding votes_at_def List.map_filter_def
    by (auto simp: filter_empty_conv intro!: bexI [of _ "(t, ''isolated'', Some (41, NIL_VOTE))"])
  have only: "h = 41 \<and> set (votes_at (vt_rows tr) ''isolated'' h) \<subseteq> {NIL_VOTE}"
    if "votes_at (vt_rows tr) ''isolated'' h \<noteq> []" for h
  proof -
    have sub: "set (votes_at (vt_rows tr) ''isolated'' h) \<subseteq> (if h = 41 then {NIL_VOTE} else {})"
      using nil by (intro nil_votes) (simp add: all_nil_def)
    moreover have "set (votes_at (vt_rows tr) ''isolated'' h) \<noteq> {}" using that by simp
    ultimately show ?thesis by (cases "h = 41") auto
  qed
  have "heights_in (vt_rows tr) ''isolated'' = {41}" unfolding heights_in_def using some only by blast
  moreover have "last (votes_at (vt_rows tr) ''isolated'' 41) = NIL_VOTE" using only [OF some] last_in_set [OF some] by blast
  ultimately have "heights_in (vt_rows tr) ''isolated'' = {41}"
    "{h \<in> heights_in (vt_rows tr) ''isolated''. last (votes_at (vt_rows tr) ''isolated'' h) = NIL_VOTE} = {41}" by auto
  moreover have "\<not> (\<exists>t p h x t' p' h' x'. (t, p, Some (h, x)) \<in> set (vt_rows tr) \<and> (t', p', Some (h', x')) \<in> set (vt_rows tr) \<and> h < h')"
  proof
    assume "\<exists>t p h x t' p' h' x'. (t, p, Some (h, x)) \<in> set (vt_rows tr) \<and> (t', p', Some (h', x')) \<in> set (vt_rows tr) \<and> h < h'"
    then obtain t p h x t' p' h' x' where rows: "(t, p, Some (h, x)) \<in> set (vt_rows tr)" "(t', p', Some (h', x')) \<in> set (vt_rows tr)"
      and less: "h < h'" by blast
    have all: "\<forall>row \<in> set (vt_rows tr). case row of (t, p, r) \<Rightarrow> r = Some (41, NIL_VOTE)"
      using nil by (simp add: all_nil_def list_all_iff)
    have "h = 41" "h' = 41" using bspec [OF all rows(1)] bspec [OF all rows(2)] by simp_all
    with less show False by simp
  qed
  ultimately have "mv_isolated v = Some 1" "\<not> mv_progressed v" using verdict by simp_all
  with w show ?thesis by blast
qed

section \<open>live_overhead_scan.py\<close>

definition MARKER :: "byte list" where
  "MARKER = bytes_of ''ENGRAM_EXTENDED_PROPOSAL_V1|''"

definition RECOVERY_PROOF_SIZE_HEURISTIC_BYTES :: nat where
  "RECOVERY_PROOF_SIZE_HEURISTIC_BYTES = 5000"

text \<open>Nested subscripts \<^verbatim>\<open>d["a"]["b"]...\<close>\<close>

definition json_path :: "json \<Rightarrow> string list \<Rightarrow> json result" where
  "json_path j ks = foldl (\<lambda>r k. rbind r (\<lambda>x. json_item x k)) (Inr j) ks"

definition block_txs :: "env \<Rightarrow> int \<Rightarrow> int \<Rightarrow> (json \<times> json) py" where
  "block_txs E port h = py_bind (rpc_get E port (''/block?height='' @ py_str_int h)) (\<lambda>d.
     py_bind (py_lift (json_path d [''result'', ''block'', ''data'', ''txs''])) (\<lambda>txs.
     py_bind (py_lift (json_path d [''result'', ''block'', ''header'', ''time''])) (\<lambda>t.
     py_return (txs, t))))"

text \<open>\<^verbatim>\<open>json.loads\<close> on bytes, which are UTF-8 here; a failure to decode or to parse gives \<^verbatim>\<open>None\<close>.\<close>

definition decode_extended_proposal_json :: "byte list \<Rightarrow> json option" where
  "decode_extended_proposal_json raw0 =
     (case rbind (utf8_decode (drop (length MARKER) raw0)) json_loads of Inl e \<Rightarrow> None | Inr j \<Rightarrow> Some j)"

text \<open>\<^verbatim>\<open>len(txs)\<close>, \<^verbatim>\<open>txs[1:]\<close> and \<^verbatim>\<open>txs[0]\<close>: a list, or text taken character by character; anything else raises.\<close>

fun json_seq :: "json \<Rightarrow> json list result" where
  "json_seq (JArr xs) = Inr xs"
| "json_seq (JStr s) = Inr (map (\<lambda>c. JStr [c]) s)"
| "json_seq (JObj []) = Inr []"
| "json_seq (JObj [kv]) = Inl (Exn KeyError ''0'')"
| "json_seq (JObj d) = Inl (Exn TypeError ''unhashable type: slice'')"
| "json_seq j = Inl (Exn TypeError ''object has no len()'')"

fun json_b64 :: "json \<Rightarrow> byte list result" where
  "json_b64 (JStr s) = b64decode s"
| "json_b64 j = Inl (Exn TypeError ''argument should be a bytes-like object or ASCII string'')"

record overhead_row =
  ov_height :: int
  ov_block_time :: json
  ov_num_txs :: nat
  ov_marker_present :: bool
  ov_extended_proposal_bytes :: nat
  ov_fsm_state :: json
  ov_zk_proof_ref_present :: bool
  ov_other_tx_bytes :: nat
  ov_likely_recovery_proof_tx :: bool

text \<open>The first transaction: is the marker there, its size, the state and whether a proof is referenced.\<close>

definition marker_of :: "json list \<Rightarrow> (bool \<times> nat \<times> json \<times> bool) result" where
  "marker_of txs =
     (case txs of [] \<Rightarrow> Inr (False, 0, JStr [], False)
      | tx0 # _ \<Rightarrow>
          rbind (json_b64 tx0) (\<lambda>raw0.
          if \<not> prefix MARKER raw0 then Inr (False, 0, JStr [], False)
          else (case decode_extended_proposal_json raw0 of
                  None \<Rightarrow> Inr (True, length raw0, JStr [], False)
                | Some ext \<Rightarrow>
                    if \<not> json_truthy ext then Inr (True, length raw0, JStr [], False)
                    else rbind (json_get ext ''fsm_state'' (JStr [])) (\<lambda>st.
                         rbind (json_get ext ''zk_proof_ref'' JNull) (\<lambda>zk.
                         Inr (True, length raw0, st, json_truthy zk))))))"

definition scan_block :: "int \<Rightarrow> json \<Rightarrow> json \<Rightarrow> overhead_row result" where
  "scan_block h txs_json t =
     rbind (json_seq txs_json) (\<lambda>txs.
     rbind (rmap_list json_b64 (tl txs)) (\<lambda>others.
     rbind (marker_of txs) (\<lambda>(present, bytes, st, zk).
     let other = sum_list (map length others) in
     Inr \<lparr>ov_height = h, ov_block_time = t, ov_num_txs = length txs, ov_marker_present = present,
          ov_extended_proposal_bytes = bytes, ov_fsm_state = st, ov_zk_proof_ref_present = zk, ov_other_tx_bytes = other,
          ov_likely_recovery_proof_tx = (RECOVERY_PROOF_SIZE_HEURISTIC_BYTES \<le> other)\<rparr>)))"

text \<open>The body of the loop over the heights: a block that cannot be read is skipped.\<close>

definition scan_height :: "env \<Rightarrow> int \<Rightarrow> overhead_row list \<Rightarrow> int \<Rightarrow> overhead_row list py" where
  "scan_height E port rows h = py_bind (py_try (py_bind (block_txs E port h) (\<lambda>x. py_return (Some x))) [Exception] (\<lambda>_. py_return None)) (\<lambda>r.
     (case r of None \<Rightarrow> py_return rows
      | Some (txs, t) \<Rightarrow> py_bind (py_lift (scan_block h txs t)) (\<lambda>row. py_return (rows @ [row]))))"

definition OVERHEAD_FIELDS :: "string list" where
  "OVERHEAD_FIELDS = [''height'', ''block_time'', ''num_txs'', ''marker_present'', ''extended_proposal_bytes'', ''fsm_state'',
     ''zk_proof_ref_present'', ''other_tx_bytes'', ''likely_recovery_proof_tx'']"

definition overhead_cells :: "env \<Rightarrow> overhead_row \<Rightarrow> string list" where
  "overhead_cells E r = [py_str_int (ov_height r), json_cell E (ov_block_time r), show_nat (ov_num_txs r),
     py_bool (ov_marker_present r), show_nat (ov_extended_proposal_bytes r), json_cell E (ov_fsm_state r),
     py_bool (ov_zk_proof_ref_present r), show_nat (ov_other_tx_bytes r), py_bool (ov_likely_recovery_proof_tx r)]"

definition overhead_csv :: "env \<Rightarrow> overhead_row list \<Rightarrow> string" where
  "overhead_csv E rows =
     csv_row (if rows = [] then [] else OVERHEAD_FIELDS) @ concat (map (csv_row \<circ> overhead_cells E) rows)"

text \<open>\<^verbatim>\<open>r["fsm_state"] or "(unknown)"\<close> as a key. A list or an object cannot be a key; numbers and truth values are the same key
  if they are equal as numbers.\<close>

fun json_num :: "json \<Rightarrow> rat option" where
  "json_num (JBool b) = Some (if b then 1 else 0)"
| "json_num (JInt i) = Some (of_int i)"
| "json_num (JFloat f) = Some f"
| "json_num j = None"

definition json_eq :: "json \<Rightarrow> json \<Rightarrow> bool" where
  "json_eq a b \<longleftrightarrow> (case json_num a of Some x \<Rightarrow> json_num b = Some x | None \<Rightarrow> a = b)"

definition state_or_unknown :: "overhead_row \<Rightarrow> json" where
  "state_or_unknown r = (if json_truthy (ov_fsm_state r) then ov_fsm_state r else JStr ''(unknown)'')"

definition bucket_key :: "overhead_row \<Rightarrow> json result" where
  "bucket_key r = (case state_or_unknown r of
       JArr xs \<Rightarrow> Inl (Exn TypeError ''unhashable type: list'')
     | JObj d \<Rightarrow> Inl (Exn TypeError ''unhashable type: dict'')
     | k \<Rightarrow> Inr k)"

text \<open>\<^verbatim>\<open>by_state.setdefault(st, []).append(n)\<close>\<close>

fun bucket_append :: "json \<Rightarrow> nat \<Rightarrow> (json, nat list) dict \<Rightarrow> (json, nat list) dict" where
  "bucket_append k n [] = [(k, [n])]"
| "bucket_append k n ((k', ns) # d) = (if json_eq k' k then (k', ns @ [n]) # d else (k', ns) # bucket_append k n d)"

definition present_rows :: "overhead_row list \<Rightarrow> overhead_row list" where
  "present_rows rows = filter ov_marker_present rows"

fun by_state :: "(json, nat list) dict \<Rightarrow> overhead_row list \<Rightarrow> (json, nat list) dict result" where
  "by_state d [] = Inr d"
| "by_state d (r # rs) = rbind (bucket_key r) (\<lambda>k. by_state (bucket_append k (ov_extended_proposal_bytes r) d) rs)"

text \<open>\<^verbatim>\<open>sorted(by_state.items())\<close>: the keys are different, so the sizes are never compared; keys of different types are not
  ordered.\<close>

definition sorted_buckets :: "(json, nat list) dict \<Rightarrow> (json, nat list) dict result" where
  "sorted_buckets d =
     (if length d \<le> 1 then Inr d
      else if list_all (\<lambda>(k, ns). case k of JStr s \<Rightarrow> True | _ \<Rightarrow> False) d then Inr (sort_key (\<lambda>(k, ns). case k of JStr s \<Rightarrow> s | _ \<Rightarrow> []) d)
      else if list_all (\<lambda>(k, ns). json_num k \<noteq> None) d then Inr (sort_key (\<lambda>(k, ns). the (json_num k)) d)
      else Inl (Exn TypeError ''not supported between these instances''))"

definition marker_coverage :: "overhead_row list \<Rightarrow> rat" where
  "marker_coverage rows = (if rows = [] then 0 else of_nat (length (present_rows rows)) / of_nat (length rows) * 100)"

definition recovery_blocks :: "overhead_row list \<Rightarrow> overhead_row list" where
  "recovery_blocks rows = filter ov_likely_recovery_proof_tx rows"

text \<open>The parts of \<^verbatim>\<open>table4_live_overhead.md\<close>, in order.\<close>

definition overhead_intro :: "int \<Rightarrow> int \<Rightarrow> int \<Rightarrow> overhead_row list \<Rightarrow> string" where
  "overhead_intro port start tip rows =
     ''# E7 LIVE -- Consensus Overhead, split by regime (real 4-node testnet)'' @ NL @ NL
     @ ''Scanned real heights '' @ py_str_int start @ ''..'' @ py_str_int tip @ '' on engram-node01 (port '' @ py_str_int port @ '').'' @ NL @ NL
     @ ''- Blocks scanned: '' @ show_nat (length rows) @ NL
     @ ''- Blocks with real `ENGRAM_EXTENDED_PROPOSAL_V1` marker in Txs[0]: '' @ show_nat (length (present_rows rows))
     @ '' ('' @ fmt_fixed 1 (marker_coverage rows) @ ''%)'' @ NL @ NL
     @ ''## Steady-state tax (per-block, paid always, bucketed by real fsm_state)'' @ NL @ NL"

definition BUCKET_HEADER :: string where
  "BUCKET_HEADER = ''| fsm_state | Blocks | Avg ExtendedProposal bytes |'' @ NL @ ''|---|---:|---:|'' @ NL"

definition bucket_cells :: "env \<Rightarrow> json \<times> nat list \<Rightarrow> string list" where
  "bucket_cells E b = (case b of (st, sizes) \<Rightarrow>
     [show_json E st, show_nat (length sizes), fmt_fixed 1 (of_nat (sum_list sizes) / of_nat (length sizes))])"

definition bucket_table :: "env \<Rightarrow> (json, nat list) dict \<Rightarrow> string" where
  "bucket_table E d = BUCKET_HEADER @ concat (map (md_row \<circ> bucket_cells E) d)"

definition recovery_section :: "env \<Rightarrow> int \<Rightarrow> int \<Rightarrow> overhead_row list \<Rightarrow> string" where
  "recovery_section E start tip rows =
     ''## Recovery-event cost (heuristic: blocks with unusually large non-marker tx content)'' @ NL @ NL
     @ ''Heuristic threshold: other_tx_bytes >= '' @ show_nat RECOVERY_PROOF_SIZE_HEURISTIC_BYTES @ '' bytes ''
     @ ''(real UltraHonk proof measured at ~14,656 B in E6's table6b_scaling.csv; this is a ''
     @ ''byte-size heuristic, NOT real protobuf type decoding -- no Python codegen dependency ''
     @ ''available, flagged as such rather than presented as exact classification).'' @ NL @ NL
     @ (if recovery_blocks rows \<noteq> [] then
          ''| Height | fsm_state | other_tx_bytes | zk_proof_ref_present |'' @ NL @ ''|---:|---|---:|---|'' @ NL
          @ concat (map (\<lambda>r. md_row [py_str_int (ov_height r), show_json E (ov_fsm_state r), show_nat (ov_other_tx_bytes r),
                                     py_bool (ov_zk_proof_ref_present r)]) (recovery_blocks rows))
        else ''No blocks matched the heuristic in this scan window (heights '' @ py_str_int start @ ''..'' @ py_str_int tip @ '') -- ''
          @ ''this scan likely never passed through a real RECOVERING proof-submission cycle. ''
          @ ''Re-run after driving the cluster through one (e.g. live_lifecycle_test.py's ''
          @ ''phase 7, or live_scenario_matrix.py's S7 phase) to capture a real sample.'' @ NL)
     @ NL"

definition detail_section :: "env \<Rightarrow> overhead_row list \<Rightarrow> string" where
  "detail_section E rows =
     ''## Full per-block detail'' @ NL @ NL
     @ ''| Height | Txs | fsm_state | ExtendedProposal bytes | Other tx bytes | Likely recovery-proof tx |'' @ NL
     @ ''|---:|---:|---|---:|---:|---|'' @ NL
     @ concat (map (\<lambda>r. md_row [py_str_int (ov_height r), show_nat (ov_num_txs r), show_json E (ov_fsm_state r),
            show_nat (ov_extended_proposal_bytes r), show_nat (ov_other_tx_bytes r),
            if ov_likely_recovery_proof_tx r then ''yes'' else ''no'']) rows)"

text \<open>The file is written piece by piece: if the keys cannot be sorted, what was written so far is in it.\<close>

definition write_overhead_md :: "env \<Rightarrow> int \<Rightarrow> int \<Rightarrow> int \<Rightarrow> overhead_row list \<Rightarrow> (json, nat list) dict \<Rightarrow> unit py" where
  "write_overhead_md E port start tip rows d =
     (let path = path_join E7_RESULTS_DIR ''table4_live_overhead.md'';
          rest = NL @ recovery_section E start tip rows @ detail_section E rows in
      if d = [] then
        write_file E path (overhead_intro port start tip rows @ ''(no blocks with a decodable marker in this scan window)'' @ NL @ rest)
      else (case sorted_buckets d of
          Inl e \<Rightarrow> py_then (write_file E path (overhead_intro port start tip rows @ BUCKET_HEADER)) (py_raise e)
        | Inr d' \<Rightarrow> write_file E path (overhead_intro port start tip rows @ bucket_table E d' @ rest)))"

record overhead_scan =
  os_start :: int
  os_tip :: int
  os_rows :: "overhead_row list"
  os_by_state :: "(json, nat list) dict"

definition overhead_scan_main :: "env \<Rightarrow> int \<Rightarrow> int \<Rightarrow> overhead_scan py" where
  "overhead_scan_main E port last_n = py_bind (rpc_get E port ''/status'') (\<lambda>status.
     py_bind (py_lift (rbind (json_path status [''result'', ''sync_info'', ''latest_block_height'']) json_int)) (\<lambda>tip.
     py_bind (py_fold (scan_height E port) [] [max 1 (tip - last_n + 1) .. tip]) (\<lambda>rows.
     py_then (write_file E (path_join E7_RESULTS_DIR ''table4_live_overhead.csv'') (overhead_csv E rows))
     (py_bind (py_lift (by_state [] (present_rows rows))) (\<lambda>d.
     py_then (write_overhead_md E port (max 1 (tip - last_n + 1)) tip rows d)
     (py_return \<lparr>os_start = max 1 (tip - last_n + 1), os_tip = tip, os_rows = rows, os_by_state = d\<rparr>))))))"

section \<open>What a scan holds\<close>

text \<open>The requests for blocks and their answers.\<close>

fun rpc_answer :: "event \<Rightarrow> (string \<times> json result) list" where
  "rpc_answer (RpcGet port path r) = [(path, r)]"
| "rpc_answer ev = []"

definition block_path :: "int \<Rightarrow> string" where
  "block_path h = ''/block?height='' @ py_str_int h"

text \<open>What the scan makes of the answer to the request for one block: nothing if the answer cannot be read.\<close>

definition block_row :: "int \<Rightarrow> json result \<Rightarrow> overhead_row list result" where
  "block_row h reply =
     (case rbind reply (\<lambda>d. rbind (json_path d [''result'', ''block'', ''data'', ''txs'']) (\<lambda>txs.
           rbind (json_path d [''result'', ''block'', ''header'', ''time'']) (\<lambda>t. Inr (txs, t)))) of
        Inl e \<Rightarrow> Inr []
      | Inr (txs, t) \<Rightarrow> rbind (scan_block h txs t) (\<lambda>r. Inr [r]))"

lemma json_eq_equiv: "json_eq a a" "json_eq a b \<Longrightarrow> json_eq b a" "json_eq a b \<Longrightarrow> json_eq b c \<Longrightarrow> json_eq a c"
  by (auto simp: json_eq_def split: option.splits)

lemma json_eq_left: "json_eq a b \<Longrightarrow> json_eq a c \<longleftrightarrow> json_eq b c"
  using json_eq_equiv by blast

lemma marker_of_size:
  "marker_of txs = Inr (present, n, st, zk) \<Longrightarrow> (present \<longrightarrow> length MARKER \<le> n) \<and> (\<not> present \<longrightarrow> n = 0)"
  by (auto simp: marker_of_def rbind_eq_Inr dest: prefix_length_le split: list.splits if_splits option.splits)

definition scan_row_ok :: "overhead_row \<Rightarrow> bool" where
  "scan_row_ok r \<longleftrightarrow> (if ov_marker_present r then length MARKER \<le> ov_extended_proposal_bytes r
                  else ov_extended_proposal_bytes r = 0 \<and> ov_fsm_state r = JStr [] \<and> \<not> ov_zk_proof_ref_present r) \<and>
     (ov_num_txs r \<le> 1 \<longrightarrow> ov_other_tx_bytes r = 0) \<and>
     (ov_likely_recovery_proof_tx r \<longleftrightarrow> RECOVERY_PROOF_SIZE_HEURISTIC_BYTES \<le> ov_other_tx_bytes r)"

lemma marker_of_absent: "marker_of txs = Inr (False, n, st, zk) \<Longrightarrow> n = 0 \<and> st = JStr [] \<and> \<not> zk"
  by (auto simp: marker_of_def rbind_eq_Inr split: list.splits if_splits option.splits)

lemma scan_block_ok: "scan_block h txs t = Inr r \<Longrightarrow> ov_height r = h \<and> scan_row_ok r"
proof -
  assume a: "scan_block h txs t = Inr r"
  then obtain xs others present n st zk where b: "json_seq txs = Inr xs" "rmap_list json_b64 (tl xs) = Inr others"
    "marker_of xs = Inr (present, n, st, zk)"
    and r: "r = \<lparr>ov_height = h, ov_block_time = t, ov_num_txs = length xs, ov_marker_present = present,
          ov_extended_proposal_bytes = n, ov_fsm_state = st, ov_zk_proof_ref_present = zk, ov_other_tx_bytes = sum_list (map length others),
          ov_likely_recovery_proof_tx = (RECOVERY_PROOF_SIZE_HEURISTIC_BYTES \<le> sum_list (map length others))\<rparr>"
    by (auto simp: scan_block_def rbind_eq_Inr Let_def)
  have "others = []" if "length xs \<le> 1"
  proof -
    have "tl xs = []" using that by (cases xs) auto
    with b(2) show ?thesis by simp
  qed
  moreover have "n = 0 \<and> st = JStr [] \<and> \<not> zk" if "\<not> present" using marker_of_absent b(3) that by auto
  ultimately show ?thesis using marker_of_size [OF b(3)] unfolding r scan_row_ok_def by auto
qed

lemma block_row_ok: "block_row h reply = Inr rs \<Longrightarrow> rs = [] \<or> (\<exists>r. rs = [r] \<and> ov_height r = h \<and> scan_row_ok r)"
  by (auto simp: block_row_def rbind_eq_Inr split: sum.splits dest!: scan_block_ok)

lemma wp_scan_height:
  "wp (scan_height E port rows h)
     (\<lambda>rows' w'. \<exists>reply new. log w' = log w @ [RpcGet port (block_path h) reply] \<and> block_row h reply = Inr new \<and> rows' = rows @ new)
     (\<lambda>_ _. True) w"
  by (auto simp: scan_height_def block_txs_def rpc_get_def wp_simps block_path_def block_row_def emit_def
      split: sum.splits option.splits if_splits)

text \<open>The answers a scan got for a list of heights, and the rows they give.\<close>

definition scanned :: "int \<Rightarrow> int list \<Rightarrow> event list \<Rightarrow> overhead_row list \<Rightarrow> bool" where
  "scanned port hs evs rows \<longleftrightarrow>
     (\<exists>replies news. length replies = length hs \<and> evs = map2 (\<lambda>h. RpcGet port (block_path h)) hs replies \<and>
        list_all2 (\<lambda>(h, reply) new. block_row h reply = Inr new) (zip hs replies) news \<and> rows = concat news)"

lemma scanned_snoc:
  assumes "scanned port hs evs rows" "block_row h reply = Inr new"
  shows "scanned port (hs @ [h]) (evs @ [RpcGet port (block_path h) reply]) (rows @ new)"
proof -
  from assms(1) obtain replies news where a: "length replies = length hs" "evs = map2 (\<lambda>h. RpcGet port (block_path h)) hs replies"
    "list_all2 (\<lambda>(h, reply) new. block_row h reply = Inr new) (zip hs replies) news" "rows = concat news"
    by (auto simp: scanned_def)
  then show ?thesis unfolding scanned_def using assms(2)
    by (intro exI [of _ "replies @ [reply]"] exI [of _ "news @ [new]"]) (auto intro: list_all2_appendI)
qed

lemma wp_scan_rows:
  "wp (py_fold (scan_height E port) [] hs) (\<lambda>rows w'. \<exists>evs. log w' = log w @ evs \<and> scanned port hs evs rows) (\<lambda>_ _. True) w"
proof -
  let ?I = "\<lambda>i rows w'. \<exists>evs. log w' = log w @ evs \<and> scanned port (take i hs) evs rows"
  have "wp (py_fold (scan_height E port) [] hs) (?I (length hs)) (\<lambda>_ _. True) w"
  proof (rule wp_fold)
    show "?I 0 [] w" by (simp add: scanned_def)
    fix i rows and v :: world assume i: "i < length hs" and "?I i rows v"
    then obtain evs where e: "log v = log w @ evs" "scanned port (take i hs) evs rows" by blast
    show "wp (scan_height E port rows (hs ! i)) (?I (Suc i)) (\<lambda>_ _. True) v"
    proof (rule wp_mono [OF wp_scan_height])
      fix rows' and v' :: world assume "\<exists>reply new. log v' = log v @ [RpcGet port (block_path (hs ! i)) reply] \<and>
        block_row (hs ! i) reply = Inr new \<and> rows' = rows @ new"
      then obtain reply new where "log v' = log v @ [RpcGet port (block_path (hs ! i)) reply]"
        "block_row (hs ! i) reply = Inr new" "rows' = rows @ new" by blast
      with e scanned_snoc [OF e(2)] show "?I (Suc i) rows' v'"
        by (intro exI [of _ "evs @ [RpcGet port (block_path (hs ! i)) reply]"]) (simp add: take_Suc_conv_app_nth [OF i])
    qed simp
  qed
  then show ?thesis by simp
qed

lemma scanned_rows:
  assumes "scanned port hs evs rows" "sorted_wrt (<) hs"
  shows "sorted_wrt (<) (map ov_height rows)" "ov_height ` set rows \<subseteq> set hs" "list_all scan_row_ok rows"
proof -
  from assms(1) obtain replies news where a: "length replies = length hs"
    "list_all2 (\<lambda>(h, reply) new. block_row h reply = Inr new) (zip hs replies) news" and rows: "rows = concat news"
    by (auto simp: scanned_def)
  have "sorted_wrt (<) (map ov_height (concat news)) \<and> ov_height ` set (concat news) \<subseteq> set hs \<and> list_all scan_row_ok (concat news)"
    using a assms(2)
  proof (induction hs replies arbitrary: news rule: list_induct2')
    case (4 h hs reply replies)
    then obtain new rest where news: "news = new # rest" and new: "block_row h reply = Inr new"
      and rest: "list_all2 (\<lambda>(h, reply) new. block_row h reply = Inr new) (zip hs replies) rest"
      by (auto simp: list_all2_Cons1)
    have ih: "sorted_wrt (<) (map ov_height (concat rest)) \<and> ov_height ` set (concat rest) \<subseteq> set hs \<and> list_all scan_row_ok (concat rest)"
      using 4 rest by simp
    have h: "\<forall>x \<in> set hs. h < x" using 4 by simp
    from block_row_ok [OF new] show ?case
    proof
      assume "new = []" with ih show ?thesis by (auto simp: news)
    next
      assume "\<exists>r. new = [r] \<and> ov_height r = h \<and> scan_row_ok r"
      then obtain r where r: "new = [r]" "ov_height r = h" "scan_row_ok r" by blast
      have "\<forall>x \<in> set (concat rest). h < ov_height x" using ih h by blast
      moreover have "ov_height ` set (concat rest) \<subseteq> set (h # hs)" using ih by auto
      ultimately show ?thesis using ih r by (simp add: news)
    qed
  qed auto
  then show "sorted_wrt (<) (map ov_height rows)" "ov_height ` set rows \<subseteq> set hs" "list_all scan_row_ok rows" by (simp_all add: rows)
qed

text \<open>The buckets partition the rows: each holds the sizes of the rows with its key, in order, and no key appears twice.\<close>

definition buckets_of :: "overhead_row list \<Rightarrow> (json, nat list) dict \<Rightarrow> bool" where
  "buckets_of rs d \<longleftrightarrow>
     sorted_wrt (\<lambda>a b. \<not> json_eq (fst a) (fst b)) d \<and>
     list_all (\<lambda>(k, ns). ns = map ov_extended_proposal_bytes (filter (\<lambda>r. json_eq k (state_or_unknown r)) rs) \<and> ns \<noteq> []) d \<and>
     list_all (\<lambda>r. list_ex (\<lambda>(k, ns). json_eq k (state_or_unknown r)) d) rs"

lemma bucket_append_keys:
  "fst ` set (bucket_append k n d) = fst ` set d \<union> (if list_ex (\<lambda>(k', ns). json_eq k' k) d then {} else {k})"
  by (induction k n d rule: bucket_append.induct) auto

lemma bucket_append_sorted:
  "sorted_wrt (\<lambda>a b. \<not> json_eq (fst a) (fst b)) d \<Longrightarrow> sorted_wrt (\<lambda>a b. \<not> json_eq (fst a) (fst b)) (bucket_append k n d)"
proof (induction k n d rule: bucket_append.induct)
  case (2 k n k' ns d)
  have "\<not> json_eq k' (fst b)" if "\<not> json_eq k' k" "b \<in> set (bucket_append k n d)" for b
  proof -
    have "fst b \<in> fst ` set d \<union> {k}" using that(2) bucket_append_keys [of k n d] by (auto split: if_splits)
    with 2 that(1) show ?thesis by auto
  qed
  with 2 show ?case by auto
qed simp

lemma bucket_append_mem:
  assumes "(k', ns) \<in> set (bucket_append k n d)" "sorted_wrt (\<lambda>a b. \<not> json_eq (fst a) (fst b)) d"
  shows "json_eq k' k \<and> (\<exists>ms. ns = ms @ [n] \<and> ((k', ms) \<in> set d \<or> (ms = [] \<and> \<not> list_ex (\<lambda>(k'', ns). json_eq k'' k) d)))
    \<or> \<not> json_eq k' k \<and> (k', ns) \<in> set d"
  using assms
proof (induction k n d rule: bucket_append.induct)
  case (1 k n) then show ?case by (simp add: json_eq_equiv(1))
next
  case (2 k n k2 ms d)
  show ?case
  proof (cases "json_eq k2 k")
    case True
    have "\<not> json_eq k' k" if "(k', ns) \<in> set d"
    proof -
      have "\<not> json_eq k2 k'" using 2(3) that by auto
      with True show ?thesis using json_eq_equiv(2,3) by blast
    qed
    with True 2(2) show ?thesis by auto
  next
    case False with 2 show ?thesis by auto
  qed
qed

lemma buckets_of_append:
  assumes "buckets_of rs d"
  shows "buckets_of (rs @ [r]) (bucket_append (state_or_unknown r) (ov_extended_proposal_bytes r) d)"
proof -
  let ?k = "state_or_unknown r" and ?n = "ov_extended_proposal_bytes r"
  let ?sizes = "\<lambda>k rs. map ov_extended_proposal_bytes (filter (\<lambda>r. json_eq k (state_or_unknown r)) rs)"
  from assms have s: "sorted_wrt (\<lambda>a b. \<not> json_eq (fst a) (fst b)) d"
    and v: "\<And>k ns. (k, ns) \<in> set d \<Longrightarrow> ns = ?sizes k rs \<and> ns \<noteq> []"
    and c: "\<And>x. x \<in> set rs \<Longrightarrow> \<exists>(k, ns) \<in> set d. json_eq k (state_or_unknown x)"
    by (auto simp: buckets_of_def list_all_iff list_ex_iff)
  have keys: "fst ` set (bucket_append ?k ?n d) = fst ` set d \<union> (if list_ex (\<lambda>(k', ns). json_eq k' ?k) d then {} else {?k})"
    by (rule bucket_append_keys)
  have "ns = ?sizes k' (rs @ [r]) \<and> ns \<noteq> []" if mem: "(k', ns) \<in> set (bucket_append ?k ?n d)" for k' ns
    using bucket_append_mem [OF mem s]
  proof (elim disjE conjE exE)
    fix ms assume eq: "json_eq k' ?k" and ns: "ns = ms @ [?n]" "(k', ms) \<in> set d"
    then show ?thesis using v [OF ns(2)] by simp
  next
    fix ms assume eq: "json_eq k' ?k" and ns: "ns = ms @ [?n]" "ms = []" and no: "\<not> list_ex (\<lambda>(k'', ns). json_eq k'' ?k) d"
    have "\<not> json_eq k' (state_or_unknown x)" if "x \<in> set rs" for x
    proof
      assume "json_eq k' (state_or_unknown x)"
      then have "json_eq (state_or_unknown x) ?k" using eq json_eq_equiv by blast
      with c [OF that] no show False using json_eq_equiv(3) by (fastforce simp: list_ex_iff)
    qed
    then have "filter (\<lambda>r. json_eq k' (state_or_unknown r)) rs = []" by (simp add: filter_empty_conv)
    with eq ns show ?thesis by simp
  next
    assume "\<not> json_eq k' ?k" "(k', ns) \<in> set d"
    with v [OF this(2)] show ?thesis by auto
  qed
  moreover have "\<exists>(k, ns) \<in> set (bucket_append ?k ?n d). json_eq k (state_or_unknown x)" if "x \<in> set (rs @ [r])" for x
  proof -
    have "\<exists>k \<in> fst ` set (bucket_append ?k ?n d). json_eq k (state_or_unknown x)"
    proof (cases "x \<in> set rs")
      case True with c [OF True] keys show ?thesis by force
    next
      case False
      with that have x: "x = r" by simp
      then show ?thesis using keys json_eq_equiv(1) [of ?k]
        by (cases "list_ex (\<lambda>(k', ns). json_eq k' ?k) d") (force simp: list_ex_iff)+
    qed
    then show ?thesis by force
  qed
  ultimately show ?thesis using bucket_append_sorted [OF s]
    unfolding buckets_of_def list_all_iff list_ex_iff by blast
qed

lemma by_state_buckets: "by_state d rs = Inr d' \<Longrightarrow> buckets_of qs d \<Longrightarrow> buckets_of (qs @ rs) d'"
proof (induction d rs arbitrary: qs rule: by_state.induct)
  case (2 d r rs)
  then have k: "bucket_key r = Inr (state_or_unknown r)"
    by (auto simp: bucket_key_def rbind_eq_Inr split: json.splits)
  with 2 have "by_state (bucket_append (state_or_unknown r) (ov_extended_proposal_bytes r) d) rs = Inr d'" by simp
  from "2.IH" [OF this buckets_of_append [OF "2.prems"(2)]] show ?case by simp
qed simp

lemma scanned_answers:
  "scanned port hs evs rows \<Longrightarrow> \<exists>replies news. length replies = length hs \<and>
     trace rpc_answer evs = zip (map block_path hs) replies \<and>
     list_all2 (\<lambda>(h, reply) new. block_row h reply = Inr new) (zip hs replies) news \<and> rows = concat news"
proof -
  have *: "concat (map rpc_answer (map2 (\<lambda>h. RpcGet port (block_path h)) hs replies)) = zip (map block_path hs) replies"
    for replies by (induction hs replies rule: list_induct2') auto
  assume "scanned port hs evs rows"
  then show ?thesis unfolding scanned_def trace_def using * by blast
qed

lemma wp_overhead_md:
  "wp (write_overhead_md E port start tip rows d) (\<lambda>_ w'. \<exists>p t. log w' = log w @ [Wrote p t]) (\<lambda>_ _. True) w"
  by (auto simp: write_overhead_md_def Let_def wp_simps emit_def split: sum.splits)

text \<open>C28. A completed scan asked for the status and then, once each and in ascending order, for the blocks from
  \<open>max 1 (tip - n + 1)\<close> to the tip; its rows are those its answers give, where an answer that cannot be read gives none, so they
  ascend in height and stay in the range; a row with a marker has at least the size of the marker, and a row without one has
  size zero and no state; a row is a recovery candidate exactly if its other transactions reach the threshold, and a block with
  at most one transaction has none; and the buckets partition the rows with a marker: one bucket per state, with the sizes of the rows of that state
  in order.\<close>

theorem overhead_scan_exact:
  assumes "overhead_scan_main E port n w = Some (Inr s, w')"
  shows "os_start s = max 1 (os_tip s - n + 1) \<and>
    (\<exists>evs status replies news. log w' = log w @ evs \<and> length replies = length [os_start s .. os_tip s] \<and>
       trace rpc_answer evs = (''/status'', status) # zip (map block_path [os_start s .. os_tip s]) replies \<and>
       list_all2 (\<lambda>(h, reply) new. block_row h reply = Inr new) (zip [os_start s .. os_tip s] replies) news \<and>
       os_rows s = concat news) \<and>
    sorted_wrt (<) (map ov_height (os_rows s)) \<and> ov_height ` set (os_rows s) \<subseteq> {os_start s .. os_tip s} \<and>
    list_all scan_row_ok (os_rows s) \<and> buckets_of (present_rows (os_rows s)) (os_by_state s)"
proof -
  let ?hs = "[os_start s .. os_tip s]"
  let ?P = "\<lambda>s w'. os_start s = max 1 (os_tip s - n + 1) \<and> by_state [] (present_rows (os_rows s)) = Inr (os_by_state s) \<and>
     (\<exists>status evs. scanned port [os_start s .. os_tip s] evs (os_rows s) \<and>
      (\<exists>out. log w' = log w @ [RpcGet port ''/status'' status] @ evs @ out \<and> trace rpc_answer out = []))"
  have "wp (overhead_scan_main E port n) ?P (\<lambda>_ _. True) w"
    unfolding overhead_scan_main_def rpc_get_def wp_bind wp_http wp_lift wp_then
    by (auto simp: wp_simps emit_def trace_def split: sum.splits
        intro!: wp_mono [OF wp_scan_rows] wp_mono [OF wp_overhead_md])
      (intro exI conjI, assumption, rule refl, simp)
  from wp_Inr [OF assms this] obtain status evs out where start: "os_start s = max 1 (os_tip s - n + 1)"
    and st: "by_state [] (present_rows (os_rows s)) = Inr (os_by_state s)"
    and scan: "scanned port ?hs evs (os_rows s)"
    and log: "log w' = log w @ [RpcGet port ''/status'' status] @ evs @ out" "trace rpc_answer out = []" by blast
  obtain replies news where r: "length replies = length ?hs" "trace rpc_answer evs = zip (map block_path ?hs) replies"
    "list_all2 (\<lambda>(h, reply) new. block_row h reply = Inr new) (zip ?hs replies) news" "os_rows s = concat news"
    using scanned_answers [OF scan] by blast
  have "trace rpc_answer ([RpcGet port ''/status'' status] @ evs @ out) = (''/status'', status) # zip (map block_path ?hs) replies"
    using r(2) log(2) by (simp add: trace_def)
  then have "\<exists>evs status replies news. log w' = log w @ evs \<and> length replies = length ?hs \<and>
       trace rpc_answer evs = (''/status'', status) # zip (map block_path ?hs) replies \<and>
       list_all2 (\<lambda>(h, reply) new. block_row h reply = Inr new) (zip ?hs replies) news \<and> os_rows s = concat news"
    using log(1) r(1,3,4) by blast
  moreover have "sorted_wrt (<) ?hs" by simp
  moreover have "buckets_of (present_rows (os_rows s)) (os_by_state s)"
    using by_state_buckets [OF st, of "[]"] by (simp add: buckets_of_def)
  ultimately show ?thesis using start scanned_rows [OF scan] by simp
qed

lemma overhead_scan_total: "total (overhead_scan_main E port n)"
  unfolding overhead_scan_main_def scan_height_def block_txs_def rpc_get_def write_overhead_md_def Let_def
  by (intro total_intros)

text \<open>A chain of two blocks: the first has a marker with the state ANCHORED and a second transaction, the second cannot be read.\<close>

definition scan_body :: "byte list" where
  "scan_body = bytes_of (CHR ''{'' # CHR 0x22 # ''fsm_state'' @ [CHR 0x22, CHR '':'', CHR 0x22] @ ''ANCHORED'' @ [CHR 0x22, CHR ''}''])"

definition scan_txs :: "json list" where
  "scan_txs = map (JStr \<circ> b64encode)
     [MARKER @ scan_body, [1, 2, 3]]"

definition scan_http :: "int \<Rightarrow> string \<Rightarrow> json result" where
  "scan_http port path =
     (if path = ''/status''
      then Inr (JObj [(''result'', JObj [(''sync_info'', JObj [(''latest_block_height'', JStr ''2'')])])])
      else if path = ''/block?height=1''
      then Inr (JObj [(''result'', JObj [(''block'', JObj [(''data'', JObj [(''txs'', JArr scan_txs)]),
                                                         (''header'', JObj [(''time'', JStr ''T'')])])])])
      else Inl (Exn URLError ''refused''))"

abbreviation scan_env :: env where "scan_env \<equiv> static_env scan_http finished_docker"

definition scan_row :: overhead_row where
  "scan_row = \<lparr>ov_height = 1, ov_block_time = JStr ''T'', ov_num_txs = 2, ov_marker_present = True,
     ov_extended_proposal_bytes = 52, ov_fsm_state = JStr ''ANCHORED'', ov_zk_proof_ref_present = False, ov_other_tx_bytes = 3,
     ov_likely_recovery_proof_tx = False\<rparr>"

lemma scan_row_eval: "scan_block 1 (JArr scan_txs) (JStr ''T'') = Inr scan_row"
proof -
  have "decode_extended_proposal_json (MARKER @ scan_body) = Some (JObj [(''fsm_state'', JStr ''ANCHORED'')])"
    by code_simp
  moreover have "length (MARKER @ scan_body) = 52" by code_simp
  moreover have "b64decode [b64_char 0, b64_char 16, b64_char 8, b64_char 3] = Inr [1, 2, 3]" by code_simp
  ultimately show ?thesis
    by (simp add: scan_block_def scan_txs_def marker_of_def scan_row_def RECOVERY_PROOF_SIZE_HEURISTIC_BYTES_def dict_get_def b64decode_b64encode)
qed

lemma scan_run:
  "\<exists>s w'. overhead_scan_main scan_env 26657 5 start_world = Some (Inr s, w') \<and> os_tip s = 2 \<and> os_rows s = [scan_row] \<and>
     os_by_state s = [(JStr ''ANCHORED'', [52])]"
proof -
  have str: "py_str_int 1 = ''1''" "py_str_int 2 = ''2''" by code_simp+
  have tip: "py_int ''2'' = Inr 2" by code_simp
  have range: "[1 .. 2] = [1, 2 :: int]" by (simp add: upto.simps)
  have st: "by_state [] (present_rows [scan_row]) = Inr [(JStr ''ANCHORED'', [52])]"
    by (simp add: present_rows_def scan_row_def bucket_key_def state_or_unknown_def)
  have "wp (overhead_scan_main scan_env 26657 5) (\<lambda>s _. os_tip s = 2 \<and> os_rows s = [scan_row] \<and>
     os_by_state s = [(JStr ''ANCHORED'', [52])]) (\<lambda>_ _. False) start_world"
    by (simp add: overhead_scan_main_def rpc_get_def wp_simps scan_http_def json_path_def dict_item_def tip range scan_height_def
        block_txs_def str scan_row_eval st write_overhead_md_def Let_def sorted_buckets_def caught_by_def)
  from wp_total [OF this overhead_scan_total] show ?thesis by auto
qed

theorem overhead_scan_exact_witness:
  "\<exists>s w'. overhead_scan_main scan_env 26657 5 start_world = Some (Inr s, w') \<and> os_start s = 1 \<and>
     scan_row_ok scan_row \<and> buckets_of [scan_row] [(JStr ''ANCHORED'', [52])]"
proof -
  obtain s w' where run: "overhead_scan_main scan_env 26657 5 start_world = Some (Inr s, w')" and s: "os_tip s = 2"
    "os_rows s = [scan_row]" "os_by_state s = [(JStr ''ANCHORED'', [52])]" using scan_run by blast
  have "present_rows [scan_row] = [scan_row]" by (simp add: present_rows_def scan_row_def)
  with overhead_scan_exact [OF run] s have "os_start s = 1" "scan_row_ok scan_row" "buckets_of [scan_row] [(JStr ''ANCHORED'', [52])]"
    by simp_all
  with run show ?thesis by blast
qed

end
