(* ===== verification/Load_Comparison.thy ===== *)
theory Load_Comparison
  imports Scenario_Matrix Attack_Runs
begin

text \<open>
  \<^verbatim>\<open>scripts/e7_consensus_overhead/live_throughput_latency.py\<close>: two local nodes, one of them without the extensions, are built,
  started, put under a load of transactions one after the other, and stopped.

  A process in the background (\<^verbatim>\<open>Popen\<close>) is modelled by commands of the log: its argument list after the word
  \<^verbatim>\<open>popen\<close> when it is started, and after \<^verbatim>\<open>terminate\<close>, \<^verbatim>\<open>wait\<close> and \<^verbatim>\<open>kill\<close> when the method of that name is called. The text of
  the configuration file which the node's own \<^verbatim>\<open>init\<close> command writes is a parameter.

  Shown here: the load is limited to its rate and its counters are exact; however the run ends, no node keeps running.
\<close>

definition BIN :: string where "BIN = ''/tmp/engramd-load-comparison''"

definition HOME_NORMAL :: string where "HOME_NORMAL = ''/tmp/engramd-load-normal''"

definition HOME_VANILLA :: string where "HOME_VANILLA = ''/tmp/engramd-load-vanilla''"

definition PORT_NORMAL :: int where "PORT_NORMAL = 26657"

definition PORT_VANILLA :: int where "PORT_VANILLA = 36657"

record load_mode =
  md_home :: string
  md_port :: int
  md_vanilla_flag :: bool

definition MODES :: "(string, load_mode) dict" where
  "MODES = [(''extended'', \<lparr>md_home = HOME_NORMAL, md_port = PORT_NORMAL, md_vanilla_flag = False\<rparr>),
            (''vanilla'', \<lparr>md_home = HOME_VANILLA, md_port = PORT_VANILLA, md_vanilla_flag = True\<rparr>)]"

definition run_checked :: "env \<Rightarrow> string list \<Rightarrow> proc py" where
  "run_checked E cmd = run_proc E cmd True"

definition build_binary :: "env \<Rightarrow> unit py" where
  "build_binary E = py_then (run_checked E [''go'', ''build'', ''-o'', BIN, ''./cmd/engramd'']) (py_return ())"

definition shift_ports :: "string \<Rightarrow> string" where
  "shift_ports txt =
     py_replace '':26660'' '':36660''
       (py_replace ''tcp://127.0.0.1:26658'' ''tcp://127.0.0.1:36658''
          (py_replace ''tcp://0.0.0.0:26656'' ''tcp://0.0.0.0:36656''
             (py_replace ''tcp://127.0.0.1:26657'' ''tcp://127.0.0.1:36657'' txt)))"

text \<open>What reading the configuration file gives, after the \<^verbatim>\<open>init\<close> command, is the parameter \<open>toml\<close>.\<close>

definition init_home :: "env \<Rightarrow> (world \<Rightarrow> string result) \<Rightarrow> string \<Rightarrow> string \<Rightarrow> bool \<Rightarrow> unit py" where
  "init_home E toml home moniker shift =
     py_then (run_proc E [''rm'', ''-rf'', home] False)
     (py_then (run_proc E [BIN, ''init'', moniker, ''--home'', home] True)
     (if shift then
        py_bind (\<lambda>w. Some (toml w, w)) (\<lambda>txt.
        write_file E (path_join (path_join home ''config'') ''config.toml'') (shift_ports txt))
      else py_return ()))"

section \<open>Processes in the background\<close>

definition start_node :: "env \<Rightarrow> string \<Rightarrow> bool \<Rightarrow> string \<Rightarrow> string list py" where
  "start_node E home vanilla log_path =
     (let args = (if vanilla then [BIN, ''start'', ''--vanilla'', ''--home'', home] else [BIN, ''start'', ''--home'', home]) in
      py_then (write_file E log_path [])
      (py_then (run_proc E (''popen'' # args) False) (py_return args)))"

definition terminate :: "env \<Rightarrow> string list \<Rightarrow> unit py" where
  "terminate E p = py_then (run_proc E (''terminate'' # p) False) (py_return ())"

definition wait_or_kill :: "env \<Rightarrow> string list \<Rightarrow> unit py" where
  "wait_or_kill E p =
     py_try (py_then (run_proc E (''wait'' # p) False) (py_return ())) [TimeoutExpired]
       (\<lambda>_. py_then (run_proc E (''kill'' # p) False) (py_return ()))"

definition stop_nodes :: "env \<Rightarrow> string list list \<Rightarrow> unit py" where
  "stop_nodes E procs = py_then (py_each (terminate E) procs) (py_each (wait_or_kill E) procs)"

text \<open>The part of a \<^verbatim>\<open>finally\<close> clause that runs when the body ends early: the clause, then the exception again.\<close>

definition on_error :: "'a py \<Rightarrow> unit py \<Rightarrow> 'a py" where
  "on_error m c = py_try m [Exception, SystemExit] (\<lambda>e. py_then c (py_raise e))"

section \<open>The load\<close>

definition local_url :: "int \<Rightarrow> string" where
  "local_url port = ''http://127.0.0.1:'' @ py_str_int port"

definition forced_tx_hex :: "env \<Rightarrow> string \<Rightarrow> string \<Rightarrow> nat \<Rightarrow> string py" where
  "forced_tx_hex E label node_url i =
     py_bind (run_proc E [BIN, ''tx-submit-forced-tx'', ''--payload'', label @ ''-load-'' @ show_nat i, ''--dry-run'',
                          ''--node'', node_url] False) (\<lambda>r.
     if returncode r \<noteq> 0 then py_raise (Exn RuntimeError ''--dry-run failed'') else py_return (strip_ws (out_text r)))"

definition build_forced_tx_hexes :: "env \<Rightarrow> string \<Rightarrow> int \<Rightarrow> string \<Rightarrow> string list py" where
  "build_forced_tx_hexes E label count node_url = py_map (forced_tx_hex E label node_url) [0 ..< nat count]"

definition accepted_reply :: "json \<Rightarrow> bool result" where
  "accepted_reply result =
     rbind (json_get result ''result'' (JObj [])) (\<lambda>r.
     rbind (json_get r ''code'' (JInt (- 1))) (\<lambda>c. Inr (json_is_zero c)))"

definition broadcast_path :: "string \<Rightarrow> string" where
  "broadcast_path tx_hex = ''/broadcast_tx_sync?tx=0x'' @ tx_hex"

definition broadcast_sync :: "env \<Rightarrow> int \<Rightarrow> string \<Rightarrow> bool py" where
  "broadcast_sync E port tx_hex =
     py_try (py_bind (http_get E port (broadcast_path tx_hex)) (\<lambda>result. py_lift (accepted_reply result)))
       [Exception] (\<lambda>_. py_return False)"

record load_state =
  ld_samples :: "NodeSample list"
  ld_accepted :: nat
  ld_sent :: nat
  ld_next_send :: rat
  ld_next_sample :: rat

definition load_send :: "env \<Rightarrow> int \<Rightarrow> string list \<Rightarrow> rat \<Rightarrow> rat \<Rightarrow> load_state \<Rightarrow> load_state py" where
  "load_send E port hexes interval t st =
     (if ld_next_send st \<le> t \<and> ld_sent st < length hexes then
        py_bind (broadcast_sync E port (hexes ! ld_sent st)) (\<lambda>ok.
        py_return (st\<lparr>ld_accepted := (if ok then ld_accepted st + 1 else ld_accepted st), ld_sent := ld_sent st + 1,
                      ld_next_send := ld_next_send st + interval\<rparr>))
      else py_return st)"

definition load_sample :: "env \<Rightarrow> string \<Rightarrow> int \<Rightarrow> rat \<Rightarrow> load_state \<Rightarrow> load_state py" where
  "load_sample E mode port t st =
     (if ld_next_sample st \<le> t then
        py_bind (query_node E mode (Some port)) (\<lambda>s.
        py_return (st\<lparr>ld_samples := ld_samples st @ [s], ld_next_sample := ld_next_sample st + 1\<rparr>))
      else py_return st)"

definition load_step :: "env \<Rightarrow> string \<Rightarrow> int \<Rightarrow> string list \<Rightarrow> rat \<Rightarrow> load_state \<Rightarrow> (load_state, unit) ctl py" where
  "load_step E mode port hexes interval st =
     py_bind time_time (\<lambda>t.
     py_bind (load_send E port hexes interval t st) (\<lambda>st1.
     py_bind (load_sample E mode port t st1) (\<lambda>st2.
     py_then (time_sleep E (1 / 50)) (py_return (Continue st2)))))"

definition load_loop :: "env \<Rightarrow> string \<Rightarrow> int \<Rightarrow> string list \<Rightarrow> rat \<Rightarrow> rat \<Rightarrow> load_state \<Rightarrow> load_state py" where
  "load_loop E mode port hexes interval deadline st =
     py_bind (py_while (\<lambda>_ w. clock w < deadline) (load_step E mode port hexes interval) st) loop_state"

record load_result =
  lr_mode :: string
  lr_sent :: nat
  lr_accepted :: nat
  lr_elapsed_s :: rat
  lr_blocks_per_sec :: "rat option"
  lr_tx_accepted_per_sec :: "rat option"
  lr_stats :: "block_stats option"

text \<open>\<^verbatim>\<open>int(x)\<close> of a float, and a division.\<close>

definition py_trunc :: "rat \<Rightarrow> int" where
  "py_trunc q = (if q < 0 then - \<lfloor>- q\<rfloor> else \<lfloor>q\<rfloor>)"

definition py_div :: "rat \<Rightarrow> rat \<Rightarrow> rat result" where
  "py_div a b = (if b = 0 then Inl (Exn ZeroDivisionError ''division by zero'') else Inr (a / b))"

definition blocks_rate :: "NodeSample list \<Rightarrow> rat \<Rightarrow> rat option result" where
  "blocks_rate samples elapsed =
     (let heights = map height (filter (\<lambda>s. 0 < height s) samples) in
      if 2 \<le> length heights
      then rbind (py_div (of_int (Max (set heights) - Min (set heights))) elapsed) (\<lambda>q. Inr (Some q))
      else Inr None)"

text \<open>The figures of a phase. The line printed before the result divides by the elapsed time without the guard of the result.\<close>

definition load_figures :: "string \<Rightarrow> rat \<Rightarrow> load_state \<Rightarrow> load_result result" where
  "load_figures mode elapsed st =
     rbind (blocks_rate (ld_samples st) elapsed) (\<lambda>blocks.
     rbind (py_div (of_nat (ld_accepted st)) elapsed) (\<lambda>printed.
     Inr \<lparr>lr_mode = mode, lr_sent = ld_sent st, lr_accepted = ld_accepted st, lr_elapsed_s = elapsed, lr_blocks_per_sec = blocks,
          lr_tx_accepted_per_sec = (if 0 < elapsed then Some (of_nat (ld_accepted st) / elapsed) else None),
          lr_stats = block_interval_stats (ld_samples st)\<rparr>))"

definition load_count :: "rat \<Rightarrow> rat \<Rightarrow> int" where
  "load_count duration_s rate_hz = py_trunc (duration_s * rate_hz) + 20"

definition run_load_phase :: "env \<Rightarrow> string \<Rightarrow> int \<Rightarrow> rat \<Rightarrow> rat \<Rightarrow> load_result py" where
  "run_load_phase E mode port duration_s rate_hz = py_bind (build_forced_tx_hexes E mode (load_count duration_s rate_hz) (local_url port)) (\<lambda>hexes.
     py_bind (time_time) (\<lambda>start.
     py_bind (py_lift (py_div 1 rate_hz)) (\<lambda>interval.
     py_bind (load_loop E mode port hexes interval (start + duration_s)
        \<lparr>ld_samples = [], ld_accepted = 0, ld_sent = 0, ld_next_send = start, ld_next_sample = start\<rparr>) (\<lambda>st.
     py_bind (time_time) (\<lambda>now.
     py_lift (load_figures mode (now - start) st))))))"

section \<open>The comparison\<close>

definition load_phases :: "env \<Rightarrow> rat \<Rightarrow> rat \<Rightarrow> load_result list py" where
  "load_phases E duration_s rate_hz =
     py_map (\<lambda>(mode, cfg). run_load_phase E mode (md_port cfg) duration_s rate_hz) MODES"

definition load_session :: "env \<Rightarrow> rat \<Rightarrow> rat \<Rightarrow> rat \<Rightarrow> load_result list py" where
  "load_session E warmup_s duration_s rate_hz = py_bind (start_node E HOME_NORMAL False ''/tmp/engramd-load-normal.log'') (\<lambda>p1.
     py_bind (on_error (py_then (time_sleep E 1) (start_node E HOME_VANILLA True ''/tmp/engramd-load-vanilla.log''))
        (stop_nodes E [p1])) (\<lambda>p2.
     py_finally (py_then (time_sleep E warmup_s) (load_phases E duration_s rate_hz)) (stop_nodes E [p1, p2])))"

text \<open>A line of the table; formatting \<^verbatim>\<open>None\<close> with a precision raises.\<close>

definition fmt_optional :: "nat \<Rightarrow> rat option \<Rightarrow> string result" where
  "fmt_optional n q = (case q of None \<Rightarrow> Inl (Exn TypeError ''unsupported format string passed to NoneType.__format__'')
                       | Some x \<Rightarrow> Inr (fmt_fixed n x))"

definition load_row :: "load_result \<Rightarrow> string result" where
  "load_row r =
     (case lr_stats r of
        None \<Rightarrow> Inr (md_row [lr_mode r, show_nat (lr_sent r), show_nat (lr_accepted r), ''n/a'', ''n/a'', ''n/a'', ''n/a'', ''n/a''])
      | Some s \<Rightarrow>
          rbind (fmt_optional 3 (lr_blocks_per_sec r)) (\<lambda>b.
          rbind (fmt_optional 2 (lr_tx_accepted_per_sec r)) (\<lambda>t.
          Inr (md_row [lr_mode r, show_nat (lr_sent r), show_nat (lr_accepted r), b, t, fmt_fixed 3 (mean_s s), fmt_fixed 3 (p50_s s),
                       fmt_fixed 3 (p95_s s)]))))"

definition load_intro :: "rat \<Rightarrow> rat \<Rightarrow> string" where
  "load_intro duration_s rate_hz =
     ''# LIVE E7 throughput/latency A/B under real load'' @ NL @ NL
     @ ''Real MsgSubmitForcedTxRequest load, '' @ fmt_fixed 1 rate_hz @ '' tx/s target, ''
     @ fmt_fixed 0 duration_s @ ''s per mode, against two local real `engramd` processes ''
     @ ''(extended vs. `--vanilla`), not the shared docker testnet.'' @ NL @ NL
     @ ''| Mode | Sent | Accepted | Blocks/s | Tx-accepted/s | Mean interval (s) | p50 (s) | p95 (s) |'' @ NL
     @ ''|---|---:|---:|---:|---:|---:|---:|---:|'' @ NL"

text \<open>The rows are written one by one: the text so far is in the file when a row raises.\<close>

fun write_rows :: "env \<Rightarrow> string \<Rightarrow> string \<Rightarrow> load_result list \<Rightarrow> unit py" where
  "write_rows E path txt [] = write_file E path txt"
| "write_rows E path txt (r # rs) = (case load_row r of
       Inl e \<Rightarrow> py_then (write_file E path txt) (py_raise e)
     | Inr row \<Rightarrow> write_rows E path (txt @ row) rs)"

definition load_main :: "env \<Rightarrow> (world \<Rightarrow> string result) \<Rightarrow> rat \<Rightarrow> rat \<Rightarrow> rat \<Rightarrow> load_result list py" where
  "load_main E toml warmup_s duration_s rate_hz = py_then (build_binary E)
     (py_then (init_home E toml HOME_NORMAL ''normal-node'' False)
     (py_then (init_home E toml HOME_VANILLA ''vanilla-node'' True)
     (py_bind (load_session E warmup_s duration_s rate_hz) (\<lambda>results.
     py_bind (ts_label E) (\<lambda>label.
     py_then (write_rows E (path_join ''scripts/e7_consensus_overhead/results_live'' (''throughput_latency_'' @ label @ ''_summary.md''))
       (load_intro duration_s rate_hz) results)
     (py_return results))))))"

section \<open>The log since the start, projected\<close>

definition traced :: "(event \<Rightarrow> 'b list) \<Rightarrow> world \<Rightarrow> 'b list \<Rightarrow> world \<Rightarrow> bool" where
  "traced P w xs w' \<longleftrightarrow> clock w \<le> clock w' \<and> (\<exists>evs. log w' = log w @ evs \<and> trace P evs = xs)"

lemma traced_refl [simp]: "traced P w [] w"
  by (simp add: traced_def)

lemma traced_trans: "traced P w xs v \<Longrightarrow> traced P v ys u \<Longrightarrow> traced P w (xs @ ys) u"
  by (fastforce simp: traced_def)

lemma traced_grows: "traced P w xs v \<Longrightarrow> grows (\<lambda>ev. P ev = []) v u \<Longrightarrow> traced P w xs u"
  using traced_trans [of P w xs v "[]" u] trace_none by (fastforce simp: traced_def grows_def)

lemma traced_emit: "0 \<le> d \<Longrightarrow> traced P w xs v \<Longrightarrow> traced P w (xs @ P ev) (emit E ev d v)"
  by (rule traced_trans) (auto simp: traced_def emit_def)

lemma wp_traced:
  "emits (\<lambda>ev. P ev = []) m \<Longrightarrow> traced P w xs v \<Longrightarrow> wp m (\<lambda>_. traced P w xs) (\<lambda>_. traced P w xs) v"
  by (rule wp_mono [OF wp_emits]) (auto intro: traced_grows)

section \<open>The load is limited to its rate\<close>

text \<open>The transactions sent, with their answers.\<close>

fun broadcast_of :: "event \<Rightarrow> (string \<times> json result) list" where
  "broadcast_of (RpcGet port path r) = (if prefix (broadcast_path []) path then [(path, r)] else [])"
| "broadcast_of ev = []"

definition reply_ok :: "json result \<Rightarrow> bool" where
  "reply_ok r \<longleftrightarrow> rbind r accepted_reply = Inr True"

lemma broadcast_prefix [simp]: "prefix (broadcast_path []) (broadcast_path h)"
  by (simp add: broadcast_path_def)

lemma query_node_no_broadcast: "emits (\<lambda>ev. broadcast_of ev = []) (query_node E n port)"
  unfolding query_node_def rpc_get_def
  by (intro emits_intros) (simp_all add: broadcast_path_def ABCI_QUERY_STATE_def)

text \<open>The state of the loop: what was sent, how many were accepted, and that the next transaction and the next sample are due
  one interval after the other.\<close>

definition load_inv :: "world \<Rightarrow> string list \<Rightarrow> rat \<Rightarrow> rat \<Rightarrow> load_state \<Rightarrow> world \<Rightarrow> bool" where
  "load_inv w0 hexes interval deadline st w \<longleftrightarrow>
     ld_next_send st = clock w0 + of_nat (ld_sent st) * interval \<and>
     (0 < ld_sent st \<longrightarrow> clock w0 + of_nat (ld_sent st - 1) * interval < deadline) \<and>
     ld_next_sample st = clock w0 + of_nat (length (ld_samples st)) \<and>
     (ld_samples st \<noteq> [] \<longrightarrow> clock w0 + of_nat (length (ld_samples st) - 1) < deadline) \<and>
     ld_sent st \<le> length hexes \<and>
     (\<exists>replies. length replies = ld_sent st \<and> ld_accepted st = length (filter reply_ok replies) \<and>
        traced broadcast_of w0 (zip (map broadcast_path (take (ld_sent st) hexes)) replies) w)"

lemma load_inv_grows:
  "load_inv w0 hexes i d st v \<Longrightarrow> grows (\<lambda>ev. broadcast_of ev = []) v u \<Longrightarrow> load_inv w0 hexes i d st u"
  unfolding load_inv_def by (blast intro: traced_grows)

lemma wp_broadcast:
  "wp (broadcast_sync E port h) (\<lambda>ok w'. \<exists>r. ok = reply_ok r \<and> w' = emit E (RpcGet port (broadcast_path h) r) 0 w) (\<lambda>_ _. True) w"
  by (cases "http E w port (broadcast_path h)")
    (auto simp: broadcast_sync_def wp_simps reply_ok_def split: sum.splits intro!: exI [of _ "http E w port (broadcast_path h)"])

lemma wp_load_send:
  assumes inv: "load_inv w0 hexes i d st v" and t: "t < d"
  shows "wp (load_send E port hexes i t st) (load_inv w0 hexes i d) (\<lambda>_ _. True) v"
proof (cases "ld_next_send st \<le> t \<and> ld_sent st < length hexes")
  case True
  let ?n = "ld_sent st"
  from inv obtain replies where r: "length replies = ?n" "ld_accepted st = length (filter reply_ok replies)"
    "traced broadcast_of w0 (zip (map broadcast_path (take ?n hexes)) replies) v" by (auto simp: load_inv_def)
  have due: "clock w0 + of_nat ?n * i < d" using inv t True by (auto simp: load_inv_def)
  have "load_inv w0 hexes i d (st\<lparr>ld_accepted := (if reply_ok q then ld_accepted st + 1 else ld_accepted st), ld_sent := ?n + 1,
      ld_next_send := ld_next_send st + i\<rparr>) (emit E (RpcGet port (broadcast_path (hexes ! ?n)) q) 0 v)" for q
  proof -
    have "traced broadcast_of w0 (zip (map broadcast_path (take ?n hexes)) replies @ [(broadcast_path (hexes ! ?n), q)])
        (emit E (RpcGet port (broadcast_path (hexes ! ?n)) q) 0 v)"
      using traced_emit [OF order_refl r(3), of "RpcGet port (broadcast_path (hexes ! ?n)) q"] by simp
    moreover have "zip (map broadcast_path (take ?n hexes)) replies @ [(broadcast_path (hexes ! ?n), q)]
        = zip (map broadcast_path (take (Suc ?n) hexes)) (replies @ [q])"
      using True r(1) by (simp add: take_Suc_conv_app_nth)
    ultimately have "\<exists>rs. length rs = Suc ?n \<and> (if reply_ok q then ld_accepted st + 1 else ld_accepted st) = length (filter reply_ok rs) \<and>
        traced broadcast_of w0 (zip (map broadcast_path (take (Suc ?n) hexes)) rs) (emit E (RpcGet port (broadcast_path (hexes ! ?n)) q) 0 v)"
      using r(1,2) by (intro exI [of _ "replies @ [q]"]) simp
    with inv True due show ?thesis by (simp add: load_inv_def algebra_simps)
  qed
  with True show ?thesis unfolding load_send_def by (auto simp: wp_simps intro!: wp_mono [OF wp_broadcast])
qed (use inv in \<open>auto simp: load_send_def wp_simps\<close>)

lemma wp_load_sample:
  assumes inv: "load_inv w0 hexes i d st v" and t: "t < d"
  shows "wp (load_sample E mode port t st) (load_inv w0 hexes i d) (\<lambda>_ _. True) v"
proof (cases "ld_next_sample st \<le> t")
  case True
  then have "clock w0 + of_nat (length (ld_samples st)) < d" using inv t by (auto simp: load_inv_def)
  with True show ?thesis unfolding load_sample_def using inv
    by (auto simp: wp_simps load_inv_def intro!: wp_mono [OF wp_emits [OF query_node_no_broadcast]] intro: traced_grows)
qed (use inv in \<open>simp add: load_sample_def wp_simps\<close>)

lemma wp_load_loop:
  assumes "load_inv w0 hexes i d st v"
  shows "wp (load_loop E mode port hexes i d st) (\<lambda>st' v'. load_inv w0 hexes i d st' v' \<and> d \<le> clock v') (\<lambda>_ _. True) v"
  unfolding load_loop_def wp_bind
proof (rule wp_while [where I = "load_inv w0 hexes i d"])
  fix st v assume inv: "load_inv w0 hexes i d st v" and t: "clock v < d"
  have "wp (time_sleep E (1 / 50)) (\<lambda>_. load_inv w0 hexes i d st') (\<lambda>_ _. True) v'" if "load_inv w0 hexes i d st' v'" for st' v'
    using load_inv_grows [OF that grows_emit] by (simp add: wp_simps)
  then show "wp (load_step E mode port hexes i st)
      (\<lambda>k w'. case k of Continue s' \<Rightarrow> load_inv w0 hexes i d s' w' | Leave (x :: unit) \<Rightarrow> wp (loop_state (Leave x))
         (\<lambda>st' v'. load_inv w0 hexes i d st' v' \<and> d \<le> clock v') (\<lambda>_ _. True) w') (\<lambda>_ _. True) v"
    unfolding load_step_def
    by (auto simp: wp_simps intro!: wp_mono [OF wp_load_send [OF inv t]] wp_mono [OF wp_load_sample [OF _ t]])
qed (use assms in \<open>simp_all add: loop_state_def wp_simps\<close>)

lemma hexes_no_broadcast: "emits (\<lambda>ev. broadcast_of ev = []) (build_forced_tx_hexes E label n url)"
  unfolding build_forced_tx_hexes_def forced_tx_hex_def by (intro emits_intros) simp

lemma load_figures_eq:
  "load_figures mode elapsed st = Inr res \<Longrightarrow> lr_sent res = ld_sent st \<and> lr_accepted res = ld_accepted st \<and> lr_elapsed_s res = elapsed \<and>
     lr_tx_accepted_per_sec res = (if 0 < elapsed then Some (of_nat (ld_accepted st) / elapsed) else None) \<and>
     lr_stats res = block_interval_stats (ld_samples st)"
  by (auto simp: load_figures_def rbind_eq_Inr)

lemma wp_run_load_phase:
  assumes "0 < rate"
  shows "wp (run_load_phase E mode port d rate) (\<lambda>res w'. d \<le> lr_elapsed_s res \<and> (\<exists>hexes v st.
      traced broadcast_of w [] v \<and> load_inv v hexes (1 / rate) (clock v + d) st w' \<and> load_figures mode (lr_elapsed_s res) st = Inr res))
    (\<lambda>_ _. True) w"
proof -
  have start: "load_inv v hexes i e \<lparr>ld_samples = [], ld_accepted = 0, ld_sent = 0, ld_next_send = clock v, ld_next_sample = clock v\<rparr> v"
    for v hexes i e by (simp add: load_inv_def)
  have figures: "d \<le> lr_elapsed_s res \<and> (\<exists>hexes v st. traced broadcast_of w [] v \<and>
      load_inv v hexes (1 / rate) (clock v + d) st u \<and> load_figures mode (lr_elapsed_s res) st = Inr res)"
    if "traced broadcast_of w [] v" "load_inv v hexes (1 / rate) (clock v + d) st u" "clock v + d \<le> clock u"
      "load_figures mode (clock u - clock v) st = Inr res" for hexes v st u res
  proof -
    have "lr_elapsed_s res = clock u - clock v" using load_figures_eq [OF that(4)] by simp
    with that show ?thesis by auto
  qed
  have rest: "wp (py_bind (load_loop E mode port hexes (1 / rate) (clock v + d)
         \<lparr>ld_samples = [], ld_accepted = 0, ld_sent = 0, ld_next_send = clock v, ld_next_sample = clock v\<rparr>) (\<lambda>st.
       py_bind time_time (\<lambda>now. py_lift (load_figures mode (now - clock v) st))))
     (\<lambda>res w'. d \<le> lr_elapsed_s res \<and> (\<exists>hexes v st. traced broadcast_of w [] v \<and>
        load_inv v hexes (1 / rate) (clock v + d) st w' \<and> load_figures mode (lr_elapsed_s res) st = Inr res)) (\<lambda>_ _. True) v"
    if "traced broadcast_of w [] v" for v hexes
    unfolding wp_bind
  proof (rule wp_mono [OF wp_load_loop [OF start]])
    fix st u assume inv: "load_inv v hexes (1 / rate) (clock v + d) st u \<and> clock v + d \<le> clock u"
    show "wp time_time (\<lambda>now. wp (py_lift (load_figures mode (now - clock v) st))
       (\<lambda>res w'. d \<le> lr_elapsed_s res \<and> (\<exists>hexes v st. traced broadcast_of w [] v \<and>
        load_inv v hexes (1 / rate) (clock v + d) st w' \<and> load_figures mode (lr_elapsed_s res) st = Inr res)) (\<lambda>_ _. True)) (\<lambda>_ _. True) u"
      unfolding wp_time wp_lift using figures [OF that] inv by (auto split: sum.split)
  qed simp
  have zero: "py_div 1 rate = Inr (1 / rate)" using assms by (simp add: py_div_def)
  show ?thesis
    unfolding run_load_phase_def wp_bind wp_time wp_lift zero sum.case
    by (rule wp_mono [OF wp_traced [OF hexes_no_broadcast traced_refl]]) (simp_all add: rest [unfolded wp_bind wp_time wp_lift])
qed

text \<open>C29. A load phase that returns, for a positive duration and rate: the requests to broadcast a transaction it made are as many as
  it reports as sent, the accepted ones are exactly those answered with code zero; it sent fewer than
  duration times rate plus one, so the transactions built beforehand never run out; it lasted at least its duration, and the
  throughput it reports is the accepted transactions per elapsed second and stays below the rate plus one per duration.\<close>

theorem load_phase_limited:
  assumes "run_load_phase E mode port d rate w = Some (Inr res, w')" and "0 < d" and "0 < rate"
  shows "(\<exists>evs hexes replies. log w' = log w @ evs \<and> trace broadcast_of evs = zip (map broadcast_path hexes) replies \<and>
       length hexes = lr_sent res \<and> length replies = lr_sent res \<and> lr_accepted res = length (filter reply_ok replies)) \<and>
    of_nat (lr_sent res) < d * rate + 1 \<and> int (lr_sent res) < load_count d rate \<and> d \<le> lr_elapsed_s res \<and>
    lr_tx_accepted_per_sec res = Some (of_nat (lr_accepted res) / lr_elapsed_s res) \<and>
    of_nat (lr_accepted res) / lr_elapsed_s res < rate + 1 / d"
proof -
  from wp_Inr [OF assms(1) wp_run_load_phase [OF assms(3)]] obtain hexes v st where el: "d \<le> lr_elapsed_s res"
    and v: "traced broadcast_of w [] v" and inv: "load_inv v hexes (1 / rate) (clock v + d) st w'"
    and fig: "load_figures mode (lr_elapsed_s res) st = Inr res" by blast
  from load_figures_eq [OF fig] el assms(2) have eqs: "lr_sent res = ld_sent st" "lr_accepted res = ld_accepted st"
    "lr_tx_accepted_per_sec res = Some (of_nat (ld_accepted st) / lr_elapsed_s res)" by auto
  from inv obtain replies where r: "length replies = ld_sent st" "ld_accepted st = length (filter reply_ok replies)"
    "traced broadcast_of v (zip (map broadcast_path (take (ld_sent st) hexes)) replies) w'"
    and le: "ld_sent st \<le> length hexes" and due: "0 < ld_sent st \<longrightarrow> of_nat (ld_sent st - 1) * (1 / rate) < d"
    by (auto simp: load_inv_def)
  have "traced broadcast_of w (zip (map broadcast_path (take (ld_sent st) hexes)) replies) w'"
    using traced_trans [OF v r(3)] by simp
  then have 1: "\<exists>evs hexes replies. log w' = log w @ evs \<and> trace broadcast_of evs = zip (map broadcast_path hexes) replies \<and>
       length hexes = lr_sent res \<and> length replies = lr_sent res \<and> lr_accepted res = length (filter reply_ok replies)"
    using r(1,2) le unfolding traced_def eqs by (force intro: exI [of _ "take (ld_sent st) hexes"])
  have 2: "of_nat (ld_sent st) < d * rate + 1"
  proof (cases "ld_sent st")
    case (Suc n) with due assms(3) show ?thesis by (simp add: field_simps)
  qed (use assms(2,3) in \<open>simp add: add_pos_pos\<close>)
  have "0 < d * rate" using assms(2,3) by simp
  then have "d * rate < of_int (\<lfloor>d * rate\<rfloor> + 1)" by linarith
  with 2 have "(of_int (int (ld_sent st)) :: rat) < of_int (load_count d rate)"
    using \<open>0 < d * rate\<close> unfolding load_count_def py_trunc_def by simp
  then have 3: "int (ld_sent st) < load_count d rate" by (simp only: of_int_less_iff)
  have "ld_accepted st \<le> ld_sent st" using r(1,2) by (metis length_filter_le)
  then have "(of_nat (ld_accepted st) :: rat) < d * rate + 1" using 2 by (meson le_less_trans of_nat_le_iff)
  then have "of_nat (ld_accepted st) / d < rate + 1 / d" using assms(2) by (simp add: field_simps)
  moreover have "(of_nat (ld_accepted st) :: rat) / lr_elapsed_s res \<le> of_nat (ld_accepted st) / d"
    using el assms(2) by (intro divide_left_mono) auto
  ultimately show ?thesis using 1 2 3 el eqs by auto
qed

section \<open>Returning\<close>

lemma load_steps_steady:
  "steady (broadcast_sync E port h)" "steady (load_send E port hexes i t st)" "steady (load_sample E mode port t st)"
  unfolding broadcast_sync_def load_send_def load_sample_def by (intro emits_intros; simp)+

lemma load_loop_total [total_intros]: "total (load_loop E mode port hexes i d st)"
proof -
  have steps: "total (load_send E port hexes i t st)" "total (load_sample E mode port t st)" for t st
    unfolding load_send_def load_sample_def broadcast_sync_def by (intro total_intros)+
  show ?thesis
    unfolding load_loop_def
  proof (intro total_intros deadline_while_total [where \<delta> = "1 / 50"])
    fix st and w :: world
    have "wp (time_sleep E (1 / 50)) (\<lambda>_ w'. clock w + 1 / 50 \<le> clock w') (\<lambda>_ _. True) v" if "clock w \<le> clock v" for v
      using that by (simp add: wp_simps emit_def)
    then show "wp (load_step E mode port hexes i st)
        (\<lambda>k w'. case k of Continue _ \<Rightarrow> clock w + 1 / 50 \<le> clock w' | Leave (_ :: unit) \<Rightarrow> True) (\<lambda>_ _. True) w"
      unfolding load_step_def
      by (auto simp: wp_simps intro!: wp_mono [OF wp_emits [OF load_steps_steady(2)]] wp_mono [OF wp_emits [OF load_steps_steady(3)]]
          dest!: grows_clock)
  qed (simp, unfold load_step_def, intro total_intros steps)
qed

lemma write_rows_total [total_intros]: "total (write_rows E path body rs)"
  by (induction rs arbitrary: body) (auto intro!: total_intros split: sum.split)

lemma total_world_read [total_intros]: "total (\<lambda>w. Some (f w, w))"
  by (simp add: total_def)

lemma run_load_phase_total [total_intros]: "total (run_load_phase E mode port d rate)"
  unfolding run_load_phase_def build_forced_tx_hexes_def forced_tx_hex_def by (intro total_intros)

lemma load_main_total: "total (load_main E toml warmup d rate)"
  unfolding load_main_def build_binary_def run_checked_def init_home_def load_session_def start_node_def Let_def on_error_def
    stop_nodes_def terminate_def wait_or_kill_def load_phases_def
  by (intro total_intros)

text \<open>A machine on which commands succeed and no node answers.\<close>

abbreviation silent_env :: env where
  "silent_env \<equiv> static_env (\<lambda>_ _. Inl (Exn URLError ''refused'')) (\<lambda>_ _. Inr \<lparr>returncode = 0, out_text = ''ab'', err_text = []\<rparr>)"

lemma silent_loop_quiet:
  assumes "port \<noteq> 0"
  shows "quiet (load_loop silent_env mode port hexes i d st)"
proof -
  have c: "caught_by [Exception] (Exn URLError ''refused'')" "caught_by QUERY_ERRORS (Exn URLError ''refused'')"
    by (simp_all add: caught_by_def QUERY_ERRORS_def)
  have "quiet (broadcast_sync silent_env port h)" "quiet (query_node silent_env n (Some port))" for n h
    using assms by (auto simp: quiet_def broadcast_sync_def query_node_def resolve_port_def rpc_get_def wp_simps c)
  then have step: "quiet (load_step silent_env mode port hexes i st)" for st
    unfolding load_step_def load_send_def load_sample_def by (intro quiet_intros) simp_all
  have leave: "wp (py_bind m loop_state) (\<lambda>_ _. True) (\<lambda>_ _. False) w"
    if "wp m (\<lambda>k _. case k of Continue _ \<Rightarrow> True | Leave _ \<Rightarrow> False) (\<lambda>_ _. False) w" for m :: "(load_state, unit) ctl py" and w
    unfolding wp_bind by (rule wp_mono [OF that]) (auto simp: loop_state_def wp_simps split: ctl.splits)
  have only: "wp (load_step silent_env mode port hexes i st) (\<lambda>k _. case k of Continue _ \<Rightarrow> True | Leave _ \<Rightarrow> False) (\<lambda>_ _. True) w" for st w
  proof -
    have t: "wp m (\<lambda>_ _. True) (\<lambda>_ _. True) w" for m :: "'b py" and w
      by (auto simp: wp_def split: option.splits sum.splits)
    show ?thesis unfolding load_step_def by (auto simp: wp_simps intro!: wp_mono [OF t])
  qed
  have both: "wp (load_step silent_env mode port hexes i st) (\<lambda>k _. case k of Continue _ \<Rightarrow> True | Leave _ \<Rightarrow> False) (\<lambda>_ _. False) w" for st w
    using wp_conj [OF quiet_wp [OF step] only] by (rule wp_mono) auto
  show ?thesis unfolding quiet_def load_loop_def
    by (intro allI leave wp_while [where I = "\<lambda>_ _. True"]) (auto intro!: wp_mono [OF both] split: ctl.splits)
qed

lemma silent_phase: "\<exists>res w'. run_load_phase silent_env ''vanilla'' PORT_VANILLA 1 5 w = Some (Inr res, w')"
proof -
  have hex: "quiet (build_forced_tx_hexes silent_env l n u)" for l n u
    unfolding build_forced_tx_hexes_def
  proof (rule quiet_map)
    show "quiet (forced_tx_hex silent_env l u i)" for i by (simp add: quiet_def forced_tx_hex_def wp_simps)
  qed
  have fig: "\<exists>res. load_figures m e st = Inr res" if "0 < e" for m e st
    using that by (simp add: load_figures_def blocks_rate_def py_div_def Let_def)
  have loop: "wp (load_loop silent_env m p hexes i (clock v + 1) \<lparr>ld_samples = [], ld_accepted = 0, ld_sent = 0, ld_next_send = clock v,
      ld_next_sample = clock v\<rparr>) (\<lambda>_ u. clock v + 1 \<le> clock u) (\<lambda>_ _. False) v" if "p \<noteq> 0" for m p hexes i and v :: world
    by (rule wp_mono [OF wp_conj [OF wp_load_loop quiet_wp [OF silent_loop_quiet [OF that]]]]) (auto simp: load_inv_def)
  have "wp (run_load_phase silent_env ''vanilla'' PORT_VANILLA 1 5) (\<lambda>_ _. True) (\<lambda>_ _. False) w"
    unfolding run_load_phase_def wp_bind
  proof (rule wp_mono [OF quiet_wp [OF hex]])
    fix hexes v
    show "wp time_time (\<lambda>x. wp (py_lift (py_div 1 5)) (\<lambda>i. wp (load_loop silent_env ''vanilla'' PORT_VANILLA hexes i (x + 1)
        \<lparr>ld_samples = [], ld_accepted = 0, ld_sent = 0, ld_next_send = x, ld_next_sample = x\<rparr>) (\<lambda>st. wp time_time (\<lambda>now.
        wp (py_lift (load_figures ''vanilla'' (now - x) st)) (\<lambda>_ _. True) (\<lambda>_ _. False)) (\<lambda>_ _. False)) (\<lambda>_ _. False)) (\<lambda>_ _. False))
        (\<lambda>_ _. False) v"
      unfolding wp_time wp_lift py_div_def
    proof (simp, rule wp_mono [OF loop], simp add: PORT_VANILLA_def)
      fix st u assume "clock v + 1 \<le> clock u"
      then have "0 < clock u - clock v" by simp
      from fig [OF this, of "''vanilla''" st] show "case load_figures ''vanilla'' (clock u - clock v) st of Inl e \<Rightarrow> False | Inr x \<Rightarrow> True" by auto
    qed simp
  qed simp
  from wp_total [OF this run_load_phase_total] show ?thesis by auto
qed

theorem load_phase_limited_witness:
  "\<exists>res w'. run_load_phase silent_env ''vanilla'' PORT_VANILLA 1 5 start_world = Some (Inr res, w') \<and> lr_sent res \<le> 5 \<and>
     1 \<le> lr_elapsed_s res"
proof -
  obtain res w' where run: "run_load_phase silent_env ''vanilla'' PORT_VANILLA 1 5 start_world = Some (Inr res, w')"
    using silent_phase by blast
  have "of_nat (lr_sent res) < (6 :: rat)" "1 \<le> lr_elapsed_s res" using load_phase_limited [OF run] by simp_all
  moreover from this(1) have "lr_sent res < 6" by (metis of_nat_less_iff of_nat_numeral)
  ultimately show ?thesis using run by auto
qed

section \<open>No node keeps running\<close>

text \<open>The nodes that were started and the ones that were told to stop.\<close>

datatype node_signal = Started "string list" | Stopped "string list"

fun node_signals :: "event \<Rightarrow> node_signal list" where
  "node_signals (RunProc (c # p) vars (Inr r)) = (if c = ''popen'' then [Started p] else if c = ''terminate'' then [Stopped p] else [])"
| "node_signals ev = []"

definition NORMAL_NODE :: "string list" where
  "NORMAL_NODE = [BIN, ''start'', ''--home'', HOME_NORMAL]"

definition VANILLA_NODE :: "string list" where
  "VANILLA_NODE = [BIN, ''start'', ''--vanilla'', ''--home'', HOME_VANILLA]"

lemma node_signals_other: "c \<noteq> ''popen'' \<Longrightarrow> c \<noteq> ''terminate'' \<Longrightarrow> node_signals (RunProc (c # p) vars r) = []"
  by (cases r) auto

abbreviation unsignalled :: "'a py \<Rightarrow> bool" where
  "unsignalled m \<equiv> emits (\<lambda>ev. node_signals ev = []) m"

lemma unsignalled_steps:
  "unsignalled (build_binary E)" "unsignalled (init_home E toml home moniker shift)" "unsignalled (wait_or_kill E p)"
  "unsignalled (load_phases E d rate)" "unsignalled (write_rows E path body rs)"
proof -
  have read: "emits S (\<lambda>w. Some (f w, w))" for S :: "event \<Rightarrow> bool" and f :: "world \<Rightarrow> string result" by (simp add: emits_def)
  show "unsignalled (build_binary E)" "unsignalled (init_home E toml home moniker shift)" "unsignalled (wait_or_kill E p)"
    unfolding build_binary_def run_checked_def init_home_def wait_or_kill_def
    by (intro emits_intros read; simp add: node_signals_other BIN_def)+
  show "unsignalled (write_rows E path body rs)"
    by (induction rs arbitrary: body) (auto intro!: emits_intros split: sum.split)
  have "unsignalled (run_load_phase E mode port d rate)" for mode port
    unfolding run_load_phase_def build_forced_tx_hexes_def forced_tx_hex_def load_loop_def load_step_def load_send_def load_sample_def
      broadcast_sync_def loop_state_def
    by (intro emits_intros; simp add: node_signals_other BIN_def)
  then show "unsignalled (load_phases E d rate)" unfolding load_phases_def by (intro emits_intros)
qed

lemma wp_start_node:
  assumes "traced node_signals w xs v"
  shows "wp (start_node E home vanilla path)
    (\<lambda>p v'. p = (if vanilla then [BIN, ''start'', ''--vanilla'', ''--home'', home] else [BIN, ''start'', ''--home'', home]) \<and>
       traced node_signals w (xs @ [Started p]) v')
    (\<lambda>_. traced node_signals w xs) v"
proof -
  let ?p = "if vanilla then [BIN, ''start'', ''--vanilla'', ''--home'', home] else [BIN, ''start'', ''--home'', home]"
  have "wp (write_file E path []) (\<lambda>_. traced node_signals w xs) (\<lambda>_. traced node_signals w xs) v"
    by (rule wp_traced [OF _ assms], intro emits_intros) simp
  moreover have "wp (run_proc E (''popen'' # ?p) False) (\<lambda>_. traced node_signals w (xs @ [Started ?p])) (\<lambda>_. traced node_signals w xs) u"
    if "traced node_signals w xs u" for u
    using traced_emit [OF order_refl that, of "RunProc (''popen'' # ?p) [] (spawn E u (''popen'' # ?p) [])" E]
    by (auto simp: wp_simps split: sum.splits)
  ultimately show ?thesis unfolding start_node_def Let_def wp_then by (auto elim!: wp_mono simp: wp_simps)
qed

lemma wp_stop_nodes:
  assumes ok: "\<forall>v p vars. \<exists>q. spawn E v (''terminate'' # p) vars = Inr q" and "traced node_signals w xs v"
  shows "wp (stop_nodes E ps) (\<lambda>_. traced node_signals w (xs @ map Stopped ps)) (\<lambda>_. traced node_signals w (xs @ map Stopped ps)) v"
proof -
  have "wp (py_each (terminate E) ps) (\<lambda>_. traced node_signals w (xs @ map Stopped ps)) (\<lambda>_ _. False) v"
    using assms(2)
  proof (induction ps arbitrary: xs v)
    case (Cons p ps)
    obtain q where q: "spawn E v (''terminate'' # p) [] = Inr q" using ok by blast
    have "traced node_signals w (xs @ [Stopped p]) (emit E (RunProc (''terminate'' # p) [] (Inr q)) 0 v)"
      using traced_emit [OF order_refl Cons.prems, of "RunProc (''terminate'' # p) [] (Inr q)" E] by simp
    from Cons.IH [OF this] show ?case by (simp add: wp_simps terminate_def q)
  qed (simp add: wp_simps)
  moreover have "unsignalled (py_each (wait_or_kill E) ps)" by (intro emits_intros unsignalled_steps)
  ultimately show ?thesis unfolding stop_nodes_def wp_then by (auto elim!: wp_mono intro: wp_traced)
qed

lemma wp_load_session:
  assumes ok: "\<forall>v p vars. \<exists>q. spawn E v (''terminate'' # p) vars = Inr q" and v: "traced node_signals w [] v"
  shows "wp (load_session E wu d rate)
    (\<lambda>_. traced node_signals w [Started NORMAL_NODE, Started VANILLA_NODE, Stopped NORMAL_NODE, Stopped VANILLA_NODE])
    (\<lambda>_ v'. \<exists>xs. traced node_signals w xs v' \<and> xs \<in> {[], [Started NORMAL_NODE, Stopped NORMAL_NODE],
        [Started NORMAL_NODE, Started VANILLA_NODE, Stopped NORMAL_NODE, Stopped VANILLA_NODE]}) v"
    (is "wp _ ?Q ?R v")
proof -
  have sleep: "unsignalled (time_sleep E s)" for s by (intro emits_intros) simp
  have body: "unsignalled (py_then (time_sleep E wu) (load_phases E d rate))" by (intro emits_intros sleep unsignalled_steps) simp
  have both: "wp (py_finally (py_then (time_sleep E wu) (load_phases E d rate)) (stop_nodes E [NORMAL_NODE, VANILLA_NODE])) ?Q ?R u"
    if "traced node_signals w [Started NORMAL_NODE, Started VANILLA_NODE] u" for u
  proof -
    let ?ps = "[NORMAL_NODE, VANILLA_NODE]"
    have stop: "wp (stop_nodes E ?ps) (\<lambda>_. P) ?R z"
      if "traced node_signals w [Started NORMAL_NODE, Started VANILLA_NODE] z"
        "\<And>u. traced node_signals w [Started NORMAL_NODE, Started VANILLA_NODE, Stopped NORMAL_NODE, Stopped VANILLA_NODE] u \<Longrightarrow> P u" for P z
      by (rule wp_mono [OF wp_stop_nodes [OF ok that(1)]]) (use that(2) in auto)
    show ?thesis unfolding wp_finally by (rule wp_mono [OF wp_traced [OF body that]]; rule stop; simp; blast)
  qed
  have second: "wp (on_error (py_then (time_sleep E 1) (start_node E HOME_VANILLA True path)) (stop_nodes E [NORMAL_NODE]))
      (\<lambda>p u. p = VANILLA_NODE \<and> traced node_signals w [Started NORMAL_NODE, Started VANILLA_NODE] u) ?R u"
    if "traced node_signals w [Started NORMAL_NODE] u" for u path
  proof -
    have stop: "wp (py_then (stop_nodes E [NORMAL_NODE]) (py_raise e)) Q ?R z" if "traced node_signals w [Started NORMAL_NODE] z" for e Q z
      unfolding wp_then wp_raise_abs by (rule wp_mono [OF wp_stop_nodes [OF ok that]]) auto
    have start: "wp (start_node E HOME_VANILLA True path)
        (\<lambda>p u. p = VANILLA_NODE \<and> traced node_signals w [Started NORMAL_NODE, Started VANILLA_NODE] u)
        (\<lambda>_. traced node_signals w [Started NORMAL_NODE]) z" if "traced node_signals w [Started NORMAL_NODE] z" for z
      by (rule wp_mono [OF wp_start_node [OF that]]) (auto simp: VANILLA_NODE_def)
    have any: "caught_by [Exception, SystemExit] e" for e by (cases e; cases "exn_class e") (auto simp: caught_by_def)
    show ?thesis unfolding on_error_def wp_try wp_then [of "time_sleep E 1"]
      by (rule wp_mono [OF wp_traced [OF sleep that]]; (rule wp_mono [OF start])?) (simp_all add: any stop [simplified])
  qed
  show ?thesis
    unfolding load_session_def wp_bind
    by (rule wp_mono [OF wp_start_node [OF v]], simp, fold NORMAL_NODE_def, rule wp_mono [OF second])
      (auto intro: both [simplified])
qed

text \<open>C30. However a load comparison ends, normally or by an exception at any point, every node process it had started by then was told to
  terminate: the log shows no start, or the start and the termination of the first node, or the start of both and the
  termination of both, and after a normal end the latter. The hypothesis is that the call of \<^verbatim>\<open>terminate\<close> itself does not
  raise.\<close>

theorem load_nodes_stopped:
  assumes "load_main E toml wu d rate w = Some (r, w')" and "\<forall>v p vars. \<exists>q. spawn E v (''terminate'' # p) vars = Inr q"
  shows "\<exists>evs. log w' = log w @ evs \<and>
    trace node_signals evs \<in> {[], [Started NORMAL_NODE, Stopped NORMAL_NODE],
       [Started NORMAL_NODE, Started VANILLA_NODE, Stopped NORMAL_NODE, Stopped VANILLA_NODE]} \<and>
    (\<forall>res. r = Inr res \<longrightarrow> trace node_signals evs = [Started NORMAL_NODE, Started VANILLA_NODE, Stopped NORMAL_NODE, Stopped VANILLA_NODE])"
proof -
  let ?all = "[Started NORMAL_NODE, Started VANILLA_NODE, Stopped NORMAL_NODE, Stopped VANILLA_NODE]"
  let ?R = "\<lambda>_ v'. \<exists>xs. traced node_signals w xs v' \<and> xs \<in> {[], [Started NORMAL_NODE, Stopped NORMAL_NODE], ?all}"
  have pre: "wp m (\<lambda>_. traced node_signals w []) ?R v" if "unsignalled m" "traced node_signals w [] v" for m :: "unit py" and v
    by (rule wp_mono [OF wp_traced [OF that]]) auto
  have post: "wp (py_bind (ts_label E) (\<lambda>label. py_then (write_rows E (f label) body rs) (py_return rs)))
      (\<lambda>_. traced node_signals w ?all) ?R v" if "traced node_signals w ?all v" for v f body and rs :: "load_result list"
  proof -
    have "unsignalled (py_bind (ts_label E) (\<lambda>label. py_then (write_rows E (f label) body rs) (py_return rs)))"
      by (intro emits_intros unsignalled_steps)
    from wp_traced [OF this that] show ?thesis by (rule wp_mono) auto
  qed
  have "wp (load_main E toml wu d rate) (\<lambda>_. traced node_signals w ?all) ?R w"
    unfolding load_main_def
    by (rule wp_seq_then [OF pre [OF unsignalled_steps(1) traced_refl]], rule wp_seq_then [OF pre [OF unsignalled_steps(2)]], assumption,
        rule wp_seq_then [OF pre [OF unsignalled_steps(2)]], assumption, rule wp_seq [OF wp_load_session [OF assms(2)]], assumption,
        rule post)
  then have "(case r of Inl e \<Rightarrow> ?R e w' | Inr x \<Rightarrow> traced node_signals w ?all w')" using assms(1) by (simp add: wp_def split: sum.splits)
  then show ?thesis by (cases r) (fastforce simp: traced_def)+
qed

theorem load_nodes_stopped_witness:
  "\<exists>r w'. load_main silent_env (\<lambda>_. Inr []) 8 1 5 start_world = Some (r, w') \<and>
     trace node_signals (log w') \<in> {[], [Started NORMAL_NODE, Stopped NORMAL_NODE],
       [Started NORMAL_NODE, Started VANILLA_NODE, Stopped NORMAL_NODE, Stopped VANILLA_NODE]}"
proof -
  obtain r w' where run: "load_main silent_env (\<lambda>_. Inr []) 8 1 5 start_world = Some (r, w')"
    using load_main_total unfolding total_def by (metis not_None_eq surj_pair)
  from load_nodes_stopped [OF run] run show ?thesis by auto
qed

text \<open>One failed and one good sample: the interval statistics count the height -1 of the failed sample, the block rate does not, and the
  line of the table raises.\<close>

theorem load_row_sentinel:
  assumes "timestamp a = 0" "height a = - 1" "timestamp b = 1" "height b = 5"
  shows "\<exists>res. load_figures mode 2 \<lparr>ld_samples = [a, b], ld_accepted = n, ld_sent = m, ld_next_send = s, ld_next_sample = t\<rparr> = Inr res \<and>
     load_row res = Inl (Exn TypeError ''unsupported format string passed to NoneType.__format__'')"
  using assms by (simp add: load_figures_def blocks_rate_def py_div_def Let_def block_interval_stats_def load_row_def fmt_optional_def)

end
