(* ===== verification/Result_Tables.thy ===== *)
theory Result_Tables
  imports Hysteresis "HOL-Library.List_Lexorder" "HOL-Library.Char_ord" "HOL-Library.Product_Lexorder" "HOL-Library.Multiset"
begin

text \<open>
  The scripts that turn recorded CSV files into tables: \<^verbatim>\<open>e3_failure_matrix/measure_latency.py\<close> and \<^verbatim>\<open>measure_latency_live.py\<close>,
  \<^verbatim>\<open>e4_p2p_eclipse_detection/simulate_eclipse_attack.py\<close>, \<^verbatim>\<open>e5_hysteresis_flapping/data_preprocessor.py\<close> (without its figure) and
  \<^verbatim>\<open>e6_zk_reanchoring_benchmark/table6c_collector.py\<close> (without its figure). The names in a directory, which the first one lists by a pattern,
  are an argument.

  Shown here: which rows of the files a table holds, in which order, and when a script refuses its input.
\<close>

definition E2E_RESULTS_DIR :: string where "E2E_RESULTS_DIR = ''tests/e2e/results''"

definition py_lines :: "string list \<Rightarrow> string" where
  "py_lines ls = py_join NL ls"

text \<open>\<^verbatim>\<open>r[k].lower() == "true"\<close>, \<^verbatim>\<open>int(r[k])\<close>, \<^verbatim>\<open>float(r[k])\<close> and \<^verbatim>\<open>f"{r[k]}"\<close>\<close>

definition item_true :: "csv_dict \<Rightarrow> string \<Rightarrow> bool result" where
  "item_true r k = rbind (dict_item r k) (\<lambda>c.
     case c of None \<Rightarrow> Inl (Exn AttributeError ''lower'') | Some s \<Rightarrow> Inr (py_lower s = ''true''))"

definition item_int :: "csv_dict \<Rightarrow> string \<Rightarrow> int result" where
  "item_int r k = rbind (dict_item r k) cell_int"

definition item_float :: "csv_dict \<Rightarrow> string \<Rightarrow> rat result" where
  "item_float r k = rbind (dict_item r k) cell_float"

definition item_text :: "csv_dict \<Rightarrow> string \<Rightarrow> string result" where
  "item_text r k = rbind (dict_item r k) (\<lambda>c. Inr (cell_text c))"

definition path_exists :: "string \<Rightarrow> bool py" where
  "path_exists p w = Some (Inr (fs w p \<noteq> None), w)"

definition load_csv :: "string \<Rightarrow> csv_dict list py" where
  "load_csv path = py_bind (read_file path) (\<lambda>raw. py_return (csv_dicts raw))"

section \<open>measure_latency.py\<close>

definition BTC_SUSPICIOUS_THRESHOLD :: int where "BTC_SUSPICIOUS_THRESHOLD = 1"

definition BTC_SOVEREIGN_THRESHOLD :: int where "BTC_SOVEREIGN_THRESHOLD = 2"

definition SCENARIO_LABELS :: "(string, string) dict" where
  "SCENARIO_LABELS = [(''s1_normal'', ''S1 Normal''), (''s2_btc_congestion'', ''S2 BTC congestion (settled)''),
     (''s3_da_unavailable'', ''S3 DA unavailable (settled)''), (''s4_p2p_eclipse_partial'', ''S4 P2P eclipse partial (settled)''),
     (''s5_anchor_isolation'', ''S5 Anchor isolation (settled)''),
     (''s6_combined_btc_da_failure'', ''S6 Combined BTC+DA failure (settled)''), (''s7_recovery'', ''S7 Recovery (settled)'')]"

definition btc_condition :: "int \<Rightarrow> string" where
  "btc_condition gap = (if gap = 0 then ''healthy'' else if gap < BTC_SOVEREIGN_THRESHOLD then ''warning'' else ''critical'')"

definition load_last_row :: "string \<Rightarrow> csv_dict option py" where
  "load_last_row path = py_bind (load_csv path) (\<lambda>rows. py_return (if rows = [] then None else Some (last rows)))"

text \<open>\<^verbatim>\<open>sorted(glob.glob(".../s*.csv"))\<close>, and the name of a path without directory and extension.\<close>

definition scenario_files :: "string list \<Rightarrow> string list" where
  "scenario_files listing = sort (filter (\<lambda>n. prefix ''s'' n \<and> suffix ''.csv'' n) listing)"

definition stem :: "string \<Rightarrow> string" where
  "stem n = take (length n - 4) n"

definition failure_line :: "string \<Rightarrow> csv_dict \<Rightarrow> string result" where
  "failure_line name row =
     rbind (item_int row ''btc_gap'') (\<lambda>gap.
     rbind (item_true row ''da_healthy'') (\<lambda>da.
     rbind (item_true row ''p2p_healthy'') (\<lambda>p2p.
     rbind (item_true row ''withdraw_locked'') (\<lambda>locked.
     rbind (item_text row ''state'') (\<lambda>state.
     rbind (item_text row ''height'') (\<lambda>height.
     Inr (''| '' @ dict_get SCENARIO_LABELS name name @ '' | '' @ btc_condition gap @ '' | ''
          @ (if da then ''healthy'' else ''failed'') @ '' | '' @ (if p2p then ''healthy'' else ''unhealthy'') @ '' | '' @ state
          @ '' | '' @ (if locked then ''locked'' else ''enabled'') @ '' | continuous ('' @ height @ '' blocks, 0 halts) |'')))))))"

definition FAILURE_HEADER :: "string list" where
  "FAILURE_HEADER = [''**Table 2 -- Failure Matrix (measured, real tests/e2e data, DefaultParams thresholds):**'', '''',
     ''| Scenario | BTC | DA | P2P | Observed FSM state | Withdrawals | Block production |'',
     ''| --- | --- | --- | --- | --- | --- | --- |'']"

definition failure_step :: "string list \<Rightarrow> string \<Rightarrow> string list py" where
  "failure_step ls n =
     py_bind (load_last_row (path_join E2E_RESULTS_DIR n)) (\<lambda>row.
     case row of None \<Rightarrow> py_return ls
     | Some r \<Rightarrow> py_bind (py_lift (failure_line (stem n) r)) (\<lambda>l. py_return (ls @ [l])))"

definition build_failure_table :: "string list \<Rightarrow> string list py" where
  "build_failure_table listing =
     (if scenario_files listing = [] then py_raise (Exn SystemExit ''1'')
      else py_fold failure_step FAILURE_HEADER (scenario_files listing))"

definition failure_main :: "env \<Rightarrow> string list \<Rightarrow> string list py" where
  "failure_main E listing =
     py_bind (build_failure_table listing) (\<lambda>ls.
     py_then (write_file E ''scripts/e3_failure_matrix/results/table2_failure_matrix.md'' (py_lines ls @ NL))
     (py_return ls))"

section \<open>measure_latency_live.py\<close>

definition LIVE_RESULTS_DIR :: string where "LIVE_RESULTS_DIR = ''scripts/e2_fault_injection/results_live''"

definition LIVE_TABLE_OUT :: string where
  "LIVE_TABLE_OUT = ''scripts/e3_failure_matrix/results_live/table2_failure_matrix_live.md''"

definition WITHDRAW_LOCKED_STATES :: "string list" where "WITHDRAW_LOCKED_STATES = [''SOVEREIGN'', ''RECOVERING'']"

definition LIVE_HEADER :: "string list" where
  "LIVE_HEADER = [''**Table 2 LIVE -- Failure Matrix (measured, real 4-node Docker cluster data):**'', '''',
     ''BTC/DA/P2P condition columns are intentionally omitted here (unlike the in-process ''
     @ ''table2_failure_matrix.md) -- PeripheralMetrics is never written into committed state on ''
     @ ''this app (a deliberate safety fix, see x/sovereignty/preblock.go's NewPreBlocker doc), so ''
     @ ''that data genuinely isn't observable live via Query.State. Only fsm_state and height are ''
     @ ''real committed data; withdrawal-lock status is computed client-side from fsm_state alone ''
     @ ''(mirrors types.WithdrawLocked's pure logic, no live metrics needed for that).'', '''',
     ''| Scenario | Observed FSM state (settled) | Height reached | Withdrawals | Sample count |'',
     ''| --- | --- | --- | --- | --- |'']"

definition live_line :: "string \<Rightarrow> csv_dict list \<Rightarrow> string" where
  "live_line name rows =
     (let row = last rows; state = dict_get row ''fsm_state'' (Some []) in
      ''| '' @ dict_get SCENARIO_LABELS name name @ '' | '' @ cell_text state @ '' | '' @ cell_text (dict_get row ''height'' (Some ''?''))
      @ '' | '' @ (if state \<in> set (map Some WITHDRAW_LOCKED_STATES) then ''locked'' else ''enabled'') @ '' | '' @ show_nat (length rows) @ '' |'')"

definition live_step :: "string list \<Rightarrow> string \<Rightarrow> string list py" where
  "live_step ls n =
     py_bind (load_csv (path_join LIVE_RESULTS_DIR n)) (\<lambda>rows.
     py_return (if rows = [] then ls else ls @ [live_line (stem n) rows]))"

definition build_live_table :: "string list \<Rightarrow> string list py" where
  "build_live_table listing =
     (if scenario_files listing = [] then py_raise (Exn SystemExit ''1'')
      else py_fold live_step LIVE_HEADER (scenario_files listing))"

definition live_failure_main :: "env \<Rightarrow> string list \<Rightarrow> string list py" where
  "live_failure_main E listing =
     py_bind (build_live_table listing) (\<lambda>ls.
     py_then (write_file E LIVE_TABLE_OUT (py_lines ls @ NL))
     (py_return ls))"

section \<open>simulate_eclipse_attack.py\<close>

definition ATTACK_LABELS :: "(string, string) dict" where
  "ATTACK_LABELS = [(''A1_PeerSlotExhaustion'', ''Peer Slot Exhaustion''), (''A2_BGPHijackSybil'', ''BGP Hijacking / Sybil''),
     (''A3_ChurnBasedRotation'', ''Churn-based Rotation''), (''A4_RelayNodeAttack'', ''Relay Node Attack'')]"

definition DETECTORS :: "(string \<times> string) list" where
  "DETECTORS = [(''peer_count_only'', ''Peer-count''), (''tri_interface'', ''**Tri-interface**'')]"

type_synonym attack_index = "(string option, (string option, csv_dict) dict) dict"

text \<open>\<^verbatim>\<open>by_attack.setdefault(r["attack"], {})[r["detector"]] = r\<close>\<close>

definition index_row :: "string option \<Rightarrow> csv_dict \<Rightarrow> attack_index \<Rightarrow> attack_index result" where
  "index_row param_set r d =
     rbind (dict_item r ''param_set'') (\<lambda>p.
     if p \<noteq> param_set then Inr d
     else rbind (dict_item r ''attack'') (\<lambda>a.
          rbind (dict_item r ''detector'') (\<lambda>det.
          Inr (AList.update a (AList.update det r (dict_get d a [])) d))))"

fun by_attack :: "string option \<Rightarrow> attack_index \<Rightarrow> csv_dict list \<Rightarrow> attack_index result" where
  "by_attack param_set d [] = Inr d"
| "by_attack param_set d (r # rs) = rbind (index_row param_set r d) (\<lambda>d'. by_attack param_set d' rs)"

definition detector_line :: "string \<Rightarrow> string \<Rightarrow> csv_dict \<Rightarrow> string result" where
  "detector_line scenario_col dname r =
     rbind (item_float r ''avg_detection_delay_snapshots'') (\<lambda>delay.
     rbind (item_text r ''avg_detection_delay_snapshots'') (\<lambda>delay_text.
     rbind (item_float r ''fpr'') (\<lambda>fpr.
     rbind (item_float r ''fnr'') (\<lambda>fnr.
     Inr (''| '' @ scenario_col @ '' | '' @ dname @ '' | '' @ fmt_fixed 1 (fpr * 100) @ ''% | '' @ fmt_fixed 1 (fnr * 100) @ ''% | ''
          @ (if delay < 0 then ''N/A'' else delay_text) @ '' |'')))))"

text \<open>The lines of one attack: the label stands in the first of them only.\<close>

fun attack_lines :: "string \<Rightarrow> (string option, csv_dict) dict \<Rightarrow> bool \<Rightarrow> (string \<times> string) list \<Rightarrow> string list result" where
  "attack_lines label entry first [] = Inr []"
| "attack_lines label entry first ((det, dname) # ds) =
     (case map_of entry (Some det) of
        None \<Rightarrow> attack_lines label entry first ds
      | Some r \<Rightarrow> rbind (detector_line (if first then label else []) dname r) (\<lambda>l.
                  rbind (attack_lines label entry False ds) (\<lambda>ls. Inr (l # ls))))"

definition detector_header :: "string option \<Rightarrow> string list" where
  "detector_header param_set =
     [''**Table 6 -- Detection Accuracy of P2P Profiler vs. Peer-Count Baseline ''
        @ ''(SYNTHETIC Monte Carlo, param_set='' @ cell_text param_set @ '', 2000 trials/cell -- see script docstring):**'', '''',
      ''| Attack Scenario | Detector | FPR | FNR | Avg. Detection Delay (snapshots) |'',
      ''| --- | --- | ---: | ---: | ---: |'']"

definition build_detector_table :: "csv_dict list \<Rightarrow> string option \<Rightarrow> string list result" where
  "build_detector_table rows param_set =
     rbind (by_attack param_set [] rows) (\<lambda>d.
     rbind (rmap_list (\<lambda>(attack, label). attack_lines label (dict_get d (Some attack) []) True DETECTORS) ATTACK_LABELS) (\<lambda>lss.
     Inr (detector_header param_set @ concat lss)))"

text \<open>\<^verbatim>\<open>sorted({r["param_set"] for r in rows})\<close>: a missing cell cannot be compared with text.\<close>

definition sort_cells :: "string option list \<Rightarrow> string option list result" where
  "sort_cells cs =
     (if length cs \<le> 1 then Inr cs
      else if None \<in> set cs then Inl (Exn TypeError ''not supported between instances of NoneType and str'')
      else Inr (map Some (sort (map the cs))))"

definition detector_tables :: "csv_dict list \<Rightarrow> string list list result" where
  "detector_tables rows =
     rbind (rmap_list (\<lambda>r. dict_item r ''param_set'') rows) (\<lambda>ps.
     rbind (sort_cells (remdups ps)) (\<lambda>param_sets.
     rmap_list (build_detector_table rows) param_sets))"

definition detector_main :: "env \<Rightarrow> string list list py" where
  "detector_main E =
     py_bind (path_exists (path_join E2E_RESULTS_DIR ''e4_p2p_detector_comparison.csv'')) (\<lambda>found.
     if \<not> found then py_raise (Exn SystemExit ''1'')
     else py_bind (load_csv (path_join E2E_RESULTS_DIR ''e4_p2p_detector_comparison.csv'')) (\<lambda>rows.
          py_bind (py_lift (detector_tables rows)) (\<lambda>tables.
          py_then (write_file E ''scripts/e4_p2p_eclipse_detection/results/table6_p2p_detector_accuracy.md''
                     (py_join (NL @ NL) (map py_lines tables) @ NL))
          (py_return tables))))"

section \<open>data_preprocessor.py\<close>

definition ENVIRONMENTS :: "string list" where
  "ENVIRONMENTS = [''stable'', ''noisy_btc'', ''noisy_da'', ''noisy_p2p'', ''combined_adversarial'']"

record sweep_row =
  sw_cells :: csv_dict
  sw_hysteresis_wait :: int
  sw_reached_anchored :: bool
  sw_first_anchored_at :: int
  sw_flapping_count :: int
  sw_total_transitions :: int
  sw_anchored_uptime :: rat

definition sweep_row_of :: "csv_dict \<Rightarrow> sweep_row result" where
  "sweep_row_of r =
     rbind (item_int r ''hysteresis_wait'') (\<lambda>hw.
     rbind (item_true r ''reached_anchored'') (\<lambda>reached.
     rbind (item_int r ''first_anchored_at'') (\<lambda>first.
     rbind (item_int r ''flapping_count'') (\<lambda>flaps.
     rbind (item_int r ''total_transitions'') (\<lambda>total.
     rbind (item_float r ''anchored_uptime'') (\<lambda>uptime.
     Inr \<lparr>sw_cells = r, sw_hysteresis_wait = hw, sw_reached_anchored = reached, sw_first_anchored_at = first,
          sw_flapping_count = flaps, sw_total_transitions = total, sw_anchored_uptime = uptime\<rparr>))))))"

definition load_rows :: "sweep_row list py" where
  "load_rows = py_bind (load_csv (path_join E2E_RESULTS_DIR ''e5_hysteresis_sweep.csv'')) (\<lambda>rows.
     py_lift (rmap_list sweep_row_of rows))"

definition load_rows_5b :: "(csv_dict \<times> int \<times> rat) list py" where
  "load_rows_5b = py_bind (load_csv (path_join E2E_RESULTS_DIR ''e5b_down_hysteresis_sweep.csv'')) (\<lambda>rows.
     py_lift (rmap_list (\<lambda>r. rbind (item_int r ''down_hysteresis_threshold'') (\<lambda>t.
       rbind (item_float r ''anchored_uptime'') (\<lambda>u. Inr (r, t, u)))) rows))"

definition load_rows_5c :: "(csv_dict \<times> int \<times> rat \<times> rat) list py" where
  "load_rows_5c = py_bind (load_csv (path_join E2E_RESULTS_DIR ''e5c_suspicious_exit_sweep.csv'')) (\<lambda>rows.
     py_lift (rmap_list (\<lambda>r. rbind (item_int r ''suspicious_hysteresis_wait'') (\<lambda>t.
       rbind (item_float r ''anchored_uptime'') (\<lambda>u.
       rbind (item_float r ''absorption_rate'') (\<lambda>a. Inr (r, t, u, a))))) rows))"

text \<open>\<^verbatim>\<open>ENVIRONMENTS.index(x)\<close>\<close>

fun list_index :: "'a list \<Rightarrow> 'a \<Rightarrow> nat result" where
  "list_index [] x = Inl (Exn ValueError ''is not in list'')"
| "list_index (y # ys) x = (if x = y then Inr 0 else rbind (list_index ys x) (\<lambda>i. Inr (Suc i)))"

definition sweep_key :: "sweep_row \<Rightarrow> (int \<times> nat) result" where
  "sweep_key r =
     rbind (dict_item (sw_cells r) ''environment'') (\<lambda>e.
     rbind (list_index (map Some ENVIRONMENTS) e) (\<lambda>i. Inr (sw_hysteresis_wait r, i)))"

definition sweep_line :: "sweep_row \<Rightarrow> string result" where
  "sweep_line r =
     rbind (item_text (sw_cells r) ''environment'') (\<lambda>e.
     rbind (item_text (sw_cells r) ''final_state'') (\<lambda>fin.
     Inr (''| '' @ py_str_int (sw_hysteresis_wait r) @ '' | '' @ e @ '' | '' @ (if sw_reached_anchored r then ''yes'' else ''NO'')
          @ '' | '' @ (if 0 \<le> sw_first_anchored_at r then py_str_int (sw_first_anchored_at r) else ''never'') @ '' | '' @ fin
          @ '' | '' @ py_str_int (sw_flapping_count r) @ '' | '' @ fmt_fixed 1 (sw_anchored_uptime r * 100) @ ''% |'')))"

definition SWEEP_HEADER :: "string list" where
  "SWEEP_HEADER = [''**E5 -- Hysteresis Sweep (measured, real tests/e2e data, 5 environments, 100-block window):**'', '''',
     ''| HYSTERESIS_WAIT | Environment | Reached ANCHORED | First at (blocks) | Final State | Flapping | ANCHORED uptime |'',
     ''| ---: | --- | :---: | ---: | --- | ---: | ---: |'']"

text \<open>\<^verbatim>\<open>sorted(rows, key=...)\<close>: all keys are computed first; the sort is stable.\<close>

definition sorted_by :: "('a \<Rightarrow> ('k :: linorder) result) \<Rightarrow> 'a list \<Rightarrow> 'a list result" where
  "sorted_by key xs = rbind (rmap_list key xs) (\<lambda>ks. Inr (map snd (sort_key fst (zip ks xs))))"

definition build_sweep_table :: "sweep_row list \<Rightarrow> string list result" where
  "build_sweep_table rows =
     rbind (sorted_by sweep_key rows) (\<lambda>rs.
     rbind (rmap_list sweep_line rs) (\<lambda>ls. Inr (SWEEP_HEADER @ ls)))"

section \<open>table6c_collector.py\<close>

definition E6_RESULTS_DIR :: string where "E6_RESULTS_DIR = ''scripts/e6_zk_reanchoring_benchmark/results''"

definition REPRESENTATIVE_N :: int where "REPRESENTATIVE_N = 256"

fun row_at_n :: "csv_dict list \<Rightarrow> int \<Rightarrow> csv_dict result" where
  "row_at_n [] n = Inl (Exn ValueError (''no row with n='' @ py_str_int n @ '' in the given rows''))"
| "row_at_n (r # rs) n = rbind (item_int r ''n'') (\<lambda>k. if k = n then Inr r else row_at_n rs n)"

text \<open>\<^verbatim>\<open>f"{i:,}"\<close>: a comma between groups of three digits, counted from the right.\<close>

fun group3 :: "string \<Rightarrow> string" where
  "group3 (a # b # c # d # ds) = a # b # c # CHR '','' # group3 (d # ds)"
| "group3 ds = ds"

definition fmt_thousands :: "int \<Rightarrow> string" where
  "fmt_thousands i = (if i < 0 then ''-'' else []) @ rev (group3 (rev (show_nat (nat \<bar>i\<bar>))))"

text \<open>The three measured cells of a row: proof size, verification time in milliseconds, proving time in seconds.\<close>

definition measured :: "csv_dict \<Rightarrow> (int \<times> rat \<times> rat) result" where
  "measured r =
     rbind (item_int r ''proof_size_bytes'') (\<lambda>size.
     rbind (item_float r ''verify_s'') (\<lambda>v.
     rbind (item_float r ''prove_s'') (\<lambda>p. Inr (size, v * 1000, p))))"

definition BACKEND_NOTE :: string where
  "BACKEND_NOTE = ''Noir+Honk measures circuit/reanchoring/src/main.nr (Poseidon2 header-chain ''
     @ ''continuity, real nargo+bb pipeline, table6b_scaling.csv). Plonky3 measures ''
     @ ''the same dominant cost driver -- N chained Poseidon2 permutations -- via ''
     @ ''Plonky3's own first-party benchmark example (prove_prime_field_31, pinned ''
     @ ''commit a31a1443a114c58735850daa5b5fc5c43c138d9d), NOT a hand-rolled ''
     @ ''reimplementation of main.nr's exact header struct; see ''
     @ ''benchmark_plonky3.sh's header comment for why. The two circuits are ''
     @ ''therefore not bit-identical, but both genuinely isolate the same ''
     @ ''primitive (Poseidon2, two permutations per header on the Noir side) ''
     @ ''that dominates constraint count there (table6a_6b.md's regression). ''
     @ ''Trusted setup / PQ secure are well-established properties of the ''
     @ ''underlying commitment scheme (KZG pairing-based for UltraHonk, FRI ''
     @ ''hash-based for Plonky3), not per-run measurements -- qualitative ''
     @ ''facts, not fabricated numbers. Recursion is a qualitative note, not ''
     @ ''scored: Barretenberg ships documented recursive-UltraHonk support; ''
     @ ''this Plonky3 checkout (0.6.0-era) has no ready-made recursive-verifier ''
     @ ''example to measure against, so no claim is made about its recursion ''
     @ ''maturity.''"

definition backend_lines :: "int \<times> rat \<times> rat \<Rightarrow> int \<times> rat \<times> rat \<Rightarrow> string list" where
  "backend_lines noir p3 = (case (noir, p3) of ((ns, nv, np), (ps, pv, pp)) \<Rightarrow>
     [''**Table 6C -- Backend Comparison (measured, N=256 sovereign blocks):**'', '''', BACKEND_NOTE, '''',
      ''| Metric | Noir + Honk | Plonky3 (Poseidon2/FRI) |'', ''| --- | ---: | ---: |'',
      ''| Proof size | '' @ fmt_thousands ns @ '' B | '' @ fmt_thousands ps @ '' B |'',
      ''| Verify time | '' @ fmt_fixed 1 nv @ '' ms | '' @ fmt_fixed 1 pv @ '' ms |'',
      ''| Prove time | '' @ fmt_fixed 3 np @ '' s | '' @ fmt_fixed 3 pp @ '' s |'',
      ''| Trusted setup | Yes (KZG/Aztec Ignition SRS) | No (FRI, transparent) |'',
      ''| PQ secure | No (elliptic-curve pairings) | Yes (hash-based FRI) |'',
      ''| Recursion support | Documented (Barretenberg recursive-UltraHonk) | Not evaluated at this checkout (see note above) |'', '''',
      ''**Full N-sweep (both backends, real measurements):**'', '''',
      ''| N | Noir prove (s) | Noir verify (ms) | Noir proof (B) | Plonky3 prove (s) | Plonky3 verify (ms) | Plonky3 proof (B) |'',
      ''| ---: | ---: | ---: | ---: | ---: | ---: | ---: |''])"

text \<open>\<^verbatim>\<open>{int(r["n"]): r for r in rows}\<close>: the last row of each \<^verbatim>\<open>n\<close> wins.\<close>

fun by_n :: "(int, csv_dict) dict \<Rightarrow> csv_dict list \<Rightarrow> (int, csv_dict) dict result" where
  "by_n d [] = Inr d"
| "by_n d (r # rs) = rbind (item_int r ''n'') (\<lambda>n. by_n (AList.update n r d) rs)"

text \<open>The three cells of one side of a line of the sweep, in the order they are read.\<close>

definition sweep_cells :: "csv_dict \<Rightarrow> string result" where
  "sweep_cells r =
     rbind (item_float r ''prove_s'') (\<lambda>p.
     rbind (item_float r ''verify_s'') (\<lambda>v.
     rbind (item_int r ''proof_size_bytes'') (\<lambda>size.
     Inr (fmt_fixed 3 p @ '' | '' @ fmt_fixed 1 (v * 1000) @ '' | '' @ fmt_thousands size))))"

fun n_sweep :: "(int, csv_dict) dict \<Rightarrow> csv_dict list \<Rightarrow> string list result" where
  "n_sweep d [] = Inr []"
| "n_sweep d (r # rs) =
     rbind (item_int r ''n'') (\<lambda>n.
     case map_of d n of None \<Rightarrow> n_sweep d rs
     | Some q \<Rightarrow> rbind (sweep_cells r) (\<lambda>a. rbind (sweep_cells q) (\<lambda>b.
                rbind (n_sweep d rs) (\<lambda>ls. Inr ((''| '' @ py_str_int n @ '' | '' @ a @ '' | '' @ b @ '' |'') # ls)))))"

definition build_table6c :: "csv_dict list \<Rightarrow> csv_dict list \<Rightarrow> string list result" where
  "build_table6c noir_rows plonky3_rows =
     rbind (row_at_n noir_rows REPRESENTATIVE_N) (\<lambda>noir.
     rbind (row_at_n plonky3_rows REPRESENTATIVE_N) (\<lambda>p3.
     rbind (measured noir) (\<lambda>a.
     rbind (measured p3) (\<lambda>b.
     rbind (by_n [] plonky3_rows) (\<lambda>d.
     rbind (n_sweep d noir_rows) (\<lambda>ls. Inr (backend_lines a b @ ls)))))))"

section \<open>What the tables hold\<close>

lemma rmap_list_all2: "rmap_list f xs = Inr ys \<longleftrightarrow> list_all2 (\<lambda>x y. f x = Inr y) xs ys"
  by (induction xs arbitrary: ys) (auto simp: rbind_eq_Inr list_all2_Cons1)

text \<open>The row a table shows for an attack and a detector: the last one of the file with these cells.\<close>

definition matching :: "string option \<Rightarrow> string option \<Rightarrow> string option \<Rightarrow> csv_dict \<Rightarrow> bool" where
  "matching param_set a det r \<longleftrightarrow>
     map_of r ''param_set'' = Some param_set \<and> map_of r ''attack'' = Some a \<and> map_of r ''detector'' = Some det"

definition last_match :: "csv_dict list \<Rightarrow> string option \<Rightarrow> string option \<Rightarrow> string option \<Rightarrow> csv_dict option" where
  "last_match rows param_set a det =
     (let ms = filter (matching param_set a det) rows in if ms = [] then None else Some (last ms))"

lemma by_attack_lookup:
  assumes "by_attack ps d rows = Inr d'"
  shows "map_of (dict_get d' a []) det =
    (case last_match rows ps a det of None \<Rightarrow> map_of (dict_get d a []) det | Some r \<Rightarrow> Some r)"
  using assms
proof (induction ps d rows rule: by_attack.induct)
  case (2 ps d r rs)
  then obtain e where e: "index_row ps r d = Inr e" and d': "by_attack ps e rs = Inr d'" by (auto simp: rbind_eq_Inr)
  have "map_of (dict_get e a []) det = (if matching ps a det r then Some r else map_of (dict_get d a []) det)"
  proof -
    from e obtain p where p: "map_of r ''param_set'' = Some p" by (auto simp: index_row_def rbind_eq_Inr dict_item_eq_Inr)
    show ?thesis
    proof (cases "p = ps")
      case True
      with e p obtain a' det' where cells: "map_of r ''attack'' = Some a'" "map_of r ''detector'' = Some det'"
        and upd: "e = AList.update a' (AList.update det' r (dict_get d a' [])) d"
        by (auto simp: index_row_def rbind_eq_Inr dict_item_def split: option.splits)
      have "dict_get e a [] = (if a = a' then AList.update det' r (dict_get d a' []) else dict_get d a [])"
        by (simp add: upd dict_get_def update_conv')
      then show ?thesis using p True cells by (auto simp: matching_def update_conv')
    next
      case False
      with e p have "e = d" by (simp add: index_row_def dict_item_def)
      with p False show ?thesis by (simp add: matching_def)
    qed
  qed
  moreover have "last_match (r # rs) ps a det =
      (case last_match rs ps a det of None \<Rightarrow> if matching ps a det r then Some r else None | Some x \<Rightarrow> Some x)"
    by (simp add: last_match_def Let_def)
  ultimately show ?case using "2.IH" [OF d'] by (auto split: option.splits)
qed (simp add: last_match_def)

text \<open>The lines of an attack, one for each detector that has a row.\<close>

definition lines_of_attack :: "csv_dict list \<Rightarrow> string option \<Rightarrow> string \<times> string \<Rightarrow> string list \<Rightarrow> bool" where
  "lines_of_attack rows param_set al ls \<longleftrightarrow> (case al of (attack, label) \<Rightarrow>
     (let present = filter (\<lambda>(det, dname). last_match rows param_set (Some attack) (Some det) \<noteq> None) DETECTORS in
      length ls = length present \<and>
      (\<forall>i < length ls. detector_line (if i = 0 then label else []) (snd (present ! i))
         (the (last_match rows param_set (Some attack) (Some (fst (present ! i))))) = Inr (ls ! i))))"

lemma attack_lines_nth:
  assumes "attack_lines label entry first ds = Inr ls"
  shows "let present = filter (\<lambda>(det, dname). map_of entry (Some det) \<noteq> None) ds in length ls = length present \<and>
    (\<forall>i < length ls. detector_line (if i = 0 \<and> first then label else []) (snd (present ! i))
       (the (map_of entry (Some (fst (present ! i))))) = Inr (ls ! i))"
  using assms
proof (induction label entry first ds arbitrary: ls rule: attack_lines.induct)
  case (2 label entry first det dname ds)
  show ?case
  proof (cases "map_of entry (Some det)")
    case None with 2 show ?thesis by simp
  next
    case (Some r)
    with "2.prems" obtain l ls' where l: "detector_line (if first then label else []) dname r = Inr l"
      and ls': "attack_lines label entry False ds = Inr ls'" and ls: "ls = l # ls'" by (auto simp: rbind_eq_Inr)
    from "2.IH"(2) [OF Some ls'] Some l show ?thesis
      by (auto simp: ls Let_def nth_Cons' less_Suc_eq_0_disj)
  qed
qed simp

text \<open>The table of detection accuracies for a parameter set, when it can be built: after the header, attack by attack in the fixed
  order and detector by detector, there is one line for each pair that has a row in the file with this parameter
  set, made of the last such row, and only the first line of an attack carries its label.\<close>

theorem detector_table_exact:
  assumes "build_detector_table rows param_set = Inr ls"
  shows "\<exists>lss. ls = detector_header param_set @ concat lss \<and> list_all2 (lines_of_attack rows param_set) ATTACK_LABELS lss"
proof -
  from assms obtain d lss where d: "by_attack param_set [] rows = Inr d" and ls: "ls = detector_header param_set @ concat lss"
    and lss: "list_all2 (\<lambda>al. \<lambda>L. (case al of (attack, label) \<Rightarrow> attack_lines label (dict_get d (Some attack) []) True DETECTORS) = Inr L)
        ATTACK_LABELS lss"
    by (auto simp: build_detector_table_def rbind_eq_Inr rmap_list_all2)
  have entry: "map_of (dict_get d (Some attack) []) (Some det) = last_match rows param_set (Some attack) (Some det)" for attack det
    using by_attack_lookup [OF d] by (simp add: dict_get_def split: option.splits)
  have "lines_of_attack rows param_set al L"
    if "(case al of (attack, label) \<Rightarrow> attack_lines label (dict_get d (Some attack) []) True DETECTORS) = Inr L" for al L
  proof (cases al)
    case (Pair attack label)
    with that have "attack_lines label (dict_get d (Some attack) []) True DETECTORS = Inr L" by simp
    from attack_lines_nth [OF this] show ?thesis
      unfolding lines_of_attack_def Pair prod.case entry Let_def simp_thms(21) .
  qed
  with lss have "list_all2 (lines_of_attack rows param_set) ATTACK_LABELS lss" by (auto elim: list_all2_mono)
  with ls show ?thesis by blast
qed

lemma sort_key_zip:
  fixes ks :: "'k :: linorder list"
  assumes "length ks = length xs"
  shows "mset (map snd (sort_key fst (zip ks xs))) = mset xs"
proof -
  have "mset (map snd (sort_key fst (zip ks xs))) = image_mset snd (mset (zip ks xs))" by simp
  also have "\<dots> = mset (map snd (zip ks xs))" by simp
  finally show ?thesis using assms by (simp only: map_snd_zip)
qed

lemma list_index_set: "list_index ys x = Inr i \<Longrightarrow> i < length ys \<and> ys ! i = x"
  by (induction ys arbitrary: i) (auto simp: rbind_eq_Inr split: if_splits)

text \<open>A sorted list holds the same elements, ascending in their keys, and keeps the order of the elements with equal keys.\<close>

definition sorted_rows :: "('a \<Rightarrow> ('k :: linorder) result) \<Rightarrow> 'a list \<Rightarrow> 'a list \<Rightarrow> bool" where
  "sorted_rows key xs ys \<longleftrightarrow> mset ys = mset xs \<and>
     (\<exists>ks. list_all2 (\<lambda>y k. key y = Inr k) ys ks \<and> sorted ks) \<and>
     (\<forall>k. filter (\<lambda>x. key x = Inr k) ys = filter (\<lambda>x. key x = Inr k) xs)"

lemma sorted_by_rows:
  assumes "sorted_by key xs = Inr ys"
  shows "sorted_rows key xs ys"
proof -
  from assms obtain ks where ks: "list_all2 (\<lambda>x k. key x = Inr k) xs ks"
    and ys: "ys = map snd (sort_key fst (zip ks xs))" by (auto simp: sorted_by_def rbind_eq_Inr rmap_list_all2)
  let ?z = "zip ks xs"
  have len: "length ks = length xs" using ks by (simp add: list_all2_lengthD)
  have z: "key x = Inr k" if "(k, x) \<in> set ?z" for k x
    using ks that by (auto simp: list_all2_conv_all_nth set_zip)
  have "list_all2 (\<lambda>y k. key y = Inr k) ys (map fst (sort_key fst ?z))"
    unfolding ys by (auto simp: list_all2_conv_all_nth intro!: z nth_mem [of _ "sort_key fst ?z", simplified])
  moreover have "filter (\<lambda>x. key x = Inr k) ys = filter (\<lambda>x. key x = Inr k) xs" for k
  proof -
    have key: "(key (snd p) = Inr k) = (fst p = k)" if "p \<in> set ?z" for p using z [of "fst p" "snd p"] that by auto
    have "filter (\<lambda>x. key x = Inr k) ys = map snd (filter (\<lambda>p. key (snd p) = Inr k) (sort_key fst ?z))"
      by (simp add: ys filter_map comp_def)
    also have "\<dots> = map snd (filter (\<lambda>p. fst p = k) (sort_key fst ?z))"
      by (rule arg_cong [where f = "map snd"], rule filter_cong) (auto simp: key)
    also have "\<dots> = map snd (filter (\<lambda>p. fst p = k) ?z)" by (simp add: sort_key_stable)
    also have "\<dots> = map snd (filter (\<lambda>p. key (snd p) = Inr k) ?z)"
      by (rule arg_cong [where f = "map snd"], rule filter_cong) (auto simp: key)
    also have "\<dots> = filter (\<lambda>x. key x = Inr k) (map snd ?z)" by (simp add: filter_map comp_def)
    finally show ?thesis using len by simp
  qed
  ultimately show ?thesis unfolding sorted_rows_def using sort_key_zip [OF len] ys sorted_sort_key by blast
qed

text \<open>The table of the hysteresis sweep, when it can be built: after the header there is one line for each row of the
  file, ascending in the waiting parameter and, within one, in the order of the five environments; rows with the same
  parameter and environment keep their order; and every row has one of the five environments.\<close>

theorem sweep_table_exact:
  assumes "build_sweep_table rows = Inr ls"
  shows "\<exists>rs. sorted_rows sweep_key rows rs \<and> list_all2 (\<lambda>r l. sweep_line r = Inr l) rs (drop (length SWEEP_HEADER) ls) \<and>
    take (length SWEEP_HEADER) ls = SWEEP_HEADER \<and> length ls = length SWEEP_HEADER + length rows \<and>
    list_all (\<lambda>r. \<exists>e \<in> set ENVIRONMENTS. map_of (sw_cells r) ''environment'' = Some (Some e)) rows"
proof -
  from assms obtain rs ms where rs: "sorted_by sweep_key rows = Inr rs" and ms: "list_all2 (\<lambda>r l. sweep_line r = Inr l) rs ms"
    and ls: "ls = SWEEP_HEADER @ ms" by (auto simp: build_sweep_table_def rbind_eq_Inr rmap_list_all2)
  from rs obtain ks where ks: "list_all2 (\<lambda>r k. sweep_key r = Inr k) rows ks"
    by (auto simp: sorted_by_def rbind_eq_Inr rmap_list_all2)
  have env: "\<exists>e \<in> set ENVIRONMENTS. map_of (sw_cells r) ''environment'' = Some (Some e)" if k: "sweep_key r = Inr k" for r k
  proof -
    from k obtain e i where e: "map_of (sw_cells r) ''environment'' = Some e" and i: "list_index (map Some ENVIRONMENTS) e = Inr i"
      by (auto simp: sweep_key_def rbind_eq_Inr dict_item_eq_Inr)
    from list_index_set [OF i] have "e = Some (ENVIRONMENTS ! i)" "ENVIRONMENTS ! i \<in> set ENVIRONMENTS" by auto
    with e show ?thesis by blast
  qed
  have "list_all (\<lambda>r. \<exists>e \<in> set ENVIRONMENTS. map_of (sw_cells r) ''environment'' = Some (Some e)) rows"
    unfolding list_all_length using list_all2_nthD [OF ks] env by blast
  moreover have sorted: "sorted_rows sweep_key rows rs" by (rule sorted_by_rows [OF rs])
  moreover have "length ms = length rows"
    using list_all2_lengthD [OF ms] sorted by (metis sorted_rows_def size_mset)
  moreover have "drop (length SWEEP_HEADER) ls = ms" "take (length SWEEP_HEADER) ls = SWEEP_HEADER" by (simp_all add: ls)
  ultimately show ?thesis using ms unfolding ls by (intro exI [of _ rs] conjI) simp_all
qed

text \<open>The failure matrix: one line for each file of the listing that matches the pattern and has a row, in the order of the names.\<close>

lemma wp_failure_step:
  "wp (failure_step ls n) (\<lambda>ls' w'. w' = w \<and> (\<exists>raw. fs w (path_join E2E_RESULTS_DIR n) = Some raw \<and>
      (if csv_dicts raw = [] then ls' = ls
       else \<exists>l. failure_line (stem n) (last (csv_dicts raw)) = Inr l \<and> ls' = ls @ [l]))) (\<lambda>_ _. True) w"
  by (auto simp: failure_step_def load_last_row_def load_csv_def wp_simps split: option.splits sum.splits)

definition failure_lines :: "(string \<Rightarrow> string option) \<Rightarrow> string list \<Rightarrow> string list \<Rightarrow> bool" where
  "failure_lines files names new \<longleftrightarrow>
     list_all (\<lambda>n. files (path_join E2E_RESULTS_DIR n) \<noteq> None) names \<and>
     list_all2 (\<lambda>(n, row) l. failure_line (stem n) row = Inr l)
       (concat (map (\<lambda>n. case csv_dicts (the (files (path_join E2E_RESULTS_DIR n))) of [] \<Rightarrow> [] | r # rs \<Rightarrow> [(n, last (r # rs))]) names)) new"

lemma wp_failure_fold:
  "wp (py_fold failure_step ls names) (\<lambda>ls' w'. w' = w \<and> (\<exists>new. ls' = ls @ new \<and> failure_lines (fs w) names new)) (\<lambda>_ _. True) w"
proof (induction names arbitrary: ls)
  case (Cons n names)
  show ?case unfolding py_fold.simps wp_bind
  proof (rule wp_mono [OF wp_failure_step])
    fix ls1 w1
    assume "w1 = w \<and> (\<exists>raw. fs w (path_join E2E_RESULTS_DIR n) = Some raw \<and>
      (if csv_dicts raw = [] then ls1 = ls
       else \<exists>l. failure_line (stem n) (last (csv_dicts raw)) = Inr l \<and> ls1 = ls @ [l]))"
    then obtain raw new where w1: "w1 = w" "fs w (path_join E2E_RESULTS_DIR n) = Some raw" "ls1 = ls @ new"
      and new: "if csv_dicts raw = [] then new = [] else \<exists>l. failure_line (stem n) (last (csv_dicts raw)) = Inr l \<and> new = [l]"
      by (auto split: if_splits)
    have "failure_lines (fs w) (n # names) (new @ rest)" if "failure_lines (fs w) names rest" for rest
      using that new w1(2) by (cases "csv_dicts raw") (auto simp: failure_lines_def)
    then show "wp (py_fold failure_step ls1 names)
        (\<lambda>ls' w'. w' = w \<and> (\<exists>new. ls' = ls @ new \<and> failure_lines (fs w) (n # names) new)) (\<lambda>_ _. True) w1"
      using Cons.IH [of ls1] unfolding w1 by (auto elim!: wp_mono)
  qed simp
qed (simp add: wp_simps failure_lines_def)

theorem failure_matrix_exact:
  assumes "failure_main E listing w = Some (Inr ls, w')"
  shows "\<exists>new. ls = FAILURE_HEADER @ new \<and> failure_lines (fs w) (scenario_files listing) new \<and> scenario_files listing \<noteq> [] \<and>
    fs w' ''scripts/e3_failure_matrix/results/table2_failure_matrix.md'' = Some (py_lines ls @ NL)"
proof -
  have "wp (failure_main E listing) (\<lambda>ls w'. \<exists>new. ls = FAILURE_HEADER @ new \<and> failure_lines (fs w) (scenario_files listing) new \<and>
    scenario_files listing \<noteq> [] \<and> fs w' ''scripts/e3_failure_matrix/results/table2_failure_matrix.md'' = Some (py_lines ls @ NL)) (\<lambda>_ _. True) w"
    unfolding failure_main_def build_failure_table_def wp_bind
    by (auto simp: wp_simps emit_def intro!: wp_mono [OF wp_failure_fold])
  from wp_Inr [OF assms this] show ?thesis .
qed

text \<open>The three conditions of the Bitcoin gap.\<close>

lemma btc_condition_cases:
  "btc_condition gap = ''healthy'' \<longleftrightarrow> gap = 0" "btc_condition gap = ''critical'' \<longleftrightarrow> BTC_SOVEREIGN_THRESHOLD \<le> gap"
  by (auto simp: btc_condition_def BTC_SOVEREIGN_THRESHOLD_def)

text \<open>Two files: a sweep with two rows out of order, and a comparison with a row that is replaced by a later one.\<close>

definition sweep_example :: "sweep_row list" where
  "sweep_example = map (\<lambda>(hw, e). \<lparr>sw_cells = [(''environment'', Some e), (''final_state'', Some ''ANCHORED'')],
     sw_hysteresis_wait = hw, sw_reached_anchored = True, sw_first_anchored_at = 3, sw_flapping_count = 0, sw_total_transitions = 3,
     sw_anchored_uptime = 1 / 3\<rparr>) [(1, ''stable''), (0, ''noisy_da''), (0, ''stable'')]"

lemma sweep_example_builds: "\<exists>ls. build_sweep_table sweep_example = Inr ls"
  by (simp add: build_sweep_table_def sweep_example_def sorted_by_def sweep_key_def ENVIRONMENTS_def dict_item_def sweep_line_def
      item_text_def)

theorem sweep_table_exact_witness:
  "\<exists>ls rs. build_sweep_table sweep_example = Inr ls \<and> sorted_rows sweep_key sweep_example rs \<and> length ls = length SWEEP_HEADER + 3"
proof -
  obtain ls where ls: "build_sweep_table sweep_example = Inr ls" using sweep_example_builds by blast
  have "length sweep_example = 3" by (simp add: sweep_example_def)
  with sweep_table_exact [OF ls] ls show ?thesis by auto
qed

definition detector_example :: "csv_dict list" where
  "detector_example = map (\<lambda>fpr. [(''param_set'', Some ''default''), (''attack'', Some ''A4_RelayNodeAttack''), (''detector'', Some ''tri_interface''),
     (''fpr'', Some fpr), (''fnr'', Some ''0''), (''avg_detection_delay_snapshots'', Some ''2'')]) [''1'', ''0'']"

lemma detector_example_lines:
  "build_detector_table detector_example (Some ''default'') = Inr (detector_header (Some ''default'') @
     [''| Relay Node Attack | **Tri-interface** | 0.0% | 0.0% | 2 |''])"
proof -
  have f: "py_float ''0'' = Inr 0" "py_float ''2'' = Inr 2" by code_simp+
  have z: "fmt_fixed (Suc 0) 0 = ''0.0''" by code_simp
  show ?thesis
    by (simp add: build_detector_table_def detector_example_def index_row_def dict_item_def dict_get_def ATTACK_LABELS_def DETECTORS_def
        detector_line_def item_float_def item_text_def cell_float_def cell_text_def f z)
qed

theorem detector_table_exact_witness:
  "\<exists>lss. build_detector_table detector_example (Some ''default'') = Inr (detector_header (Some ''default'') @ concat lss) \<and>
     list_all2 (lines_of_attack detector_example (Some ''default'')) ATTACK_LABELS lss"
  using detector_table_exact [OF detector_example_lines] detector_example_lines by force

section \<open>The comparison of the provers\<close>

lemma group3_digits: "CHR '','' \<notin> set s \<Longrightarrow> filter (\<lambda>c. c \<noteq> CHR '','') (group3 s) = s"
  by (induction s rule: group3.induct) auto

lemma show_nat_no_comma: "CHR '','' \<notin> set (show_nat n)"
proof
  assume "CHR '','' \<in> set (show_nat n)"
  with show_nat_digits [of n] have "is_digit CHR '',''" by blast
  then show False by (simp add: is_digit_def code_of_def)
qed

text \<open>Without its commas a number with thousands separators is the number.\<close>

theorem fmt_thousands_digits: "filter (\<lambda>c. c \<noteq> CHR '','') (fmt_thousands i) = py_str_int i"
proof -
  have "filter (\<lambda>c. c \<noteq> CHR '','') (rev (group3 (rev (show_nat n)))) = show_nat n" for n
  proof -
    have "filter (\<lambda>c. c \<noteq> CHR '','') (rev (group3 (rev (show_nat n)))) = rev (filter (\<lambda>c. c \<noteq> CHR '','') (group3 (rev (show_nat n))))"
      by (rule rev_filter [symmetric])
    then show ?thesis using group3_digits [of "rev (show_nat n)"] show_nat_no_comma by simp
  qed
  then show ?thesis by (simp add: fmt_thousands_def py_str_int_def)
qed

lemma by_n_lookup:
  "by_n d rows = Inr d' \<Longrightarrow> map_of d' n =
     (let ms = filter (\<lambda>r. item_int r ''n'' = Inr n) rows in if ms = [] then map_of d n else Some (last ms))"
proof (induction d rows rule: by_n.induct)
  case (2 d r rs)
  then obtain k where k: "item_int r ''n'' = Inr k" and d': "by_n (AList.update k r d) rs = Inr d'" by (auto simp: rbind_eq_Inr)
  from "2.IH" [OF d'] show ?case by (auto simp: Let_def k update_conv')
qed simp

lemma row_at_n_first: "row_at_n rows n = Inr r \<Longrightarrow> filter (\<lambda>r. item_int r ''n'' = Inr n) rows \<noteq> [] \<and>
    r = hd (filter (\<lambda>r. item_int r ''n'' = Inr n) rows)"
  by (induction rows n rule: row_at_n.induct) (auto simp: rbind_eq_Inr split: if_splits)

lemma n_sweep_length:
  "n_sweep d rows = Inr ls \<Longrightarrow> length ls = length (filter (\<lambda>r. \<exists>n. item_int r ''n'' = Inr n \<and> map_of d n \<noteq> None) rows)"
proof (induction rows arbitrary: ls)
  case (Cons r rs)
  then obtain n where n: "item_int r ''n'' = Inr n" by (auto simp: rbind_eq_Inr)
  with Cons show ?case by (cases "map_of d n") (auto simp: rbind_eq_Inr)
qed simp

text \<open>The table of the two provers: the headline takes the first row with the representative number of blocks on each side, and the sweep
  has one line for each row of the first file whose number of blocks the second file has too, paired with the
  last such row there.\<close>

theorem backend_table_exact:
  assumes "build_table6c noir_rows plonky3_rows = Inr ls"
  shows "\<exists>noir p3 a b d new.
    noir = hd (filter (\<lambda>r. item_int r ''n'' = Inr REPRESENTATIVE_N) noir_rows) \<and> measured noir = Inr a \<and>
    p3 = hd (filter (\<lambda>r. item_int r ''n'' = Inr REPRESENTATIVE_N) plonky3_rows) \<and> measured p3 = Inr b \<and>
    (\<forall>n. map_of d n = (let ms = filter (\<lambda>r. item_int r ''n'' = Inr n) plonky3_rows in if ms = [] then None else Some (last ms))) \<and>
    ls = backend_lines a b @ new \<and> n_sweep d noir_rows = Inr new \<and>
    length new = length (filter (\<lambda>r. \<exists>n. item_int r ''n'' = Inr n \<and> (\<exists>q \<in> set plonky3_rows. item_int q ''n'' = Inr n)) noir_rows)"
proof -
  from assms obtain noir p3 a b d new where r: "row_at_n noir_rows REPRESENTATIVE_N = Inr noir" "row_at_n plonky3_rows REPRESENTATIVE_N = Inr p3"
    "measured noir = Inr a" "measured p3 = Inr b" and d: "by_n [] plonky3_rows = Inr d" and new: "n_sweep d noir_rows = Inr new"
    and ls: "ls = backend_lines a b @ new"
    by (auto simp: build_table6c_def rbind_eq_Inr)
  have look: "map_of d n = (let ms = filter (\<lambda>r. item_int r ''n'' = Inr n) plonky3_rows in if ms = [] then None else Some (last ms))" for n
    using by_n_lookup [OF d, of n] by (simp add: Let_def)
  have "(map_of d n \<noteq> None) = (\<exists>q \<in> set plonky3_rows. item_int q ''n'' = Inr n)" for n
    unfolding look by (auto simp: Let_def filter_empty_conv)
  with n_sweep_length [OF new] have len: "length new = length (filter (\<lambda>r. \<exists>n. item_int r ''n'' = Inr n \<and>
      (\<exists>q \<in> set plonky3_rows. item_int q ''n'' = Inr n)) noir_rows)" by simp
  show ?thesis using row_at_n_first [OF r(1)] row_at_n_first [OF r(2)] r(3,4) look ls new len by blast
qed

section \<open>The live table of recorded runs\<close>

text \<open>What the table should say of a scenario whose samples are \<open>ss\<close>.\<close>

definition settled_line :: "string \<Rightarrow> NodeSample list \<Rightarrow> string" where
  "settled_line name ss =
     ''| '' @ dict_get SCENARIO_LABELS name name @ '' | '' @ fsm_state (last ss) @ '' | '' @ py_str_int (height (last ss)) @ '' | ''
     @ (if fsm_state (last ss) = ''SOVEREIGN'' \<or> fsm_state (last ss) = ''RECOVERING'' then ''locked'' else ''enabled'')
     @ '' | '' @ show_nat (length ss) @ '' |''"

lemma live_line_recorded: "ss \<noteq> [] \<Longrightarrow> live_line name (csv_dicts (samples_csv E ss)) = settled_line name ss"
  by (simp add: live_line_def samples_csv_dicts settled_line_def last_map Let_def dict_get_def SAMPLE_FIELDS_def sample_row_def
      cell_text_def WITHDRAW_LOCKED_STATES_def)

lemma samples_csv_empty [simp]: "csv_dicts (samples_csv E ss) = [] \<longleftrightarrow> ss = []"
  by (simp add: samples_csv_dicts)

lemma live_fold_recorded:
  assumes "\<forall>n \<in> set names. fs w (path_join LIVE_RESULTS_DIR n) = Some (samples_csv E (ss n))"
  shows "py_fold live_step ls names w =
    Some (Inr (ls @ map (\<lambda>n. settled_line (stem n) (ss n)) (filter (\<lambda>n. ss n \<noteq> []) names)), w)"
  using assms
proof (induction names arbitrary: ls)
  case (Cons n names)
  have "live_step ls n w = Some (Inr (if ss n = [] then ls else ls @ [settled_line (stem n) (ss n)]), w)"
    using Cons.prems by (simp add: live_step_def load_csv_def py_bind_def read_file_def py_return_def live_line_recorded)
  with Cons show ?case by (simp add: py_bind_def)
qed (simp add: py_return_def)

text \<open>C31. The live failure matrix of recorded scenarios: if every matching file holds what the logger wrote for a list of samples, the
  script succeeds and writes, in the order of the names, one line for each scenario with at least one sample, with the state
  and the height of its last sample, withdrawals locked exactly in the states SOVEREIGN and RECOVERING, and the
  number of samples.\<close>

theorem live_table_of_recorded_runs:
  assumes "scenario_files listing \<noteq> []"
    and "\<forall>n \<in> set (scenario_files listing). fs w (path_join LIVE_RESULTS_DIR n) = Some (samples_csv E (ss n))"
  shows "\<exists>w' ls. live_failure_main E listing w = Some (Inr ls, w') \<and>
    ls = LIVE_HEADER @ map (\<lambda>n. settled_line (stem n) (ss n)) (filter (\<lambda>n. ss n \<noteq> []) (scenario_files listing)) \<and>
    fs w' LIVE_TABLE_OUT = Some (py_lines ls @ NL)"
  using assms(1) live_fold_recorded [OF assms(2)]
  by (simp add: live_failure_main_def build_live_table_def py_bind_def py_then_def write_file_def py_return_def)

text \<open>A recorded scenario whose last query failed.\<close>

definition failed_last :: "NodeSample list" where
  "failed_last = [error_sample 0 ''engram-node01'' (Exn URLError ''refused'')]"

text \<open>The line shows the sentinel of the failed query as the settled outcome.\<close>

lemma failed_last_line: "settled_line ''s7_recovery'' failed_last = ''| S7 Recovery (settled) |  | -1 | enabled | 1 |''"
  by code_simp

lemma failed_last_files: "scenario_files [''notes.md'', ''s7_recovery.csv''] = [''s7_recovery.csv'']" "stem ''s7_recovery.csv'' = ''s7_recovery''"
  by code_simp+

theorem live_table_of_recorded_runs_witness:
  "\<exists>w' ls. live_failure_main finished_env [''notes.md'', ''s7_recovery.csv'']
       (start_world\<lparr>fs := (\<lambda>_. Some (samples_csv finished_env failed_last))\<rparr>) = Some (Inr ls, w') \<and>
     ls = LIVE_HEADER @ [''| S7 Recovery (settled) |  | -1 | enabled | 1 |'']"
proof -
  have "failed_last \<noteq> []" by (simp add: failed_last_def)
  then show ?thesis
    using live_table_of_recorded_runs [of "[''notes.md'', ''s7_recovery.csv'']"
      "start_world\<lparr>fs := (\<lambda>_. Some (samples_csv finished_env failed_last))\<rparr>" finished_env "\<lambda>_. failed_last"]
    by (simp add: failed_last_files failed_last_line) blast
qed

end
