(* ===== verification/Bitcoin_Reorg.thy ===== *)
theory Bitcoin_Reorg
  imports Load_Comparison
begin

text \<open>
  \<^verbatim>\<open>scripts/e10_bitcoin_reorg/live_reorg_test.py\<close>: the miner of the first Bitcoin node is frozen, the second node is isolated and made to build a
  longer chain from an earlier block, and is connected again, so that the first node has to reorganise its chain.

  Shown here: the commands of a completed run, and that the miner is resumed however the run ends once the second node was isolated.
\<close>

definition E10_RESULTS_DIR :: string where "E10_RESULTS_DIR = ''scripts/e10_bitcoin_reorg/results_live''"

definition NODE01 :: string where "NODE01 = ''bitcoin-node01''"

definition NODE02 :: string where "NODE02 = ''bitcoin-node02''"

definition MINER_LOOP :: string where "MINER_LOOP = ''bitcoin-miner-loop''"

definition MINER_PAUSE_FILE :: string where "MINER_PAUSE_FILE = ''/tmp/miner_interval_override''"

definition MINER_PAUSE_INTERVAL :: string where "MINER_PAUSE_INTERVAL = ''99999''"

text \<open>One round of \<^verbatim>\<open>poll\<close>; the line it prints asks for the height of the first node.\<close>

definition reorg_round :: "env \<Rightarrow> rat \<Rightarrow> NodeSample list \<Rightarrow> (NodeSample list, unit) ctl py" where
  "reorg_round E interval samples =
     py_bind (sample_all_nodes E []) (\<lambda>round_samples.
     py_then (bitcoin_height E NODE01)
     (py_then (time_sleep E interval) (py_return (Continue (samples @ round_samples)))))"

definition reorg_poll :: "env \<Rightarrow> rat \<Rightarrow> rat \<Rightarrow> NodeSample list \<Rightarrow> NodeSample list py" where
  "reorg_poll E seconds interval samples =
     py_bind time_time (\<lambda>t0.
     py_bind (py_while (\<lambda>_ w. clock w < t0 + seconds) (reorg_round E interval) samples) loop_state)"

definition freeze_cmd :: "string list" where
  "freeze_cmd = [''docker'', ''exec'', MINER_LOOP, ''sh'', ''-c'', ''echo '' @ MINER_PAUSE_INTERVAL @ '' > '' @ MINER_PAUSE_FILE]"

definition resume_cmd :: "string list" where
  "resume_cmd = [''docker'', ''exec'', MINER_LOOP, ''rm'', ''-f'', MINER_PAUSE_FILE]"

definition pause_node01_mining :: "env \<Rightarrow> bool \<Rightarrow> unit py" where
  "pause_node01_mining E paused = py_then (run_proc E (if paused then freeze_cmd else resume_cmd) True) (py_return ())"

definition WALLET :: string where "WALLET = ''-rpcwallet=reorgwallet''"

definition ensure_node02_wallet :: "env \<Rightarrow> string py" where
  "ensure_node02_wallet E =
     py_try (bitcoin_cli E [WALLET, ''getnewaddress''] NODE02) [RuntimeError]
       (\<lambda>_. py_then (bitcoin_cli E [''createwallet'', ''reorgwallet''] NODE02) (bitcoin_cli E [WALLET, ''getnewaddress''] NODE02))"

record reorg_result =
  ro_h1_before :: int
  ro_h1_after :: int
  ro_h2_after :: int
  ro_target :: int
  ro_actually_reorged :: bool
  ro_samples :: "NodeSample list"

text \<open>The body of the \<^verbatim>\<open>try\<close> statement, from the isolation of the second node to the end of the last poll.\<close>

definition fork_height :: "int \<Rightarrow> int \<Rightarrow> int" where
  "fork_height h1_before reorg_depth = h1_before - reorg_depth + 1"

definition build_branch :: "env \<Rightarrow> int \<Rightarrow> int \<Rightarrow> int py" where
  "build_branch E h1_before reorg_depth = py_bind (bitcoin_cli E [''getblockhash'', py_str_int (fork_height h1_before reorg_depth)] NODE02) (\<lambda>fork_hash.
     py_then (bitcoin_cli E [''invalidateblock'', fork_hash] NODE02)
     (py_bind (bitcoin_height E NODE02) (\<lambda>tip.
     py_bind (ensure_node02_wallet E) (\<lambda>addr.
     py_then ((if 0 < h1_before + 1 - tip
      then py_then (bitcoin_cli E [WALLET, ''generatetoaddress'', py_str_int (h1_before + 1 - tip), addr] NODE02) (py_return ())
      else py_return ()))
     (py_bind (bitcoin_height E NODE02) (\<lambda>h2_after.
     py_then (bitcoin_cli E [''getblockhash'', py_str_int h1_before] NODE02)
     (py_return h2_after)))))))"

definition force_reorg :: "env \<Rightarrow> int \<Rightarrow> int \<Rightarrow> rat \<Rightarrow> NodeSample list \<Rightarrow> (int \<times> NodeSample list) py" where
  "force_reorg E h1_before reorg_depth settle_s samples = py_then (bitcoin_cli E [''setnetworkactive'', ''false''] NODE02)
     (py_bind (build_branch E h1_before reorg_depth) (\<lambda>h2_after.
     py_bind (reorg_poll E 10 3 samples) (\<lambda>s1.
     py_then (bitcoin_height E NODE01)
     (py_then (bitcoin_cli E [''setnetworkactive'', ''true''] NODE02)
     (py_bind (reorg_poll E settle_s 2 s1) (\<lambda>s2.
     py_return (h2_after, s2)))))))"

text \<open>\<^verbatim>\<open>args.reorg_depth or (1 if args.depth == "shallow" else 5)\<close>\<close>

definition depth_of :: "string \<Rightarrow> int option \<Rightarrow> int" where
  "depth_of depth reorg_depth =
     (case reorg_depth of None \<Rightarrow> if depth = ''shallow'' then 1 else 5
      | Some d \<Rightarrow> if d = 0 then (if depth = ''shallow'' then 1 else 5) else d)"

definition reorg_main :: "env \<Rightarrow> string \<Rightarrow> int option \<Rightarrow> rat \<Rightarrow> reorg_result py" where
  "reorg_main E depth reorg_depth settle_s = py_bind (reorg_poll E 15 3 []) (\<lambda>s0.
     py_then (pause_node01_mining E True)
     (py_then (time_sleep E 25)
     (py_bind (bitcoin_height E NODE01) (\<lambda>h1_before.
     py_then (bitcoin_height E NODE02)
     (py_bind (bitcoin_cli E [''getblockhash'', py_str_int h1_before] NODE01) (\<lambda>orphan_hash.
     py_bind (py_finally (force_reorg E h1_before (depth_of depth reorg_depth) settle_s s0) (pause_node01_mining E False)) (\<lambda>res.
     py_bind (bitcoin_height E NODE01) (\<lambda>h1_after.
     py_bind (bitcoin_cli E [''getblockhash'', py_str_int h1_before] NODE01) (\<lambda>reorg_hash.
     py_bind (ts_label E) (\<lambda>label.
     py_then (write_csv E (snd res) (path_join E10_RESULTS_DIR (''reorg_'' @ depth @ ''_'' @ label @ ''.csv'')))
     (py_return \<lparr>ro_h1_before = h1_before, ro_h1_after = h1_after, ro_h2_after = fst res, ro_target = h1_before + 1,
       ro_actually_reorged = (reorg_hash \<noteq> orphan_hash), ro_samples = snd res\<rparr>)))))))))))"

section \<open>The commands of a run\<close>

datatype reorg_control = Freeze | Resume | Isolate | Reconnect | Invalidate string | Mine string string

fun cli_control :: "string list \<Rightarrow> reorg_control list" where
  "cli_control [c, x] =
     (if c = ''setnetworkactive'' then (if x = ''false'' then [Isolate] else if x = ''true'' then [Reconnect] else [])
      else if c = ''invalidateblock'' then [Invalidate x] else [])"
| "cli_control [w, c, n, a] = (if c = ''generatetoaddress'' then [Mine n a] else [])"
| "cli_control args = []"

fun control :: "event \<Rightarrow> reorg_control list" where
  "control (RunProc argv vars r) =
     (if argv = freeze_cmd then [Freeze] else if argv = resume_cmd then [Resume] else cli_control (drop 7 argv))"
| "control ev = []"

lemmas reorg_names = NODE01_def NODE02_def MINER_LOOP_def MINER_PAUSE_FILE_def MINER_PAUSE_INTERVAL_def WALLET_def

lemma control_cli [simp]:
  "control (RunProc ([''docker'', ''exec'', n, ''bitcoin-cli'', ''-regtest'', u, p] @ args) vars r) = cli_control args"
  by (simp add: freeze_cmd_def resume_cmd_def)

lemma control_miner [simp]: "control (RunProc freeze_cmd vars r) = [Freeze]" "control (RunProc resume_cmd vars r) = [Resume]"
  by (simp_all add: freeze_cmd_def resume_cmd_def)

abbreviation uncontrolled :: "'a py \<Rightarrow> bool" where
  "uncontrolled m \<equiv> emits (\<lambda>ev. control ev = []) m"

lemma cli_emits: "(\<And>u p r. S (RunProc ([''docker'', ''exec'', n, ''bitcoin-cli'', ''-regtest'', u, p] @ args) [] r)) \<Longrightarrow> emits S (bitcoin_cli E args n)"
  unfolding bitcoin_cli_def Let_def by (intro emits_intros) simp

lemma cli_uncontrolled: "cli_control args = [] \<Longrightarrow> uncontrolled (bitcoin_cli E args n)"
  by (rule cli_emits) (simp only: control_cli)

lemma height_uncontrolled [emits_intros]: "uncontrolled (bitcoin_height E n)"
  unfolding bitcoin_height_def by (intro emits_intros cli_uncontrolled) simp

lemma poll_uncontrolled [emits_intros]: "uncontrolled (reorg_poll E s i ss)"
  unfolding reorg_poll_def reorg_round_def sample_all_nodes_def loop_state_def by (intro emits_intros) simp_all

lemma wallet_uncontrolled: "uncontrolled (ensure_node02_wallet E)"
  unfolding ensure_node02_wallet_def by (intro emits_intros cli_uncontrolled) (simp_all add: WALLET_def)

lemma csv_uncontrolled: "uncontrolled (write_csv E ss p)"
  unfolding write_csv_def by (intro emits_intros) simp

lemma hash_uncontrolled: "uncontrolled (bitcoin_cli E [''getblockhash'', x] n)"
  by (rule cli_uncontrolled) simp

text \<open>The body of the \<^verbatim>\<open>try\<close> statement never touches the miner.\<close>

definition off_miner :: "event \<Rightarrow> bool" where
  "off_miner ev \<longleftrightarrow> set (control ev) \<inter> {Freeze, Resume} = {}"

lemma off_miner_cli: "off_miner (RunProc ([''docker'', ''exec'', n, ''bitcoin-cli'', ''-regtest'', u, p] @ args) vars r)"
  unfolding off_miner_def control_cli by (cases args rule: cli_control.cases) auto

lemma force_off_miner: "emits off_miner (force_reorg E h d s ss)"
proof -
  have u: "emits off_miner m" if "uncontrolled m" for m :: "'b py" using that by (rule emits_mono) (simp add: off_miner_def)
  have c: "emits off_miner (bitcoin_cli E args n)" for args n by (rule cli_emits) (rule off_miner_cli)
  show ?thesis unfolding force_reorg_def build_branch_def
    by (intro emits_intros c u [OF height_uncontrolled] u [OF poll_uncontrolled] u [OF wallet_uncontrolled])
qed

section \<open>The miner is resumed\<close>

lemma logs_cli: "logs control (bitcoin_cli E args n) (cli_control args)"
  unfolding bitcoin_cli_def Let_def
  by (rule logs_cong [where xs = "cli_control args @ []"], intro logs_bind logs_run_proc logs_if logs_return logs_raise)
    (simp_all only: control_cli append_Nil2)

lemma logs_pause: "logs control (pause_node01_mining E b) [if b then Freeze else Resume]"
proof -
  have "logs control (pause_node01_mining E b) ([if b then Freeze else Resume] @ [])"
    unfolding pause_node01_mining_def by (intro logs_then logs_run_proc logs_return) (simp add: freeze_cmd_def resume_cmd_def)
  then show ?thesis by simp
qed

lemmas logs_uncontrolled = logs_emits [OF height_uncontrolled] logs_emits [OF poll_uncontrolled] logs_emits [OF wallet_uncontrolled]
  logs_emits [OF csv_uncontrolled] logs_emits [OF hash_uncontrolled]

text \<open>The branch the second node builds: its block is invalidated and the missing blocks are mined on it.\<close>

definition branch_traces :: "reorg_control list set" where
  "branch_traces = {Invalidate h # ms |h ms. ms = [] \<or> (\<exists>n a. ms = [Mine n a])}"

lemma build_branch_logs: "logs_in control (build_branch E h d) branch_traces"
proof -
  have step: "logs_in control (py_bind m f) X" if "logs control m []" "\<And>x. logs_in control (f x) X" for m :: "'b py" and f :: "'b \<Rightarrow> 'c py" and X
    by (rule logs_in_bind [OF logs_in_logs [where X = "{[]}", OF that(1)] that(2)]) auto
  have cli: "logs control (bitcoin_cli E args n) xs" if "cli_control args = xs" for args n xs using logs_cli that by metis
  have mine: "logs_in control (if b then py_then (bitcoin_cli E [WALLET, ''generatetoaddress'', k, a] NODE02) (py_return ()) else py_return ())
      {ms. ms = [] \<or> (\<exists>n a. ms = [Mine n a])}" for b k a
  proof (cases b)
    case True
    have "logs control (py_then (bitcoin_cli E [WALLET, ''generatetoaddress'', k, a] NODE02) (py_return ())) ([Mine k a] @ [])"
      by (intro logs_then cli logs_return) (simp add: WALLET_def)
    with True show ?thesis by (auto intro: logs_in_logs)
  qed (auto intro: logs_in_logs logs_return)
  have tail: "logs_in control (py_bind (bitcoin_height E NODE02) (\<lambda>h2. py_then (bitcoin_cli E [''getblockhash'', x] NODE02) (py_return h2))) {[]}" for x
    unfolding py_then_def by (intro step logs_uncontrolled) (auto intro: logs_in_logs logs_return)
  let ?Y = "{ms. ms = [] \<or> (\<exists>n a. ms = [Mine n a])}"
  have inv: "logs_in control (py_then (bitcoin_cli E [''invalidateblock'', x] NODE02) m) branch_traces"
    if "logs_in control m ?Y" for x and m :: "int py"
    by (rule logs_in_then [OF logs_in_logs [where X = "{[Invalidate x]}", OF cli [OF refl]] that]) (auto simp: branch_traces_def)
  have rest: "logs_in control (py_then (if b then py_then (bitcoin_cli E [WALLET, ''generatetoaddress'', k, a] NODE02) (py_return ()) else py_return ())
      (py_bind (bitcoin_height E NODE02) (\<lambda>h2. py_then (bitcoin_cli E [''getblockhash'', x] NODE02) (py_return h2)))) ?Y" for b k a x
    by (rule logs_in_then [OF mine tail]) auto
  show ?thesis
    unfolding build_branch_def
    by (rule step [OF logs_uncontrolled(5)], rule inv, rule step [OF logs_uncontrolled(1)], rule step [OF logs_uncontrolled(3)], rule rest)
qed

lemma force_reorg_logs: "logs_in control (force_reorg E h d s ss) {Isolate # b @ [Reconnect] |b. b \<in> branch_traces}"
proof -
  have cli: "logs control (bitcoin_cli E [''setnetworkactive'', x] NODE02) (cli_control [''setnetworkactive'', x])" for x by (rule logs_cli)
  have end_part: "logs control (py_bind (reorg_poll E s 2 s1) (\<lambda>s2. py_return (h2, s2))) ([] @ [])" for s1 and h2 :: int
    by (intro logs_bind logs_uncontrolled logs_return)
  have mid: "logs control (py_bind (reorg_poll E 10 3 ss) (\<lambda>s1. py_then (bitcoin_height E NODE01)
      (py_then (bitcoin_cli E [''setnetworkactive'', ''true''] NODE02) (py_bind (reorg_poll E s 2 s1) (\<lambda>s2. py_return (h2, s2))))))
      ([] @ [] @ cli_control [''setnetworkactive'', ''true''] @ [] @ [])" for h2 :: int
    by (intro logs_bind logs_then logs_uncontrolled cli end_part)
  then have mid': "logs_in control (py_bind (reorg_poll E 10 3 ss) (\<lambda>s1. py_then (bitcoin_height E NODE01)
      (py_then (bitcoin_cli E [''setnetworkactive'', ''true''] NODE02) (py_bind (reorg_poll E s 2 s1) (\<lambda>s2. py_return (h2, s2))))))
      {[Reconnect]}" for h2 :: int by (rule logs_in_logs) simp
  have "logs_in control (py_bind (build_branch E h d) (\<lambda>h2. py_bind (reorg_poll E 10 3 ss) (\<lambda>s1. py_then (bitcoin_height E NODE01)
      (py_then (bitcoin_cli E [''setnetworkactive'', ''true''] NODE02) (py_bind (reorg_poll E s 2 s1) (\<lambda>s2. py_return (h2, s2)))))))
      {b @ [Reconnect] |b. b \<in> branch_traces}"
    by (rule logs_in_bind [OF build_branch_logs mid']) auto
  moreover have "logs_in control (bitcoin_cli E [''setnetworkactive'', ''false''] NODE02) {[Isolate]}"
    by (rule logs_in_logs [OF cli]) simp
  ultimately show ?thesis unfolding force_reorg_def by (intro logs_in_then) auto
qed

lemma wp_uncontrolled:
  "uncontrolled m \<Longrightarrow> traced control w xs v \<Longrightarrow> wp m (\<lambda>_. traced control w xs) (\<lambda>_. traced control w xs) v"
  by (rule wp_traced)

lemma wp_pause:
  assumes "traced control w xs v"
  shows "wp (pause_node01_mining E b) (\<lambda>_. traced control w (xs @ [if b then Freeze else Resume]))
    (\<lambda>_. traced control w (xs @ [if b then Freeze else Resume])) v"
proof -
  let ?c = "if b then freeze_cmd else resume_cmd"
  have "traced control w (xs @ control (RunProc ?c [] r)) (emit E (RunProc ?c [] r) 0 v)" for r
    using assms by (intro traced_emit) simp_all
  then have "traced control w (xs @ [if b then Freeze else Resume]) (emit E (RunProc ?c [] r) 0 v)" for r
    by (cases b) (simp_all only: control_miner if_True if_False)
  then show ?thesis unfolding pause_node01_mining_def wp_then by (auto simp: wp_simps split: sum.splits)
qed

lemma traced_off_miner:
  assumes "traced control w xs v" "grows off_miner v u"
  shows "\<exists>ys. traced control w (xs @ ys) u \<and> Freeze \<notin> set ys \<and> Resume \<notin> set ys"
proof -
  from assms(2) obtain evs where e: "log u = log v @ evs" "list_all off_miner evs" "clock v \<le> clock u" by (auto simp: grows_def)
  have "Freeze \<notin> set (trace control evs) \<and> Resume \<notin> set (trace control evs)"
    using e(2) by (induction evs) (auto simp: off_miner_def)
  moreover have "traced control w (xs @ trace control evs) u"
    using traced_trans [OF assms(1), of "trace control evs" u] e by (simp add: traced_def)
  ultimately show ?thesis by blast
qed

text \<open>What the log of a run shows, however it ends.\<close>

definition miner_safe :: "reorg_control list \<Rightarrow> bool" where
  "miner_safe xs \<longleftrightarrow> xs = [] \<or> xs = [Freeze] \<or> (\<exists>ys. xs = Freeze # ys @ [Resume] \<and> Freeze \<notin> set ys \<and> Resume \<notin> set ys)"

lemma wp_force:
  assumes "traced control w [Freeze] v"
  shows "wp (py_finally (force_reorg E h d s ss) (pause_node01_mining E False))
    (\<lambda>_ u. \<exists>xs. traced control w xs u \<and> miner_safe xs) (\<lambda>_ u. \<exists>xs. traced control w xs u \<and> miner_safe xs) v"
proof -
  let ?R = "\<lambda>_ u. \<exists>xs. traced control w xs u \<and> miner_safe xs"
  have stop: "wp (pause_node01_mining E False) ?R ?R u" if g: "grows off_miner v u" for u
  proof -
    obtain ys where ys: "traced control w ([Freeze] @ ys) u" "Freeze \<notin> set ys" "Resume \<notin> set ys"
      using traced_off_miner [OF assms g] by blast
    have "miner_safe ([Freeze] @ ys @ [Resume])" using ys(2,3) by (auto simp: miner_safe_def)
    then show ?thesis by (intro wp_mono [OF wp_pause [OF ys(1)]]) (auto intro: exI [of _ "[Freeze] @ ys @ [Resume]"])
  qed
  then show ?thesis unfolding wp_finally by (intro wp_mono [OF wp_emits [OF force_off_miner]]) auto
qed

lemma reorg_main_safe:
  "wp (reorg_main E depth rd s) (\<lambda>_ u. \<exists>xs. traced control w xs u \<and> miner_safe xs) (\<lambda>_ u. \<exists>xs. traced control w xs u \<and> miner_safe xs) w"
proof -
  let ?R = "\<lambda>_ u. \<exists>xs. traced control w xs u \<and> miner_safe xs"
  have safe: "miner_safe []" "miner_safe [Freeze]" by (simp_all add: miner_safe_def)
  have un: "wp m (\<lambda>_. traced control w xs) ?R v" if "uncontrolled m" "traced control w xs v" "miner_safe xs" for m :: "'b py" and xs v
    by (rule wp_mono [OF wp_uncontrolled [OF that(1,2)]]) (use that(3) in auto)
  have un': "wp m ?R ?R v" if u: "uncontrolled m" and "?R () v" for m :: "'b py" and v
  proof -
    from that(2) obtain xs where "traced control w xs v" "miner_safe xs" by blast
    then show ?thesis by (intro wp_mono [OF wp_uncontrolled [OF u]]) auto
  qed
  have freeze: "wp (pause_node01_mining E True) (\<lambda>_. traced control w [Freeze]) ?R v" if "traced control w [] v" for v
    by (rule wp_mono [OF wp_pause [OF that]]) (use safe in auto)
  have sleep: "uncontrolled (time_sleep E 25)" by (intro emits_intros) simp
  have tail: "uncontrolled (py_bind (bitcoin_height E NODE01) (\<lambda>h1_after. py_bind (bitcoin_cli E [''getblockhash'', x] NODE01) (\<lambda>reorg_hash.
      py_bind (ts_label E) (\<lambda>label. py_then (write_csv E (snd res) (f label)) (py_return (g h1_after reorg_hash))))))"
    for x and res :: "int \<times> NodeSample list" and f :: "string \<Rightarrow> string" and g :: "int \<Rightarrow> string \<Rightarrow> reorg_result"
    by (intro emits_intros height_uncontrolled hash_uncontrolled csv_uncontrolled)
  show ?thesis unfolding reorg_main_def
    by (rule wp_seq [OF un [OF poll_uncontrolled traced_refl safe(1)]], rule wp_seq_then [OF freeze], assumption,
        rule wp_seq_then [OF un [OF sleep _ safe(2)]], assumption, rule wp_seq [OF un [OF height_uncontrolled _ safe(2)]], assumption,
        rule wp_seq_then [OF un [OF height_uncontrolled _ safe(2)]], assumption, rule wp_seq [OF un [OF hash_uncontrolled _ safe(2)]], assumption,
        rule wp_seq [OF wp_force], assumption, rule un' [OF tail], assumption)
qed

lemma reorg_main_logs:
  "logs_in control (reorg_main E depth rd s) {Freeze # Isolate # b @ [Reconnect, Resume] |b. b \<in> branch_traces}"
proof -
  have step: "logs_in control (py_bind m f) X" if "logs control m []" "\<And>x. logs_in control (f x) X" for m :: "'b py" and f :: "'b \<Rightarrow> 'c py" and X
    by (rule logs_in_bind [OF logs_in_logs [where X = "{[]}", OF that(1)] that(2)]) auto
  have step': "logs_in control (py_then m n) X" if "logs control m []" "logs_in control n X" for m :: "'b py" and n :: "'c py" and X
    unfolding py_then_def using that by (rule step)
  have fin: "logs_in control (py_finally (force_reorg E h d s ss) (pause_node01_mining E False)) {Isolate # b @ [Reconnect, Resume] |b. b \<in> branch_traces}"
    for h d ss unfolding logs_in_def
  proof (intro allI impI)
    fix w x w' assume run: "py_finally (force_reorg E h d s ss) (pause_node01_mining E False) w = Some (Inr x, w')"
    then obtain v where f: "force_reorg E h d s ss w = Some (Inr x, v)" and p: "pause_node01_mining E False v = Some (Inr (), w')"
      by (auto simp: py_finally_def split: option.splits sum.splits prod.splits)
    obtain e1 b where e1: "log v = log w @ e1" "trace control e1 = Isolate # b @ [Reconnect]" "b \<in> branch_traces"
      using logs_inD [OF force_reorg_logs f] by blast
    obtain e2 where e2: "log w' = log v @ e2" "trace control e2 = [Resume]"
      using logs_pause [of E False] p unfolding logs_def by fastforce
    have "log w' = log w @ e1 @ e2" "trace control (e1 @ e2) = Isolate # b @ [Reconnect, Resume]" using e1 e2 by simp_all
    then show "\<exists>evs. log w' = log w @ evs \<and> trace control evs \<in> {Isolate # b @ [Reconnect, Resume] |b. b \<in> branch_traces}"
      using e1(3) by blast
  qed
  have sleep: "logs control (time_sleep E 25) []" by (rule logs_sleep) simp
  have ret: "logs_in control (py_return x) {[]}" for x :: reorg_result by (rule logs_in_logs [OF logs_return]) simp
  let ?T = "\<lambda>h1 res x f g. py_bind (bitcoin_height E NODE01) (\<lambda>h1_after. py_bind (bitcoin_cli E [''getblockhash'', x] NODE01) (\<lambda>reorg_hash.
      py_bind (ts_label E) (\<lambda>label. py_then (write_csv E (snd res) (f label)) (py_return (g h1_after reorg_hash)))))"
  have tail: "logs_in control (?T h1 res x f g) {[]}" for h1 x and res :: "int \<times> NodeSample list" and f :: "string \<Rightarrow> string"
    and g :: "int \<Rightarrow> string \<Rightarrow> reorg_result"
    by (intro step step' logs_uncontrolled logs_label ret)
  have rest: "logs_in control (py_bind (py_finally (force_reorg E h d s ss) (pause_node01_mining E False)) (\<lambda>res. ?T h res x f (g res)))
      {Isolate # b @ [Reconnect, Resume] |b. b \<in> branch_traces}"
    for h d ss x and f :: "string \<Rightarrow> string" and g :: "int \<times> NodeSample list \<Rightarrow> int \<Rightarrow> string \<Rightarrow> reorg_result"
    by (rule logs_in_bind [OF fin tail]) auto
  have frz: "logs_in control (py_then (pause_node01_mining E True) m) {Freeze # Isolate # b @ [Reconnect, Resume] |b. b \<in> branch_traces}"
    if "logs_in control m {Isolate # b @ [Reconnect, Resume] |b. b \<in> branch_traces}" for m :: "reorg_result py"
    by (rule logs_in_then [OF logs_in_logs [where X = "{[Freeze]}", OF logs_pause] that]) auto
  show ?thesis unfolding reorg_main_def
    by (rule step [OF logs_uncontrolled(2)], rule frz, rule step' [OF sleep], rule step [OF logs_uncontrolled(1)],
        rule step' [OF logs_uncontrolled(1)], rule step [OF logs_uncontrolled(5)], rule rest)
qed


section \<open>Returning\<close>

lemma bitcoin_total [total_intros]: "total (bitcoin_cli E args n)" "total (bitcoin_height E n)"
  unfolding bitcoin_height_def bitcoin_cli_def Let_def by (intro total_intros)+

lemma reorg_poll_total [total_intros]:
  assumes "0 < i"
  shows "total (reorg_poll E s i ss)"
  unfolding reorg_poll_def
proof (intro total_intros deadline_while_total [where \<delta> = i] assms)
  show "total (reorg_round E i ss)" for ss unfolding reorg_round_def by (intro total_intros)
  fix ss and w :: world
  have "steady (sample_all_nodes E [])" unfolding sample_all_nodes_def by (intro emits_intros) simp
  moreover have "steady (bitcoin_height E NODE01)" unfolding bitcoin_height_def by (intro emits_intros cli_emits) simp
  ultimately show "wp (reorg_round E i ss) (\<lambda>k w'. case k of Continue _ \<Rightarrow> clock w + i \<le> clock w' | Leave (_ :: unit) \<Rightarrow> True) (\<lambda>_ _. True) w"
    unfolding reorg_round_def wp_bind wp_then using assms
    by (auto simp: wp_simps emit_def dest!: grows_clock
        intro!: wp_mono [OF wp_emits [of "\<lambda>_. True" "sample_all_nodes E []"]] wp_mono [OF wp_emits [of "\<lambda>_. True" "bitcoin_height E NODE01"]])
qed

lemma reorg_main_total: "total (reorg_main E depth rd s)"
  unfolding reorg_main_def pause_node01_mining_def force_reorg_def build_branch_def ensure_node02_wallet_def
  by (intro total_intros) simp_all



end
