(* ===== verification/Figure_Data.thy ===== *)
theory Figure_Data
  imports Result_Tables
begin

text \<open>
  The figures drawn from recorded samples: \<^verbatim>\<open>e2_fault_injection/live_figure_builder.py\<close> (one panel per scenario and the summary bars),
  \<^verbatim>\<open>e2_fault_injection/live_single_timeline.py\<close> (the seven scenarios on one axis) and \<^verbatim>\<open>e10_bitcoin_reorg/live_figure_builder.py\<close> (one panel
  per reorganisation trial). A figure is the list of the drawing calls made on each of its axes, with the data passed to them; what matplotlib makes
  of the calls, and their styling (fonts, widths, transparency, layout, axis labels, tick locators, the legends of single panels), is left out, and a figure is not written to the file system. Two
  parallel lists of one length that the scripts pass around (times and states) are one list of pairs.

  Shown here: a state line is cut into the maximal runs of one state, each drawn in its colour up to the next change, with a marker
  at every change and nowhere else; the panel of a scenario shows the best covered node; the bands of the single timeline are
  contiguous, its points stay inside their band and in order, and the script fails when a scenario has no good sample.
\<close>

section \<open>Drawing calls\<close>

datatype draw =
    Curve "(rat \<times> rat) list" string
  | Area "(rat \<times> rat) list" string
  | Dot rat rat
  | Star rat rat
  | Note string rat rat
  | Span rat rat string
  | VLine rat
  | Bars "string list" "rat list" "string list"
  | XLim rat rat
  | YLim rat rat
  | XTicks "(rat \<times> string) list"
  | YTicks "(rat \<times> string) list"

record panel =
  panel_title :: string
  panel_draws :: "draw list"

record figure =
  fig_name :: string
  fig_title :: "string list"
  fig_legend :: "string list"
  fig_panels :: "panel list"

definition STATES :: "string list" where
  "STATES = [''ANCHORED'', ''SUSPICIOUS'', ''SOVEREIGN'', ''RECOVERING'']"

definition STATE_Y :: "(string, rat) dict" where
  "STATE_Y = zip STATES [0, 1, 2, 3]"

definition STATE_COLOR :: "(string, string) dict" where
  "STATE_COLOR = [(''ANCHORED'', ''#1f77b4''), (''SUSPICIOUS'', ''#ff7f0e''), (''SOVEREIGN'', ''#d62728''), (''RECOVERING'', ''#2ca02c'')]"

text \<open>\<^verbatim>\<open>set_yticks(range(len(STATES)))\<close> with \<^verbatim>\<open>set_yticklabels(STATES)\<close>, and the limits around them\<close>

definition state_axis :: "draw list" where
  "state_axis = [YTicks (zip [0, 1, 2, 3] STATES), YLim (- 1 / 2) (7 / 2)]"

text \<open>A point of a state line: \<^verbatim>\<open>STATE_Y[s]\<close> raises on a state it does not know.\<close>

definition state_point :: "rat \<times> string \<Rightarrow> (rat \<times> rat) result" where
  "state_point p = rbind (dict_item STATE_Y (snd p)) (\<lambda>y. Inr (fst p, y))"

text \<open>\<^verbatim>\<open>xs[lo:hi]\<close>\<close>

definition list_slice :: "nat \<Rightarrow> nat \<Rightarrow> 'a list \<Rightarrow> 'a list" where
  "list_slice lo hi xs = take (hi - lo) (drop lo xs)"

text \<open>The loop all state lines share: \<^verbatim>\<open>for i in range(1, len(ts)): if states[i] != states[i - 1]: ...; run_start = i\<close>, followed by the rest. A list_slice
  is drawn by \<open>seg\<close>, and \<open>mk\<close> is what the loop draws at the change.\<close>

fun run_loop ::
  "((rat \<times> string) list \<Rightarrow> draw list result) \<Rightarrow> (rat \<times> string \<Rightarrow> draw list result) \<Rightarrow> (rat \<times> string) list \<Rightarrow> nat \<Rightarrow> nat list \<Rightarrow> draw list result" where
  "run_loop seg mk ps start [] = seg (drop start ps)"
| "run_loop seg mk ps start (i # is) =
     (if snd (ps ! i) \<noteq> snd (ps ! (i - 1))
      then rbind (seg (list_slice start (i + 1) ps)) (\<lambda>a. rbind (mk (ps ! i)) (\<lambda>b.
           rbind (run_loop seg mk ps i is) (\<lambda>c. Inr (a @ b @ c))))
      else run_loop seg mk ps start is)"

text \<open>The indices at which the state differs from the one before.\<close>

definition change_indices :: "(rat \<times> string) list \<Rightarrow> nat list" where
  "change_indices ps = filter (\<lambda>i. snd (ps ! i) \<noteq> snd (ps ! (i - 1))) [1 ..< length ps]"

section \<open>Rows of a sample file\<close>

record csv_sample =
  cs_cells :: csv_dict
  cs_timestamp :: rat
  cs_height :: int

record timed_sample = csv_sample +
  ts_t :: rat

definition row_state :: "'a csv_sample_scheme \<Rightarrow> string option result" where
  "row_state r = dict_item (cs_cells r) ''fsm_state''"

definition row_node :: "'a csv_sample_scheme \<Rightarrow> string option result" where
  "row_node r = dict_item (cs_cells r) ''node''"

text \<open>A cell that counts as true: present and not empty. The points of a series with a state.\<close>

definition filled :: "string option \<Rightarrow> bool" where
  "filled c \<longleftrightarrow> c \<noteq> None \<and> c \<noteq> Some []"

definition with_state :: "'a list \<Rightarrow> string option list \<Rightarrow> ('a \<times> string) list" where
  "with_state xs cs = map (\<lambda>(x, c). (x, the c)) (filter (\<lambda>(x, c). filled c) (zip xs cs))"

definition SCENARIO_TITLES :: "(string, string) dict" where
  "SCENARIO_TITLES = [(''s1_normal'', ''S1 Normal''), (''s2_btc_congestion'', ''S2 BTC Congestion''), (''s3_da_unavailable'', ''S3 DA Unavailable''),
     (''s4_p2p_eclipse_partial'', ''S4 P2P Eclipse (partial)''), (''s5_anchor_isolation'', ''S5 Anchor Isolation''),
     (''s6_combined_btc_da_failure'', ''S6 Combined BTC+DA Failure''), (''s7_recovery'', ''S7 Recovery'')]"

text \<open>\<^verbatim>\<open>by_node.setdefault(r["node"], []).append(r)\<close> for the rows of successful queries, and the longest of these lists (the first of several).\<close>

fun by_node :: "(string option, 'a csv_sample_scheme list) dict \<Rightarrow> 'a csv_sample_scheme list \<Rightarrow>
    (string option, 'a csv_sample_scheme list) dict result" where
  "by_node d [] = Inr d"
| "by_node d (r # rs) =
     (if 0 \<le> cs_height r then rbind (row_node r) (\<lambda>n. by_node (dict_append n r d) rs) else by_node d rs)"

definition best_covered :: "'a csv_sample_scheme list \<Rightarrow> 'a csv_sample_scheme list result" where
  "best_covered rows =
     rbind (by_node [] rows) (\<lambda>d.
     if d = [] then Inr []
     else rbind (py_max (\<lambda>n. length (dict_get d n [])) (dict_keys d)) (\<lambda>best. Inr (dict_get d best [])))"

section \<open>e2: one panel per scenario\<close>

definition scenario_row :: "csv_dict \<Rightarrow> csv_sample result" where
  "scenario_row r =
     rbind (item_float r ''timestamp'') (\<lambda>t.
     rbind (item_int r ''height'') (\<lambda>h. Inr \<lparr>cs_cells = r, cs_timestamp = t, cs_height = h\<rparr>))"

definition elapsed :: "rat \<Rightarrow> csv_sample \<Rightarrow> timed_sample" where
  "elapsed t0 r = \<lparr>cs_cells = cs_cells r, cs_timestamp = cs_timestamp r, cs_height = cs_height r, ts_t = cs_timestamp r - t0\<rparr>"

definition load_scenario_csv :: "string \<Rightarrow> timed_sample list py" where
  "load_scenario_csv path =
     py_bind (load_csv path) (\<lambda>raw.
     py_bind (py_lift (rmap_list scenario_row raw)) (\<lambda>rows.
     if rows = [] then py_return []
     else py_bind (py_lift (py_min id (map cs_timestamp rows))) (\<lambda>t0. py_return (map (elapsed t0) rows))))"

definition representative_rows :: "timed_sample list \<Rightarrow> timed_sample list result" where
  "representative_rows rows = rbind (best_covered rows) (\<lambda>rs. Inr (sort_key ts_t rs))"

definition timeline_panel :: "string \<Rightarrow> timed_sample list \<Rightarrow> panel result" where
  "timeline_panel name rows =
     rbind (representative_rows rows) (\<lambda>rep.
     rbind (rmap_list row_state rep) (\<lambda>states.
     rbind (rmap_list state_point (with_state (map ts_t rep) states)) (\<lambda>points.
     Inr \<lparr>panel_title = dict_get SCENARIO_TITLES name name, panel_draws = Curve points [] # state_axis\<rparr>)))"

definition plot_state_timelines :: "(string, timed_sample list) dict \<Rightarrow> figure result" where
  "plot_state_timelines scenarios =
     rbind (rmap_list (\<lambda>(name, rows). timeline_panel name rows) scenarios) (\<lambda>panels.
     Inr \<lparr>fig_name = ''figure3_state_timelines_live'',
          fig_title = [''Figure 3 -- FSM State Timeline under Fault Injection'' @ NL @ ''(live 4-node Docker testnet)''], fig_legend = [], fig_panels = panels\<rparr>)"

record scenario_stats =
  st_duration_s :: rat
  st_height_delta :: int
  st_transitions :: nat
  st_degraded_frac :: rat

definition scenario_metrics :: "timed_sample list \<Rightarrow> scenario_stats result" where
  "scenario_metrics rows =
     rbind (representative_rows rows) (\<lambda>rep.
     if rep = [] then Inr \<lparr>st_duration_s = 0, st_height_delta = 0, st_transitions = 0, st_degraded_frac = 0\<rparr>
     else rbind (rmap_list row_state rep) (\<lambda>states.
       let known = filter filled states;
           degraded = filter (\<lambda>s. s \<noteq> Some ''ANCHORED'') known in
       if known = [] then Inl (Exn ZeroDivisionError ''division by zero'')
       else Inr \<lparr>st_duration_s = ts_t (last rep) - ts_t (hd rep), st_height_delta = cs_height (last rep) - cs_height (hd rep),
              st_transitions = length (filter (\<lambda>(a, b). filled a \<and> filled b \<and> a \<noteq> b) (zip states (tl states))),
              st_degraded_frac = of_nat (length degraded) / of_nat (length known)\<rparr>))"

definition upper_char :: "char \<Rightarrow> char" where
  "upper_char c = (if 97 \<le> code_of c \<and> code_of c \<le> 122 then char_of (code_of c - 32) else c)"

definition short_code :: "string \<Rightarrow> string" where
  "short_code name = map upper_char (hd (split_char (CHR ''_'') name))"

definition plot_summary_bars :: "(string, timed_sample list) dict \<Rightarrow> figure result" where
  "plot_summary_bars scenarios =
     rbind (rmap_list (\<lambda>(name, rows). scenario_metrics rows) scenarios) (\<lambda>metrics.
     let codes = map short_code (dict_keys scenarios) in
     Inr \<lparr>fig_name = ''figure3_summary_bars_live'', fig_title = [''E2 Summary Metrics (live 4-node Docker testnet, real data)''], fig_legend = [],
          fig_panels =
            [\<lparr>panel_title = ''Blocks Committed'' @ NL @ ''(real throughput)'',
              panel_draws = [Bars codes (map (of_int \<circ> st_height_delta) metrics) (map (py_str_int \<circ> st_height_delta) metrics)]\<rparr>,
             \<lparr>panel_title = ''Real FSM'' @ NL @ ''Transitions Observed'',
              panel_draws = [Bars codes (map (of_nat \<circ> st_transitions) metrics) (map (show_nat \<circ> st_transitions) metrics)]\<rparr>,
             \<lparr>panel_title = ''Fraction of Time'' @ NL @ ''Outside ANCHORED'',
              panel_draws = [Bars codes (map st_degraded_frac metrics) (map (fmt_percent 0 \<circ> st_degraded_frac) metrics)]\<rparr>]\<rparr>)"

definition figure3_main :: "string list \<Rightarrow> figure list py" where
  "figure3_main listing =
     (if scenario_files listing = [] then py_raise (Exn SystemExit ''1'')
      else py_bind (py_map (\<lambda>n. py_bind (load_scenario_csv (path_join LIVE_RESULTS_DIR n)) (\<lambda>rows. py_return (stem n, rows)))
             (scenario_files listing)) (\<lambda>loaded.
           let scenarios = dict_of fst snd loaded in
           py_bind (py_lift (plot_state_timelines scenarios)) (\<lambda>timelines.
           py_bind (py_lift (plot_summary_bars scenarios)) (\<lambda>bars. py_return [timelines, bars]))))"

section \<open>The coloured runs\<close>

text \<open>\<^verbatim>\<open>_draw_run\<close> of the reorganisation figure: an area and a line in the colour of the first state; the single timeline makes the same two calls.\<close>

definition draw_run :: "(rat \<times> string) list \<Rightarrow> draw list result" where
  "draw_run ps =
     (if ps = [] then Inr []
      else rbind (rmap_list state_point ps) (\<lambda>points.
           rbind (dict_item STATE_COLOR (snd (hd ps))) (\<lambda>color. Inr [Area points color, Curve points color])))"

section \<open>e2: the single timeline\<close>

definition SCENARIO_ORDER :: "string list" where
  "SCENARIO_ORDER = [''s1_normal'', ''s2_btc_congestion'', ''s3_da_unavailable'', ''s4_p2p_eclipse_partial'', ''s5_anchor_isolation'',
     ''s6_combined_btc_da_failure'', ''s7_recovery'']"

definition TRANSITION_CAUSE :: "(string, string) dict" where
  "TRANSITION_CAUSE = [(''SUSPICIOUS'', ''gap>100''), (''SOVEREIGN'', ''gap>500''), (''RECOVERING'', ''re-anchor''), (''ANCHORED'', ''re-anchored'')]"

definition STATE_LEGEND :: "string list" where
  "STATE_LEGEND = [''ANCHORED (healthy)'', ''SUSPICIOUS (warning)'', ''SOVEREIGN (degraded)'', ''RECOVERING (re-anchoring)'']"

definition timeline_row :: "csv_dict \<Rightarrow> csv_sample result" where
  "timeline_row r =
     rbind (item_int r ''height'') (\<lambda>h.
     rbind (item_float r ''timestamp'') (\<lambda>t. Inr \<lparr>cs_cells = r, cs_timestamp = t, cs_height = h\<rparr>))"

definition load_timeline_csv :: "string \<Rightarrow> csv_sample list py" where
  "load_timeline_csv path = py_bind (load_csv path) (\<lambda>raw. py_lift (rmap_list timeline_row raw))"

definition timeline_rows :: "csv_sample list \<Rightarrow> csv_sample list result" where
  "timeline_rows rows = rbind (best_covered rows) (\<lambda>rs. Inr (sort_key cs_height rs))"

definition phase_x :: "nat \<Rightarrow> int \<Rightarrow> int \<times> int \<Rightarrow> rat" where
  "phase_x idx h band =
     (let span = snd band - fst band; frac = (if span \<le> 0 then 0 else of_int (h - fst band) / of_int span) in
      of_nat idx + min (max frac 0) 1)"

text \<open>\<^verbatim>\<open>f"{height} (middle dot) {TRANSITION_CAUSE[state]}"\<close>, below a marker\<close>

definition cause_note :: "int \<Rightarrow> string \<Rightarrow> rat \<Rightarrow> rat \<Rightarrow> draw result" where
  "cause_note h s x y =
     rbind (dict_item TRANSITION_CAUSE s) (\<lambda>cause. Inr (Note (py_str_int h @ '' '' @ [CHR 0xC2, CHR 0xB7] @ '' '' @ cause) x y))"

definition change_mark :: "(rat \<times> string) list \<Rightarrow> int list \<Rightarrow> nat \<Rightarrow> draw list result" where
  "change_mark ps hs i =
     rbind (state_point (ps ! i)) (\<lambda>(x, y).
     rbind (cause_note (hs ! i) (snd (ps ! i)) x y) (\<lambda>note. Inr [Dot x y, note]))"

definition plot_step_line :: "(string, csv_sample list) dict \<Rightarrow> (string, int \<times> int) dict \<Rightarrow> string \<Rightarrow> draw list result" where
  "plot_step_line scenarios band_of name =
     rbind (dict_item scenarios name) (\<lambda>rows.
     rbind (timeline_rows rows) (\<lambda>rep.
     if rep = [] then Inr []
     else rbind (rmap_list row_state rep) (\<lambda>states.
       let hs = with_state (map cs_height rep) states in
       if hs = [] then Inr []
       else rbind (list_index SCENARIO_ORDER name) (\<lambda>idx.
         rbind (dict_item band_of name) (\<lambda>band.
         let ps = map (\<lambda>(h, s). (phase_x idx h band, s)) hs in
         rbind (run_loop draw_run (\<lambda>_. Inr []) ps 0 [1 ..< length ps]) (\<lambda>runs.
         rbind (rmap_list (change_mark ps (map fst hs)) (change_indices ps)) (\<lambda>marks.
         Inr (runs @ concat marks))))))))"

text \<open>The bridge from one phase to the next: the last state is held up to the first sample of the next phase.\<close>

definition connect_pair :: "(string, csv_sample list) dict \<Rightarrow> (string, int \<times> int) dict \<Rightarrow> nat \<Rightarrow> draw list result" where
  "connect_pair scenarios band_of i =
     (let n1 = SCENARIO_ORDER ! i; n2 = SCENARIO_ORDER ! (i + 1) in
      rbind (dict_item scenarios n1) (\<lambda>rows1. rbind (timeline_rows rows1) (\<lambda>rep1.
      rbind (dict_item scenarios n2) (\<lambda>rows2. rbind (timeline_rows rows2) (\<lambda>rep2.
      if rep1 = [] \<or> rep2 = [] then Inr []
      else rbind (rmap_list row_state rep1) (\<lambda>c1. rbind (rmap_list row_state rep2) (\<lambda>c2.
        let s1 = map the (filter filled c1); s2 = map the (filter filled c2) in
        if s1 = [] \<or> s2 = [] then Inr []
        else rbind (dict_item band_of n1) (\<lambda>b1. rbind (dict_item band_of n2) (\<lambda>b2.
          let x1 = phase_x i (cs_height (last rep1)) b1; x2 = phase_x (i + 1) (cs_height (hd rep2)) b2 in
          rbind (dict_item STATE_Y (last s1)) (\<lambda>y1. rbind (dict_item STATE_Y (hd s2)) (\<lambda>y2.
          rbind (dict_item STATE_COLOR (last s1)) (\<lambda>color.
          if y1 = y2 then Inr [Area [(x1, y1), (x2, y1)] color, Curve [(x1, y1), (x2, y1)] color]
          else rbind (dict_item STATE_COLOR (hd s2)) (\<lambda>color2.
               rbind (cause_note (cs_height (hd rep2)) (hd s2) x2 y2) (\<lambda>note.
               Inr [Area [(x1, y1), (x2, y1)] color, Curve [(x1, y1), (x2, y1)] color, Curve [(x2, y1), (x2, y2)] color2, Dot x2 y2, note]))))))))))))))"

definition connect_phases :: "(string, csv_sample list) dict \<Rightarrow> (string, int \<times> int) dict \<Rightarrow> draw list result" where
  "connect_phases scenarios band_of =
     rbind (rmap_list (connect_pair scenarios band_of) [0 ..< length SCENARIO_ORDER - 1]) (\<lambda>dss. Inr (concat dss))"

text \<open>\<^verbatim>\<open>region_bounds\<close>: the least and greatest height of every scenario with a representative row.\<close>

fun region_bounds :: "(string, csv_sample list) dict \<Rightarrow> string list \<Rightarrow> (int \<times> int) list result" where
  "region_bounds scenarios [] = Inr []"
| "region_bounds scenarios (name # names) =
     rbind (dict_item scenarios name) (\<lambda>rows.
     rbind (timeline_rows rows) (\<lambda>rep.
     if rep = [] then region_bounds scenarios names
     else rbind (py_min id (map cs_height rep)) (\<lambda>lo. rbind (py_max id (map cs_height rep)) (\<lambda>hi.
          rbind (region_bounds scenarios names) (\<lambda>bounds. Inr ((lo, hi) # bounds))))))"

text \<open>\<^verbatim>\<open>xs[i]\<close> for a position that is not negative\<close>

definition list_item :: "'a list \<Rightarrow> nat \<Rightarrow> 'a result" where
  "list_item xs i = (if i < length xs then Inr (xs ! i) else Inl (Exn IndexError ''list index out of range''))"

definition phase_band :: "(int \<times> int) list \<Rightarrow> nat \<times> string \<Rightarrow> (string \<times> int \<times> int) result" where
  "phase_band bounds p =
     (let boundaries = map snd bounds; idx = fst p in
      rbind (if 0 < idx then list_item boundaries (idx - 1) else rbind (list_item bounds 0) (\<lambda>b. Inr (fst b))) (\<lambda>start.
      rbind (list_item boundaries idx) (\<lambda>stop. Inr (snd p, start, stop))))"

definition phase_bands :: "(int \<times> int) list \<Rightarrow> (string, int \<times> int) dict result" where
  "phase_bands bounds =
     rbind (rmap_list (phase_band bounds) (zip [0 ..< length SCENARIO_ORDER] SCENARIO_ORDER)) (\<lambda>bands. Inr (dict_of fst snd bands))"

text \<open>The part of \<^verbatim>\<open>main\<close> around the lines: strips, boundaries, names, axes and the ruler of true heights.\<close>

definition phase_strips :: "draw list" where
  "phase_strips = map (\<lambda>idx. Span (of_nat idx) (of_nat idx + 1) ''0.93'') (filter even [0 ..< length SCENARIO_ORDER])"

definition phase_names :: "draw list" where
  "phase_names = map (\<lambda>idx. VLine (of_nat idx)) [1 ..< length SCENARIO_ORDER]
     @ map (\<lambda>(idx, name). Note (dict_get SCENARIO_TITLES name name) (of_nat idx + 1 / 2) (39 / 10)) (zip [0 ..< length SCENARIO_ORDER] SCENARIO_ORDER)"

definition phase_axes :: "(int \<times> int) list \<Rightarrow> draw list" where
  "phase_axes bounds =
     [YTicks (zip [0, 1, 2, 3] STATES), YLim (- 1 / 2) (24 / 5), XLim (- 1 / 4) (149 / 20),
      XTicks (map (\<lambda>idx. (of_nat idx + 1 / 2, ''S'' @ show_nat (idx + 1))) [0 ..< length SCENARIO_ORDER]),
      XTicks (zip (map of_nat [0 ..< length SCENARIO_ORDER + 1]) (map py_str_int (fst (hd bounds) # map snd bounds)))]"

definition single_timeline :: "(string, csv_sample list) dict \<Rightarrow> figure result" where
  "single_timeline scenarios =
     rbind (region_bounds scenarios SCENARIO_ORDER) (\<lambda>bounds.
     rbind (phase_bands bounds) (\<lambda>band_of.
     rbind (rmap_list (plot_step_line scenarios band_of) SCENARIO_ORDER) (\<lambda>lines.
     rbind (connect_phases scenarios band_of) (\<lambda>bridges.
     Inr \<lparr>fig_name = ''figure3_single_timeline_live'',
          fig_title = [''Figure 3 -- Continuous FSM-State Timeline, S1..S7'' @ NL
            @ ''(live 4-node Docker testnet; equal-width phases, true block ranges)''],
          fig_legend = STATE_LEGEND,
          fig_panels = [\<lparr>panel_title = [], panel_draws = phase_strips @ concat lines @ bridges @ phase_names @ phase_axes bounds\<rparr>]\<rparr>))))"

definition timeline_main :: "string list \<Rightarrow> figure py" where
  "timeline_main listing =
     (let stems = map stem (scenario_files listing) in
      if \<not> list_all (\<lambda>name. name \<in> set stems) SCENARIO_ORDER then py_raise (Exn SystemExit ''1'')
      else py_bind (py_map (\<lambda>name. py_bind (load_timeline_csv (path_join LIVE_RESULTS_DIR (name @ ''.csv''))) (\<lambda>rows. py_return (name, rows)))
             SCENARIO_ORDER) (\<lambda>scenarios.
           py_lift (single_timeline scenarios)))"

section \<open>e10: the reorganisation trials\<close>

definition E10_FIGURE_DIR :: string where "E10_FIGURE_DIR = ''scripts/e10_bitcoin_reorg/results_live''"

definition FIGURE_NODE :: string where "FIGURE_NODE = ''engram-node01''"

definition TRIALS :: "(string \<times> string) list" where
  "TRIALS = [(''Shallow (depth=1, < KDeepFinality)'', ''reorg_shallow_20260812T140516.csv''),
     (''Boundary (depth=2, = KDeepFinality)'', ''reorg_deep_20260815T171706.csv''),
     (''Boundary (depth=3, = KDeepFinality+1)'', ''reorg_deep_20260815T172002.csv''),
     (''Deep (depth=15), trial 1'', ''reorg_deep_20260812T143632.csv''),
     (''Deep (depth=15), trial 2 -- repeat (real recovery to ANCHORED at t~676s, past this CSV's own settle window)'',
      ''reorg_deep_20260815T173058.csv'')]"

text \<open>\<^verbatim>\<open>[r for r in rows if r["node"] == node and r["fsm_state"]]\<close>, with the state\<close>

fun node_rows :: "string \<Rightarrow> csv_dict list \<Rightarrow> (csv_dict \<times> string) list result" where
  "node_rows n [] = Inr []"
| "node_rows n (r # rs) =
     rbind (dict_item r ''node'') (\<lambda>c.
     if c \<noteq> Some n then node_rows n rs
     else rbind (dict_item r ''fsm_state'') (\<lambda>s.
          rbind (node_rows n rs) (\<lambda>ps. Inr (if filled s then (r, the s) # ps else ps))))"

definition load_node_samples :: "string \<Rightarrow> string \<Rightarrow> (rat \<times> string) list py" where
  "load_node_samples path n =
     py_bind (read_file path) (\<lambda>raw.
     py_lift (rbind (node_rows n (csv_dicts (universal_newlines raw))) (\<lambda>rows.
       rbind (rmap_list (\<lambda>(r, s). item_float r ''timestamp'') rows) (\<lambda>stamps.
       rbind (py_min id stamps) (\<lambda>t0.
       Inr (zip (map (\<lambda>t. t - t0) stamps) (map snd rows)))))))"

definition trial_mark :: "(rat \<times> string) list \<Rightarrow> nat \<Rightarrow> draw list result" where
  "trial_mark ps i =
     rbind (state_point (ps ! i)) (\<lambda>(x, y). Inr [Dot x y, Note (''t='' @ fmt_fixed 0 x @ ''s'') x y])"

definition plot_trial :: "(rat \<times> string) list \<Rightarrow> draw list result" where
  "plot_trial ps =
     rbind (run_loop draw_run (\<lambda>_. Inr []) ps 0 [1 ..< length ps]) (\<lambda>runs.
     rbind (rmap_list (trial_mark ps) (change_indices ps)) (\<lambda>marks. Inr (runs @ concat marks)))"

definition trial_panel :: "string \<times> string \<Rightarrow> panel py" where
  "trial_panel trial =
     py_bind (load_node_samples (path_join E10_FIGURE_DIR (snd trial)) FIGURE_NODE) (\<lambda>ps.
     py_bind (py_lift (plot_trial ps)) (\<lambda>ds.
     py_return \<lparr>panel_title = fst trial, panel_draws = ds @ state_axis\<rparr>))"

text \<open>\<^verbatim>\<open>main\<close>: without any file it returns, and there is no figure.\<close>

definition figure8_main :: "figure option py" where
  "figure8_main w =
     (let available = filter (\<lambda>(label, name). fs w (path_join E10_FIGURE_DIR name) \<noteq> None) TRIALS in
      (if available = [] then py_return None
       else py_bind (py_map trial_panel available) (\<lambda>panels.
         py_return (Some \<lparr>fig_name = ''figure8_reorg_depth_reaction_live'',
           fig_title = [''Figure 8 -- E10 FSM Reaction to Real Bitcoin Reorgs by Depth'',
             ''(live 4-node Docker testnet, engram-node01, real -- all 4 validators agreed at every sample in every trial; ''
             @ ''KDeepFinality = 2)''],
           fig_legend = STATE_LEGEND, fig_panels = panels\<rparr>))) w)"


section \<open>State lines: the runs\<close>

text \<open>The maximal runs of one state, each with the first point of the next run at its end.\<close>

fun state_runs :: "('a \<times> string) list \<Rightarrow> ('a \<times> string) list list" where
  "state_runs [] = []"
| "state_runs [p] = [[p]]"
| "state_runs (p # q # ps) =
     (if snd p = snd q then (case state_runs (q # ps) of r # rs \<Rightarrow> (p # r) # rs | [] \<Rightarrow> [])
      else [p, q] # state_runs (q # ps))"

text \<open>The runs laid end to end, the common points once.\<close>

fun joined :: "'a list list \<Rightarrow> 'a list" where
  "joined [] = []"
| "joined [r] = r"
| "joined (r # s # rs) = butlast r @ joined (s # rs)"

text \<open>What it means that a series is cut at its state changes: the pieces joined are the series; a piece that is not the
  last one has at least two points, all but its last one have one state, and the last one, with which the next piece begins, another; the last
  piece has one state only.\<close>

fun one_state :: "('a \<times> string) list \<Rightarrow> bool" where
  "one_state [] = True"
| "one_state (p # ps) = list_all (\<lambda>q. snd q = snd p) ps"

fun cut_at_changes :: "('a \<times> string) list list \<Rightarrow> bool" where
  "cut_at_changes [] = True"
| "cut_at_changes [r] = (r \<noteq> [] \<and> one_state r)"
| "cut_at_changes (r # s # rs) =
     (2 \<le> length r \<and> one_state (butlast r) \<and> snd (last r) \<noteq> snd (hd r) \<and> s \<noteq> [] \<and> hd s = last r \<and> cut_at_changes (s # rs))"

lemma state_runs_cons: "\<exists>r rs. state_runs (p # ps) = (p # r) # rs"
proof (induction ps arbitrary: p)
  case (Cons q ps)
  obtain r rs where "state_runs (q # ps) = (q # r) # rs" using Cons.IH by blast
  then show ?case by simp
qed simp

lemma joined_cons: "joined ((p # r) # rs) = p # joined (r # rs)" if "r \<noteq> []" for r rs
  using that by (cases rs) auto

lemma joined_runs: "joined (state_runs ps) = ps"
proof (induction ps rule: state_runs.induct)
  case (3 p q ps)
  obtain r rs where r: "state_runs (q # ps) = (q # r) # rs" using state_runs_cons by blast
  show ?case
  proof (cases "snd p = snd q")
    case True
    with 3 r show ?thesis by (simp add: joined_cons)
  next
    case False
    with 3 r show ?thesis by simp
  qed
qed simp_all

lemma one_state_cons: "one_state (p # q # r) \<longleftrightarrow> snd p = snd q \<and> one_state (q # r)"
  by (auto simp: list_all_iff)

lemma cut_extend:
  assumes "cut_at_changes ((q # r) # rs)" "snd p = snd q"
  shows "cut_at_changes ((p # q # r) # rs)"
proof (cases rs)
  case Nil
  with assms show ?thesis by (simp add: one_state_cons del: one_state.simps)
next
  case (Cons s ss)
  with assms have "r \<noteq> []" by auto
  then obtain r' e where "r = r' @ [e]" by (cases r rule: rev_cases) auto
  with assms Cons show ?thesis by (auto simp: list_all_iff butlast_append)
qed

lemma cut_runs: "cut_at_changes (state_runs ps)"
proof (induction ps rule: state_runs.induct)
  case (3 p q ps)
  obtain r rs where r: "state_runs (q # ps) = (q # r) # rs" using state_runs_cons by blast
  show ?case
  proof (cases "snd p = snd q")
    case True
    with 3(1) r show ?thesis by (simp add: cut_extend del: cut_at_changes.simps)
  next
    case False
    with 3(2) r show ?thesis by auto
  qed
qed simp_all

lemma state_runs_change:
  assumes "xs \<noteq> []" "one_state xs" "snd q \<noteq> snd (hd xs)"
  shows "state_runs (xs @ q # ys) = (xs @ [q]) # state_runs (q # ys)"
  using assms
proof (induction xs rule: list_nonempty_induct)
  case (cons x xs)
  then obtain y zs where xs: "xs = y # zs" by (cases xs) auto
  from cons.prems have "snd x = snd y" "one_state xs" "snd q \<noteq> snd (hd xs)"
    by (auto simp: xs list_all_iff)
  with cons.IH show ?case by (simp add: xs)
qed auto

lemma state_runs_constant: "ps \<noteq> [] \<Longrightarrow> one_state ps \<Longrightarrow> state_runs ps = [ps]"
proof (induction ps rule: list_nonempty_induct)
  case (cons x xs)
  then obtain y zs where xs: "xs = y # zs" by (cases xs) auto
  from cons.prems have "snd x = snd y" "one_state xs" by (auto simp: xs list_all_iff)
  with cons.IH show ?case by (simp add: xs)
qed simp

text \<open>What a state line draws, run by run: the run, and at its end, unless it is the last, the mark of the change.\<close>

fun draw_runs ::
  "((rat \<times> string) list \<Rightarrow> draw list result) \<Rightarrow> (rat \<times> string \<Rightarrow> draw list result) \<Rightarrow> (rat \<times> string) list list \<Rightarrow> draw list result" where
  "draw_runs seg mk [] = Inr []"
| "draw_runs seg mk [r] = seg r"
| "draw_runs seg mk (r # s # rs) =
     rbind (seg r) (\<lambda>a. rbind (mk (last r)) (\<lambda>b. rbind (draw_runs seg mk (s # rs)) (\<lambda>c. Inr (a @ b @ c))))"

lemma list_slice_drop: "lo \<le> hi \<Longrightarrow> drop lo xs = list_slice lo hi xs @ drop hi xs"
  using append_take_drop_id [of "hi - lo" "drop lo xs"] by (simp add: list_slice_def)

lemma list_slice_snoc: "lo \<le> i \<Longrightarrow> i < length xs \<Longrightarrow> list_slice lo (i + 1) xs = list_slice lo i xs @ [xs ! i]"
  by (simp add: list_slice_def Suc_diff_le take_Suc_conv_app_nth)

lemma run_loop_runs:
  assumes "start < i" "i \<le> length ps" "one_state (list_slice start i ps)"
  shows "run_loop seg mk ps start [i ..< length ps] = draw_runs seg mk (state_runs (drop start ps))"
  using assms
proof (induction "length ps - i" arbitrary: i start)
  case 0
  then have i: "i = length ps" by simp
  with 0 have "list_slice start i ps = drop start ps" by (simp add: list_slice_def)
  with 0 i show ?case by (simp add: state_runs_constant)
next
  case (Suc n)
  then have i: "i < length ps" "[i ..< length ps] = i # [Suc i ..< length ps]" by (simp_all add: upt_conv_Cons)
  have ne: "list_slice start i ps \<noteq> []" and hd: "hd (list_slice start i ps) = ps ! start" and la: "last (list_slice start i ps) = ps ! (i - 1)"
    using Suc.prems i by (simp_all add: list_slice_def hd_drop_conv_nth last_conv_nth)
  have same: "snd (ps ! (i - 1)) = snd (ps ! start)"
    using Suc.prems(3) last_in_set [OF ne] unfolding la hd [symmetric]
    by (cases "list_slice start i ps") (auto simp: list_all_iff)
  have d: "drop start ps = list_slice start i ps @ ps ! i # drop (Suc i) ps"
    using list_slice_drop [of start i ps] Suc.prems i by (simp add: Cons_nth_drop_Suc)
  show ?case
  proof (cases "snd (ps ! i) = snd (ps ! (i - 1))")
    case True
    then have "one_state (list_slice start (Suc i) ps)"
      using list_slice_snoc [of start i ps] Suc.prems i ne hd same by (cases "list_slice start i ps") auto
    from Suc.hyps(1) [OF _ _ _ this] Suc.hyps(2) Suc.prems i True show ?thesis by simp
  next
    case False
    have "one_state (list_slice i (Suc i) ps)" by (simp add: list_slice_def i(1) take_Suc_conv_app_nth [of 0, simplified] flip: Cons_nth_drop_Suc [OF i(1)])
    from Suc.hyps(1) [of "Suc i" i, OF _ _ _ this] Suc.hyps(2) i
    have "run_loop seg mk ps i [Suc i ..< length ps] = draw_runs seg mk (state_runs (drop i ps))" by simp
    moreover have "state_runs (drop start ps) = list_slice start (i + 1) ps # state_runs (drop i ps)"
      using state_runs_change [OF ne Suc.prems(3), of "ps ! i" "drop (Suc i) ps"] False same hd list_slice_snoc [of start i ps] Suc.prems(1) i
      unfolding d by (simp add: Cons_nth_drop_Suc)
    moreover obtain r rs where "state_runs (drop i ps) = (ps ! i # r) # rs"
      using state_runs_cons by (metis Cons_nth_drop_Suc i(1))
    moreover have "last (list_slice start (i + 1) ps) = ps ! i"
      using list_slice_snoc [of start i ps] Suc.prems(1) i by simp
    ultimately show ?thesis using False i by simp
  qed
qed

corollary state_line_runs: "ps \<noteq> [] \<Longrightarrow> run_loop seg mk ps 0 [1 ..< length ps] = draw_runs seg mk (state_runs ps)"
  using run_loop_runs [of 0 1 ps] by (cases ps) (simp_all add: list_slice_def)
section \<open>State lines: what is drawn\<close>

fun curve_of :: "draw \<Rightarrow> ((rat \<times> rat) list \<times> string) list" where
  "curve_of (Curve ps c) = [(ps, c)]"
| "curve_of _ = []"

fun area_of :: "draw \<Rightarrow> ((rat \<times> rat) list \<times> string) list" where
  "area_of (Area ps c) = [(ps, c)]"
| "area_of _ = []"

fun dot_of :: "draw \<Rightarrow> (rat \<times> rat) list" where
  "dot_of (Dot x y) = [(x, y)]"
| "dot_of _ = []"

definition curves :: "draw list \<Rightarrow> ((rat \<times> rat) list \<times> string) list" where
  "curves ds = concat (map curve_of ds)"

definition areas :: "draw list \<Rightarrow> ((rat \<times> rat) list \<times> string) list" where
  "areas ds = concat (map area_of ds)"

definition dots :: "draw list \<Rightarrow> (rat \<times> rat) list" where
  "dots ds = concat (map dot_of ds)"

text \<open>The calls of one kind in a list of calls. What they are for a state line follows from what they are for a run and for a mark.\<close>

locale selector =
  fixes sel :: "draw list \<Rightarrow> 'b list"
  assumes sel_append: "sel (a @ b) = sel a @ sel b"
begin

lemma sel_Nil: "sel [] = []"
  using sel_append [of "[]" "[]"] by simp

lemma sel_concat: "sel (concat dss) = concat (map sel dss)"
  by (induction dss) (auto simp: sel_Nil sel_append)

lemma per_run:
  assumes "draw_runs seg mk R = Inr ds" "\<And>r d. r \<in> set R \<Longrightarrow> seg r = Inr d \<Longrightarrow> sel d = f r" "\<And>p d. mk p = Inr d \<Longrightarrow> sel d = []"
  shows "sel ds = concat (map f R)"
  using assms
proof (induction seg mk R arbitrary: ds rule: draw_runs.induct)
  case (3 seg mk r s rs)
  then obtain a b c where d: "seg r = Inr a" "mk (last r) = Inr b" "draw_runs seg mk (s # rs) = Inr c" "ds = a @ b @ c"
    by (auto simp: rbind_eq_Inr)
  have "sel c = concat (map f (s # rs))" by (rule "3.IH" [OF d(3)]) (use "3.prems" in simp_all)
  with "3.prems"(2) [OF _ d(1)] "3.prems"(3) [OF d(2)] show ?case by (simp add: d(4) sel_append)
qed (simp_all add: sel_Nil)

lemma per_change:
  assumes "draw_runs seg mk R = Inr ds" "\<And>r d. seg r = Inr d \<Longrightarrow> sel d = []" "\<And>p d. mk p = Inr d \<Longrightarrow> sel d = f p"
  shows "sel ds = concat (map (f \<circ> last) (butlast R))"
  using assms
proof (induction seg mk R arbitrary: ds rule: draw_runs.induct)
  case (3 seg mk r s rs)
  then obtain a b c where d: "seg r = Inr a" "mk (last r) = Inr b" "draw_runs seg mk (s # rs) = Inr c" "ds = a @ b @ c"
    by (auto simp: rbind_eq_Inr)
  have "sel c = concat (map (f \<circ> last) (butlast (s # rs)))" by (rule "3.IH" [OF d(3)]) (use "3.prems" in simp_all)
  with "3.prems"(2) [OF d(1)] "3.prems"(3) [OF d(2)] show ?case by (simp add: d(4) sel_append comp_def)
qed (simp_all add: sel_Nil)

lemma per_item:
  assumes "rmap_list m xs = Inr dss" "\<And>x d. m x = Inr d \<Longrightarrow> sel d = f x"
  shows "sel (concat dss) = concat (map f xs)"
  using assms(1)
proof (induction xs arbitrary: dss)
  case (Cons x xs)
  then obtain d ds where "m x = Inr d" "rmap_list m xs = Inr ds" "dss = d # ds" by (auto simp: rbind_eq_Inr)
  with Cons.IH [of ds] assms(2) show ?case by (simp add: sel_append)
qed (simp add: sel_Nil)

end

interpretation curves: selector curves
  by unfold_locales (simp add: curves_def)

interpretation areas: selector areas
  by unfold_locales (simp add: areas_def)

interpretation dots: selector dots
  by unfold_locales (simp add: dots_def)

text \<open>The point of a sample and the line of a run, for known states.\<close>

definition sample_point :: "rat \<times> string \<Rightarrow> rat \<times> rat" where
  "sample_point p = (fst p, the (map_of STATE_Y (snd p)))"

definition run_line :: "(rat \<times> string) list \<Rightarrow> (rat \<times> rat) list \<times> string" where
  "run_line r = (map sample_point r, the (map_of STATE_COLOR (snd (hd r))))"

text \<open>The points at which the state is another than before.\<close>

definition changes :: "('a \<times> string) list \<Rightarrow> ('a \<times> string) list" where
  "changes ps = map snd (filter (\<lambda>(p, q). snd p \<noteq> snd q) (zip ps (tl ps)))"

lemma changes_cons: "changes (p # q # ps) = (if snd p = snd q then [] else [q]) @ changes (q # ps)"
  by (simp add: changes_def)

lemma run_ends: "map last (butlast (state_runs ps)) = changes ps"
proof (induction ps rule: state_runs.induct)
  case (3 p q ps)
  obtain r rs where r: "state_runs (q # ps) = (q # r) # rs" using state_runs_cons by blast
  show ?case
  proof (cases "snd p = snd q")
    case True
    from 3(1) [OF True] r True show ?thesis by (cases rs) (auto simp: changes_cons)
  next
    case False
    from 3(2) [OF False] r False show ?thesis by (simp add: changes_cons)
  qed
qed (simp_all add: changes_def)

lemma changes_indices: "map ((!) ps) (change_indices ps) = changes ps"
proof -
  have "changes ps = map (\<lambda>i. ps ! Suc i) (filter (\<lambda>i. snd (ps ! i) \<noteq> snd (ps ! Suc i)) [0 ..< length ps - 1])"
  proof -
    have "zip ps (tl ps) = map (\<lambda>i. (ps ! i, ps ! Suc i)) [0 ..< length ps - 1]"
      by (rule nth_equalityI) (auto simp: nth_tl)
    then show ?thesis by (simp add: changes_def filter_map comp_def)
  qed
  also have "\<dots> = map ((!) ps) (filter (\<lambda>i. snd (ps ! i) \<noteq> snd (ps ! (i - 1))) (map Suc [0 ..< length ps - 1]))"
    by (auto simp: filter_map comp_def intro!: arg_cong [where f = "map _"] filter_cong)
  also have "map Suc [0 ..< length ps - 1] = [1 ..< length ps]" by (cases ps) (simp_all add: map_Suc_upt)
  finally show ?thesis by (simp add: change_indices_def)
qed

lemma state_point_Inr: "state_point p = Inr q \<Longrightarrow> q = sample_point p \<and> snd p \<in> set STATES"
  by (auto simp: state_point_def sample_point_def dict_item_def rbind_eq_Inr STATE_Y_def STATES_def split: option.splits if_splits)

lemma state_points_Inr:
  assumes "rmap_list state_point ps = Inr qs"
  shows "qs = map sample_point ps" "list_all (\<lambda>p. snd p \<in> set STATES) ps"
  using assms by (induction ps arbitrary: qs) (auto simp: rbind_eq_Inr dest: state_point_Inr)

lemma draw_run_Inr:
  assumes "draw_run r = Inr ds" "r \<noteq> []"
  shows "ds = [Area (fst (run_line r)) (snd (run_line r)), Curve (fst (run_line r)) (snd (run_line r))]"
  using assms by (auto simp: draw_run_def rbind_eq_Inr run_line_def dict_item_eq_Inr dest: state_points_Inr)

lemma runs_nonempty: "[] \<notin> set (state_runs ps)"
proof -
  have "cut_at_changes R \<Longrightarrow> [] \<notin> set R" for R :: "('a \<times> string) list list"
    by (induction R rule: cut_at_changes.induct) auto
  then show ?thesis using cut_runs by blast
qed

lemma drawn_runs:
  assumes "draw_runs draw_run (\<lambda>_. Inr []) (state_runs ps) = Inr ds"
  shows "curves ds = map run_line (state_runs ps)" "areas ds = map run_line (state_runs ps)" "dots ds = []"
proof -
  have d: "sel d = sel [Area (fst (run_line r)) (snd (run_line r)), Curve (fst (run_line r)) (snd (run_line r))]"
    if "r \<in> set (state_runs ps)" "draw_run r = Inr d" for r d and sel :: "draw list \<Rightarrow> 'b list"
  proof -
    have "r \<noteq> []" using that(1) runs_nonempty by metis
    from draw_run_Inr [OF that(2) this] show ?thesis by simp
  qed
  have "curves ds = concat (map (\<lambda>r. [run_line r]) (state_runs ps))"
    by (rule curves.per_run [OF assms], subst d) (simp_all add: curves_def)
  then show "curves ds = map run_line (state_runs ps)" by simp
  have "areas ds = concat (map (\<lambda>r. [run_line r]) (state_runs ps))"
    by (rule areas.per_run [OF assms], subst d) (simp_all add: areas_def)
  then show "areas ds = map run_line (state_runs ps)" by simp
  have "dots ds = concat (map (\<lambda>r. []) (state_runs ps))"
    by (rule dots.per_run [OF assms], subst d) (simp_all add: dots_def)
  then show "dots ds = []" by simp
qed
text \<open>That the drawing shows a series: the series is cut at its state changes (the pieces joined are the series, each piece has one state up to
  the point where the next begins), every piece is one line and one filled area in the colour of its state, and a marker stands at
  every change and nowhere else.\<close>

definition shows_series :: "draw list \<Rightarrow> (rat \<times> string) list \<Rightarrow> bool" where
  "shows_series ds ps \<longleftrightarrow> (\<exists>R. joined R = ps \<and> cut_at_changes R \<and> curves ds = map run_line R \<and> areas ds = map run_line R) \<and>
     dots ds = map sample_point (changes ps)"

lemma shows_nothing: "shows_series [] []"
  by (auto simp: shows_series_def changes_def curves.sel_Nil areas.sel_Nil dots.sel_Nil intro!: exI [of _ "[]"])

lemma series_drawn:
  assumes "run_loop draw_run (\<lambda>_. Inr []) ps 0 [1 ..< length ps] = Inr runs" "ps \<noteq> []"
    and marks: "rmap_list m (change_indices ps) = Inr marks"
    and m: "\<And>i d. m i = Inr d \<Longrightarrow> curves d = [] \<and> areas d = [] \<and> dots d = [sample_point (ps ! i)]"
  shows "curves (runs @ concat marks) = map run_line (state_runs ps) \<and> areas (runs @ concat marks) = map run_line (state_runs ps) \<and>
    dots (runs @ concat marks) = map sample_point (changes ps)"
proof -
  have "dots (concat marks) = concat (map (\<lambda>i. [sample_point (ps ! i)]) (change_indices ps))"
    "curves (concat marks) = concat (map (\<lambda>i. []) (change_indices ps))"
    "areas (concat marks) = concat (map (\<lambda>i. []) (change_indices ps))"
    by (rule dots.per_item [OF marks] curves.per_item [OF marks] areas.per_item [OF marks], simp add: m)+
  moreover have "map (\<lambda>i. sample_point (ps ! i)) (change_indices ps) = map sample_point (changes ps)"
    unfolding changes_indices [symmetric] by simp
  ultimately show ?thesis
    using drawn_runs [OF assms(1) [unfolded state_line_runs [OF assms(2)]]]
    by (simp add: curves.sel_append areas.sel_append dots.sel_append)
qed

lemma drawn_shows:
  "curves ds = map run_line (state_runs ps) \<and> areas ds = map run_line (state_runs ps) \<and> dots ds = map sample_point (changes ps) \<Longrightarrow>
   shows_series ds ps"
  using joined_runs [of ps] cut_runs [of ps] by (auto simp: shows_series_def)

lemma trial_mark_draws:
  assumes "trial_mark ps i = Inr d"
  shows "curves d = [] \<and> areas d = [] \<and> dots d = [sample_point (ps ! i)]"
  using assms by (auto simp: trial_mark_def rbind_eq_Inr split_beta curves_def areas_def dots_def dest!: state_point_Inr)

lemma trial_drawn:
  assumes "ps \<noteq> []" "plot_trial ps = Inr ds"
  shows "curves ds = map run_line (state_runs ps) \<and> areas ds = map run_line (state_runs ps) \<and> dots ds = map sample_point (changes ps)"
proof -
  from assms obtain runs marks where runs: "run_loop draw_run (\<lambda>_. Inr []) ps 0 [1 ..< length ps] = Inr runs"
    and marks: "rmap_list (trial_mark ps) (change_indices ps) = Inr marks" and ds: "ds = runs @ concat marks"
    unfolding plot_trial_def rbind_eq_Inr by blast
  from series_drawn [OF runs assms(1) marks trial_mark_draws] show ?thesis by (simp add: ds)
qed

section \<open>The single timeline\<close>

lemma phase_x_bounds: "of_nat idx \<le> phase_x idx h band" "phase_x idx h band \<le> of_nat idx + 1"
  by (simp_all add: phase_x_def Let_def)

lemma phase_x_mono: "h \<le> h' \<Longrightarrow> phase_x idx h band \<le> phase_x idx h' band"
proof -
  assume "h \<le> h'"
  then have "of_int (h - fst band) / of_int (snd band - fst band) \<le> (of_int (h' - fst band) / of_int (snd band - fst band) :: rat)"
    if "fst band < snd band" using that by (intro divide_right_mono) simp_all
  then show ?thesis unfolding phase_x_def Let_def by (intro add_left_mono min.mono max.mono) (auto simp: not_le)
qed

lemma phase_x_ends:
  assumes "fst band < snd band"
  shows "phase_x idx (fst band) band = of_nat idx" "phase_x idx (snd band) band = of_nat idx + 1"
  using assms by (simp_all add: phase_x_def Let_def)

text \<open>The representative rows of a scenario are those of one node, and no node has more.\<close>

definition good_rows :: "string option \<Rightarrow> 'a csv_sample_scheme list \<Rightarrow> 'a csv_sample_scheme list" where
  "good_rows n rows = filter (\<lambda>r. 0 \<le> cs_height r \<and> row_node r = Inr n) rows"

lemma by_node_lookup:
  "by_node d rows = Inr d' \<Longrightarrow> dict_get d' n [] = dict_get d n [] @ good_rows n rows"
proof (induction d rows rule: by_node.induct)
  case (2 d r rs)
  show ?case
  proof (cases "0 \<le> cs_height r")
    case True
    with "2.prems" obtain k where k: "row_node r = Inr k" and d': "by_node (dict_append k r d) rs = Inr d'" by (auto simp: rbind_eq_Inr)
    from "2.IH"(1) [OF True d'] show ?thesis by (simp add: good_rows_def True k)
  next
    case False
    with 2 show ?thesis by (simp add: good_rows_def)
  qed
qed (simp add: good_rows_def)

lemma by_node_keys: "by_node d rows = Inr d' \<Longrightarrow> set (dict_keys d') = set (dict_keys d) \<union> {n. good_rows n rows \<noteq> []}"
proof (induction d rows rule: by_node.induct)
  case (2 d r rs)
  show ?case
  proof (cases "0 \<le> cs_height r")
    case True
    with "2.prems" obtain k where k: "row_node r = Inr k" and d': "by_node (dict_append k r d) rs = Inr d'" by (auto simp: rbind_eq_Inr)
    have "{n. good_rows n (r # rs) \<noteq> []} = insert k {n. good_rows n rs \<noteq> []}" by (auto simp: good_rows_def True k)
    with "2.IH"(1) [OF True d'] show ?thesis by (simp add: dict_append_def dict_keys_def dom_update)
  next
    case False
    then have "good_rows n (r # rs) = good_rows n rs" for n by (simp add: good_rows_def)
    with False 2 show ?thesis by simp
  qed
qed (simp add: good_rows_def)

lemma best_covered_rows:
  assumes "best_covered rows = Inr rs"
  shows "(rs = [] \<longrightarrow> (\<forall>n. good_rows n rows = [])) \<and> (\<exists>best. rs = good_rows best rows \<and> (\<forall>n. length (good_rows n rows) \<le> length rs))"
proof -
  from assms obtain d where d: "by_node [] rows = Inr d"
    and rs: "(if d = [] then Inr [] else rbind (py_max (\<lambda>n. length (dict_get d n [])) (dict_keys d)) (\<lambda>best. Inr (dict_get d best []))) = Inr rs"
    by (auto simp: best_covered_def rbind_eq_Inr)
  have look: "dict_get d n [] = good_rows n rows" for n using by_node_lookup [OF d] by (simp add: dict_get_def)
  have keys: "set (dict_keys d) = {n. good_rows n rows \<noteq> []}" using by_node_keys [OF d] by (simp add: dict_keys_def)
  show ?thesis
  proof (cases "d = []")
    case True
    with keys rs show ?thesis by (auto simp: dict_keys_def)
  next
    case False
    with rs obtain best where best: "py_max (\<lambda>n. length (good_rows n rows)) (dict_keys d) = Inr best" "rs = good_rows best rows"
      by (auto simp: rbind_eq_Inr look)
    from py_max_Inr [OF best(1)] keys have "good_rows best rows \<noteq> []" "\<forall>n. length (good_rows n rows) \<le> length rs"
      by (auto simp: best(2))
    with best(2) show ?thesis by auto
  qed
qed
text \<open>The series of a phase and its bounds.\<close>

definition phase_series :: "nat \<Rightarrow> int \<times> int \<Rightarrow> csv_sample list \<Rightarrow> string option list \<Rightarrow> (rat \<times> string) list" where
  "phase_series idx band rep states = map (\<lambda>(h, s). (phase_x idx h band, s)) (with_state (map cs_height rep) states)"

lemma with_state_fst: "length xs = length cs \<Longrightarrow> map fst (with_state xs cs) = map fst (filter (\<lambda>(x, c). filled c) (zip xs cs))"
  by (simp add: with_state_def comp_def split_beta)

lemma sorted_filter_zip: "length xs = length cs \<Longrightarrow> sorted xs \<Longrightarrow> sorted (map fst (filter P (zip xs cs)))"
  by (metis map_fst_zip sorted_filter)

lemma phase_series_ordered:
  assumes "sorted (map cs_height rep)" "length states = length rep"
  shows "sorted (map fst (phase_series idx band rep states)) \<and>
    list_all (\<lambda>p. of_nat idx \<le> fst p \<and> fst p \<le> of_nat idx + 1) (phase_series idx band rep states)"
proof -
  have "sorted (map fst (with_state (map cs_height rep) states))"
    using assms by (simp add: with_state_fst sorted_filter_zip)
  then have "sorted (map (\<lambda>h. phase_x idx h band) (map fst (with_state (map cs_height rep) states)))"
    by (auto simp: sorted_map sorted_wrt_map elim!: sorted_wrt_mono_rel [rotated] intro: phase_x_mono)
  then show ?thesis by (auto simp: phase_series_def comp_def split_beta list_all_iff phase_x_bounds)
qed

lemma timeline_rows_sorted: "timeline_rows rows = Inr rep \<Longrightarrow> sorted (map cs_height rep)"
  by (auto simp: timeline_rows_def rbind_eq_Inr)

lemma change_mark_draws:
  assumes "change_mark ps hs i = Inr d"
  shows "curves d = [] \<and> areas d = [] \<and> dots d = [sample_point (ps ! i)]"
  using assms by (auto simp: change_mark_def cause_note_def rbind_eq_Inr split_beta curves_def areas_def dots_def dest!: state_point_Inr)

lemma step_line_shows:
  assumes "plot_step_line scenarios band_of name = Inr ds" "map_of scenarios name = Some rows" "timeline_rows rows = Inr rep"
    "list_index SCENARIO_ORDER name = Inr idx" "map_of band_of name = Some band"
  shows "\<exists>states. rmap_list row_state rep = Inr states \<and> shows_series ds (phase_series idx band rep states)"
proof (cases "rep = []")
  case True
  with assms have "ds = []" by (auto simp: plot_step_line_def dict_item_def)
  with True show ?thesis
    by (intro exI [of _ "[]"]) (simp add: shows_nothing phase_series_def with_state_def)
next
  case False
  with assms obtain states where states: "rmap_list row_state rep = Inr states" by (auto simp: plot_step_line_def dict_item_def rbind_eq_Inr)
  define hs where "hs = with_state (map cs_height rep) states"
  define ps where "ps = phase_series idx band rep states"
  have ps: "ps = map (\<lambda>(h, s). (phase_x idx h band, s)) hs" by (simp add: ps_def phase_series_def hs_def)
  have "shows_series ds ps"
  proof (cases "hs = []")
    case True
    with False assms states have "ds = []" by (auto simp: plot_step_line_def dict_item_def hs_def Let_def)
    with True show ?thesis by (simp add: ps shows_nothing)
  next
    case hs: False
    then have ne: "ps \<noteq> []" and len: "length ps = length hs" by (simp_all add: ps)
    have "rbind (run_loop draw_run (\<lambda>_. Inr []) ps 0 [1 ..< length ps]) (\<lambda>runs.
        rbind (rmap_list (change_mark ps (map fst hs)) (change_indices ps)) (\<lambda>marks. Inr (runs @ concat marks))) = Inr ds"
      using assms False hs states unfolding len by (simp add: plot_step_line_def dict_item_def Let_def flip: hs_def ps)
    then obtain runs marks where runs: "run_loop draw_run (\<lambda>_. Inr []) ps 0 [1 ..< length ps] = Inr runs"
      and marks: "rmap_list (change_mark ps (map fst hs)) (change_indices ps) = Inr marks" and ds: "ds = runs @ concat marks"
      unfolding rbind_eq_Inr by blast
    from series_drawn [OF runs ne marks change_mark_draws] show ?thesis unfolding ds by (rule drawn_shows)
  qed
  with states show ?thesis by (auto simp: ps_def)
qed

text \<open>The bands.\<close>

definition height_range :: "csv_sample list \<Rightarrow> int \<times> int" where
  "height_range rep = (Min (cs_height ` set rep), Max (cs_height ` set rep))"

lemma py_min_Min: "xs \<noteq> [] \<Longrightarrow> py_min id xs = Inr (Min (set xs))"
proof -
  assume "xs \<noteq> []"
  then obtain m where m: "py_min id xs = Inr m" by (cases xs) auto
  from py_min_Inr [OF m] have "Min (set xs) = m" by (intro Min_eqI) auto
  with m show ?thesis by simp
qed

lemma py_max_Max: "xs \<noteq> [] \<Longrightarrow> py_max id xs = Inr (Max (set xs))"
proof -
  assume "xs \<noteq> []"
  then obtain m where m: "py_max id xs = Inr m" by (cases xs) auto
  from py_max_Inr [OF m] have "Max (set xs) = m" by (intro Max_eqI) auto
  with m show ?thesis by simp
qed

definition has_reps :: "(string, csv_sample list) dict \<Rightarrow> string list \<Rightarrow> csv_sample list list \<Rightarrow> bool" where
  "has_reps scenarios names reps \<longleftrightarrow> list_all2 (\<lambda>name rep. \<exists>rows. map_of scenarios name = Some rows \<and> timeline_rows rows = Inr rep) names reps"

lemma region_bounds_reps:
  "has_reps scenarios names reps \<Longrightarrow> region_bounds scenarios names = Inr (map height_range (filter (\<lambda>rep. rep \<noteq> []) reps))"
  unfolding has_reps_def
proof (induction names reps rule: list_all2_induct)
  case (Cons name names rep reps)
  then show ?case by (auto simp: dict_item_def py_min_Min py_max_Max height_range_def)
qed simp

lemma region_bounds_Inr: "region_bounds scenarios names = Inr bounds \<Longrightarrow> \<exists>reps. has_reps scenarios names reps"
proof (induction names arbitrary: bounds)
  case (Cons name names)
  then obtain rows rep where "map_of scenarios name = Some rows" "timeline_rows rows = Inr rep" "\<exists>b. region_bounds scenarios names = Inr b"
    by (auto simp: rbind_eq_Inr dict_item_eq_Inr split: if_splits)
  with Cons.IH show ?case unfolding has_reps_def by (auto simp: list_all2_Cons1)
qed (auto simp: has_reps_def)
lemma rmap_list_Inl:
  assumes "\<exists>x \<in> set xs. f x = Inl e" "\<And>x e'. x \<in> set xs \<Longrightarrow> f x = Inl e' \<Longrightarrow> e' = e"
  shows "rmap_list f xs = Inl e"
  using assms
proof (induction xs)
  case (Cons x xs)
  show ?case
  proof (cases "f x")
    case (Inl e')
    with Cons.prems(2) [of x] show ?thesis by simp
  next
    case (Inr y)
    then have "\<exists>x \<in> set xs. f x = Inl e" using Cons.prems(1) by auto
    then have "rmap_list f xs = Inl e" by (rule Cons.IH) (rule Cons.prems(2), simp_all)
    with Inr show ?thesis by simp
  qed
qed simp

lemma phase_bands_short:
  assumes "length bounds < length SCENARIO_ORDER"
  shows "phase_bands bounds = Inl (Exn IndexError ''list index out of range'')"
proof -
  let ?e = "Exn IndexError ''list index out of range''" and ?xs = "zip [0 ..< length SCENARIO_ORDER] SCENARIO_ORDER"
  have "(length SCENARIO_ORDER - 1, ''s7_recovery'') \<in> set ?xs" by (simp add: SCENARIO_ORDER_def upt_conv_Cons)
  moreover have "list_item (map snd bounds) (length SCENARIO_ORDER - 1) = Inl ?e" using assms by (simp add: list_item_def)
  then have "phase_band bounds (length SCENARIO_ORDER - 1, ''s7_recovery'') = Inl ?e"
    by (auto simp: phase_band_def Let_def rbind_eq_Inl list_item_def)
  ultimately have "\<exists>p \<in> set ?xs. phase_band bounds p = Inl ?e" by blast
  moreover have "phase_band bounds p = Inl e' \<Longrightarrow> e' = ?e" for p e'
    by (auto simp: phase_band_def Let_def rbind_eq_Inl list_item_def split: if_splits)
  ultimately have "rmap_list (phase_band bounds) ?xs = Inl ?e" by (rule rmap_list_Inl)
  then show ?thesis by (simp add: phase_bands_def)
qed

lemma phase_bands_full:
  assumes "length bounds = length SCENARIO_ORDER"
  shows "phase_bands bounds = Inr (map (\<lambda>k. (SCENARIO_ORDER ! k, if k = 0 then fst (hd bounds) else snd (bounds ! (k - 1)), snd (bounds ! k)))
    [0 ..< length SCENARIO_ORDER])" (is "_ = Inr ?bands")
proof -
  let ?xs = "zip [0 ..< length SCENARIO_ORDER] SCENARIO_ORDER"
  have ne: "bounds \<noteq> []" using assms by (auto simp: SCENARIO_ORDER_def)
  have "rmap_list (phase_band bounds) ?xs =
      Inr (map (\<lambda>(k, name). (name, if k = 0 then fst (hd bounds) else snd (bounds ! (k - 1)), snd (bounds ! k))) ?xs)"
    by (rule rmap_list_Inr) (auto simp: set_zip phase_band_def Let_def list_item_def assms ne hd_conv_nth)
  also have "map (\<lambda>(k, name). (name, if k = 0 then fst (hd bounds) else snd (bounds ! (k - 1)), snd (bounds ! k))) ?xs = ?bands"
    by (rule nth_equalityI) simp_all
  finally have r: "rmap_list (phase_band bounds) ?xs = Inr ?bands" .
  have "map fst ?bands = SCENARIO_ORDER" by (simp add: comp_def map_nth)
  moreover have "distinct SCENARIO_ORDER" by (simp add: SCENARIO_ORDER_def)
  ultimately have "dict_of fst snd ?bands = map (\<lambda>x. (fst x, snd x)) ?bands" by (intro dict_of_distinct) simp
  then show ?thesis unfolding phase_bands_def r by simp
qed

lemma order_distinct: "distinct SCENARIO_ORDER" "length SCENARIO_ORDER = 7"
  by (simp_all add: SCENARIO_ORDER_def)

lemma list_index_nth: "distinct ys \<Longrightarrow> i < length ys \<Longrightarrow> list_index ys (ys ! i) = Inr i"
  by (induction ys arbitrary: i) (auto simp: nth_Cons split: nat.splits)

lemma reps_length: "has_reps scenarios SCENARIO_ORDER reps \<Longrightarrow> length reps = length SCENARIO_ORDER"
  by (auto simp: has_reps_def dest: list_all2_lengthD)

lemma timeline_fails:
  assumes "has_reps scenarios SCENARIO_ORDER reps" "[] \<in> set reps"
  shows "single_timeline scenarios = Inl (Exn IndexError ''list index out of range'')"
proof -
  have "length (filter (\<lambda>rep. rep \<noteq> []) reps) < length SCENARIO_ORDER"
    using length_filter_less [of "[]" reps] assms(2) reps_length [OF assms(1)] by simp
  then show ?thesis unfolding single_timeline_def region_bounds_reps [OF assms(1)] by (simp add: phase_bands_short)
qed

text \<open>C38. The single timeline needs every scenario: when one of the seven scenarios has no successful sample, the script ends in an IndexError,
  although its loops are written to skip such a scenario.\<close>

theorem timeline_needs_every_scenario:
  assumes "has_reps scenarios SCENARIO_ORDER reps" "[] \<in> set reps"
  shows "single_timeline scenarios = Inl (Exn IndexError ''list index out of range'')"
  using assms by (rule timeline_fails)

definition gap_example :: "(string, csv_sample list) dict" where
  "gap_example = map (\<lambda>name. (name, if name = ''s5_anchor_isolation'' then []
     else [\<lparr>cs_cells = [(''node'', Some ''engram-node02''), (''fsm_state'', Some ''ANCHORED'')], cs_timestamp = 0, cs_height = 7\<rparr>])) SCENARIO_ORDER"

theorem timeline_needs_every_scenario_witness:
  "map_of gap_example ''s5_anchor_isolation'' = Some [] \<and>
   single_timeline gap_example = Inl (Exn IndexError ''list index out of range'')"
proof -
  have "has_reps gap_example SCENARIO_ORDER (map (\<lambda>name. the (map_of gap_example name)) SCENARIO_ORDER)"
    by (simp add: has_reps_def gap_example_def SCENARIO_ORDER_def timeline_rows_def best_covered_def row_node_def dict_item_def dict_append_def
        dict_get_def dict_keys_def)
  moreover have "[] \<in> set (map (\<lambda>name. the (map_of gap_example name)) SCENARIO_ORDER)" "map_of gap_example ''s5_anchor_isolation'' = Some []"
    by (simp_all add: gap_example_def SCENARIO_ORDER_def)
  ultimately show ?thesis using timeline_needs_every_scenario by blast
qed

text \<open>The band of a phase: from the greatest height of the phase before (for the first one, from its own least height) to its own greatest height.\<close>

definition band_at :: "csv_sample list list \<Rightarrow> nat \<Rightarrow> int \<times> int" where
  "band_at reps k = (if k = 0 then fst (height_range (hd reps)) else snd (height_range (reps ! (k - 1))), snd (height_range (reps ! k)))"

lemma bands_of_reps:
  assumes "has_reps scenarios SCENARIO_ORDER reps" "[] \<notin> set reps"
  shows "region_bounds scenarios SCENARIO_ORDER = Inr (map height_range reps)"
    "phase_bands (map height_range reps) = Inr (map (\<lambda>k. (SCENARIO_ORDER ! k, band_at reps k)) [0 ..< length SCENARIO_ORDER])"
proof -
  have "filter (\<lambda>rep. rep \<noteq> []) reps = reps" using assms(2) by (induction reps) auto
  with region_bounds_reps [OF assms(1)] show "region_bounds scenarios SCENARIO_ORDER = Inr (map height_range reps)" by simp
  have ne: "reps \<noteq> []" using reps_length [OF assms(1)] order_distinct by auto
  show "phase_bands (map height_range reps) = Inr (map (\<lambda>k. (SCENARIO_ORDER ! k, band_at reps k)) [0 ..< length SCENARIO_ORDER])"
    using phase_bands_full [of "map height_range reps"] reps_length [OF assms(1)] ne
    by (auto simp: band_at_def hd_map intro!: map_cong)
qed

lemma band_lookup:
  assumes "k < length SCENARIO_ORDER"
  shows "map_of (map (\<lambda>k. (SCENARIO_ORDER ! k, band k)) [0 ..< length SCENARIO_ORDER]) (SCENARIO_ORDER ! k) = Some (band k)"
proof (rule map_of_is_SomeI)
  show "distinct (map fst (map (\<lambda>k. (SCENARIO_ORDER ! k, band k)) [0 ..< length SCENARIO_ORDER]))"
    using order_distinct(1) by (simp add: comp_def map_nth)
qed (use assms in auto)

text \<open>C37. The single timeline, when it is drawn: every scenario has a successful sample; the bands of the phases are contiguous, each from the
  greatest height of the phase before to its own; the lines of phase \<open>k\<close> show exactly the series of the scenario's best covered node, in the order of
  the heights, cut and marked at its state changes; and their points lie between \<open>k\<close> and \<open>k + 1\<close>, from left to right.\<close>

theorem timeline_phases_exact:
  assumes "single_timeline scenarios = Inr fig"
  shows "\<exists>reps band_of lines bridges. has_reps scenarios SCENARIO_ORDER reps \<and> [] \<notin> set reps \<and> length lines = length SCENARIO_ORDER \<and>
    panel_draws (hd (fig_panels fig)) = phase_strips @ concat lines @ bridges @ phase_names @ phase_axes (map height_range reps) \<and>
    connect_phases scenarios band_of = Inr bridges \<and>
    (\<forall>k < length SCENARIO_ORDER. map_of band_of (SCENARIO_ORDER ! k) = Some (band_at reps k) \<and>
       (\<exists>states. rmap_list row_state (reps ! k) = Inr states \<and>
         (let series = phase_series k (band_at reps k) (reps ! k) states in
          shows_series (lines ! k) series \<and> sorted (map fst series) \<and> list_all (\<lambda>p. of_nat k \<le> fst p \<and> fst p \<le> of_nat k + 1) series)))"
proof -
  from assms obtain bounds band_of lines bridges where r: "region_bounds scenarios SCENARIO_ORDER = Inr bounds" "phase_bands bounds = Inr band_of"
    and lines: "rmap_list (plot_step_line scenarios band_of) SCENARIO_ORDER = Inr lines" and bridges: "connect_phases scenarios band_of = Inr bridges"
    and draws: "panel_draws (hd (fig_panels fig)) = phase_strips @ concat lines @ bridges @ phase_names @ phase_axes bounds"
    by (auto simp: single_timeline_def rbind_eq_Inr)
  from region_bounds_Inr [OF r(1)] obtain reps where reps: "has_reps scenarios SCENARIO_ORDER reps" by blast
  have ne: "[] \<notin> set reps" using timeline_fails [OF reps] assms by force
  note bands = bands_of_reps [OF reps ne]
  have bounds: "bounds = map height_range reps" and band_of: "band_of = map (\<lambda>k. (SCENARIO_ORDER ! k, band_at reps k)) [0 ..< length SCENARIO_ORDER]"
    using r bands by simp_all
  have "\<exists>states. rmap_list row_state (reps ! k) = Inr states \<and>
      (let series = phase_series k (band_at reps k) (reps ! k) states in
       shows_series (lines ! k) series \<and> sorted (map fst series) \<and> list_all (\<lambda>p. of_nat k \<le> fst p \<and> fst p \<le> of_nat k + 1) series)"
    if k: "k < length SCENARIO_ORDER" for k
  proof -
    from reps k obtain rows where rows: "map_of scenarios (SCENARIO_ORDER ! k) = Some rows" "timeline_rows rows = Inr (reps ! k)"
      by (auto simp: has_reps_def list_all2_conv_all_nth)
    have "plot_step_line scenarios band_of (SCENARIO_ORDER ! k) = Inr (lines ! k)"
      using lines k by (auto simp: rmap_list_all2 list_all2_conv_all_nth)
    from step_line_shows [OF this rows list_index_nth [OF order_distinct(1) k], of "band_at reps k"] band_lookup [OF k]
    obtain states where states: "rmap_list row_state (reps ! k) = Inr states" "shows_series (lines ! k) (phase_series k (band_at reps k) (reps ! k) states)"
      by (auto simp: band_of)
    with phase_series_ordered [OF timeline_rows_sorted [OF rows(2)] rmap_list_length [OF states(1)]] show ?thesis by (auto simp: Let_def)
  qed
  moreover have "map_of band_of (SCENARIO_ORDER ! k) = Some (band_at reps k)" if "k < length SCENARIO_ORDER" for k
    using band_lookup [OF that] by (simp add: band_of)
  ultimately show ?thesis using reps ne draws bridges rmap_list_length [OF lines]
    by (intro exI [of _ reps] exI [of _ band_of] exI [of _ lines] exI [of _ bridges]) (simp add: bounds)
qed

definition full_example :: "(string, csv_sample list) dict" where
  "full_example = map (\<lambda>name.
     (name, [\<lparr>cs_cells = [(''node'', Some ''engram-node02''), (''fsm_state'', Some ''ANCHORED'')], cs_timestamp = 0, cs_height = 7\<rparr>])) SCENARIO_ORDER"

lemma full_example_reps: "has_reps full_example SCENARIO_ORDER (map (\<lambda>name. the (map_of full_example name)) SCENARIO_ORDER)"
  by (simp add: has_reps_def full_example_def SCENARIO_ORDER_def timeline_rows_def best_covered_def row_node_def dict_item_def dict_append_def
      dict_get_def dict_keys_def)

lemma full_example_drawn: "\<exists>fig. single_timeline full_example = Inr fig"
proof -
  let ?reps = "map (\<lambda>name. the (map_of full_example name)) SCENARIO_ORDER"
  define b where "b = map (\<lambda>k. (SCENARIO_ORDER ! k, band_at ?reps k)) [0 ..< length SCENARIO_ORDER]"
  have b: "map_of b name \<noteq> None" if "name \<in> set SCENARIO_ORDER" for name
    using band_lookup [of _ "band_at ?reps"] that by (auto simp: b_def in_set_conv_nth)
  have one: "map_of full_example name =
      Some [\<lparr>cs_cells = [(''node'', Some ''engram-node02''), (''fsm_state'', Some ''ANCHORED'')], cs_timestamp = 0, cs_height = 7\<rparr>]"
    if "name \<in> set SCENARIO_ORDER" for name
    using that by (auto simp: full_example_def map_of_map_restrict)
  have idx: "\<exists>i. list_index SCENARIO_ORDER name = Inr i" if "name \<in> set SCENARIO_ORDER" for name
    using that list_index_nth [OF order_distinct(1)] by (auto simp: in_set_conv_nth)
  note row = timeline_rows_def best_covered_def row_node_def row_state_def dict_item_def dict_append_def dict_get_def dict_keys_def with_state_def
    filled_def draw_run_def state_point_def STATE_Y_def STATES_def STATE_COLOR_def change_indices_def
  have "\<exists>ds. plot_step_line full_example b name = Inr ds" if "name \<in> set SCENARIO_ORDER" for name
    using one [OF that] b [OF that] idx [OF that] by (auto simp: plot_step_line_def Let_def row)
  then have "rmap_list (plot_step_line full_example b) SCENARIO_ORDER =
      Inr (map (\<lambda>name. projr (plot_step_line full_example b name)) SCENARIO_ORDER)"
    by (intro rmap_list_Inr) force
  moreover have "\<exists>ds. connect_pair full_example b i = Inr ds" if "i < length SCENARIO_ORDER - 1" for i
  proof -
    have n: "SCENARIO_ORDER ! i \<in> set SCENARIO_ORDER" "SCENARIO_ORDER ! Suc i \<in> set SCENARIO_ORDER" using that by simp_all
    then obtain b1 b2 where "map_of b (SCENARIO_ORDER ! i) = Some b1" "map_of b (SCENARIO_ORDER ! Suc i) = Some b2" using b by blast
    then show ?thesis using one n by (simp add: connect_pair_def Let_def row)
  qed
  then have "rmap_list (connect_pair full_example b) [0 ..< length SCENARIO_ORDER - 1] =
      Inr (map (\<lambda>i. projr (connect_pair full_example b i)) [0 ..< length SCENARIO_ORDER - 1])"
    by (intro rmap_list_Inr) force
  moreover have "[] \<notin> set ?reps" by (simp add: full_example_def SCENARIO_ORDER_def)
  ultimately show ?thesis using bands_of_reps [OF full_example_reps] by (simp add: single_timeline_def connect_phases_def b_def)
qed

theorem timeline_phases_exact_witness:
  "\<exists>fig reps. single_timeline full_example = Inr fig \<and> has_reps full_example SCENARIO_ORDER reps \<and> [] \<notin> set reps"
proof -
  obtain fig where fig: "single_timeline full_example = Inr fig" using full_example_drawn by blast
  from timeline_phases_exact [OF fig] fig show ?thesis by blast
qed

end
