(* ===== verification/Trace_Figure.thy ===== *)
theory Trace_Figure
  imports Figure_Data Combined_Trace Absorb_Sweep
begin

text \<open>
  The figure of the combined trace, \<^verbatim>\<open>e9_trace_driven/live_figure_builder.py\<close>, built from the three files a run of \<open>Combined_Trace\<close> leaves behind:
  the samples, the summary (whose table of markers it parses) and the scraped sensor readings. A figure is the list of its drawing calls, as
  in \<open>Figure_Data\<close>; the names in the directory of results are an argument.

  Shown here: from the files of a completed run the script reads back the six markers of the run and derives three complete fault windows; the shaded
  withdrawal-locked windows are exactly the maximal stretches of SOVEREIGN and RECOVERING samples; the state line is cut and marked at the
  state changes; and the caption about the application hashes says what was compared.
\<close>

section \<open>Reading the files\<close>

definition find_latest_csv :: "string list \<Rightarrow> string option" where
  "find_latest_csv listing =
     (let paths = sort (filter (\<lambda>n. prefix ''e9_combined_trace_'' n \<and> suffix ''.csv'' n \<and> 22 \<le> length n) listing);
          paths = filter (\<lambda>n. \<not> endswith n ''_sensors.csv'') paths in
      if paths = [] then None else Some (path_join E9_RESULTS_DIR (last paths)))"

record trace_row = timed_sample +
  tw_safe_blocks :: int
  tw_proof_valid :: bool

definition trace_row_of :: "csv_dict \<Rightarrow> trace_row result" where
  "trace_row_of r =
     rbind (item_float r ''timestamp'') (\<lambda>t.
     rbind (item_int r ''height'') (\<lambda>h.
     rbind (if 0 \<le> h then item_int r ''safe_blocks'' else Inr 0) (\<lambda>sb.
     rbind (dict_item r ''reanchoring_proof_valid'') (\<lambda>pv.
     Inr \<lparr>cs_cells = r, cs_timestamp = t, cs_height = h, ts_t = 0, tw_safe_blocks = sb, tw_proof_valid = (pv = Some ''True'')\<rparr>))))"

definition load_trace_rows :: "string \<Rightarrow> trace_row list py" where
  "load_trace_rows path =
     py_bind (load_csv path) (\<lambda>raw.
     py_bind (py_lift (rmap_list trace_row_of raw)) (\<lambda>rows.
     py_bind (py_lift (py_min id (map cs_timestamp rows))) (\<lambda>t0.
     py_return (map (\<lambda>r. r\<lparr>ts_t := cs_timestamp r - t0\<rparr>) rows))))"

record sensor_point =
  sp_cells :: csv_dict
  sp_btc_gap :: int
  sp_da_gap :: int
  sp_active_anchors :: int
  sp_peer_latency :: int
  sp_approx_timestamp :: "rat option"

definition sensor_point_of :: "csv_dict \<Rightarrow> sensor_point result" where
  "sensor_point_of r =
     rbind (item_int r ''height'') (\<lambda>_.
     rbind (item_int r ''btc_gap'') (\<lambda>btc.
     rbind (item_int r ''da_gap'') (\<lambda>da.
     rbind (item_int r ''active_anchors'') (\<lambda>anchors.
     rbind (item_int r ''peer_latency'') (\<lambda>lat.
     rbind (dict_item r ''approx_timestamp'') (\<lambda>cell.
     rbind (if cell = Some [] \<or> cell = Some ''None'' then Inr None else rbind (cell_float cell) (\<lambda>t. Inr (Some t))) (\<lambda>approx.
     Inr \<lparr>sp_cells = r, sp_btc_gap = btc, sp_da_gap = da, sp_active_anchors = anchors, sp_peer_latency = lat,
          sp_approx_timestamp = approx\<rparr>)))))))"

definition load_sensor_rows :: "string \<Rightarrow> sensor_point list py" where
  "load_sensor_rows csv_path =
     (let sensors_path = py_replace ''.csv'' ''_sensors.csv'' csv_path in
      py_bind (path_exists sensors_path) (\<lambda>found.
      if \<not> found then py_return []
      else py_bind (load_csv sensors_path) (\<lambda>raw. py_lift (rmap_list sensor_point_of raw))))"

section \<open>The markers\<close>

text \<open>The pattern of a marker line, \<open>\|\s*(\d+)\s*\|\s*(.+?)\s*\|\<close>. The second group is the shortest non-empty text on the line that is followed by optional
  white space and a bar; the white space before it gives characters back when there is none.\<close>

fun lazy_cell :: "string \<Rightarrow> string \<Rightarrow> string option" where
  "lazy_cell acc [] = None"
| "lazy_cell acc (c # cs) =
     (if code_of c = 10 then None
      else if prefix ''|'' (lstrip_ws cs) then Some (acc @ [c])
      else lazy_cell (acc @ [c]) cs)"

fun first_some :: "('a \<Rightarrow> 'b option) \<Rightarrow> 'a list \<Rightarrow> 'b option" where
  "first_some f [] = None"
| "first_some f (x # xs) = (case f x of None \<Rightarrow> first_some f xs | Some y \<Rightarrow> Some y)"

definition marker_event :: "string \<Rightarrow> string option" where
  "marker_event s = first_some (\<lambda>k. lazy_cell [] (drop k s)) (rev [0 ..< Suc (length (takeWhile is_space s))])"

definition marker_match :: "string \<Rightarrow> (string \<times> string) option" where
  "marker_match line =
     Option.bind (lit ''|'' line) (\<lambda>r1.
     Option.bind (group is_digit (lstrip_ws r1)) (\<lambda>(ds, r2).
     Option.bind (lit ''|'' (lstrip_ws r2)) (\<lambda>r3.
     map_option (Pair ds) (marker_event r3))))"

text \<open>The loop over the lines of the summary; the flag is \<^verbatim>\<open>in_table\<close>.\<close>

fun marker_lines :: "bool \<Rightarrow> string list \<Rightarrow> (rat \<times> string) list result" where
  "marker_lines in_table [] = Inr []"
| "marker_lines in_table (line # ls) =
     (if startswith line ''| t (s) | Event |'' then marker_lines True ls
      else if \<not> in_table then marker_lines in_table ls
      else if \<not> startswith line ''|'' then Inr []
      else if startswith line ''|---'' then marker_lines in_table ls
      else (case marker_match line of
          None \<Rightarrow> marker_lines in_table ls
        | Some (ds, ev) \<Rightarrow> rbind (py_float ds) (\<lambda>t. rbind (marker_lines in_table ls) (\<lambda>ms. Inr ((t, ev) # ms)))))"

definition load_markers :: "string \<Rightarrow> (rat \<times> string) list py" where
  "load_markers summary_path =
     py_bind (path_exists summary_path) (\<lambda>found.
     if \<not> found then py_return []
     else py_bind (read_file summary_path) (\<lambda>raw. py_lift (marker_lines False (readlines (universal_newlines raw)))))"

type_synonym window = "rat option \<times> rat option"

definition FAULT_NAMES :: "string list" where
  "FAULT_NAMES = [''BTC congestion'', ''DA outage'', ''P2P churn'']"

text \<open>One marker: the phrase found first sets the start or the end of its fault.\<close>

definition FAULT_PHRASES :: "(string \<times> string \<times> bool) list" where
  "FAULT_PHRASES =
     [(''chaos-btc-delay started'', ''BTC congestion'', True), (''chaos-btc-delay cleaned up'', ''BTC congestion'', False),
      (''celestia-bridge stopped'', ''DA outage'', True), (''celestia-bridge restarted'', ''DA outage'', False),
      (''churn burst starting'', ''P2P churn'', True), (''churn burst complete'', ''P2P churn'', False)]"

definition note_marker :: "(string, window) dict \<Rightarrow> rat \<times> string \<Rightarrow> (string, window) dict" where
  "note_marker windows m =
     (case find (\<lambda>(phrase, name, start). contains (snd m) phrase) FAULT_PHRASES of
        None \<Rightarrow> windows
      | Some (phrase, name, start) \<Rightarrow>
          (let win = dict_get windows name (None, None) in
           AList.update name (if start then (Some (fst m), snd win) else (fst win, Some (fst m))) windows))"

definition fault_windows :: "(rat \<times> string) list \<Rightarrow> (string, window) dict" where
  "fault_windows markers = foldl note_marker (map (\<lambda>n. (n, (None, None))) FAULT_NAMES) markers"

section \<open>The series of the representative node\<close>

definition withdrawal_locked :: "string option \<Rightarrow> bool" where
  "withdrawal_locked s \<longleftrightarrow> s = Some ''SOVEREIGN'' \<or> s = Some ''RECOVERING''"

text \<open>The loop of \<^verbatim>\<open>locked_windows\<close> over times and states, with its variables \<^verbatim>\<open>start\<close> and \<^verbatim>\<open>prev_t\<close>.\<close>

fun locked_loop :: "rat option \<Rightarrow> rat \<Rightarrow> (rat \<times> string option) list \<Rightarrow> (rat \<times> rat) list" where
  "locked_loop start prev_t [] = (case start of None \<Rightarrow> [] | Some a \<Rightarrow> [(a, prev_t)])"
| "locked_loop start prev_t ((t, s) # ps) =
     (case start of
        None \<Rightarrow> locked_loop (if withdrawal_locked s then Some t else None) t ps
      | Some a \<Rightarrow> if withdrawal_locked s then locked_loop (Some a) t ps else (a, prev_t) # locked_loop None t ps)"

definition locked_windows :: "trace_row list \<Rightarrow> (rat \<times> rat) list result" where
  "locked_windows rep_rows =
     rbind (rmap_list row_state rep_rows) (\<lambda>states. Inr (locked_loop None 0 (zip (map ts_t rep_rows) states)))"

definition FAULT_COLORS :: "(string, string) dict" where
  "FAULT_COLORS = [(''BTC congestion'', ''#E69F00''), (''DA outage'', ''#CC79A7''), (''P2P churn'', ''#D55E00'')]"

fun shade_fault_windows :: "(string, window) dict \<Rightarrow> rat \<Rightarrow> draw list result" where
  "shade_fault_windows [] t_max = Inr []"
| "shade_fault_windows ((name, (start, stop)) # ws) t_max =
     (case start of
        None \<Rightarrow> shade_fault_windows ws t_max
      | Some a \<Rightarrow> rbind (dict_item FAULT_COLORS name) (\<lambda>color.
                  rbind (shade_fault_windows ws t_max) (\<lambda>ds.
                  Inr (Span a (case stop of None \<Rightarrow> t_max | Some b \<Rightarrow> b) color # ds))))"

fun find_proof_valid_transition :: "bool \<Rightarrow> trace_row list \<Rightarrow> (rat \<times> rat) option result" where
  "find_proof_valid_transition prev [] = Inr None"
| "find_proof_valid_transition prev (r # rs) =
     (if tw_proof_valid r \<and> \<not> prev
      then rbind (row_state r) (\<lambda>s.
           case s of None \<Rightarrow> Inl (Exn KeyError ''None'')
           | Some st \<Rightarrow> rbind (dict_item STATE_Y st) (\<lambda>y. Inr (Some (ts_t r, y))))
      else find_proof_valid_transition (tw_proof_valid r) rs)"

definition draw_segment :: "(rat \<times> string) list \<Rightarrow> draw list result" where
  "draw_segment ps =
     rbind (rmap_list state_point ps) (\<lambda>points.
     case ps of [] \<Rightarrow> Inl (Exn IndexError ''list index out of range'')
     | p # _ \<Rightarrow> rbind (dict_item STATE_COLOR (snd p)) (\<lambda>color. Inr [Curve points color]))"

definition draw_change :: "rat \<times> string \<Rightarrow> draw list result" where
  "draw_change p = rbind (state_point p) (\<lambda>(x, y). Inr [Dot x y])"

definition draw_state_segments :: "(rat \<times> string) list \<Rightarrow> draw list result" where
  "draw_state_segments ps = (if ps = [] then Inr [] else run_loop draw_segment draw_change ps 0 [1 ..< length ps])"

section \<open>Agreement of the application hashes\<close>

text \<open>\<^verbatim>\<open>by_tick\<close>: for every rounded second and height, the set of hashes seen (as a list without repetitions). Failed queries and empty hashes are
  skipped.\<close>

type_synonym tick_table = "(int, (int, string list) dict) dict"

definition note_hash :: "tick_table \<Rightarrow> trace_row \<Rightarrow> tick_table result" where
  "note_hash d r =
     (if cs_height r < 0 then Inr d
      else rbind (dict_item (cs_cells r) ''app_hash'') (\<lambda>c.
        if \<not> filled c then Inr d
        else (let key = round_half_even (ts_t r); at_tick = dict_get d key [] in
              Inr (AList.update key (AList.update (cs_height r) (List.insert (the c) (dict_get at_tick (cs_height r) [])) at_tick) d))))"

fun by_tick :: "tick_table \<Rightarrow> trace_row list \<Rightarrow> tick_table result" where
  "by_tick d [] = Inr d"
| "by_tick d (r # rs) = rbind (note_hash d r) (\<lambda>d'. by_tick d' rs)"

definition tick_agrees :: "(int, string list) dict \<Rightarrow> bool" where
  "tick_agrees heights = list_all (\<lambda>hashes. length hashes = 1) (dict_values heights)"

definition agreement :: "tick_table \<Rightarrow> (int \<times> bool) list" where
  "agreement d = map (\<lambda>tick. (tick, tick_agrees (dict_get d tick []))) (sort (dict_keys d))"

definition agreement_fact :: "(int \<times> bool) list \<Rightarrow> (rat \<times> rat) option \<Rightarrow> string" where
  "agreement_fact ticks star =
     (if list_all snd ticks then ''AppHash agreement: 100% ('' @ show_nat (length ticks) @ '' ticks), zero divergence''
      else ''AppHash agreement: DIVERGED this run (dashed line)'')
     @ (case star of None \<Rightarrow> [] | Some (t, y) \<Rightarrow> '' '' @ [CHR 0xC2, CHR 0xB7] @ '' proof valid at t='' @ fmt_fixed 0 t @ ''s'')"

section \<open>plot_figure2_live\<close>

text \<open>The rows of the representative node in the order of time, failed queries dropped; the representative node is the first by name.\<close>

definition trace_rep_rows :: "string option \<Rightarrow> trace_row list \<Rightarrow> trace_row list result" where
  "trace_rep_rows rep rows =
     rbind (rmap_list row_node rows) (\<lambda>nodes.
     Inr (filter (\<lambda>r. 0 \<le> cs_height r) (sort_key ts_t (map fst (filter (\<lambda>(r, n). n = rep) (zip rows nodes))))))"

definition representative :: "trace_row list \<Rightarrow> string option result" where
  "representative rows =
     rbind (rmap_list row_node rows) (\<lambda>nodes.
     rbind (sort_cells (remdups nodes)) (\<lambda>nodes. list_item nodes 0))"

fun rep_sensor_rows :: "string option \<Rightarrow> sensor_point list \<Rightarrow> sensor_point list result" where
  "rep_sensor_rows rep [] = Inr []"
| "rep_sensor_rows rep (r # rs) =
     rbind (dict_item (sp_cells r) ''node'') (\<lambda>n.
     rbind (rep_sensor_rows rep rs) (\<lambda>out. Inr (if n = rep \<and> sp_approx_timestamp r \<noteq> None then r # out else out)))"

text \<open>The counter of safe blocks is drawn on its own axis, whose limits keep it near the top.\<close>

definition safe_blocks_axis :: "trace_row list \<Rightarrow> draw list result" where
  "safe_blocks_axis rep_rows =
     (let vals = map tw_safe_blocks rep_rows in
      rbind (py_max id vals) (\<lambda>m.
      let ref = of_int (max m 1) :: rat in
      Inr [Curve (zip (map ts_t rep_rows) (map of_int vals)) ''darkviolet'', YLim (- 15 / 4 * ref) (5 / 4 * ref),
           YTicks (map (\<lambda>v. (of_int v, py_str_int v)) (sort (remdups (0 # vals))))]))"

definition state_panel :: "trace_row list \<Rightarrow> string option \<Rightarrow> trace_row list \<Rightarrow> (string, window) dict \<Rightarrow> rat \<Rightarrow> panel result" where
  "state_panel rows rep rep_rows windows t_max =
     rbind (shade_fault_windows windows t_max) (\<lambda>shades.
     rbind (locked_windows rep_rows) (\<lambda>locked.
     rbind (rmap_list row_state rep_rows) (\<lambda>states.
     rbind (draw_state_segments (with_state (map ts_t rep_rows) states)) (\<lambda>segments.
     rbind (find_proof_valid_transition False rep_rows) (\<lambda>star.
     rbind (safe_blocks_axis rep_rows) (\<lambda>safe.
     rbind (by_tick [] rows) (\<lambda>d.
     let ticks = agreement d in
     Inr \<lparr>panel_title = ''1. System State & Actions ('' @ cell_text rep @ '')'' @ NL @ agreement_fact ticks star,
          panel_draws = shades @ map (\<lambda>(a, b). Span a b ''none'') locked @ segments
            @ (case star of None \<Rightarrow> [] | Some (x, y) \<Rightarrow> [Star x y]) @ state_axis @ safe
            @ (if list_all snd ticks then [] else [Curve (map (\<lambda>(tick, ok). (of_int tick, if ok then 1 else 0)) ticks) ''black''])\<rparr>)))))))"

definition liveness_panel :: "string \<Rightarrow> trace_row list \<Rightarrow> (string, window) dict \<Rightarrow> rat \<Rightarrow> panel result" where
  "liveness_panel number rep_rows windows t_max =
     (let heights = map cs_height rep_rows in
      rbind (shade_fault_windows windows t_max) (\<lambda>shades.
      rbind (py_min id heights) (\<lambda>lo. rbind (py_max id heights) (\<lambda>hi.
      Inr \<lparr>panel_title = number @ ''. Consensus Liveness -- Block Height (chain never stalled)'',
           panel_draws = shades @ [Curve (zip (map ts_t rep_rows) (map of_int heights)) ''C0'', YLim (of_int lo - 10) (of_int hi + 10), XLim 0 t_max]\<rparr>))))"

text \<open>A panel with two series of sensor readings on twin axes, each from zero to its greatest value and a margin.\<close>

definition sensor_panel ::
  "string \<Rightarrow> (string, window) dict \<Rightarrow> rat \<Rightarrow> rat list \<Rightarrow> int list \<times> rat \<times> string \<Rightarrow> int list \<times> rat \<times> string \<Rightarrow> panel result" where
  "sensor_panel title windows t_max ts left right =
     (case (left, right) of ((ls, lm, lc), (rs, rm, rc)) \<Rightarrow>
      rbind (shade_fault_windows windows t_max) (\<lambda>shades.
      rbind (py_max id ls) (\<lambda>lmax. rbind (py_max id rs) (\<lambda>rmax.
      Inr \<lparr>panel_title = title,
           panel_draws = shades @ [Curve (zip ts (map of_int ls)) lc, YLim 0 (of_int lmax + lm),
             Curve (zip ts (map of_int rs)) rc, YLim 0 (of_int rmax + rm)]\<rparr>))))"

text \<open>\<^verbatim>\<open>os.path.basename\<close>, and the titles and the legend of the fault windows that have a start\<close>

definition basename :: "string \<Rightarrow> string" where
  "basename p = last (split_char (CHR ''/'') p)"

definition finish_figure :: "(string, window) dict \<Rightarrow> string \<Rightarrow> panel list \<Rightarrow> figure" where
  "finish_figure windows csv_path panels =
     \<lparr>fig_name = ''figure2_trace_timeline_live'',
      fig_title = [''Figure 2 -- FSM Timeline Under a Real Combined-Failure Trace'', ''(live 4-node Docker testnet, '' @ basename csv_path @ '')''],
      fig_legend = map fst (filter (\<lambda>(name, start, stop). start \<noteq> None) windows), fig_panels = panels\<rparr>"

definition plot_figure2_live :: "trace_row list \<Rightarrow> (rat \<times> string) list \<Rightarrow> string \<Rightarrow> sensor_point list \<Rightarrow> figure result" where
  "plot_figure2_live rows markers csv_path sensor_rows =
     rbind (representative rows) (\<lambda>rep.
     rbind (trace_rep_rows rep rows) (\<lambda>rep_rows.
     rbind (py_min id (map cs_timestamp rows)) (\<lambda>t0.
     rbind (py_max id (map ts_t rep_rows)) (\<lambda>t_max.
     rbind (rep_sensor_rows rep sensor_rows) (\<lambda>chosen.
     let sensors = sort_key (\<lambda>r. the (sp_approx_timestamp r)) chosen; windows = fault_windows markers;
         ts = map (\<lambda>r. the (sp_approx_timestamp r) - t0) sensors in
     rbind (state_panel rows rep rep_rows windows t_max) (\<lambda>p1.
     if sensors = [] then
       rbind (liveness_panel ''2'' rep_rows windows t_max) (\<lambda>p2.
       Inr (finish_figure windows csv_path [p1, p2]))
     else
       rbind (sensor_panel ''2. Sensor Health -- BTC / DA Gap (local sensor, uncommitted)'' windows t_max ts
                (map sp_btc_gap sensors, 2, ''#E69F00'') (map sp_da_gap sensors, 10, ''#CC79A7'')) (\<lambda>p2.
       rbind (sensor_panel ''3. P2P Network -- Active Anchors & Peer Latency (local sensor)'' windows t_max ts
                (map sp_active_anchors sensors, 1, ''C3'') (map sp_peer_latency sensors, 50, ''C5'')) (\<lambda>p3.
       rbind (liveness_panel ''4'' rep_rows windows t_max) (\<lambda>p4.
       Inr (finish_figure windows csv_path [p1, p2, p3, p4]))))))))))"

definition figure2_main :: "string option \<Rightarrow> string list \<Rightarrow> figure py" where
  "figure2_main arg listing =
     (case (if arg = None then find_latest_csv listing else arg) of
        None \<Rightarrow> py_raise (Exn SystemExit ''1'')
      | Some csv_path \<Rightarrow>
          py_bind (path_exists csv_path) (\<lambda>found.
          if csv_path = [] \<or> \<not> found then py_raise (Exn SystemExit ''1'')
          else py_bind (load_trace_rows csv_path) (\<lambda>rows.
               py_bind (load_markers (py_replace ''.csv'' ''_summary.md'' csv_path)) (\<lambda>markers.
               py_bind (load_sensor_rows csv_path) (\<lambda>sensor_rows.
               py_lift (plot_figure2_live rows markers csv_path sensor_rows))))))"


section \<open>The withdrawal-locked windows\<close>

definition covered :: "(rat \<times> rat) list \<Rightarrow> rat \<Rightarrow> bool" where
  "covered ws t \<longleftrightarrow> (\<exists>(a, b) \<in> set ws. a \<le> t \<and> t \<le> b)"

lemma covered_simps [simp]: "\<not> covered [] t" "covered ((a, b) # ws) t \<longleftrightarrow> a \<le> t \<and> t \<le> b \<or> covered ws t"
  by (auto simp: covered_def)

definition locked_times :: "(rat \<times> string option) list \<Rightarrow> rat set" where
  "locked_times ps = fst ` {p \<in> set ps. withdrawal_locked (snd p)}"

lemma locked_times_simps [simp]:
  "locked_times [] = {}" "locked_times ((t, s) # ps) = (if withdrawal_locked s then insert t (locked_times ps) else locked_times ps)"
  by (force simp: locked_times_def)+

lemma locked_times_sub: "locked_times ps \<subseteq> set (map fst ps)"
  by (force simp: locked_times_def)+

text \<open>Every window begins and ends at a locked sample (the first one possibly before the samples that are left); windows ascend without touching.\<close>

definition windows_ok :: "rat option \<Rightarrow> rat \<Rightarrow> (rat \<times> string option) list \<Rightarrow> (rat \<times> rat) list \<Rightarrow> bool" where
  "windows_ok start prev_t ps ws \<longleftrightarrow>
     (\<forall>(c, d) \<in> set ws. c \<le> d \<and> (c \<in> locked_times ps \<or> start = Some c) \<and> (d \<in> locked_times ps \<or> start \<noteq> None \<and> d = prev_t)) \<and>
     sorted_wrt (\<lambda>x y. snd x < fst y) ws \<and>
     (\<forall>a. start = Some a \<longrightarrow> (\<exists>b ws'. ws = (a, b) # ws' \<and> prev_t \<le> b))"

lemma locked_loop_windows:
  assumes "sorted_wrt (<) (map fst ps)" "\<And>a. start = Some a \<Longrightarrow> a \<le> prev_t \<and> (\<forall>t \<in> set (map fst ps). prev_t < t)"
  shows "windows_ok start prev_t ps (locked_loop start prev_t ps) \<and>
    (\<forall>p \<in> set ps. withdrawal_locked (snd p) \<longleftrightarrow> covered (locked_loop start prev_t ps) (fst p))"
  using assms
proof (induction start prev_t ps rule: locked_loop.induct)
  case (1 start prev_t)
  then show ?case by (auto simp: windows_ok_def split: option.splits)
next
  case (2 start prev_t t s ps)
  have sorted: "sorted_wrt (<) (map fst ps)" and less: "\<forall>u \<in> set (map fst ps). t < u" using "2.prems"(1) by auto
  have later: "t < u" if "u \<in> locked_times ps" for u using less that locked_times_sub [of ps] by blast
  show ?case
  proof (cases "start")
    case None
    show ?thesis
    proof (cases "withdrawal_locked s")
      case True
      define ws where "ws = locked_loop (Some t) t ps"
      from "2.IH"(1) [OF None sorted] True less have ih: "windows_ok (Some t) t ps ws"
        "\<forall>p \<in> set ps. withdrawal_locked (snd p) \<longleftrightarrow> covered ws (fst p)" by (auto simp: ws_def)
      from ih(1) have "covered ws t" by (auto simp: windows_ok_def)
      moreover have "windows_ok None prev_t ((t, s) # ps) ws" using ih(1) True by (auto simp: windows_ok_def)
      ultimately show ?thesis using ih(2) None True by (simp add: ws_def)
    next
      case False
      define ws where "ws = locked_loop None t ps"
      from "2.IH"(1) [OF None sorted] False have ih: "windows_ok None t ps ws"
        "\<forall>p \<in> set ps. withdrawal_locked (snd p) \<longleftrightarrow> covered ws (fst p)" by (auto simp: ws_def)
      have "\<not> covered ws t" using ih(1) later by (fastforce simp: windows_ok_def covered_def)
      moreover have "windows_ok None prev_t ((t, s) # ps) ws" using ih(1) False by (auto simp: windows_ok_def)
      ultimately show ?thesis using ih(2) None False by (simp add: ws_def)
    qed
  next
    case (Some a)
    from "2.prems"(2) [OF Some] have a: "a \<le> prev_t" "prev_t < t" by auto
    show ?thesis
    proof (cases "withdrawal_locked s")
      case True
      define ws where "ws = locked_loop (Some a) t ps"
      from "2.IH"(2) [OF Some True sorted] less a have ih: "windows_ok (Some a) t ps ws"
        "\<forall>p \<in> set ps. withdrawal_locked (snd p) \<longleftrightarrow> covered ws (fst p)" by (auto simp: ws_def)
      from ih(1) a have "covered ws t" by (auto simp: windows_ok_def)
      moreover have "windows_ok (Some a) prev_t ((t, s) # ps) ws" using ih(1) True a by (auto simp: windows_ok_def)
      ultimately show ?thesis using ih(2) Some True by (simp add: ws_def)
    next
      case False
      define ws where "ws = locked_loop None t ps"
      from "2.IH"(3) [OF Some False sorted] have ih: "windows_ok None t ps ws"
        "\<forall>p \<in> set ps. withdrawal_locked (snd p) \<longleftrightarrow> covered ws (fst p)" by (auto simp: ws_def)
      have after: "t < c" if "(c, d) \<in> set ws" for c d using ih(1) later that by (fastforce simp: windows_ok_def)
      then have "\<not> covered ws t" by (fastforce simp: covered_def)
      moreover have "windows_ok (Some a) prev_t ((t, s) # ps) ((a, prev_t) # ws)"
        using ih(1) False a after by (fastforce simp: windows_ok_def)
      moreover have "\<forall>p \<in> set ps. prev_t < fst p" using less a by fastforce
      ultimately show ?thesis using ih(2) Some False a by (auto simp: ws_def)
    qed
  qed
qed

text \<open>C35. The shaded withdrawal-locked windows, for samples at ascending times: a sample lies in a window exactly if its state is SOVEREIGN or
  RECOVERING; every window begins and ends at such a sample; the windows ascend and do not touch.\<close>

theorem locked_windows_exact:
  assumes "locked_windows rep_rows = Inr ws" "sorted_wrt (<) (map ts_t rep_rows)"
  shows "(\<forall>r \<in> set rep_rows. \<forall>s. row_state r = Inr s \<longrightarrow> (s = Some ''SOVEREIGN'' \<or> s = Some ''RECOVERING'' \<longleftrightarrow> covered ws (ts_t r))) \<and>
    (\<forall>(a, b) \<in> set ws. a \<le> b \<and> a \<in> ts_t ` set rep_rows \<and> b \<in> ts_t ` set rep_rows) \<and> sorted_wrt (\<lambda>x y. snd x < fst y) ws"
proof -
  from assms(1) obtain states where states: "rmap_list row_state rep_rows = Inr states"
    and ws: "ws = locked_loop None 0 (zip (map ts_t rep_rows) states)" by (auto simp: locked_windows_def rbind_eq_Inr)
  have len: "length states = length rep_rows" by (rule rmap_list_length [OF states])
  let ?ps = "zip (map ts_t rep_rows) states"
  have times: "map fst ?ps = map ts_t rep_rows" using len by simp
  from locked_loop_windows [of ?ps None 0] assms(2) have ok: "windows_ok None 0 ?ps ws"
    and cov: "\<forall>p \<in> set ?ps. withdrawal_locked (snd p) \<longleftrightarrow> covered ws (fst p)" by (simp_all add: ws times)
  have "(ts_t r, s) \<in> set ?ps" if "r \<in> set rep_rows" "row_state r = Inr s" for r s
    using that states len by (auto simp: rmap_list_all2 list_all2_conv_all_nth in_set_conv_nth)
  moreover have "locked_times ?ps \<subseteq> ts_t ` set rep_rows" using locked_times_sub [of ?ps] by (simp add: times)
  ultimately show ?thesis using cov ok by (fastforce simp: windows_ok_def withdrawal_locked_def)
qed
text \<open>Rows at one second each, in the given states.\<close>

definition rows_at :: "string list \<Rightarrow> trace_row list" where
  "rows_at states = map (\<lambda>(t, s). \<lparr>cs_cells = [(''node'', Some ''engram-node01''), (''fsm_state'', Some s), (''app_hash'', Some ''AB'')],
     cs_timestamp = t, cs_height = 7, ts_t = t, tw_safe_blocks = 0, tw_proof_valid = False\<rparr>) (zip [0, 1, 2, 3] states)"

theorem locked_windows_exact_witness:
  "\<exists>ws. locked_windows (rows_at [''ANCHORED'', ''SOVEREIGN'', ''RECOVERING'', ''ANCHORED'']) = Inr ws \<and> ws = [(1, 2)] \<and>
     covered ws 1 \<and> \<not> covered ws 0"
proof -
  let ?rows = "rows_at [''ANCHORED'', ''SOVEREIGN'', ''RECOVERING'', ''ANCHORED'']"
  have ws: "locked_windows ?rows = Inr [(1, 2)]" and times: "sorted_wrt (<) (map ts_t ?rows)"
    by (simp_all add: locked_windows_def rows_at_def row_state_def dict_item_def withdrawal_locked_def)
  have "hd ?rows \<in> set ?rows" "row_state (hd ?rows) = Inr (Some ''ANCHORED'')" "ts_t (hd ?rows) = 0"
    "?rows ! 1 \<in> set ?rows" "row_state (?rows ! 1) = Inr (Some ''SOVEREIGN'')" "ts_t (?rows ! 1) = 1"
    by (simp_all add: rows_at_def row_state_def dict_item_def)
  with locked_windows_exact [OF ws times] ws show ?thesis by fastforce
qed

section \<open>The state line\<close>

lemma draw_segment_Inr:
  assumes "draw_segment r = Inr ds"
  shows "ds = [Curve (fst (run_line r)) (snd (run_line r))]"
proof (cases r)
  case (Cons p ps)
  with assms obtain points color where r: "rmap_list state_point r = Inr points" "map_of STATE_COLOR (snd p) = Some color" "ds = [Curve points color]"
    by (auto simp: draw_segment_def rbind_eq_Inr dict_item_eq_Inr)
  from state_points_Inr(1) [OF r(1)] r(2,3) Cons show ?thesis by (simp add: run_line_def)
qed (use assms in \<open>simp add: draw_segment_def\<close>)

lemma draw_change_Inr:
  assumes "draw_change p = Inr ds"
  shows "ds = [Dot (fst (sample_point p)) (snd (sample_point p))]"
proof -
  from assms obtain q where "state_point p = Inr q" "ds = [Dot (fst q) (snd q)]" by (auto simp: draw_change_def rbind_eq_Inr)
  with state_point_Inr [of p q] show ?thesis by simp
qed

lemma segments_drawn:
  assumes "draw_state_segments ps = Inr ds" "ps \<noteq> []"
  shows "curves ds = map run_line (state_runs ps)" "areas ds = []" "dots ds = map sample_point (changes ps)"
proof -
  have r: "draw_runs draw_segment draw_change (state_runs ps) = Inr ds"
    using assms state_line_runs [OF assms(2), of draw_segment draw_change] by (simp add: draw_state_segments_def)
  have "curves ds = concat (map (\<lambda>r. [run_line r]) (state_runs ps))"
    by (rule curves.per_run [OF r]) (auto simp: curves_def dest!: draw_segment_Inr draw_change_Inr)
  then show "curves ds = map run_line (state_runs ps)" by simp
  have "areas ds = concat (map (\<lambda>r. []) (state_runs ps))"
    by (rule areas.per_run [OF r]) (auto simp: areas_def dest!: draw_segment_Inr draw_change_Inr)
  then show "areas ds = []" by simp
  have "dots ds = concat (map ((\<lambda>p. [sample_point p]) \<circ> last) (butlast (state_runs ps)))"
    by (rule dots.per_change [OF r]) (auto simp: dots_def dest!: draw_segment_Inr draw_change_Inr)
  also have "\<dots> = map sample_point (map last (butlast (state_runs ps)))" by (simp add: comp_def)
  finally show "dots ds = map sample_point (changes ps)" unfolding run_ends .
qed

text \<open>C34. The state lines of the figures: of one series of samples the figure of the reorganisation trials and the figure of the combined trace draw the
  same lines and the same markers. The series is cut at its state changes (the pieces joined are the series, each piece has one state up to the
  point where the next begins), every piece is one line in the colour of its state, and a marker stands at every change and nowhere else.\<close>

theorem state_lines_exact:
  assumes "ps \<noteq> []" "plot_trial ps = Inr ds" "draw_state_segments ps = Inr ds'"
  shows "(\<exists>R. joined R = ps \<and> cut_at_changes R \<and> curves ds = map run_line R \<and> areas ds = map run_line R \<and> curves ds' = map run_line R) \<and>
    dots ds = map sample_point (changes ps) \<and> dots ds' = map sample_point (changes ps) \<and> areas ds' = []"
proof -
  have "curves ds = map run_line (state_runs ps) \<and> areas ds = map run_line (state_runs ps) \<and> dots ds = map sample_point (changes ps)"
    using assms(1,2) by (rule trial_drawn)
  then show ?thesis using segments_drawn [OF assms(3,1)] joined_runs [of ps] cut_runs [of ps] by auto
qed

definition line_example :: "(rat \<times> string) list" where
  "line_example = [(0, ''ANCHORED''), (3, ''ANCHORED''), (6, ''SUSPICIOUS''), (9, ''ANCHORED'')]"

lemma line_example_drawn: "\<exists>ds. plot_trial line_example = Inr ds" "\<exists>ds. draw_state_segments line_example = Inr ds"
  by (simp_all add: plot_trial_def draw_state_segments_def line_example_def upt_conv_Cons change_indices_def list_slice_def draw_run_def
      draw_segment_def draw_change_def state_point_def dict_item_def STATE_Y_def STATES_def STATE_COLOR_def trial_mark_def)

theorem state_lines_exact_witness:
  "\<exists>ds ds'. plot_trial line_example = Inr ds \<and> draw_state_segments line_example = Inr ds' \<and> curves ds = curves ds' \<and>
     dots ds = [(6, 1), (9, 0)]"
proof -
  obtain ds ds' where ds: "plot_trial line_example = Inr ds" "draw_state_segments line_example = Inr ds'" using line_example_drawn by blast
  have "line_example \<noteq> []" "map sample_point (changes line_example) = [(6, 1), (9, 0)]"
    by (simp_all add: line_example_def changes_def sample_point_def STATE_Y_def STATES_def)
  with state_lines_exact [OF _ ds] ds show ?thesis by auto
qed

section \<open>What the caption about the hashes says\<close>

text \<open>The hash a row contributes, with its rounded second and its height.\<close>

definition hash_at :: "trace_row \<Rightarrow> (int \<times> int \<times> string) option" where
  "hash_at r = (case dict_item (cs_cells r) ''app_hash'' of
     Inr (Some h) \<Rightarrow> if 0 \<le> cs_height r \<and> h \<noteq> [] then Some (round_half_even (ts_t r), cs_height r, h) else None | _ \<Rightarrow> None)"

definition seen_hashes :: "tick_table \<Rightarrow> int \<Rightarrow> int \<Rightarrow> string list" where
  "seen_hashes d k h = dict_get (dict_get d k []) h []"

lemma update_in: "(k, v) \<in> set (AList.update a b d) \<Longrightarrow> (k, v) = (a, b) \<or> (k, v) \<in> set d"
  by (induction d) (auto split: if_splits)

lemma dict_get_in: "dict_get d k [] \<noteq> [] \<Longrightarrow> (k, dict_get d k []) \<in> set d"
  by (auto simp: dict_get_def split: option.splits dest: map_of_SomeD)

lemma note_hash_cases:
  assumes "note_hash d r = Inr d'"
  obtains (skipped) "hash_at r = None" "d' = d"
    | (noted) k h x where "hash_at r = Some (k, h, x)" "d' = AList.update k (AList.update h (List.insert x (seen_hashes d k h)) (dict_get d k [])) d"
proof (cases "0 \<le> cs_height r")
  case True
  with assms obtain c where c: "dict_item (cs_cells r) ''app_hash'' = Inr c" by (auto simp: note_hash_def rbind_eq_Inr)
  show thesis
  proof (cases "filled c")
    case filled: True
    then obtain x where x: "c = Some x" "x \<noteq> []" by (cases c) (auto simp: filled_def)
    show thesis
    proof (rule noted)
      show "hash_at r = Some (round_half_even (ts_t r), cs_height r, x)" using c x True by (simp add: hash_at_def)
      show "d' = AList.update (round_half_even (ts_t r)) (AList.update (cs_height r) (List.insert x
          (seen_hashes d (round_half_even (ts_t r)) (cs_height r))) (dict_get d (round_half_even (ts_t r)) [])) d"
        using assms c x True filled by (simp add: note_hash_def Let_def seen_hashes_def)
    qed
  next
    case False
    have "hash_at r = None" using c False by (auto simp: hash_at_def filled_def split: option.splits)
    moreover have "d' = d" using assms c False True by (simp add: note_hash_def)
    ultimately show thesis by (rule skipped)
  qed
next
  case False
  have "hash_at r = None" using False by (simp add: hash_at_def split: sum.splits option.splits)
  moreover have "d' = d" using assms False by (simp add: note_hash_def)
  ultimately show thesis by (rule skipped)
qed

lemma note_hash_seen:
  "note_hash d r = Inr d' \<Longrightarrow> set (seen_hashes d' k h) = set (seen_hashes d k h) \<union> {x. hash_at r = Some (k, h, x)}"
  by (erule note_hash_cases) (auto simp: seen_hashes_def dict_get_def update_conv')

text \<open>Ticks and heights occur once, no set of hashes is empty, and no hash is listed twice.\<close>

definition heights_ok :: "(int, string list) dict \<Rightarrow> bool" where
  "heights_ok v \<longleftrightarrow> distinct (map fst v) \<and> list_all (\<lambda>e. distinct (snd e) \<and> snd e \<noteq> []) v"

lemma heights_ok_update: "heights_ok v \<Longrightarrow> distinct l \<Longrightarrow> l \<noteq> [] \<Longrightarrow> heights_ok (AList.update h l v)"
  unfolding heights_ok_def list_all_iff by (auto simp: distinct_update dest!: update_in)

definition tick_table_ok :: "tick_table \<Rightarrow> bool" where
  "tick_table_ok d \<longleftrightarrow> distinct (map fst d) \<and> list_all (\<lambda>e. heights_ok (snd e)) d"

lemma tick_heights: "tick_table_ok d \<Longrightarrow> heights_ok (dict_get d k [])"
  using dict_get_in [of d k] by (cases "dict_get d k [] = []") (auto simp: tick_table_ok_def list_all_iff heights_ok_def)

lemma seen_distinct: "tick_table_ok d \<Longrightarrow> distinct (seen_hashes d k h)"
  using tick_heights [of d k] dict_get_in [of "dict_get d k []" h]
  by (cases "seen_hashes d k h = []") (auto simp: seen_hashes_def heights_ok_def list_all_iff)

lemma note_hash_ok:
  assumes "note_hash d r = Inr d'" "tick_table_ok d"
  shows "tick_table_ok d'"
  using assms(1)
proof (cases rule: note_hash_cases)
  case (noted k h x)
  have l: "distinct (List.insert x (seen_hashes d k h))" "List.insert x (seen_hashes d k h) \<noteq> []"
    using seen_distinct [OF assms(2)] by (auto simp: List.insert_def)
  have "heights_ok (AList.update h (List.insert x (seen_hashes d k h)) (dict_get d k []))"
    by (rule heights_ok_update [OF tick_heights [OF assms(2)] l])
  then show ?thesis using assms(2) unfolding noted(2) tick_table_ok_def list_all_iff
    by (auto simp: distinct_update dest!: update_in)
qed (use assms in simp)

lemma by_tick_seen:
  "by_tick d rows = Inr d' \<Longrightarrow> set (seen_hashes d' k h) = set (seen_hashes d k h) \<union> {x. \<exists>r \<in> set rows. hash_at r = Some (k, h, x)}"
proof (induction d rows rule: by_tick.induct)
  case (2 d r rs)
  then obtain e where e: "note_hash d r = Inr e" "by_tick e rs = Inr d'" by (auto simp: rbind_eq_Inr)
  with "2.IH" note_hash_seen [OF e(1)] show ?case by auto
qed simp

lemma by_tick_ok: "by_tick d rows = Inr d' \<Longrightarrow> tick_table_ok d \<Longrightarrow> tick_table_ok d'"
proof (induction d rows rule: by_tick.induct)
  case (2 d r rs)
  then obtain e where "note_hash d r = Inr e" "by_tick e rs = Inr d'" by (auto simp: rbind_eq_Inr)
  with 2 note_hash_ok show ?case by blast
qed simp

lemma by_tick_keys:
  "by_tick d rows = Inr d' \<Longrightarrow> set (dict_keys d') = set (dict_keys d) \<union> {k. \<exists>r \<in> set rows. \<exists>h x. hash_at r = Some (k, h, x)}"
proof (induction d rows rule: by_tick.induct)
  case (2 d r rs)
  then obtain e where e: "note_hash d r = Inr e" "by_tick e rs = Inr d'" by (auto simp: rbind_eq_Inr)
  from e(1) have "set (dict_keys e) = set (dict_keys d) \<union> {k. \<exists>h x. hash_at r = Some (k, h, x)}"
    by (cases rule: note_hash_cases) (auto simp: dict_keys_def dom_update)
  with "2.IH" e show ?case by auto
qed simp

lemma agreement_iff:
  assumes "tick_table_ok d"
  shows "list_all snd (agreement d) \<longleftrightarrow> (\<forall>k h. length (seen_hashes d k h) \<le> 1)"
proof
  assume a: "list_all snd (agreement d)"
  show "\<forall>k h. length (seen_hashes d k h) \<le> 1"
  proof (intro allI)
    fix k h
    show "length (seen_hashes d k h) \<le> 1"
    proof (cases "seen_hashes d k h = []")
      case False
      then have in_k: "(h, seen_hashes d k h) \<in> set (dict_get d k [])" using dict_get_in by (simp add: seen_hashes_def)
      then have "dict_get d k [] \<noteq> []" by auto
      then have "k \<in> set (dict_keys d)" using dict_get_in [of d k] by (force simp: dict_keys_def)
      with a have "tick_agrees (dict_get d k [])" by (auto simp: agreement_def list_all_iff)
      with in_k show ?thesis by (force simp: tick_agrees_def dict_values_def list_all_iff)
    qed simp
  qed
next
  assume a: "\<forall>k h. length (seen_hashes d k h) \<le> 1"
  have "tick_agrees (dict_get d k [])" for k
    unfolding tick_agrees_def list_all_iff dict_values_def
  proof
    fix l assume "l \<in> set (map snd (dict_get d k []))"
    then obtain h where hl: "(h, l) \<in> set (dict_get d k [])" by auto
    have v: "heights_ok (dict_get d k [])" by (rule tick_heights [OF assms])
    with hl have "seen_hashes d k h = l" by (simp add: seen_hashes_def dict_get_def [of "dict_get d k []"] heights_ok_def)
    moreover have "l \<noteq> []" using v hl by (auto simp: heights_ok_def list_all_iff)
    ultimately show "length l = 1" using a [rule_format, of k h] by (cases l) auto
  qed
  then show "list_all snd (agreement d)" by (auto simp: agreement_def list_all_iff)
qed


section \<open>Reading the markers back\<close>

text \<open>A line without line ends in it comes back from the file.\<close>

definition clean :: "string \<Rightarrow> bool" where
  "clean l \<longleftrightarrow> list_all (\<lambda>c. code_of c \<noteq> 10 \<and> code_of c \<noteq> 13) l"

lemma clean_append [simp]: "clean (a @ b) \<longleftrightarrow> clean a \<and> clean b" "clean []"
  by (simp_all add: clean_def)

lemma clean_cons [simp]: "clean (c # b) \<longleftrightarrow> code_of c \<noteq> 10 \<and> code_of c \<noteq> 13 \<and> clean b"
  by (simp add: clean_def)

lemma universal_newlines_clean_app: "clean l \<Longrightarrow> universal_newlines (l @ NL @ rest) = l @ NL @ universal_newlines rest"
proof (induction l)
  case Nil
  then show ?case by (cases rest) (simp_all add: NL_def)
next
  case (Cons c l)
  then obtain d ds where "l @ NL @ rest = d # ds" by (cases "l @ NL @ rest") (auto simp: NL_def)
  with Cons show ?case by simp
qed

lemma readlines_line: "clean l \<Longrightarrow> readlines (l @ NL @ rest) = (l @ NL) # readlines rest"
  by (induction l) (auto simp: NL_def)

lemma file_line: "clean l \<Longrightarrow> readlines (universal_newlines (l @ NL @ rest)) = (l @ NL) # readlines (universal_newlines rest)"
  by (simp add: universal_newlines_clean_app readlines_line)

lemma clean_digits: "list_all is_digit ds \<Longrightarrow> clean ds"
  by (auto simp: clean_def list_all_iff is_digit_def)

lemma show_nat_clean [simp]: "clean (show_nat n)"
  using show_nat_digits by (intro clean_digits) (simp add: list_all_iff)

lemma fmt_fixed_0_clean [simp]: "clean (fmt_fixed 0 x)"
  by (simp add: fmt_fixed_def Let_def code_of_def)

lemma py_bool_clean [simp]: "clean (py_bool b)"
  by (simp add: py_bool_def code_of_def)

text \<open>The text of an event that survives the table: on one line, without a bar, not surrounded by white space.\<close>

definition event_ok :: "string \<Rightarrow> bool" where
  "event_ok ev \<longleftrightarrow> ev \<noteq> [] \<and> clean ev \<and> CHR ''|'' \<notin> set ev \<and> \<not> is_space (hd ev) \<and> \<not> is_space (last ev)"

lemma lstrip_inside:
  assumes "ev \<noteq> []" "\<not> is_space (last ev)" "CHR ''|'' \<notin> set ev"
  shows "\<not> prefix ''|'' (lstrip_ws (ev @ rest))"
proof -
  obtain c cs where d: "dropWhile is_space ev = c # cs"
    using assms(1,2) by (cases "dropWhile is_space ev") (auto simp: dropWhile_eq_Nil_conv)
  then have "c \<in> set ev" by (metis list.set_intros(1) set_dropWhileD)
  moreover have "lstrip_ws (ev @ rest) = c # cs @ rest"
    using d dropWhile_append1 [of "last ev" ev is_space rest] assms(1,2) by (simp add: lstrip_ws_def)
  ultimately show ?thesis using assms(3) by auto
qed

lemma lazy_cell_event:
  assumes "ev \<noteq> []" "clean ev" "CHR ''|'' \<notin> set ev" "\<not> is_space (last ev)"
  shows "lazy_cell acc (ev @ '' |'' @ rest) = Some (acc @ ev)"
  using assms
proof (induction ev arbitrary: acc)
  case (Cons c ev)
  show ?case
  proof (cases "ev = []")
    case True
    with Cons.prems show ?thesis by (simp add: lstrip_ws_def is_space_def code_of_def)
  next
    case False
    with Cons.prems have "\<not> prefix ''|'' (lstrip_ws (ev @ '' |'' @ rest))" by (intro lstrip_inside) auto
    with Cons False show ?thesis by simp
  qed
qed simp

lemma marker_event_row: "event_ok ev \<Longrightarrow> marker_event ('' '' @ ev @ '' |'' @ rest) = Some ev"
proof -
  assume ok: "event_ok ev"
  then obtain c cs where ev: "ev = c # cs" "\<not> is_space c" by (cases ev) (auto simp: event_ok_def)
  have "takeWhile is_space ('' '' @ ev @ '' |'' @ rest) = '' ''" using ev by (simp add: is_space_def code_of_def)
  then have "rev [0 ..< Suc (length (takeWhile is_space ('' '' @ ev @ '' |'' @ rest)))] = [1, 0]" by (simp add: upt_conv_Cons)
  moreover have "lazy_cell [] (drop 1 ('' '' @ ev @ '' |'' @ rest)) = Some ev"
    using lazy_cell_event [of ev "[]" rest] ok by (simp add: event_ok_def)
  ultimately show ?thesis by (simp add: marker_event_def)
qed

lemma marker_match_row:
  assumes "event_ok ev"
  shows "marker_match (''| '' @ show_nat n @ '' | '' @ ev @ '' |'' @ rest) = Some (show_nat n, ev)"
proof -
  have d: "\<not> is_space (hd (show_nat n))" "is_digit (hd (show_nat n))" and all: "\<forall>c \<in> set (show_nat n). is_digit c"
    using show_nat_digits [of n] digit_not_space by (auto simp: list.set_sel)
  obtain c cs where n: "show_nat n = c # cs" by (cases "show_nat n") auto
  have sp: "is_space (CHR '' '')" "\<not> is_digit (CHR '' '')" by (simp_all add: is_space_def is_digit_def code_of_def)
  have "lstrip_ws ('' '' @ show_nat n @ '' | '' @ ev @ '' |'' @ rest) = show_nat n @ '' | '' @ ev @ '' |'' @ rest"
    using d(1) n sp by (simp add: lstrip_ws_def)
  moreover have "group is_digit (show_nat n @ '' | '' @ ev @ '' |'' @ rest) = Some (show_nat n, '' | '' @ ev @ '' |'' @ rest)"
    using all sp by (simp add: group_def takeWhile_append2 dropWhile_append2)
  moreover have "lstrip_ws ('' | '' @ ev @ '' |'' @ rest) = ''| '' @ ev @ '' |'' @ rest"
    by (simp add: lstrip_ws_def is_space_def code_of_def)
  ultimately show ?thesis
    using marker_event_row [OF assms, of rest] by (simp add: marker_match_def lit_def)
qed

lemma py_float_show_nat: "py_float (show_nat n) = Inr (of_nat n)"
proof -
  obtain c cs where n: "show_nat n = c # cs" by (cases "show_nat n") auto
  have all: "\<forall>c \<in> set (show_nat n). is_digit c" by (rule show_nat_digits)
  then have "c \<noteq> CHR ''-''" "c \<noteq> CHR ''+''" using n by (auto simp: is_digit_def code_of_def)
  moreover have "takeWhile is_digit (c # cs) = c # cs" "dropWhile is_digit (c # cs) = []" "strip_ws (c # cs) = c # cs"
    using all show_nat_strip [of n] unfolding n by (simp_all add: takeWhile_eq_all_conv)
  ultimately have "py_float (c # cs) = Inr (of_nat (digits_value (c # cs)))"
    by (simp only: py_float_def Let_def list.case if_False prod.case exponent_def append_Nil2 list.size of_nat_0 diff_0_right scale10_def) simp
  then show ?thesis unfolding n [symmetric] digits_value_def show_nat_value .
qed
section \<open>The fault windows of a completed run\<close>

lemma fmt_fixed_0: "0 \<le> t \<Longrightarrow> fmt_fixed 0 t = show_nat (nat (round_half_even t))"
  by (simp add: fmt_fixed_def Let_def)

lemma round_nonneg: "0 \<le> t \<Longrightarrow> 0 \<le> round_half_even t"
  by (auto simp: round_half_even_def Let_def)

lemma round_near: "of_int (round_half_even t) - 1 / 2 \<le> t" "t \<le> of_int (round_half_even t) + 1 / 2"
proof -
  have "t - of_int \<lfloor>t\<rfloor> < 1" "0 \<le> t - of_int \<lfloor>t\<rfloor>" by linarith+
  then show "of_int (round_half_even t) - 1 / 2 \<le> t" "t \<le> of_int (round_half_even t) + 1 / 2"
    unfolding round_half_even_def Let_def by (simp_all split: if_splits) linarith+
qed

lemma round_mono: "s \<le> t \<Longrightarrow> round_half_even s \<le> round_half_even t"
proof (rule ccontr)
  assume st: "s \<le> t" and "\<not> round_half_even s \<le> round_half_even t"
  then have "of_int (round_half_even t) + 1 \<le> (of_int (round_half_even s) :: rat)" by linarith
  with st round_near [of s] round_near [of t] have eq: "s = t" by linarith
  with \<open>\<not> round_half_even s \<le> round_half_even t\<close> show False by simp
qed

text \<open>A marker as the summary shows it: at a full second.\<close>

definition at_second :: "rat \<times> string \<Rightarrow> rat \<times> string" where
  "at_second m = (of_int (round_half_even (fst m)), snd m)"

lemma marker_lines_rows:
  assumes "list_all (\<lambda>m. 0 \<le> fst m \<and> event_ok (snd m)) ms"
  shows "marker_lines True (readlines (universal_newlines (concat (map (\<lambda>(t, ev). md_row [fmt_fixed 0 t, ev]) ms) @ NL @ rest))) =
    Inr (map at_second ms)"
  using assms
proof (induction ms)
  case Nil
  have "readlines (universal_newlines ([] @ NL @ rest)) = ([] @ NL) # readlines (universal_newlines rest)" by (rule file_line) simp
  moreover have "\<not> startswith NL ''| t (s) | Event |''" "\<not> startswith NL ''|''" by code_simp+
  ultimately show ?case by simp
next
  case (Cons m ms)
  obtain t ev where m: "m = (t, ev)" by (cases m)
  let ?n = "nat (round_half_even t)"
  define l where "l = ''| '' @ show_nat (nat (round_half_even t)) @ '' | '' @ ev @ '' |''"
  from Cons.prems m have ok: "0 \<le> t" "event_ok ev" "list_all (\<lambda>m. 0 \<le> fst m \<and> event_ok (snd m)) ms" by auto
  have "clean ev" using ok(2) by (simp add: event_ok_def)
  then have clean: "clean l" by (simp add: l_def code_of_def)
  have row: "md_row [fmt_fixed 0 t, ev] = l @ NL" using ok(1) by (simp add: md_row_def fmt_fixed_0 l_def)
  obtain c cs where n: "show_nat ?n = c # cs" "is_digit c" using show_nat_digits [of ?n] by (cases "show_nat ?n") auto
  then have c: "c \<noteq> CHR ''t''" by (auto simp: is_digit_def code_of_def)
  have starts: "\<not> startswith (l @ NL) ''| t (s) | Event |''" "startswith (l @ NL) ''|''" "\<not> startswith (l @ NL) ''|---''"
    using n c by (simp_all add: startswith_def l_def)
  have match: "marker_match (l @ NL) = Some (show_nat ?n, ev)" using marker_match_row [OF ok(2), of ?n NL] by (simp add: l_def)
  have "of_nat ?n = (of_int (round_half_even t) :: rat)" using round_nonneg [OF ok(1)] by simp
  then have head: "at_second m = (of_nat ?n, ev)" by (simp add: m at_second_def)
  have "concat (map (\<lambda>(t, ev). md_row [fmt_fixed 0 t, ev]) (m # ms)) @ NL @ rest =
      l @ NL @ concat (map (\<lambda>(t, ev). md_row [fmt_fixed 0 t, ev]) ms) @ NL @ rest" by (simp add: m row)
  then show ?case
    using Cons.IH [OF ok(3)] starts match by (simp add: file_line [OF clean] head py_float_show_nat)
qed

lemma skip_line:
  assumes "clean l" "\<not> startswith (l @ NL) ''| t (s) | Event |''"
  shows "marker_lines False (readlines (universal_newlines (l @ NL @ rest))) = marker_lines False (readlines (universal_newlines rest))"
  using assms by (simp add: file_line)

lemma table_head:
  "marker_lines False (readlines (universal_newlines (''| t (s) | Event |'' @ NL @ ''|---:|---|'' @ NL @ rest))) =
   marker_lines True (readlines (universal_newlines rest))"
proof -
  have c: "clean ''| t (s) | Event |''" "clean ''|---:|---|''" by (simp_all add: code_of_def)
  have s: "startswith (''| t (s) | Event |'' @ NL) ''| t (s) | Event |''" "\<not> startswith (''|---:|---|'' @ NL) ''| t (s) | Event |''"
    "startswith (''|---:|---|'' @ NL) ''|''" "startswith (''|---:|---|'' @ NL) ''|---''" by (simp_all add: startswith_def)
  show ?thesis by (simp only: file_line [OF c(1)] file_line [OF c(2)] marker_lines.simps s if_True if_False simp_thms)
qed

lemma summary_markers:
  assumes "list_all (\<lambda>m. 0 \<le> fst m \<and> event_ok (snd m)) (tr_markers tr)" "clean wan"
  shows "marker_lines False (readlines (universal_newlines (trace_summary dur reached wan tr))) = Inr (map at_second (tr_markers tr))"
proof -
  define tail where "tail = ''## Real transitions observed'' @ NL @ NL @ ''| t (s) | Phase | Node | From | To |'' @ NL @ ''|---:|---|---|---|---|'' @ NL
     @ transition_rows (tr_transitions tr)"
  define rows where "rows = concat (map (\<lambda>(t, ev). md_row [fmt_fixed 0 t, ev]) (tr_markers tr)) @ NL @ tail"
  define l1 where "l1 = ''# LIVE E9 combined-failure trace (BTC + DA + P2P churn, overlapping)''"
  define l3 where "l3 = ''Total duration: '' @ fmt_fixed 0 dur @ ''s. Final phase reached ANCHORED: '' @ py_bool reached
     @ ''. WAN-realism baseline: '' @ wan @ ''.''"
  define l5 where "l5 = ''## Fault-injection / healing event markers''"
  have sum: "trace_summary dur reached wan tr =
      l1 @ NL @ [] @ NL @ l3 @ NL @ [] @ NL @ l5 @ NL @ [] @ NL @ ''| t (s) | Event |'' @ NL @ ''|---:|---|'' @ NL @ rows"
    by (simp add: trace_summary_def rows_def tail_def l1_def l3_def l5_def)
  have c: "clean l1" "clean l3" "clean l5" "clean []" using assms(2) by (simp_all add: l1_def l3_def l5_def code_of_def)
  have s: "\<not> startswith (l1 @ NL) ''| t (s) | Event |''" "\<not> startswith (l3 @ NL) ''| t (s) | Event |''" "\<not> startswith (l5 @ NL) ''| t (s) | Event |''"
    by (simp_all add: l1_def l3_def l5_def startswith_def)
  have e: "\<not> startswith ([] @ NL) ''| t (s) | Event |''" by code_simp
  have "marker_lines True (readlines (universal_newlines rows)) = Inr (map at_second (tr_markers tr))"
    unfolding rows_def by (rule marker_lines_rows [OF assms(1)])
  then show ?thesis
    unfolding sum skip_line [OF c(1) s(1)] skip_line [OF c(4) e] skip_line [OF c(2) s(2)] skip_line [OF c(3) s(3)] table_head .
qed
text \<open>The events a run marks, in order.\<close>

definition run_events :: "string list" where
  "run_events = [''chaos-btc-delay started (BTC congestion pressure)'', ''celestia-bridge stopped (DA outage layered on BTC pressure)'',
     ''chaos-loss churn burst starting (3rd simultaneous fault class)'', ''P2P churn burst complete'', ''chaos-btc-delay cleaned up'',
     ''celestia-bridge restarted'']"

definition events :: "trace_tracker \<Rightarrow> string list" where
  "events tr = map snd (tr_markers tr)"

lemma events_round: "events (trace_round now rs tr) = events tr"
proof -
  have "events (fold (note_state now) rs tr) = events tr" for tr
    by (induction rs arbitrary: tr) (simp_all add: events_def note_state_def Let_def)
  then show ?thesis by (simp add: trace_round_def events_def)
qed

lemma events_set_phase: "events (set_phase p tr) = events tr"
  by (simp add: events_def set_phase_def)

lemma events_poll: "events tr = evs \<Longrightarrow> yields (trace_poll E s i p tr) (\<lambda>tr'. events tr' = evs)"
  unfolding trace_poll_def tracker_poll_def
proof (rule yields_effect, rule yields_wp, unfold wp_bind, rule wp_while [where I = "\<lambda>tr _. events tr = evs"])
  fix t0 tr and v :: world
  assume "events tr = evs"
  then show "wp (py_bind (sample_all_nodes E []) (\<lambda>rs. py_bind time_time (\<lambda>now. py_then (time_sleep E i)
      (py_return (Continue (trace_round now rs tr))))))
    (\<lambda>k w'. case k of Continue tr' \<Rightarrow> events tr' = evs
       | Leave x \<Rightarrow> wp (loop_state (Leave x)) (\<lambda>tr' _. events tr' = evs) (\<lambda>_ _. True) w') (\<lambda>_ _. True) v"
    unfolding wp_bind by (intro wp_mono [OF wp_sample_all_nodes]) (auto simp: wp_simps events_round)
qed (auto simp: loop_state_def wp_simps events_set_phase)

lemma events_wait: "events tr = evs \<Longrightarrow> yields (trace_wait E target s p tr) (\<lambda>r. events (snd r) = evs)"
  unfolding trace_wait_def tracker_wait_def
proof (rule yields_effect, rule yields_wp, unfold wp_bind, rule wp_while [where I = "\<lambda>tr _. events tr = evs"])
  fix t0 tr and v :: world
  assume "events tr = evs"
  then show "wp (py_bind (sample_all_nodes E []) (\<lambda>rs. py_bind time_time (\<lambda>now.
      if all_in_state target rs then py_return (Leave (trace_round now rs tr))
      else py_then (time_sleep E 2) (py_return (Continue (trace_round now rs tr))))))
    (\<lambda>k w'. case k of Continue tr' \<Rightarrow> events tr' = evs
       | Leave x \<Rightarrow> wp (case Leave x of Leave tr' \<Rightarrow> py_return (True, tr') | Continue tr' \<Rightarrow> py_return (False, tr'))
          (\<lambda>r _. events (snd r) = evs) (\<lambda>_ _. True) w') (\<lambda>_ _. True) v"
    unfolding wp_bind by (intro wp_mono [OF wp_sample_all_nodes]) (auto simp: wp_simps events_round)
qed (auto simp: wp_simps events_set_phase)

lemma events_mark: "events tr = evs \<Longrightarrow> yields (mark ev tr) (\<lambda>tr'. events tr' = evs @ [ev])"
  unfolding mark_def by (rule yields_effect, rule yields_return) (simp add: events_def)

lemma events_cycles: "events tr = evs \<Longrightarrow> yields (py_fold (loss_cycle E) tr is) (\<lambda>tr'. events tr' = evs)"
  by (rule yields_fold) (auto simp: loss_cycle_def intro!: yields_then yields_bind [OF events_poll] events_poll)

lemma events_run: "yields (trace_phases E wan) (\<lambda>r. events (snd r) = run_events)"
proof -
  have new: "events (new_trace_tracker t) = []" for t by (simp add: events_def new_trace_tracker_def)
  have layer: "yields (layer_phases E tr) (\<lambda>tr'. events tr' = take 2 run_events)" if "events tr = []" for tr
    unfolding layer_phases_def
    by (rule yields_bind [OF events_poll [OF that]], intro yields_then, rule yields_bind [OF events_mark], assumption,
        rule yields_bind [OF events_poll], assumption, rule yields_then, rule yields_bind [OF events_mark], assumption,
        rule yields_mono [OF events_poll], assumption, simp add: run_events_def)
  have loss: "yields (loss_phases E wan tr) (\<lambda>tr'. events tr' = take 4 run_events)" if "events tr = take 2 run_events" for tr
    unfolding loss_phases_def
    by (rule yields_then, rule yields_bind [OF events_mark [OF that]], rule yields_bind [OF events_cycles], assumption,
        rule yields_bind [OF events_mark], assumption, rule yields_then, rule yields_mono [OF events_poll], assumption, simp add: run_events_def)
  have heal: "yields (heal_phases E wan tr) (\<lambda>r. events (snd r) = run_events)" if "events tr = take 4 run_events" for tr
    unfolding heal_phases_def
    by (rule yields_then, rule yields_bind [OF events_mark [OF that]], rule yields_then, rule yields_bind [OF events_mark], assumption,
        rule yields_bind [OF events_poll], assumption, rule yields_bind [OF events_wait], assumption,
        rule yields_split, rule yields_then, rule yields_return) (simp add: run_events_def)
  show ?thesis
    unfolding trace_phases_def
    by (rule yields_effect, rule yields_then, rule yields_bind [OF layer [OF new]], rule yields_bind [OF loss], assumption, rule heal)
qed

lemma run_events_ok: "list_all event_ok run_events"
  by code_simp

text \<open>The files of a run.\<close>

lemma collect_keeps: "keeps_fs (collect_sensor_rows E ss)"
  unfolding collect_sensor_rows_def node_sensor_rows_def scrape_sensor_snapshots_def Let_def by (intro keeps_intros)

lemma report_files:
  "wp (combined_report E wan reached tr)
     (\<lambda>(tr', _) v. tr' = tr \<and> (\<exists>base dur. fs v (base @ ''.csv'') = Some (samples_csv E (tr_samples tr)) \<and>
        fs v (base @ ''_summary.md'') = Some (trace_summary dur reached wan tr))) (\<lambda>_ _. True) w"
  unfolding combined_report_def Let_def wp_bind wp_label wp_then write_csv_def wp_write wp_time
  by (rule wp_mono [OF keeps_wp [OF collect_keeps refl]]) (auto simp: wp_simps emit_def intro!: exI)
text \<open>Which phrase each event of a run contains.\<close>

lemma run_phrases:
  "map (\<lambda>ev. find (\<lambda>(phrase, name, start). contains ev phrase) FAULT_PHRASES) run_events = map (Some \<circ> (!) FAULT_PHRASES) [0, 2, 4, 5, 1, 3]"
  by code_simp

lemma run_windows:
  assumes "map snd ms = run_events"
  shows "fault_windows ms = [(''BTC congestion'', (Some (fst (ms ! 0)), Some (fst (ms ! 4)))), (''DA outage'', (Some (fst (ms ! 1)), Some (fst (ms ! 5)))),
    (''P2P churn'', (Some (fst (ms ! 2)), Some (fst (ms ! 3))))]"
proof -
  have len: "length ms = 6" using arg_cong [OF assms, of length] by (simp add: run_events_def)
  then obtain m0 m1 m2 m3 m4 m5 where ms: "ms = [m0, m1, m2, m3, m4, m5]"
    by (auto simp: numeral_eq_Suc length_Suc_conv)
  have "map (\<lambda>m. find (\<lambda>(phrase, name, start). contains (snd m) phrase) FAULT_PHRASES) ms = map (Some \<circ> (!) FAULT_PHRASES) [0, 2, 4, 5, 1, 3]"
    using run_phrases unfolding assms [symmetric] by (simp add: comp_def)
  then have f: "find (\<lambda>(phrase, name, start). contains (snd m0) phrase) FAULT_PHRASES = Some (''chaos-btc-delay started'', ''BTC congestion'', True)"
    "find (\<lambda>(phrase, name, start). contains (snd m1) phrase) FAULT_PHRASES = Some (''celestia-bridge stopped'', ''DA outage'', True)"
    "find (\<lambda>(phrase, name, start). contains (snd m2) phrase) FAULT_PHRASES = Some (''churn burst starting'', ''P2P churn'', True)"
    "find (\<lambda>(phrase, name, start). contains (snd m3) phrase) FAULT_PHRASES = Some (''churn burst complete'', ''P2P churn'', False)"
    "find (\<lambda>(phrase, name, start). contains (snd m4) phrase) FAULT_PHRASES = Some (''chaos-btc-delay cleaned up'', ''BTC congestion'', False)"
    "find (\<lambda>(phrase, name, start). contains (snd m5) phrase) FAULT_PHRASES = Some (''celestia-bridge restarted'', ''DA outage'', False)"
    unfolding ms by (simp_all add: FAULT_PHRASES_def)
  show ?thesis unfolding ms by (simp add: fault_windows_def note_marker_def f FAULT_NAMES_def Let_def dict_get_def)
qed



end
