(* ===== verification/Benchmark_Tables.thy ===== *)
theory Benchmark_Tables
  imports Figure_Data Attack_Runs
begin

text \<open>
  The scripts that turn benchmark results into tables and figures: \<^verbatim>\<open>e6_zk_reanchoring_benchmark/stats_collector.py\<close> and the figure of
  \<^verbatim>\<open>table6c_collector.py\<close>, \<^verbatim>\<open>e7_consensus_overhead/measure_overhead.py\<close>, the figure of \<^verbatim>\<open>e5_hysteresis_flapping/data_preprocessor.py\<close>, and
  the helpers of \<^verbatim>\<open>utils.py\<close>. Figures are lists of drawing calls, as in \<open>Figure_Data\<close>. The linear regression of numpy and the
  instants \<^verbatim>\<open>datetime.fromisoformat\<close> reads are arguments. The limits and ticks of an axis that depend on the limits matplotlib chose before (the
  logarithmic axes of figure 7, the axis of panel (C) of figure 6) are left out.

  Shown here: parsing inverts the lines \<^verbatim>\<open>go test\<close> prints for a benchmark; the cumulative costs of the table add up; the comparison needs two
  samples of either kind; and which commands the helpers of \<^verbatim>\<open>utils.py\<close> run.
\<close>

section \<open>measure_overhead.py: the benchmark lines\<close>

record bench =
  bn_ns_op :: rat
  bn_bytes_op :: "rat option"

text \<open>\<open>\s+(group)\s+unit\<close>: white space, a group, white space, a literal. No piece of \<^verbatim>\<open>BENCH_LINE_RE\<close> can match in two ways, so the groups need no
  backtracking; of the three optional groups at the end only the first is read.\<close>

definition spaces :: "string \<Rightarrow> string option" where
  "spaces s = map_option snd (group is_space s)"

definition is_decimal :: "char \<Rightarrow> bool" where
  "is_decimal c \<longleftrightarrow> is_digit c \<or> c = CHR ''.''"

definition unit_group :: "string \<Rightarrow> string \<Rightarrow> (string \<times> string) option" where
  "unit_group u s =
     Option.bind (spaces s) (\<lambda>r1. Option.bind (group is_decimal r1) (\<lambda>(ds, r2).
     Option.bind (spaces r2) (\<lambda>r3. map_option (Pair ds) (lit u r3))))"

definition bench_match :: "string \<Rightarrow> (string \<times> string \<times> string option) option" where
  "bench_match line =
     Option.bind (lit ''Benchmark'' line) (\<lambda>r1.
     Option.bind (group (Not \<circ> is_space) r1) (\<lambda>(name, r2).
     Option.bind (spaces r2) (\<lambda>r3.
     Option.bind (group is_digit r3) (\<lambda>(n, r4).
     Option.bind (unit_group ''ns/op'' r4) (\<lambda>(ns, r5).
     Some (''Benchmark'' @ name, ns, map_option fst (unit_group ''bytes/op'' r5)))))))"

definition bench_of :: "string \<Rightarrow> string option \<Rightarrow> bench result" where
  "bench_of ns bytes =
     rbind (py_float ns) (\<lambda>x.
     rbind (case bytes of None \<Rightarrow> Inr None | Some b \<Rightarrow> rbind (py_float b) (\<lambda>y. Inr (Some y))) (\<lambda>by.
     Inr \<lparr>bn_ns_op = x, bn_bytes_op = by\<rparr>))"

fun bench_lines :: "(string, bench) dict \<Rightarrow> string list \<Rightarrow> (string, bench) dict result" where
  "bench_lines results [] = Inr results"
| "bench_lines results (line # ls) =
     (case bench_match line of
        None \<Rightarrow> bench_lines results ls
      | Some (name, ns, bytes) \<Rightarrow> rbind (bench_of ns bytes) (\<lambda>b. bench_lines (AList.update name b results) ls))"

definition GO_BENCH :: "string list" where
  "GO_BENCH = [''go'', ''test'', ''./tests/benchmark/...'', ''-bench=.'', ''-benchmem'', ''-run=^$'']"

definition run_go_benchmarks :: "env \<Rightarrow> (string, bench) dict py" where
  "run_go_benchmarks E =
     py_bind (run_proc E GO_BENCH False) (\<lambda>p.
     if returncode p \<noteq> 0 then py_raise (Exn SystemExit (py_str_int (returncode p)))
     else py_lift (bench_lines [] (splitlines (out_text p))))"

section \<open>measure_overhead.py: table 4\<close>

text \<open>\<^verbatim>\<open>r(name + "-8") or r(name)\<close>: an entry is never empty, so it counts as true.\<close>

definition bench_entry :: "(string, bench) dict \<Rightarrow> string \<Rightarrow> bench option" where
  "bench_entry results name = (case map_of results (name @ ''-8'') of Some b \<Rightarrow> Some b | None \<Rightarrow> map_of results name)"

definition size_entry :: "(string, bench) dict \<Rightarrow> string \<Rightarrow> bench option" where
  "size_entry results variant = bench_entry results (''BenchmarkProposalSize/'' @ variant)"

definition fmt_bytes :: "bench option \<Rightarrow> string" where
  "fmt_bytes e = (case e of None \<Rightarrow> ''n/a'' | Some b \<Rightarrow> (case bn_bytes_op b of None \<Rightarrow> ''n/a'' | Some x \<Rightarrow> fmt_fixed 0 x))"

definition fmt2 :: "rat option \<Rightarrow> string" where
  "fmt2 v = (case v of None \<Rightarrow> ''n/a'' | Some x \<Rightarrow> fmt_fixed 1 x)"

text \<open>The cumulative costs of the variants 1 to 3; a variant is missing when one of its parts is.\<close>

definition cumulative_ns :: "(string, bench) dict \<Rightarrow> rat option \<times> rat option \<times> rat option" where
  "cumulative_ns results =
     (let fsm = bench_entry results ''BenchmarkCalculateNextState''; da = bench_entry results ''BenchmarkDAVerifyReceipt'';
          btc = bench_entry results ''BenchmarkBTCVerifyReceipt'';
          v1 = map_option bn_ns_op fsm;
          v2 = (case (v1, da) of (Some x, Some d) \<Rightarrow> Some (x + bn_ns_op d) | _ \<Rightarrow> None);
          v3 = (case (v2, btc) of (Some x, Some b) \<Rightarrow> Some (x + bn_ns_op b) | _ \<Rightarrow> None) in
      (v1, v2, v3))"

definition OVERHEAD_NOTE :: string where
  "OVERHEAD_NOTE = ''Note: V5's proposal size (real `ExtendedProposal`) is smaller than V4's because V4 is a hypothetical ''
     @ ''P2P-digest-included estimate that was never wired into the real wire format -- P2P health is validated ''
     @ ''from the leader's local `keeper.Metrics`, not carried in the proposal. V5's CPU cost is the real full ''
     @ ''`ProcessProposal` cost (JSON decode + all 5 IsValidProposal checks), not just the cumulative ''
     @ ''sub-benchmarks' sum, since that is what actually runs on a node.''"

definition build_overhead_table :: "(string, bench) dict \<Rightarrow> string list" where
  "build_overhead_table results =
     (let full = bench_entry results ''BenchmarkProcessProposal''; (v1, v2, v3) = cumulative_ns results;
          size = (\<lambda>v. fmt_bytes (size_entry results v)) in
      [''**Table 4 -- Extended Proposal Overhead (measured, real `go test -bench`):**'', '''',
       ''| Variant | Description | Proposal size (bytes) | Cumulative validation CPU (ns/op) |'',
       ''| --- | --- | ---: | ---: |'',
       ''| V0 | Vanilla, no extension | '' @ size ''V0_Vanilla_NoExtension'' @ '' | 0 (baseline) |'',
       ''| V1 | + fsm_state only | '' @ size ''V1_FSMStateOnly'' @ '' | '' @ fmt2 v1 @ '' (CalculateNextState) |'',
       ''| V2 | + DA receipt | '' @ size ''V2_PlusDAReceipt'' @ '' | '' @ fmt2 v2 @ '' (+da.VerifyReceipt) |'',
       ''| V3 | + BTC receipt | '' @ size ''V3_PlusBTCReceipt'' @ '' | '' @ fmt2 v3 @ '' (+anchor.VerifyReceipt) |'',
       ''| V4 | + P2P sensor digest *(size estimate only -- not in the real wire format today, see tests/benchmark/fsm_latency_test.go)* | ''
         @ size ''V4_PlusP2PDigest'' @ '' | n/a |'',
       ''| V5 | + ZK proof ref (real shipped ExtendedProposal, full end-to-end via NewProcessProposalHandler) | '' @ size ''V5_PlusZKProofRef''
         @ '' | '' @ fmt2 (map_option bn_ns_op full) @ '' (full ProcessProposal, includes JSON decode + all checks) |'',
       '''', OVERHEAD_NOTE])"

section \<open>measure_overhead.py: the vanilla comparison\<close>

definition E7_OUT_DIR :: string where "E7_OUT_DIR = ''scripts/e7_consensus_overhead/results''"

definition load_samples :: "string \<Rightarrow> csv_dict list option py" where
  "load_samples path = py_bind (path_exists path) (\<lambda>found.
     if \<not> found then py_return None else py_bind (load_csv path) (\<lambda>rows. py_return (Some rows)))"

text \<open>The text \<^verbatim>\<open>parse_time\<close> passes to \<^verbatim>\<open>datetime.fromisoformat\<close>: no trailing \<open>Z\<close>, and the fraction cut or filled to six digits.\<close>

definition iso_text :: "string \<Rightarrow> string" where
  "iso_text s =
     (let t = rstrip_chars ''Z'' s; head = takeWhile (\<lambda>c. c \<noteq> CHR ''.'') t in
      if contains t ''.'' then head @ ''.'' @ take 6 (drop (length head + 1) t @ ''000000'') else t)"

definition parse_time :: "(string \<Rightarrow> rat result) \<Rightarrow> string option \<Rightarrow> rat result" where
  "parse_time fromiso c = (case c of None \<Rightarrow> Inl (Exn AttributeError ''rstrip'') | Some s \<Rightarrow> fromiso (iso_text s))"

definition block_intervals :: "(string \<Rightarrow> rat result) \<Rightarrow> csv_dict list \<Rightarrow> rat list result" where
  "block_intervals fromiso rows =
     rbind (rmap_list (\<lambda>r. rbind (dict_item r ''block_time'') (parse_time fromiso)) rows) (\<lambda>times.
     Inr (map (\<lambda>(a, b). b - a) (zip times (tl times))))"

text \<open>\<^verbatim>\<open>statistics.mean\<close>; its error is a \<^verbatim>\<open>ValueError\<close>.\<close>

definition stat_mean :: "rat list \<Rightarrow> rat result" where
  "stat_mean xs = (if xs = [] then Inl (Exn ValueError ''mean requires at least one data point'') else Inr (sum_list xs / of_nat (length xs)))"

text \<open>\<^verbatim>\<open>f"{x:+.1f}"\<close>\<close>

definition fmt_signed :: "nat \<Rightarrow> rat \<Rightarrow> string" where
  "fmt_signed k x = (if x < 0 then [] else ''+'') @ fmt_fixed k x"

definition VANILLA_NOTE :: string where
  "VANILLA_NOTE = ''Both nodes were idle (no user tx load), so block interval is dominated by CometBFT's default `timeout_commit` ''
     @ ''in both cases -- it does not meaningfully differ here. The real, measured overhead of the ExtendedProposal ''
     @ ''mechanism is the constant per-block proposal-marker size shown above, which matches the real ''
     @ ''`BenchmarkProposalSize/V5_PlusZKProofRef` size in the table above.''"

definition vanilla_lines :: "(string \<Rightarrow> rat result) \<Rightarrow> csv_dict list \<Rightarrow> csv_dict list \<Rightarrow> string list result" where
  "vanilla_lines fromiso normal vanilla =
     rbind (rmap_list (\<lambda>r. item_int r ''proposal_tx0_bytes'') normal) (\<lambda>ns.
     rbind (rmap_list (\<lambda>r. item_int r ''proposal_tx0_bytes'') vanilla) (\<lambda>vs.
     rbind (block_intervals fromiso normal) (\<lambda>ni.
     rbind (block_intervals fromiso vanilla) (\<lambda>vi.
     rbind (stat_mean (map of_int ns)) (\<lambda>sn. rbind (stat_mean (map of_int vs)) (\<lambda>sv.
     rbind (stat_mean ni) (\<lambda>tn. rbind (stat_mean vi) (\<lambda>tv.
     Inr ['''', ''---'', '''', ''**Vanilla CometBFT baseline (measured, real 2-node local run via `vanilla_comparison.sh`):**'', '''',
       ''| Metric | Engram FSM (normal) | Vanilla (--vanilla, no ExtendedProposal) | Overhead |'', ''| --- | ---: | ---: | ---: |'',
       ''| Tx[0] proposal-marker size (bytes/block) | '' @ fmt_fixed 0 sn @ '' | '' @ fmt_fixed 0 sv @ '' | +'' @ fmt_fixed 0 (sn - sv)
         @ '' B/block, on 100% of blocks |'',
       ''| Mean block interval (s) | '' @ fmt_fixed 3 tn @ '' | '' @ fmt_fixed 3 tv @ '' | '' @ fmt_signed 1 ((tn - tv) * 1000) @ '' ms/block |'',
       '''', VANILLA_NOTE]))))))))"

definition build_vanilla_comparison :: "(string \<Rightarrow> rat result) \<Rightarrow> string list option py" where
  "build_vanilla_comparison fromiso =
     py_bind (load_samples (path_join E7_OUT_DIR ''normal_samples.csv'')) (\<lambda>normal.
     py_bind (load_samples (path_join E7_OUT_DIR ''vanilla_samples.csv'')) (\<lambda>vanilla.
     case (normal, vanilla) of
       (Some n, Some v) \<Rightarrow> py_bind (py_lift (vanilla_lines fromiso n v)) (\<lambda>ls. py_return (Some ls))
     | _ \<Rightarrow> py_return None))"

definition overhead_main :: "env \<Rightarrow> (string \<Rightarrow> rat result) \<Rightarrow> string py" where
  "overhead_main E fromiso =
     py_bind (run_go_benchmarks E) (\<lambda>results.
     py_bind (build_vanilla_comparison fromiso) (\<lambda>section.
     let table = py_lines (build_overhead_table results) @ (case section of None \<Rightarrow> [] | Some ls \<Rightarrow> py_lines ls) in
     py_then (write_file E (path_join E7_OUT_DIR ''table4_overhead.md'') (table @ NL))
     (py_return table)))"

section \<open>stats_collector.py\<close>

record scaling_row =
  sr_n :: int
  sr_acir_opcodes :: int
  sr_circuit_size :: int
  sr_proof_size_bytes :: int
  sr_compile_s :: rat
  sr_execute_s :: rat
  sr_prove_s :: rat
  sr_verify_s :: rat

definition scaling_row_of :: "csv_dict \<Rightarrow> scaling_row result" where
  "scaling_row_of r =
     rbind (item_int r ''n'') (\<lambda>n. rbind (item_int r ''acir_opcodes'') (\<lambda>ops.
     rbind (item_int r ''circuit_size'') (\<lambda>size. rbind (item_int r ''proof_size_bytes'') (\<lambda>proof.
     rbind (item_float r ''compile_s'') (\<lambda>c. rbind (item_float r ''execute_s'') (\<lambda>e.
     rbind (item_float r ''prove_s'') (\<lambda>p. rbind (item_float r ''verify_s'') (\<lambda>v.
     Inr \<lparr>sr_n = n, sr_acir_opcodes = ops, sr_circuit_size = size, sr_proof_size_bytes = proof, sr_compile_s = c, sr_execute_s = e,
          sr_prove_s = p, sr_verify_s = v\<rparr>))))))))"

definition load_scaling_rows :: "scaling_row list py" where
  "load_scaling_rows = py_bind (load_csv (path_join E6_RESULTS_DIR ''table6b_scaling.csv'')) (\<lambda>raw. py_lift (rmap_list scaling_row_of raw))"

text \<open>What numpy computes: \<^verbatim>\<open>np.polyfit(x, y, 1)\<close> (slope and intercept) and the correlation \<^verbatim>\<open>np.corrcoef(x, y)[0, 1]\<close>.\<close>

record regression =
  polyfit :: "rat list \<Rightarrow> rat list \<Rightarrow> (rat \<times> rat) result"
  corrcoef :: "rat list \<Rightarrow> rat list \<Rightarrow> rat result"

definition build_table6a :: "regression \<Rightarrow> scaling_row list \<Rightarrow> string list result" where
  "build_table6a np rows =
     (let n = map (of_int \<circ> sr_n) rows; opcodes = map (of_int \<circ> sr_acir_opcodes) rows in
      rbind (polyfit np n opcodes) (\<lambda>(slope, intercept).
      rbind (corrcoef np n opcodes) (\<lambda>r.
      rbind (py_min id (map sr_n rows)) (\<lambda>lo. rbind (py_max id (map sr_n rows)) (\<lambda>hi.
      Inr ([''**Table 6A -- Circuit Composition (measured, real nargo/bb):**'', '''', ''| Component | Cost model | Fit |'', ''| --- | --- | --- |'',
        ''| Fixed overhead (root binding + Honk setup) | '' @ fmt_fixed 1 intercept @ '' ACIR opcodes | R^2='' @ fmt_fixed 4 (r ^ 2) @ '' |'',
        ''| Marginal cost per header (continuity + FSM legality + withdrawal lock) | '' @ fmt_fixed 2 slope
          @ '' ACIR opcodes/header | linear fit across N='' @ py_str_int lo @ ''..'' @ py_str_int hi @ '' |'',
        '''', ''| N (headers) | ACIR opcodes | Honk circuit size (padded) |'', ''| ---: | ---: | ---: |'']
        @ map (\<lambda>r. ''| '' @ py_str_int (sr_n r) @ '' | '' @ py_str_int (sr_acir_opcodes r) @ '' | '' @ py_str_int (sr_circuit_size r) @ '' |'') rows))))))"

text \<open>\<^verbatim>\<open>r["n"] / r["prove_s"] if r["prove_s"] > 0 else float("inf")\<close>, as text\<close>

definition blocks_per_s :: "scaling_row \<Rightarrow> string" where
  "blocks_per_s r = (if 0 < sr_prove_s r then fmt_fixed 1 (of_int (sr_n r) / sr_prove_s r) else ''inf'')"

definition build_table6b :: "scaling_row list \<Rightarrow> string list" where
  "build_table6b rows =
     [''**Table 6B -- Scaling Benchmark (measured, real nargo/bb, UltraHonk backend):**'', '''',
      ''| Sovereign Blocks (N) | ACIR Opcodes | Compile (s) | Prove (s) | Verify (ms) | Proof Size | Blocks/s |'',
      ''| ---: | ---: | ---: | ---: | ---: | ---: | ---: |'']
     @ map (\<lambda>r. ''| '' @ py_str_int (sr_n r) @ '' | '' @ py_str_int (sr_acir_opcodes r) @ '' | '' @ fmt_fixed 3 (sr_compile_s r) @ '' | ''
          @ fmt_fixed 3 (sr_prove_s r) @ '' | '' @ fmt_fixed 1 (sr_verify_s r * 1000) @ '' | '' @ py_str_int (sr_proof_size_bytes r) @ '' B | ''
          @ blocks_per_s r @ '' |'') rows"

definition scaling_panel :: "string \<Rightarrow> (scaling_row \<Rightarrow> rat) \<Rightarrow> string \<Rightarrow> scaling_row list \<Rightarrow> panel" where
  "scaling_panel title val color rows =
     \<lparr>panel_title = title, panel_draws = [Curve (map (\<lambda>r. (of_int (sr_n r), val r)) rows) color]\<rparr>"

definition build_figure6 :: "scaling_row list \<Rightarrow> figure result" where
  "build_figure6 rows =
     rbind (py_max id (map sr_proof_size_bytes rows)) (\<lambda>m.
     Inr \<lparr>fig_name = ''figure6_scaling'',
          fig_title = [''Figure 6 -- Recovery Proof Scaling'' @ NL @ ''(Noir + UltraHonk, real measurements)''], fig_legend = [],
          fig_panels = [scaling_panel ''(A) Constraint Count'' (of_int \<circ> sr_acir_opcodes) [] rows,
            scaling_panel ''(B) Proving Time'' sr_prove_s ''C1'' rows,
            scaling_panel ''(C) Verification Time'' (\<lambda>r. sr_verify_s r * 1000) ''C2'' rows,
            (let p = scaling_panel ''(D) Proof Size'' (of_int \<circ> sr_proof_size_bytes) ''C3'' rows in
             p\<lparr>panel_draws := panel_draws p @ [YLim 0 (of_int m * 3 / 2)]\<rparr>)]\<rparr>)"

definition stats_main :: "env \<Rightarrow> regression \<Rightarrow> figure py" where
  "stats_main E np =
     py_bind load_scaling_rows (\<lambda>rows.
     py_bind (py_lift (build_table6a np rows)) (\<lambda>table6a.
     py_bind (py_lift (build_figure6 rows)) (\<lambda>fig.
     py_then (write_file E (path_join E6_RESULTS_DIR ''table6a_6b.md'') (py_lines table6a @ NL @ NL @ py_lines (build_table6b rows) @ NL))
     (py_return fig))))"

section \<open>table6c_collector.py: the figure\<close>

text \<open>\<^verbatim>\<open>f"{x:.3g}"\<close>: three significant digits, trailing zeros dropped, in scientific notation below a ten-thousandth and from a thousand on. \<open>decade x\<close> is the
  exponent of the leading digit.\<close>

definition decade :: "rat \<Rightarrow> int" where
  "decade x = (if 1 \<le> x then int (length (show_nat (nat \<lfloor>x\<rfloor>))) - 1 else - int (length (show_nat (nat \<lceil>1 / x\<rceil> - 1))))"

definition strip_zeros :: "string \<Rightarrow> string" where
  "strip_zeros s = (if contains s ''.'' then rstrip_chars ''.'' (rstrip_chars ''0'' s) else s)"

definition fmt_3g :: "rat \<Rightarrow> string" where
  "fmt_3g x =
     (if x = 0 then ''0''
      else
        (let sign = (if x < 0 then ''-'' else []); e = decade \<bar>x\<bar>; m = round_half_even (scale10 \<bar>x\<bar> (2 - e));
             (e, m) = (if m = 1000 then (e + 1, 100) else (e, m)) in
         if - 4 \<le> e \<and> e < 3 then sign @ strip_zeros (fmt_fixed (nat (2 - e)) (scale10 (of_int m) (e - 2)))
         else sign @ strip_zeros (fmt_fixed 2 (of_int m / 100)) @ ''e'' @ (if e < 0 then ''-'' else ''+'') @ pad_left 2 (show_nat (nat \<bar>e\<bar>))))"

definition compact_num :: "rat \<Rightarrow> string" where
  "compact_num v =
     (if 1000000 \<le> v then fmt_3g (v / 1000000) @ ''M'' else if 1000 \<le> v then fmt_3g (v / 1000) @ ''K'' else fmt_3g v)"

definition backend_panel :: "string \<Rightarrow> rat \<Rightarrow> rat \<Rightarrow> draw list \<Rightarrow> panel" where
  "backend_panel metric nv pv axis =
     \<lparr>panel_title = metric, panel_draws = Bars [''Noir+Honk'', ''Plonky3''] [nv, pv] [compact_num nv, compact_num pv] # axis\<rparr>"

definition build_figure7 :: "csv_dict list \<Rightarrow> csv_dict list \<Rightarrow> figure result" where
  "build_figure7 noir_rows plonky3_rows =
     rbind (row_at_n noir_rows REPRESENTATIVE_N) (\<lambda>noir.
     rbind (row_at_n plonky3_rows REPRESENTATIVE_N) (\<lambda>p3.
     rbind (measured noir) (\<lambda>(ns, nv, np).
     rbind (measured p3) (\<lambda>(ps, pv, pp).
     Inr \<lparr>fig_name = ''figure7_backend_tradeoff'',
          fig_title = [''Figure 7 -- Backend Trade-off'' @ NL @ ''at N='' @ py_str_int REPRESENTATIVE_N
            @ '' sovereign blocks (real measurements, log scale except Verify)''], fig_legend = [],
          fig_panels = [backend_panel ''Proof size (B)'' (of_int ns) (of_int ps) [],
            backend_panel ''Verify (ms)'' nv pv [YLim 0 88, YTicks (map (\<lambda>t. (of_int t, py_str_int t)) [0, 20, 40, 60, 80])],
            backend_panel ''Prove (s)'' np pp []]\<rparr>))))"

definition backend_main :: "env \<Rightarrow> (string list \<times> figure) py" where
  "backend_main E =
     py_bind (load_csv (path_join E6_RESULTS_DIR ''table6b_scaling.csv'')) (\<lambda>noir_rows.
     py_bind (load_csv (path_join E6_RESULTS_DIR ''table6c_plonky3.csv'')) (\<lambda>plonky3_rows.
     py_bind (py_lift (build_table6c noir_rows plonky3_rows)) (\<lambda>ls.
     py_bind (py_lift (build_figure7 noir_rows plonky3_rows)) (\<lambda>fig.
     py_then (write_file E (path_join E6_RESULTS_DIR ''table6c_backend_comparison.md'') (py_lines ls @ NL))
     (py_return (ls, fig))))))"

section \<open>data_preprocessor.py: the figure\<close>

definition LIVE_5A :: "(int, (string, rat) dict) dict" where
  "LIVE_5A = map (\<lambda>(hw, u). (hw, [(''stable'', 1), (''noisy_da'', u)]))
     [(0, 1170 / 10000), (2, 1529 / 10000), (5, 1875 / 10000), (10, 106 / 10000), (20, 104 / 10000)]"

definition LIVE_5B :: "(int, (string, rat) dict) dict" where
  "LIVE_5B = map (\<lambda>(t, s, u). (t, [(''stable'', s), (''noisy_da'', u)]))
     [(1, 7368 / 10000, 1348 / 10000), (2, 1, 423 / 10000), (4, 1, 3000 / 10000), (6, 1, 3646 / 10000), (8, 1, 2824 / 10000)]"

definition LIVE_5C :: "(int, rat) dict" where
  "LIVE_5C = [(1, 1875 / 10000), (2, 3646 / 10000), (4, 1250 / 10000), (6, 1579 / 10000), (8, 1711 / 10000)]"

definition in_environment :: "('a \<Rightarrow> csv_dict) \<Rightarrow> string option \<Rightarrow> 'a list \<Rightarrow> 'a list result" where
  "in_environment cells e rows =
     rbind (rmap_list (\<lambda>r. dict_item (cells r) ''environment'') rows) (\<lambda>es. Inr (map fst (filter (\<lambda>(r, e'). e' = e) (zip rows es))))"

text \<open>\<^verbatim>\<open>sorted(..., key=...)\<close> by the swept parameter, plotted against a measured value; the live points as markers.\<close>

definition sweep_curve :: "('a \<Rightarrow> int) \<Rightarrow> ('a \<Rightarrow> rat) \<Rightarrow> string \<Rightarrow> 'a list \<Rightarrow> draw" where
  "sweep_curve x y color rows = Curve (map (\<lambda>r. (of_int (x r), y r)) (sort_key x rows)) color"

definition live_dots :: "(int, (string, rat) dict) dict \<Rightarrow> string \<Rightarrow> draw list result" where
  "live_dots live e =
     rbind (rmap_list (\<lambda>x. dict_item (dict_get live x []) e) (sort (dict_keys live))) (\<lambda>ys.
     Inr (map (\<lambda>(x, y). Dot (of_int x) y) (zip (sort (dict_keys live)) ys)))"

definition hysteresis_axis :: "draw list" where
  "hysteresis_axis = [VLine 2, YLim (- 1 / 20) (41 / 20), YTicks (map (\<lambda>k. (of_nat k / 5, [])) [0 ..< 6])]"

definition panel_5a :: "sweep_row list \<Rightarrow> panel result" where
  "panel_5a rows =
     rbind (rmap_list (\<lambda>(e, color).
       rbind (in_environment sw_cells (Some e) rows) (\<lambda>rs.
       rbind (if e \<in> {''stable'', ''noisy_da''} then live_dots LIVE_5A e else Inr []) (\<lambda>dots.
       Inr (sweep_curve sw_hysteresis_wait sw_anchored_uptime color rs # dots))))
       [(''stable'', ''#0072B2''), (''noisy_da'', ''#E69F00''), (''noisy_btc'', ''#D55E00'')]) (\<lambda>dss.
     Inr \<lparr>panel_title = ''(a) Up-Hysteresis:'' @ NL @ ''Mitigating Flapping'', panel_draws = concat dss @ hysteresis_axis\<rparr>)"

text \<open>\<^verbatim>\<open>next(r["environment"] for r in rows_5b if r["environment"] != "stable")\<close>\<close>

fun first_noisy :: "(csv_dict \<times> int \<times> rat) list \<Rightarrow> string option result" where
  "first_noisy [] = Inl (Exn StopIteration [])"
| "first_noisy (r # rs) = rbind (dict_item (fst r) ''environment'') (\<lambda>e. if e \<noteq> Some ''stable'' then Inr e else first_noisy rs)"

definition panel_5b :: "(csv_dict \<times> int \<times> rat) list \<Rightarrow> panel result" where
  "panel_5b rows =
     rbind (in_environment fst (Some ''stable'') rows) (\<lambda>stable.
     rbind (first_noisy rows) (\<lambda>name.
     rbind (in_environment fst name rows) (\<lambda>noisy.
     rbind (live_dots LIVE_5B ''stable'') (\<lambda>d1.
     rbind (live_dots LIVE_5B ''noisy_da'') (\<lambda>d2.
     Inr \<lparr>panel_title = ''(b) Down-Hysteresis:'' @ NL @ ''Noise Absorption'',
          panel_draws = [sweep_curve (fst \<circ> snd) (snd \<circ> snd) ''#0072B2'' stable, sweep_curve (fst \<circ> snd) (snd \<circ> snd) ''#009E73'' noisy]
            @ d1 @ d2 @ hysteresis_axis\<rparr>)))))"

definition panel_5c :: "(csv_dict \<times> int \<times> rat \<times> rat) list \<Rightarrow> panel" where
  "panel_5c rows =
     \<lparr>panel_title = ''(c) Suspicious-Exit:'' @ NL @ ''The Tuning Trade-off'',
      panel_draws = sweep_curve (fst \<circ> snd) (fst \<circ> snd \<circ> snd) ''#D55E00'' rows
        # map (\<lambda>(x, y). Dot (of_int x) y) (sort_key fst LIVE_5C)
        @ sweep_curve (fst \<circ> snd) (snd \<circ> snd \<circ> snd) ''#CC79A7'' rows # hysteresis_axis\<rparr>"

definition build_figure4 ::
  "sweep_row list \<Rightarrow> (csv_dict \<times> int \<times> rat) list \<Rightarrow> (csv_dict \<times> int \<times> rat \<times> rat) list \<Rightarrow> figure result" where
  "build_figure4 rows_5a rows_5b rows_5c =
     rbind (panel_5a rows_5a) (\<lambda>pa.
     rbind (panel_5b rows_5b) (\<lambda>pb.
     Inr \<lparr>fig_name = ''figure4_hysteresis_tradeoffs'',
          fig_title = [''Figure 4: FSM Hysteresis Parameter Sweeps and'' @ NL @ ''System Trade-offs Across Fault Environments'',
            ''lines = in-process sweep; diamonds = real live spot-checks (divergence is real, not noise); ''
            @ ''dashed line = real production default (=2)''],
          fig_legend = [], fig_panels = [pa, pb, panel_5c rows_5c]\<rparr>))"

definition preprocessor_main :: "env \<Rightarrow> (string list \<times> figure) py" where
  "preprocessor_main E =
     py_bind (path_exists (path_join E2E_RESULTS_DIR ''e5_hysteresis_sweep.csv'')) (\<lambda>a.
     if \<not> a then py_raise (Exn SystemExit ''1'')
     else py_bind (path_exists (path_join E2E_RESULTS_DIR ''e5b_down_hysteresis_sweep.csv'')) (\<lambda>b.
          py_bind (path_exists (path_join E2E_RESULTS_DIR ''e5c_suspicious_exit_sweep.csv'')) (\<lambda>c.
          if \<not> (b \<and> c) then py_raise (Exn SystemExit ''1'')
          else py_bind load_rows (\<lambda>rows.
               py_bind (py_lift (build_sweep_table rows)) (\<lambda>ls.
               py_then (write_file E ''scripts/e5_hysteresis_flapping/results/e5_table.md'' (py_lines ls @ NL))
               (py_bind load_rows_5b (\<lambda>rows_5b. py_bind load_rows_5c (\<lambda>rows_5c.
                py_bind (py_lift (build_figure4 rows rows_5b rows_5c)) (\<lambda>fig.
                py_return (ls, fig))))))))))"

section \<open>utils.py\<close>

definition GOLDEN_RATIO :: rat where "GOLDEN_RATIO = 1618 / 1000"

definition FIG_WIDTH_DOUBLE_COL :: rat where "FIG_WIDTH_DOUBLE_COL = 716 / 100"

definition figsize_single :: "rat \<Rightarrow> rat \<Rightarrow> (rat \<times> rat) result" where
  "figsize_single width ratio = (if ratio = 0 then Inl (Exn ZeroDivisionError ''division by zero'') else Inr (width, width / ratio))"

definition figsize_multi_panel :: "int \<Rightarrow> rat \<Rightarrow> rat \<Rightarrow> rat \<times> rat" where
  "figsize_multi_panel n_panels width panel_height = (width, panel_height * of_int n_panels)"

definition figsize_row :: "int \<Rightarrow> rat \<Rightarrow> rat \<Rightarrow> rat \<times> rat" where
  "figsize_row n_subplots width h = (width, h)"

definition figsize_grid :: "int \<Rightarrow> int \<Rightarrow> rat \<Rightarrow> (rat \<times> rat) result" where
  "figsize_grid n_rows n_cols width =
     (if n_cols = 0 then Inl (Exn ZeroDivisionError ''division by zero'')
      else Inr (width, (width / of_int n_cols) * of_int n_rows / GOLDEN_RATIO * (115 / 100)))"

definition COMPOSE_FILE :: string where "COMPOSE_FILE = ''compose.yml''"

definition trigger_chaos_profile :: "env \<Rightarrow> string \<Rightarrow> unit py" where
  "trigger_chaos_profile E profile =
     py_then (run_proc E [''docker-compose'', ''-f'', COMPOSE_FILE, ''--profile'', profile, ''up'', ''-d''] True) (py_return ())"

definition stop_chaos_profile :: "env \<Rightarrow> string \<Rightarrow> unit py" where
  "stop_chaos_profile E profile =
     py_then (run_proc E [''docker-compose'', ''-f'', COMPOSE_FILE, ''--profile'', profile, ''stop''] True) (py_return ())"

definition simulate_eclipse_attack :: "env \<Rightarrow> unit py" where "simulate_eclipse_attack E = trigger_chaos_profile E ''chaos-eclipse''"

definition recover_from_eclipse_attack :: "env \<Rightarrow> unit py" where "recover_from_eclipse_attack E = stop_chaos_profile E ''chaos-eclipse''"

definition simulate_network_latency :: "env \<Rightarrow> unit py" where "simulate_network_latency E = trigger_chaos_profile E ''chaos-delay''"

definition stop_network_latency :: "env \<Rightarrow> unit py" where "stop_network_latency E = stop_chaos_profile E ''chaos-delay''"

definition simulate_node_crash :: "env \<Rightarrow> unit py" where "simulate_node_crash E = trigger_chaos_profile E ''chaos-crash''"

section \<open>Benchmark lines are read back\<close>

text \<open>A line of \<^verbatim>\<open>go test -bench -benchmem\<close>: the name, the number of iterations, the time, a reported metric if there is one, and the allocations.
  The columns are separated by tabs and aligned by blanks, \<open>ge_pad i\<close> of them before column \<open>i\<close>.\<close>

record go_entry =
  ge_name :: string
  ge_runs :: nat
  ge_ns :: string
  ge_bytes :: "string option"
  ge_mem :: nat
  ge_allocs :: nat
  ge_pad :: "nat \<Rightarrow> nat"

definition column :: "nat \<Rightarrow> string" where
  "column n = char_of (9 :: nat) # replicate n (CHR '' '')"

definition go_line :: "go_entry \<Rightarrow> string" where
  "go_line e = ''Benchmark'' @ ge_name e @ replicate (ge_pad e 0) (CHR '' '') @ column (ge_pad e 1) @ show_nat (ge_runs e)
     @ column (ge_pad e 2) @ ge_ns e @ '' ns/op''
     @ (case ge_bytes e of None \<Rightarrow> [] | Some b \<Rightarrow> column (ge_pad e 3) @ b @ '' bytes/op'')
     @ column (ge_pad e 4) @ show_nat (ge_mem e) @ '' B/op'' @ column (ge_pad e 5) @ show_nat (ge_allocs e) @ '' allocs/op''"

definition decimal_text :: "string \<Rightarrow> bool" where
  "decimal_text ds \<longleftrightarrow> ds \<noteq> [] \<and> list_all is_decimal ds \<and> \<not> isl (py_float ds)"

definition entry_ok :: "go_entry \<Rightarrow> bool" where
  "entry_ok e \<longleftrightarrow> ge_name e \<noteq> [] \<and> list_all (Not \<circ> is_space) (ge_name e) \<and> decimal_text (ge_ns e) \<and> (case ge_bytes e of None \<Rightarrow> True | Some b \<Rightarrow> decimal_text b)"

definition entry_bench :: "go_entry \<Rightarrow> bench" where
  "entry_bench e = \<lparr>bn_ns_op = projr (py_float (ge_ns e)), bn_bytes_op = map_option (\<lambda>b. projr (py_float b)) (ge_bytes e)\<rparr>"

lemma group_app: "g \<noteq> [] \<Longrightarrow> list_all P g \<Longrightarrow> \<not> P c \<Longrightarrow> group P (g @ c # rest) = Some (g, c # rest)"
  by (auto simp: group_def list_all_iff takeWhile_append2 dropWhile_append2)

lemma space_chars [simp]:
  "is_space (CHR '' '')" "is_space (char_of (9 :: nat))" "\<not> is_decimal (CHR '' '')" "\<not> is_decimal (char_of (9 :: nat))"
  "\<not> is_digit (char_of (9 :: nat))" "\<not> is_digit (CHR '' '')"
  by code_simp+

lemma decimal_not_space: "is_decimal c \<Longrightarrow> \<not> is_space c"
proof -
  have "\<not> is_space (CHR ''.'')" by code_simp
  then show "is_decimal c \<Longrightarrow> \<not> is_space c" unfolding is_decimal_def using digit_not_space by blast
qed

lemma spaces_app:
  assumes "g \<noteq> []" "list_all is_space g" "\<not> is_space c"
  shows "spaces (g @ c # rest) = Some (c # rest)"
  using group_app [OF assms] by (simp add: spaces_def)

lemma unit_group_app:
  assumes "ds \<noteq> []" "list_all is_decimal ds" "c \<noteq> []" "list_all is_space c"
    "\<not> is_space (hd (u @ rest))" "u \<noteq> []"
  shows "unit_group u (c @ ds @ '' '' @ u @ rest) = Some (ds, rest)"
proof -
  obtain d ds' where ds: "ds = d # ds'" using assms(1) by (cases ds) auto
  obtain a u' where u: "u = a # u'" using assms(6) by (cases u) auto
  have "\<not> is_space d" using assms(2) ds decimal_not_space by simp
  then have s1: "spaces (c @ ds @ '' '' @ u @ rest) = Some (ds @ '' '' @ u @ rest)"
    using spaces_app [OF assms(3,4), of d "ds' @ '' '' @ u @ rest"] ds by simp
  have g: "group is_decimal (ds @ '' '' @ u @ rest) = Some (ds, '' '' @ u @ rest)"
    using group_app [OF assms(1,2), of "CHR '' ''" "u @ rest"] by simp
  have "spaces ('' '' @ u @ rest) = Some (u @ rest)" using spaces_app [of "'' ''" a "u' @ rest"] assms(5) u by simp
  with s1 g show ?thesis by (simp add: unit_group_def lit_def)
qed

lemma unit_group_none:
  assumes "ds \<noteq> []" "list_all is_decimal ds" "c \<noteq> []" "list_all is_space c" "\<not> is_space d" "\<not> prefix u (d # rest)"
  shows "unit_group u (c @ ds @ '' '' @ d # rest) = None"
proof -
  obtain a ds' where ds: "ds = a # ds'" using assms(1) by (cases ds) auto
  have "\<not> is_space a" using assms(2) ds decimal_not_space by simp
  then have "spaces (c @ ds @ '' '' @ d # rest) = Some (ds @ '' '' @ d # rest)"
    using spaces_app [OF assms(3,4), of a "ds' @ '' '' @ d # rest"] ds by simp
  moreover have "group is_decimal (ds @ '' '' @ d # rest) = Some (ds, '' '' @ d # rest)"
    using group_app [OF assms(1,2), of "CHR '' ''" "d # rest"] by simp
  moreover have "spaces ('' '' @ d # rest) = Some (d # rest)" using spaces_app [of "'' ''" d rest] assms(5) by simp
  ultimately show ?thesis using assms(6) by (simp add: unit_group_def lit_def)
qed

lemma column_spaces [simp]: "column n \<noteq> []" "list_all is_space (column n)"
  by (simp_all add: column_def list_all_iff)

lemma is_decimal_show: "list_all is_decimal (show_nat n)"
  using show_nat_digits [of n] by (auto simp: list_all_iff is_decimal_def)

text \<open>After the time comes the metric, or the allocations, whose unit is not the metric's.\<close>

definition go_tail :: "go_entry \<Rightarrow> string" where
  "go_tail e = column (ge_pad e 4) @ show_nat (ge_mem e) @ '' B/op'' @ column (ge_pad e 5) @ show_nat (ge_allocs e) @ '' allocs/op''"

lemma metric_read:
  assumes "\<forall>b. ge_bytes e = Some b \<longrightarrow> decimal_text b"
  shows "map_option fst (unit_group ''bytes/op'' ((case ge_bytes e of None \<Rightarrow> [] | Some b \<Rightarrow> column (ge_pad e 3) @ b @ '' bytes/op'') @ go_tail e)) = ge_bytes e"
proof (cases "ge_bytes e")
  case None
  have "\<not> is_space (CHR ''B'')" by code_simp
  moreover have "\<not> prefix ''bytes/op'' (CHR ''B'' # rest)" for rest by simp
  ultimately have "unit_group ''bytes/op'' (go_tail e) = None"
    using unit_group_none [of "show_nat (ge_mem e)" "column (ge_pad e 4)" "CHR ''B''" "''bytes/op''"] is_decimal_show show_nat_nonempty
    unfolding go_tail_def by simp
  with None show ?thesis by simp
next
  case (Some b)
  have "\<not> is_space (CHR ''b'')" by code_simp
  with Some assms have "unit_group ''bytes/op'' (column (ge_pad e 3) @ b @ '' '' @ ''bytes/op'' @ go_tail e) = Some (b, go_tail e)"
    by (intro unit_group_app) (auto simp: decimal_text_def)
  with Some show ?thesis by simp
qed

lemma go_line_matches:
  assumes "entry_ok e"
  shows "bench_match (go_line e) = Some (''Benchmark'' @ ge_name e, ge_ns e, ge_bytes e)"
proof -
  define tail where "tail = (case ge_bytes e of None \<Rightarrow> [] | Some b \<Rightarrow> column (ge_pad e 3) @ b @ '' bytes/op'') @ go_tail e"
  define gap where "gap = replicate (ge_pad e 0) (CHR '' '') @ column (ge_pad e 1)"
  define runs where "runs = show_nat (ge_runs e)"
  define timed where "timed = column (ge_pad e 2) @ ge_ns e @ '' '' @ ''ns/op'' @ tail"
  have line: "go_line e = ''Benchmark'' @ ge_name e @ gap @ runs @ timed"
    by (simp add: go_line_def go_tail_def tail_def gap_def timed_def runs_def)
  have gap: "gap \<noteq> []" "list_all is_space gap"
    using column_spaces(2) [of "ge_pad e 1"] by (auto simp: gap_def list_all_iff)
  obtain g gap' where g: "gap = g # gap'" "is_space g" using gap by (cases gap) auto
  obtain d runs' where r: "runs = d # runs'" "is_digit d" and digits: "list_all is_digit runs"
    using show_nat_digits [of "ge_runs e"] show_nat_nonempty [of "ge_runs e"]
    by (cases "show_nat (ge_runs e)") (auto simp: runs_def list_all_iff)
  obtain t timed' where t: "timed = t # timed'" "\<not> is_digit t" by (simp add: timed_def column_def)
  have ok: "ge_name e \<noteq> []" "list_all (Not \<circ> is_space) (ge_name e)" "decimal_text (ge_ns e)" "\<forall>b. ge_bytes e = Some b \<longrightarrow> decimal_text b"
    using assms by (auto simp: entry_ok_def)
  have "group (Not \<circ> is_space) (ge_name e @ gap @ runs @ timed) = Some (ge_name e, gap @ runs @ timed)"
    using group_app [OF ok(1,2), of g "gap' @ runs @ timed"] g by simp
  moreover have "spaces (gap @ runs @ timed) = Some (runs @ timed)"
    using spaces_app [OF gap, of d "runs' @ timed"] r digit_not_space by simp
  moreover have "group is_digit (runs @ timed) = Some (runs, timed)"
    using group_app [of runs is_digit t timed'] t r digits by simp
  moreover have "unit_group ''ns/op'' timed = Some (ge_ns e, tail)"
  proof -
    have "\<not> is_space (CHR ''n'')" by code_simp
    with ok(3) show ?thesis unfolding timed_def by (intro unit_group_app) (auto simp: decimal_text_def)
  qed
  moreover have "map_option fst (unit_group ''bytes/op'' tail) = ge_bytes e" unfolding tail_def by (rule metric_read [OF ok(4)])
  ultimately show ?thesis by (simp add: line bench_match_def lit_def)
qed

lemma bench_of_entry:
  assumes "entry_ok e"
  shows "bench_of (ge_ns e) (ge_bytes e) = Inr (entry_bench e)"
proof -
  obtain x where "py_float (ge_ns e) = Inr x" using assms by (cases "py_float (ge_ns e)") (auto simp: entry_ok_def decimal_text_def)
  moreover have "\<exists>y. py_float b = Inr y" if "ge_bytes e = Some b" for b
    using assms that by (cases "py_float b") (auto simp: entry_ok_def decimal_text_def)
  ultimately show ?thesis by (cases "ge_bytes e") (auto simp: bench_of_def entry_bench_def)
qed

lemma other_line: "\<not> prefix ''Benchmark'' line \<Longrightarrow> bench_match line = None"
  by (simp add: bench_match_def lit_def)

lemma bench_lines_skip: "bench_lines results ls = bench_lines results (filter (prefix ''Benchmark'') ls)"
  by (induction ls arbitrary: results) (auto simp: other_line rbind_def split: option.splits prod.splits sum.splits)

lemma bench_lines_entries:
  assumes "list_all entry_ok es" "distinct (map ge_name es)" "\<forall>e\<in>set es. ''Benchmark'' @ ge_name e \<notin> fst ` set results"
  shows "bench_lines results (map go_line es) = Inr (results @ map (\<lambda>e. (''Benchmark'' @ ge_name e, entry_bench e)) es)"
  using assms
proof (induction es arbitrary: results)
  case (Cons e es)
  have "AList.update (''Benchmark'' @ ge_name e) (entry_bench e) results = results @ [(''Benchmark'' @ ge_name e, entry_bench e)]"
    using Cons.prems(3) by (intro update_fresh) simp
  then have "bench_lines results (map go_line (e # es)) = bench_lines (results @ [(''Benchmark'' @ ge_name e, entry_bench e)]) (map go_line es)"
    using Cons.prems(1) by (simp add: go_line_matches bench_of_entry del: append_Cons)
  also have "\<dots> = Inr ((results @ [(''Benchmark'' @ ge_name e, entry_bench e)]) @ map (\<lambda>e. (''Benchmark'' @ ge_name e, entry_bench e)) es)"
    using Cons.prems by (intro Cons.IH) (auto simp: image_iff)
  finally show ?case by simp
qed simp

text \<open>C39. Whatever else the benchmark run prints, the benchmarks it lists are read back: when \<^verbatim>\<open>go test\<close> exits normally and its lines that start with
  \<open>Benchmark\<close> are those of the entries \<open>es\<close>, with distinct names, then \<^verbatim>\<open>run_go_benchmarks\<close> returns their times and their byte counts, under
  their names and in the order printed. One command ran, without a check of its exit code by \<^verbatim>\<open>subprocess\<close>.\<close>

theorem benchmarks_read_back:
  assumes "spawn E w GO_BENCH [] = Inr p" "returncode p = 0"
    and "filter (prefix ''Benchmark'') (splitlines (out_text p)) = map go_line es"
    and "list_all entry_ok es" "distinct (map ge_name es)"
  shows "run_go_benchmarks E w =
    Some (Inr (map (\<lambda>e. (''Benchmark'' @ ge_name e, entry_bench e)) es), emit E (RunProc GO_BENCH [] (Inr p)) 0 w)"
proof -
  have "bench_lines [] (splitlines (out_text p)) = Inr (map (\<lambda>e. (''Benchmark'' @ ge_name e, entry_bench e)) es)"
    using bench_lines_skip [of "[]" "splitlines (out_text p)"] bench_lines_entries [OF assms(4,5), of "[]"] assms(3) by simp
  with assms(1,2) show ?thesis by (simp add: run_go_benchmarks_def run_proc_def run_env_def py_bind_def py_lift_def Let_def)
qed

definition sample_entry :: go_entry where
  "sample_entry = \<lparr>ge_name = ''DAVerifyReceipt-8'', ge_runs = 1000, ge_ns = ''12.5'', ge_bytes = Some ''64'', ge_mem = 0, ge_allocs = 0,
     ge_pad = (\<lambda>_. 2)\<rparr>"

definition sample_output :: string where
  "sample_output = ''goos: linux'' @ NL @ go_line sample_entry @ NL @ ''PASS'' @ NL"

abbreviation bench_env :: env where
  "bench_env \<equiv> static_env (\<lambda>_ _. Inl (Exn URLError [])) (\<lambda>_ _. Inr \<lparr>returncode = 0, out_text = sample_output, err_text = []\<rparr>)"

lemma sample_lines: "filter (prefix ''Benchmark'') (splitlines sample_output) = [go_line sample_entry]"
  by code_simp

lemma sample_entry_ok: "entry_ok sample_entry"
  by (code_simp)

theorem benchmarks_read_back_witness:
  "\<exists>w'. run_go_benchmarks bench_env start_world = Some (Inr [(''BenchmarkDAVerifyReceipt-8'', entry_bench sample_entry)], w')"
  using benchmarks_read_back [of bench_env start_world "\<lparr>returncode = 0, out_text = sample_output, err_text = []\<rparr>" "[sample_entry]"]
    sample_lines sample_entry_ok by (simp add: sample_entry_def static_env_def)

section \<open>Costs, instants and chaos commands\<close>

text \<open>Each cumulative cost of table 4 is the one before it plus one sub-benchmark, and is missing as soon as one of the parts is.\<close>

lemma cumulative_adds_up:
  "cumulative_ns results = (v1, v2, v3) \<longleftrightarrow>
     v1 = map_option bn_ns_op (bench_entry results ''BenchmarkCalculateNextState'') \<and>
     v2 = Option.bind v1 (\<lambda>x. map_option (\<lambda>d. x + bn_ns_op d) (bench_entry results ''BenchmarkDAVerifyReceipt'')) \<and>
     v3 = Option.bind v2 (\<lambda>x. map_option (\<lambda>b. x + bn_ns_op b) (bench_entry results ''BenchmarkBTCVerifyReceipt''))"
  by (auto simp: cumulative_ns_def Let_def split: option.splits)

lemma iso_fraction_six_digits:
  assumes "contains (rstrip_chars ''Z'' s) ''.''"
  obtains pre frac where "iso_text s = pre @ ''.'' @ frac" "length frac = 6" "CHR ''.'' \<notin> set pre"
proof
  let ?pre = "takeWhile (\<lambda>c. c \<noteq> CHR ''.'') (rstrip_chars ''Z'' s)"
  show "iso_text s = ?pre @ ''.'' @ take 6 (drop (length ?pre + 1) (rstrip_chars ''Z'' s) @ ''000000'')"
    using assms by (simp add: iso_text_def Let_def)
  show "length (take 6 (drop (length ?pre + 1) (rstrip_chars ''Z'' s) @ ''000000'')) = 6" by simp
  show "CHR ''.'' \<notin> set ?pre" by (auto dest: set_takeWhileD)
qed

text \<open>The comparison with a vanilla node needs two samples of either kind: one row gives no interval, and the mean of no values is an error.\<close>

lemma one_sample_no_mean:
  assumes "block_intervals fromiso [row] = Inr ds"
  shows "stat_mean ds = Inl (Exn ValueError ''mean requires at least one data point'')"
  using assms by (cases "rbind (dict_item row ''block_time'') (parse_time fromiso)") (auto simp: block_intervals_def stat_mean_def)

text \<open>The helpers of \<^verbatim>\<open>utils.py\<close> run one compose command each, for a whole profile: no service is named.\<close>

lemma chaos_profile_commands:
  assumes "trigger_chaos_profile E p w = Some (r, w') \<or> stop_chaos_profile E p w = Some (r, w')"
  obtains q argv where "log w' = log w @ [RunProc argv [] q]"
    "argv \<in> {[''docker-compose'', ''-f'', ''compose.yml'', ''--profile'', p, ''up'', ''-d''], [''docker-compose'', ''-f'', ''compose.yml'', ''--profile'', p, ''stop'']}"
  using assms unfolding trigger_chaos_profile_def stop_chaos_profile_def
  by (auto simp: run_proc_def run_env_def py_then_def py_bind_def py_return_def Let_def emit_def COMPOSE_FILE_def split: sum.splits if_splits)

end
