(* ===== verification/Spec2Isabelle.thy ===== *)
theory Spec2Isabelle
  imports Scenario_Matrix Absorb_Sweep Sybil_Attack Combined_Trace Consensus_Overhead Load_Comparison
    Result_Tables Bitcoin_Reorg Figure_Data Trace_Figure Benchmark_Tables
begin

text \<open>
  A verification library for the experiment scripts of the Engram sovereign-state-machine
  repository (\<^verbatim>\<open>src/scripts/\<close>, Python).

  \<^bold>\<open>The program.\<close> A four-validator testnet runs in docker. The scripts under \<^verbatim>\<open>scripts/framework/\<close>
  observe it (\<^verbatim>\<open>logger.py\<close>: HTTP queries to each node's RPC port, a hand-written protobuf decoder, samples
  written as CSV) and disturb it (\<^verbatim>\<open>injector.py\<close>: Pumba containers started, watched and removed through
  \<^verbatim>\<open>docker compose\<close>). Each experiment \<^verbatim>\<open>scripts/e\<close>\<open>N\<close>\<^verbatim>\<open>_*\<close> is a script over these two: it keeps a tracker of
  the states the nodes report, injects faults or starts attackers in phases, polls the cluster between
  them, and writes samples, transitions and verdicts. The blockchain node itself is written in Go and is
  seen only through its answers.

  \<^bold>\<open>Python.\<close>
  \<^item> \<open>Py_Prelude\<close>: exceptions with their class hierarchy, dictionaries in insertion order, results that
    may raise, the named collections of facts.
  \<^item> \<open>Py_Text\<close>, \<open>Py_Json\<close>, \<open>Py_Csv\<close>: text, numbers, base64, UTF-8, \<^verbatim>\<open>json.loads\<close>, regular-expression
    scanning over a matcher, and the CSV reader and writer with their round trip.
  \<^item> \<open>Py_World\<close>: effects. A computation \<open>'a py\<close> maps a world (clock, log of effects, files) to a new world with
    a value or an exception, or to \<^const>\<open>None\<close> when it does not return. Loops are \<open>py_while\<close>, a partial function
    in the option type, so that coming back is something to prove (\<open>total\<close>). Four judgements carry the
    proofs of the scripts: \<open>wp\<close> (weakest precondition), \<open>emits\<close> (which events may be logged), \<open>logs\<close> (the
    commands of a normal run, in order) and \<open>total\<close>; a fifth, \<open>quiet\<close>, and its relatives serve the witnesses.
  \<^item> \<open>Py_Polling\<close>: the deadline loop all scripts repeat, with the locale \<open>poller\<close>.

  \<^bold>\<open>Components and what is shown.\<close>
  \<^item> \<open>Node_Logger\<close> (\<^verbatim>\<open>framework/logger.py\<close>): decoding inverts the protobuf encoding; the outcome of a query for
    every answer of a node; the polling loop ends, its samples come in complete rounds in bounded number.
  \<^item> \<open>Chaos_Injector\<close> (\<^verbatim>\<open>framework/injector.py\<close>): commands name only services of their own profile; a started
    profile was seen running; the exact commands of bursts and of cleaning up; every wait ends.
  \<^item> \<open>Transition_Tracker\<close> (the \<^verbatim>\<open>Tracker\<close> classes): the locale \<open>transition_tracker\<close>, in which the log of transitions is
    shown equal to the adjacent changes of the reported states; interpreted by each class.
  \<^item> \<open>Lifecycle_Runs\<close> (\<^verbatim>\<open>e3_failure_matrix/live_*.py\<close>): the runs heal what they broke, end, and write exact tables.
  \<^item> \<open>Scenario_Matrix\<close> (\<^verbatim>\<open>e2_fault_injection/live_scenario_matrix.py\<close>): the seven scenarios restore the cluster;
    bounds of the block-interval statistics.
  \<^item> \<open>Divergence\<close>, \<open>Attack_Runs\<close> (\<^verbatim>\<open>e8_attack_resilience/live_*.py\<close>): the locale \<open>divergence_tracker\<close>; the verdicts
    are equivalent to statements about the recorded samples; recomputing them from the CSV file agrees
    with the run; attacks are switched off again.
  \<^item> \<open>Hysteresis\<close>, \<open>Absorb_Sweep\<close> (\<^verbatim>\<open>e5_hysteresis_flapping/live_spot_check*.py\<close>, \<^verbatim>\<open>run_absorb_sweep.py\<close>): metrics count what
    they name; the bridge is restored; the parameter file refines a store (locale \<open>param_store\<close>); the health
    wait is sound and, with enough healthy rounds, succeeds; the sweep covers every edge, value and
    environment.
  \<^item> \<open>P2p_Attacks\<close>, \<open>Sybil_Attack\<close> (\<^verbatim>\<open>e4_p2p_eclipse_detection/live_*_attack.py\<close>): verdicts of the churn, relay-latency
    and Sybil attacks, the commands that set attackers up and take them down, exact counts of peers per
    subnet.
  \<^item> \<open>Combined_Trace\<close> (\<^verbatim>\<open>e9_trace_driven/live_combined_trace.py\<close>, \<^verbatim>\<open>sensor_log_scraper.py\<close>): the exact commands of the layered
    faults, which faults never overlap, the log scraper inverts what a node prints, every reading kept is dated by the
    closest sample, and everything the tracker holds is well-formed.
  \<^item> \<open>Consensus_Overhead\<close> (\<^verbatim>\<open>e7_consensus_overhead/live_sensor_mismatch.py\<close>, \<^verbatim>\<open>live_overhead_scan.py\<close>): the nil ratios are those of the
    distinct heights; a block scan asks for every block once and its buckets partition the blocks with a marker.
  \<^item> \<open>Load_Comparison\<close> (\<^verbatim>\<open>e7_consensus_overhead/live_throughput_latency.py\<close>): the load keeps to its rate, its counters are exact, and
    no node process is left behind however the run ends.
  \<^item> \<open>Result_Tables\<close> (\<^verbatim>\<open>e3_failure_matrix/measure_latency.py\<close>, \<^verbatim>\<open>measure_latency_live.py\<close>, \<^verbatim>\<open>e4_p2p_eclipse_detection/simulate_eclipse_attack.py\<close>,
    \<^verbatim>\<open>e5_hysteresis_flapping/data_preprocessor.py\<close>, \<^verbatim>\<open>e6_zk_reanchoring_benchmark/table6c_collector.py\<close>): which rows of the recorded files a table
    holds and in which order; the live failure matrix composed with the files the logger writes.
  \<^item> \<open>Bitcoin_Reorg\<close> (\<^verbatim>\<open>e10_bitcoin_reorg/live_reorg_test.py\<close>): the commands of a reorganisation run, and that the miner is resumed.
  \<^item> \<open>Figure_Data\<close> (\<^verbatim>\<open>e2_fault_injection/live_figure_builder.py\<close>, \<^verbatim>\<open>live_single_timeline.py\<close>, \<^verbatim>\<open>e10_bitcoin_reorg/live_figure_builder.py\<close>): a
    figure is the list of its drawing calls with their data (locale \<open>selector\<close> for the calls of one kind); state lines are cut and
    marked exactly at the changes of state; the bands of the timeline are contiguous and need every scenario.
  \<^item> \<open>Trace_Figure\<close> (\<^verbatim>\<open>e9_trace_driven/live_figure_builder.py\<close>): the fault windows read from the summary of a completed combined trace
    are complete and nested; the locked windows and the caption on the agreement of hashes are exact; both figures of state lines agree.
  \<^item> \<open>Benchmark_Tables\<close> (\<^verbatim>\<open>e7_consensus_overhead/measure_overhead.py\<close>, \<^verbatim>\<open>e6_zk_reanchoring_benchmark/stats_collector.py\<close>, the figures of
    \<^verbatim>\<open>table6c_collector.py\<close> and \<^verbatim>\<open>data_preprocessor.py\<close>, \<^verbatim>\<open>utils.py\<close>): parsing inverts the benchmark lines of \<^verbatim>\<open>go test\<close>; cumulative costs; the
    commands of the chaos helpers.
  \<^item> This theory: every experiment with a bounded watch ends, in every environment.

  \<^bold>\<open>Parameters.\<close> The record \<open>env\<close> stands for everything outside the repository: what a node answers to an HTTP
  request, what a spawned process prints and how it ends, how long a call takes, the process's environment
  variables, the text of a float and of a formatted time. Its answers may depend on the whole history of
  the run. Where a theorem relies on documented behaviour of it, that is a named hypothesis and the
  witness has a concrete \<open>env\<close>.

  \<^bold>\<open>Modelling decisions.\<close> Floating-point numbers are exact rationals; text is its UTF-8 bytes; messages of
  exceptions are shortened to what the scripts look at; standard output is left out; a file is written as a whole when it is
  closed, and directories exist; paths are relative to the root of the repository; the values of command
  line options are arguments of the model of \<^verbatim>\<open>main\<close>; a spawned script is one command of the log.

  \<^bold>\<open>Fuel and termination.\<close> Only the JSON parser has fuel, twice the length of its text plus two, since each
  nested value consumes a character and each list or object at most doubles the calls; every other
  recursion is structural or has a measure, and every waiting loop is shown to end because a round
  sleeps for a positive time while the deadline is fixed (shown below). The exception is the
  watch of \<^verbatim>\<open>live_chaos_experiment.py\<close>, which has no deadline and ends only when the injector does.

  \<^bold>\<open>Not modelled.\<close> The Go node, the Noir circuits, the TLA+ specification, containers and shell scripts: they are written in other
  languages and reach the scripts only through \<open>env\<close>. Of the figures, what matplotlib renders from the calls, their styling, axis
  labels, the legends of single panels, and limits and ticks computed from limits matplotlib chose itself (the logarithmic axes of figure 7);
  \<^verbatim>\<open>setup_academic_plot_style\<close> and \<^verbatim>\<open>savefig_academic\<close> of \<^verbatim>\<open>utils.py\<close>, which only set options of matplotlib and write image files. The
  regression of numpy and \<^verbatim>\<open>datetime.fromisoformat\<close> are arguments of the definitions that use them.
\<close>

section \<open>Every experiment comes to an end\<close>

text \<open>C40. Whatever the nodes, the containers and the spawned processes answer, and however long each call takes, every experiment
  with a bounded watch returns or raises: none of its polling and waiting loops runs forever, provided the polling interval given
  on the command line is positive. (A call itself is assumed to come back: requests and processes have timeouts.)\<close>

theorem experiments_terminate:
  assumes "0 < interval"
  shows "total (lifecycle_main E) \<and> total (p2p_lifecycle_main E) \<and> total (recovery_flow_main E minutes interval) \<and>
    total (scenario_matrix_main E) \<and> total (injector_main E argv) \<and>
    total (byzantine_main E scenario all_scenarios attack_s recovery_s interval) \<and> total (combined_main E) \<and>
    total (censorship_main E) \<and> total (flood_main E interval_ms attack_s recovery_s interval sample_stats) \<and>
    total (double_signing_main E) \<and> total (withdrawal_main E from_csv) \<and>
    total (live_spot_check_main E hardware environment duration interval noise_on noise_off wan) \<and>
    total (absorb_main E edge val environment duration interval drive_timeout opt_noise_on opt_noise_off wan csv) \<and>
    total (absorb_sweep_main E exe edges vals envs sweep_duration wan health_timeout) \<and>
    total (churn_main E baseline_s settle_s noise_on noise_off cycles recovery_s interval) \<and>
    total (relay_main E baseline_s attack_s recovery_s interval) \<and>
    total (sybil_main E name baseline_s attack_s recovery_s interval sample_stats) \<and>
    total (combined_trace_main E wan_profile) \<and> total (sensor_mismatch_main E) \<and> total (overhead_scan_main E port last_n) \<and>
    total (load_main E toml warmup_s duration rate) \<and> total (reorg_main E depth reorg_depth settle_s)"
  using assms
  by (intro conjI lifecycle_main_total p2p_lifecycle_main_total recovery_flow_total scenario_matrix_total injector_main_total
      attack_mains_total censorship_main_total double_signing_main_total live_spot_check_total absorb_main_total sweep_total
      churn_main_total relay_main_total sybil_main_total combined_trace_total sensor_mismatch_total overhead_scan_total
      load_main_total reorg_main_total)

theorem experiments_terminate_witness:
  "\<exists>r w'. recovery_flow_main silent_env 30 5 start_world = Some (r, w')"
proof -
  have "total (recovery_flow_main silent_env 30 5)"
    using experiments_terminate [of 5 silent_env] by simp
  then show ?thesis unfolding total_def by (metis not_None_eq surj_pair)
qed

end
